(* ===== verification/Prelude.thy ===== *)
theory Prelude
  imports Main "HOL-Library.AList"
begin

text \<open>
  The vocabulary every component shares: the error monad of functions that
  return \<open>(T, error)\<close> in Go, loops with an early error return, SQL tables as
  lists of rows, and the counting lemmas the seat-conservation proofs use.
\<close>

named_theorems errE \<open>inversion of successful computations in the error monad\<close>
named_theorems tab \<open>SQL statements on tables as lists of rows\<close>

section \<open>Results that may be errors\<close>

text \<open>
  A Go function \<open>func(...) (T, error)\<close> becomes a function into \<open>'e + 'a\<close>.  The
  idiom \<open>x, err := f(); if err != nil { return err }\<close> is \<open>bindE\<close>; a guard
  \<open>if c { return err }\<close> is \<open>failIf\<close>; a \<open>for\<close> loop whose body may return an error is
  \<open>foldE\<close>.  A transaction function takes the database and returns the new one
  with its result: on an error the new state is dropped, which is what
  \<open>db.InTx\<close> (rollback) and a savepoint do.
\<close>

definition bindE :: "'e + 'a \<Rightarrow> ('a \<Rightarrow> 'e + 'b) \<Rightarrow> 'e + 'b" where
  "bindE m f = (case m of Inl e \<Rightarrow> Inl e | Inr x \<Rightarrow> f x)"

definition failIf :: "bool \<Rightarrow> 'e \<Rightarrow> 'e + unit" where
  "failIf c e = (if c then Inl e else Inr ())"

primrec foldE :: "('x \<Rightarrow> 's \<Rightarrow> 'e + 's) \<Rightarrow> 'x list \<Rightarrow> 's \<Rightarrow> 'e + 's" where
  "foldE f [] s = Inr s"
| "foldE f (x # xs) s = bindE (f x s) (foldE f xs)"

lemma bindE_simps [simp]:
  "bindE (Inl e) f = Inl e"
  "bindE (Inr x) f = f x"
  by (simp_all add: bindE_def)

lemma bindE_Inr_iff [errE]: "bindE m f = Inr y \<longleftrightarrow> (\<exists>x. m = Inr x \<and> f x = Inr y)"
  by (simp add: bindE_def split: sum.splits)

lemma bindE_InrE:
  assumes "bindE m f = Inr y"
  obtains x where "m = Inr x" and "f x = Inr y"
  using assms by (auto simp: bindE_Inr_iff)

lemma bindE_Inl_iff: "bindE m f = Inl e \<longleftrightarrow> m = Inl e \<or> (\<exists>x. m = Inr x \<and> f x = Inl e)"
  by (simp add: bindE_def split: sum.splits)

lemma bindE_cong [fundef_cong]:
  "m = m' \<Longrightarrow> (\<And>x. m' = Inr x \<Longrightarrow> f x = f' x) \<Longrightarrow> bindE m f = bindE m' f'"
  by (simp add: bindE_def split: sum.splits)

lemma failIf_Inr_iff [simp]: "failIf c e = Inr u \<longleftrightarrow> \<not> c"
  by (simp add: failIf_def)

lemma failIf_Inl_iff [simp]: "failIf c e = Inl e' \<longleftrightarrow> c \<and> e' = e"
  by (auto simp: failIf_def)

lemma failIf_simps [simp]:
  "failIf True e = Inl e"
  "failIf False e = Inr ()"
  by (simp_all add: failIf_def)

text \<open>Invariant of a loop: kept by every iteration, hence by the loop.\<close>

lemma foldE_inv:
  assumes "foldE f xs s = Inr s'" and "P s"
    and "\<And>x s s'. x \<in> set xs \<Longrightarrow> P s \<Longrightarrow> f x s = Inr s' \<Longrightarrow> P s'"
  shows "P s'"
  using assms
proof (induction xs arbitrary: s)
  case Nil
  then show ?case by simp
next
  case (Cons x xs)
  from Cons.prems(1) obtain t where t: "f x s = Inr t" "foldE f xs t = Inr s'"
    by (auto simp: bindE_Inr_iff)
  have "P t" using Cons.prems(2,3) t(1) by auto
  with t(2) show ?case
    by (rule Cons.IH) (auto intro: Cons.prems(3))
qed

lemma foldE_append: "foldE f (xs @ ys) s = bindE (foldE f xs s) (foldE f ys)"
proof (induction xs arbitrary: s)
  case Nil
  then show ?case by simp
next
  case (Cons x xs)
  then show ?case by (cases "f x s") simp_all
qed

section \<open>Tables\<close>

text \<open>
  A table is the list of its rows in insertion order.  \<open>UPDATE t SET f WHERE P\<close>
  maps \<open>f\<close> over the rows that satisfy \<open>P\<close>; its row count (sqlc's
  \<open>:execrows\<close>) is the number of such rows; \<open>SELECT ... LIMIT 1\<close> is \<open>List.find\<close>.
\<close>

definition update_where :: "('r \<Rightarrow> bool) \<Rightarrow> ('r \<Rightarrow> 'r) \<Rightarrow> 'r list \<Rightarrow> 'r list" where
  "update_where P f t = map (\<lambda>r. if P r then f r else r) t"

definition rows_where :: "('r \<Rightarrow> bool) \<Rightarrow> 'r list \<Rightarrow> nat" where
  "rows_where P t = length (filter P t)"

definition next_id :: "('r \<Rightarrow> int) \<Rightarrow> 'r list \<Rightarrow> int" where
  "next_id key t = 1 + fold (\<lambda>r m. max (key r) m) t 0"

lemma update_where_simps [simp]:
  "update_where P f [] = []"
  "update_where P f (r # t) = (if P r then f r else r) # update_where P f t"
  by (simp_all add: update_where_def)

lemma update_where_append: "update_where P f (xs @ ys) = update_where P f xs @ update_where P f ys"
  by (simp add: update_where_def)

lemma length_update_where [simp]: "length (update_where P f t) = length t"
  by (simp add: update_where_def)

lemma rows_where_simps [simp]:
  "rows_where P [] = 0"
  "rows_where P (r # t) = (if P r then Suc (rows_where P t) else rows_where P t)"
  by (simp_all add: rows_where_def)

lemma rows_where_append [simp]: "rows_where P (t @ t') = rows_where P t + rows_where P t'"
  by (simp add: rows_where_def)

lemma rows_where_0_iff [simp]: "rows_where P t = 0 \<longleftrightarrow> (\<forall>r\<in>set t. \<not> P r)"
  by (induction t) auto

lemma rows_where_cong:
  "(\<And>r. r \<in> set t \<Longrightarrow> P r = Q r) \<Longrightarrow> rows_where P t = rows_where Q t"
  by (induction t) auto

lemma update_where_none:
  "(\<And>r. r \<in> set t \<Longrightarrow> \<not> P r) \<Longrightarrow> update_where P f t = t"
  by (induction t) auto

lemma set_update_where:
  "set (update_where P f t) = (\<lambda>r. if P r then f r else r) ` set t"
  by (simp add: update_where_def)

lemma map_update_where:
  "(\<And>r. r \<in> set t \<Longrightarrow> P r \<Longrightarrow> g (f r) = g r) \<Longrightarrow> map g (update_where P f t) = map g t"
  by (induction t) auto

lemma rows_where_update_where:
  "rows_where Q (update_where P f t) = rows_where (\<lambda>r. Q (if P r then f r else r)) t"
  by (induction t) auto

text \<open>Counting rows whose predicate splits into two disjoint ones.\<close>

lemma rows_where_split:
  "rows_where P t = rows_where (\<lambda>r. P r \<and> Q r) t + rows_where (\<lambda>r. P r \<and> \<not> Q r) t"
  by (induction t) auto

lemma rows_where_mono:
  "(\<And>r. r \<in> set t \<Longrightarrow> P r \<Longrightarrow> Q r) \<Longrightarrow> rows_where P t \<le> rows_where Q t"
  by (induction t) auto

lemma fold_max_ge:
  fixes m :: int
  shows "m \<le> fold (\<lambda>r m. max (key r) m) t m"
proof (induction t arbitrary: m)
  case Nil
  then show ?case by simp
next
  case (Cons r t)
  have "m \<le> max (key r) m" by simp
  also have "\<dots> \<le> fold (\<lambda>r m. max (key r) m) t (max (key r) m)" by (rule Cons.IH)
  finally show ?case by simp
qed

lemma fold_max_member:
  fixes m :: int
  assumes "r \<in> set t"
  shows "key r \<le> fold (\<lambda>r m. max (key r) m) t m"
  using assms
proof (induction t arbitrary: m)
  case Nil
  then show ?case by simp
next
  case (Cons x t)
  show ?case
  proof (cases "r = x")
    case True
    have "key x \<le> max (key x) m" by simp
    also have "\<dots> \<le> fold (\<lambda>r m. max (key r) m) t (max (key x) m)" by (rule fold_max_ge)
    finally show ?thesis using True by simp
  next
    case False
    with Cons show ?thesis by simp
  qed
qed

lemma next_id_gt: "r \<in> set t \<Longrightarrow> key r < next_id key t"
  using fold_max_member [of r t key 0] by (simp add: next_id_def)

lemma next_id_pos: "0 < next_id key t"
  using fold_max_ge [of 0 key t] by (simp add: next_id_def)

lemma next_id_fresh: "next_id key t \<notin> key ` set t"
proof
  assume "next_id key t \<in> key ` set t"
  then obtain r where "r \<in> set t" "next_id key t = key r" by auto
  with next_id_gt [of r t key] show False by simp
qed

section \<open>Rows with a key\<close>

lemma find_append:
  "List.find P (xs @ ys) = (case List.find P xs of None \<Rightarrow> List.find P ys | Some x \<Rightarrow> Some x)"
  by (induction xs) auto

lemma find_Some_key:
  "List.find P t = Some r \<Longrightarrow> r \<in> set t \<and> P r"
  by (auto simp: find_Some_iff)

lemma find_key_unique:
  assumes "distinct (map key t)" "r \<in> set t"
  shows "List.find (\<lambda>x. key x = key r) t = Some r"
  using assms by (induction t) (auto simp: rev_image_eqI)

lemma distinct_key_eq:
  "distinct (map key t) \<Longrightarrow> r \<in> set t \<Longrightarrow> r' \<in> set t \<Longrightarrow> key r = key r' \<Longrightarrow> r = r'"
  by (induction t) (auto simp: rev_image_eqI)

lemma rows_where_key_le_1:
  "distinct (map key t) \<Longrightarrow> rows_where (\<lambda>r. key r = k \<and> P r) t \<le> 1"
proof (induction t)
  case Nil
  then show ?case by simp
next
  case (Cons r t)
  show ?case
  proof (cases "key r = k \<and> P r")
    case True
    with Cons.prems have "\<forall>x\<in>set t. \<not> (key x = k \<and> P x)" by (auto simp: rev_image_eqI)
    then have "rows_where (\<lambda>r. key r = k \<and> P r) t = 0" by (subst rows_where_0_iff)
    with True show ?thesis by simp
  next
    case False
    with Cons show ?thesis by auto
  qed
qed

lemma rows_where_key_eq_1:
  assumes "distinct (map key t)" and "r \<in> set t" and "P r"
  shows "rows_where (\<lambda>x. key x = key r \<and> P x) t = 1"
proof -
  have "rows_where (\<lambda>x. key x = key r \<and> P x) t \<noteq> 0"
    using assms(2,3) by (simp only: rows_where_0_iff) blast
  with rows_where_key_le_1 [OF assms(1), of "key r" P] show ?thesis by linarith
qed

section \<open>Sums over lists\<close>

lemma sum_list_map_update_where:
  fixes g :: "'r \<Rightarrow> 'a::ab_group_add"
  assumes "\<And>r. r \<in> set t \<Longrightarrow> P r \<Longrightarrow> g (f r) = g r + d r"
  shows "sum_list (map g (update_where P f t))
           = sum_list (map g t) + sum_list (map d (filter P t))"
  using assms
proof (induction t)
  case Nil
  then show ?case by simp
next
  case (Cons r t)
  have IH: "sum_list (map g (update_where P f t))
      = sum_list (map g t) + sum_list (map d (filter P t))"
    using Cons.prems by (intro Cons.IH) auto
  show ?case
  proof (cases "P r")
    case True
    with Cons.prems have "g (f r) = g r + d r" by simp
    with True IH show ?thesis by (simp add: algebra_simps)
  next
    case False
    with IH show ?thesis by (simp add: algebra_simps)
  qed
qed

section \<open>Characterisations of searching\<close>

lemma find_None_all: "List.find P xs = None \<longleftrightarrow> (\<forall>x\<in>set xs. \<not> P x)"
  by (auto simp: find_None_iff)

lemma find_upto_least:
  fixes a b :: int
  assumes "List.find P [a..b] = Some n"
  shows "a \<le> n \<and> n \<le> b \<and> P n \<and> (\<forall>m. a \<le> m \<and> m < n \<longrightarrow> \<not> P m)"
proof -
  from assms obtain i where i: "i < length [a..b]" "P ([a..b] ! i)" "n = [a..b] ! i"
      "\<forall>j<i. \<not> P ([a..b] ! j)"
    by (auto simp: find_Some_iff)
  from i(1,3) have n: "n = a + int i" by (simp add: nth_upto)
  have "\<not> P m" if "a \<le> m" "m < n" for m
  proof -
    from that n have "nat (m - a) < i" by linarith
    with i(4) have "\<not> P ([a..b] ! nat (m - a))" by blast
    moreover have "[a..b] ! nat (m - a) = m"
      using that n i(1) by (subst nth_upto) auto
    ultimately show ?thesis by simp
  qed
  with i n show ?thesis by auto
qed

end
