(* ===== verification/GoLib.thy ===== *)
theory GoLib
  imports Prelude "HOL-Library.Signed_Division" "HOL-Library.Char_ord"
begin

text \<open>
  What the source uses of Go and its standard library: two's-complement
  integers, truncating division, \<open>strings\<close> and \<open>unicode\<close> on text,
  \<open>time.Time\<close> as nanoseconds since the Unix epoch with its civil date,
  \<open>slices.Sort\<close> / \<open>slices.Compact\<close> and \<open>strconv\<close>.
  A Go string is the list of its code points, taken from Latin-1 (a HOL
  \<open>char\<close>); \<open>utf8.RuneCountInString\<close> is the length of that list and
  \<open>len\<close> is \<open>byte_len\<close>.
\<close>

section \<open>Integers\<close>

text \<open>Arithmetic on \<open>int64\<close>, \<open>int32\<close> and \<open>int16\<close> wraps around.\<close>

definition wrap_int :: "nat \<Rightarrow> int \<Rightarrow> int" where
  "wrap_int n x = (x + 2 ^ (n - 1)) mod 2 ^ n - 2 ^ (n - 1)"

abbreviation int64 :: "int \<Rightarrow> int" where "int64 \<equiv> wrap_int 64"
abbreviation int32 :: "int \<Rightarrow> int" where "int32 \<equiv> wrap_int 32"
abbreviation int16 :: "int \<Rightarrow> int" where "int16 \<equiv> wrap_int 16"

lemma wrap_int_id:
  assumes "0 < n" and "- (2 ^ (n - 1)) \<le> x" and "x < 2 ^ (n - 1)"
  shows "wrap_int n x = x"
proof -
  from assms(1) have "(2::int) ^ n = 2 * 2 ^ (n - 1)"
    by (cases n) simp_all
  with assms have "(x + 2 ^ (n - 1)) mod 2 ^ n = x + 2 ^ (n - 1)" by simp
  then show ?thesis by (simp add: wrap_int_def)
qed

lemma int64_id: "- 9223372036854775808 \<le> x \<Longrightarrow> x < 9223372036854775808 \<Longrightarrow> int64 x = x"
  by (rule wrap_int_id) simp_all

lemma int32_id: "- 2147483648 \<le> x \<Longrightarrow> x < 2147483648 \<Longrightarrow> int32 x = x"
  by (rule wrap_int_id) simp_all

lemma int16_id: "- 32768 \<le> x \<Longrightarrow> x < 32768 \<Longrightarrow> int16 x = x"
  by (rule wrap_int_id) simp_all

text \<open>Go's \<open>/\<close> and \<open>%\<close> truncate towards zero; on natural operands they are \<open>div\<close> and \<open>mod\<close>.\<close>

lemma sdiv_nonneg: "0 \<le> (a::int) \<Longrightarrow> 0 < b \<Longrightarrow> a sdiv b = a div b"
  by (cases "a = 0") (simp_all add: signed_divide_int_def)

lemma smod_nonneg: "0 \<le> (a::int) \<Longrightarrow> 0 < b \<Longrightarrow> a smod b = a mod b"
  by (cases "a = 0") (simp_all add: signed_modulo_int_def)

section \<open>Text\<close>

definition code_of :: "char \<Rightarrow> nat" where
  "code_of c = of_char c"

text \<open>\<open>unicode.IsSpace\<close> on Latin-1: tab, LF, VT, FF, CR, space, U+0085, U+00A0.\<close>

definition is_space :: "char \<Rightarrow> bool" where
  "is_space c = (let n = code_of c in (9 \<le> n \<and> n \<le> 13) \<or> n = 32 \<or> n = 133 \<or> n = 160)"

definition is_upper :: "char \<Rightarrow> bool" where
  "is_upper c = (let n = code_of c in 65 \<le> n \<and> n \<le> 90)"

definition is_lower :: "char \<Rightarrow> bool" where
  "is_lower c = (let n = code_of c in 97 \<le> n \<and> n \<le> 122)"

definition is_digit :: "char \<Rightarrow> bool" where
  "is_digit c = (let n = code_of c in 48 \<le> n \<and> n \<le> 57)"

text \<open>
  \<open>unicode.ToUpper\<close> and \<open>ToLower\<close> on Latin-1; U+00B5 and U+00FF, whose upper
  case lies outside Latin-1, are left alone.
\<close>

definition to_upper_char :: "char \<Rightarrow> char" where
  "to_upper_char c = (let n = code_of c in
     if (97 \<le> n \<and> n \<le> 122) \<or> (224 \<le> n \<and> n \<le> 254 \<and> n \<noteq> 247) then char_of (n - 32) else c)"

definition to_lower_char :: "char \<Rightarrow> char" where
  "to_lower_char c = (let n = code_of c in
     if (65 \<le> n \<and> n \<le> 90) \<or> (192 \<le> n \<and> n \<le> 222 \<and> n \<noteq> 215) then char_of (n + 32) else c)"

abbreviation to_upper :: "string \<Rightarrow> string" where "to_upper \<equiv> map to_upper_char"
abbreviation to_lower :: "string \<Rightarrow> string" where "to_lower \<equiv> map to_lower_char"

definition trim_left :: "string \<Rightarrow> string" where
  "trim_left s = dropWhile is_space s"

definition trim_space :: "string \<Rightarrow> string" where
  "trim_space s = rev (dropWhile is_space (rev (dropWhile is_space s)))"

text \<open>\<open>len(s)\<close> counts UTF-8 bytes: code points from 128 on take two.\<close>

definition byte_len :: "string \<Rightarrow> nat" where
  "byte_len s = sum_list (map (\<lambda>c. if code_of c < 128 then 1 else 2) s)"

definition has_prefix :: "string \<Rightarrow> string \<Rightarrow> bool" where
  "has_prefix s p = (take (length p) s = p)"

text \<open>\<open>strings.Join\<close>.\<close>

fun join :: "string \<Rightarrow> string list \<Rightarrow> string" where
  "join sep [] = []"
| "join sep [x] = x"
| "join sep (x # y # xs) = x @ sep @ join sep (y # xs)"

lemma trim_space_Nil [simp]: "trim_space [] = []"
  by (simp add: trim_space_def)

lemma dropWhile_idem [simp]: "dropWhile P (dropWhile P xs) = dropWhile P xs"
  by (induction xs) auto

lemma dropWhile_rev_dropWhile:
  "dropWhile P (rev (dropWhile P (rev (dropWhile P xs)))) = rev (dropWhile P (rev (dropWhile P xs)))"
proof (cases "dropWhile P xs")
  case Nil
  then show ?thesis by (simp only: rev.simps dropWhile.simps)
next
  case (Cons y ys)
  then have "\<not> P y" by (metis hd_dropWhile list.distinct(1) list.sel(1))
  moreover have "dropWhile P (rev ys @ [y]) = dropWhile P (rev ys) @ [y]"
    using \<open>\<not> P y\<close> by (cases "\<exists>z\<in>set (rev ys). \<not> P z") (auto simp: dropWhile_append)
  ultimately show ?thesis by (simp add: Cons)
qed

lemma trim_space_idem [simp]: "trim_space (trim_space s) = trim_space s"
  by (simp add: trim_space_def dropWhile_rev_dropWhile)

lemma set_trim_space: "set (trim_space s) \<subseteq> set s"
  unfolding trim_space_def by (metis set_dropWhileD set_rev subsetI)

section \<open>Decimal numbers\<close>

text \<open>Decimal digits of a number that is not negative.\<close>

function digits :: "int \<Rightarrow> string" where
  "digits n = (if n < 10 then [char_of (48 + n)]
               else digits (n div 10) @ [char_of (48 + n mod 10)])"
  by pat_completeness auto
termination
  by (relation "measure nat") auto

declare digits.simps [simp del]

text \<open>\<open>strconv.FormatInt(n, 10)\<close> and \<open>%d\<close>.\<close>

definition int_str :: "int \<Rightarrow> string" where
  "int_str n = (if n < 0 then CHR ''-'' # digits (- n) else digits n)"

text \<open>\<open>%0*d\<close>: padded with zeros to \<open>w\<close> characters.\<close>

definition pad_zero :: "nat \<Rightarrow> string \<Rightarrow> string" where
  "pad_zero w s = replicate (w - length s) (CHR ''0'') @ s"

fun digits_val :: "int \<Rightarrow> string \<Rightarrow> int" where
  "digits_val a [] = a"
| "digits_val a (c # cs) = digits_val (10 * a + (of_char c - 48)) cs"

lemma digits_val_append: "digits_val a (s @ t) = digits_val (digits_val a s) t"
  by (induction a s rule: digits_val.induct) simp_all

lemma of_char_digit: "0 \<le> d \<Longrightarrow> d < 10 \<Longrightarrow> (of_char (char_of (48 + d :: int) :: char) :: int) = 48 + d"
  by (simp add: of_char_of)

lemma code_of_digit: "0 \<le> d \<Longrightarrow> d < 10 \<Longrightarrow> code_of (char_of (48 + d :: int)) = nat (48 + d)"
proof -
  assume d: "0 \<le> d" "d < 10"
  have "int (of_char (char_of (48 + d) :: char)) = (of_char (char_of (48 + d) :: char) :: int)"
    by (rule of_nat_of_char)
  with of_char_digit [OF d] show ?thesis by (simp add: code_of_def)
qed

lemma digits_val_digits: "0 \<le> n \<Longrightarrow> digits_val 0 (digits n) = n"
proof (induction n rule: digits.induct)
  case (1 n)
  show ?case
  proof (cases "n < 10")
    case True
    with "1.prems" show ?thesis by (simp add: digits.simps [of n] of_char_digit)
  next
    case False
    with 1 have "digits_val 0 (digits (n div 10)) = n div 10" by simp
    with False show ?thesis
      by (simp add: digits.simps [of n] digits_val_append of_char_digit)
  qed
qed

lemma digits_inj: "0 \<le> m \<Longrightarrow> 0 \<le> n \<Longrightarrow> digits m = digits n \<longleftrightarrow> m = n"
  by (metis digits_val_digits)

lemma digits_digits: "0 \<le> n \<Longrightarrow> c \<in> set (digits n) \<Longrightarrow> is_digit c"
proof (induction n rule: digits.induct)
  case (1 n)
  show ?case
  proof (cases "n < 10")
    case True
    with "1.prems" show ?thesis
      by (simp add: digits.simps [of n] is_digit_def code_of_digit Let_def) linarith
  next
    case False
    with "1.prems" have "c \<in> set (digits (n div 10)) \<or> c = char_of (48 + n mod 10)"
      by (auto simp: digits.simps [of n])
    with False 1 show ?thesis
      by (auto simp: is_digit_def code_of_digit Let_def)
  qed
qed

lemma digits_no_char: "0 \<le> n \<Longrightarrow> \<not> is_digit c \<Longrightarrow> c \<notin> set (digits n)"
  using digits_digits by blast

lemma not_digit_minus [simp]: "\<not> is_digit (CHR ''-'')"
  by (simp add: is_digit_def code_of_def)

lemma not_digit_colon [simp]: "\<not> is_digit (CHR '':'')"
  by (simp add: is_digit_def code_of_def)

lemma int_str_chars: "c \<in> set (int_str n) \<Longrightarrow> is_digit c \<or> c = CHR ''-''"
  using digits_digits [of n c] digits_digits [of "- n" c]
  by (auto simp: int_str_def split: if_splits)

lemma int_str_inj: "int_str a = int_str b \<longleftrightarrow> a = b"
proof
  assume eq: "int_str a = int_str b"
  have no: "digits m \<noteq> CHR ''-'' # s" if "0 \<le> m" for m s
    using digits_no_char [OF that not_digit_minus] by (metis list.set_intros(1))
  have "(a < 0) = (b < 0)"
    using eq no [of a] no [of b] no [of a, symmetric] no [of b, symmetric]
    by (auto simp: int_str_def split: if_splits)
  with eq show "a = b" by (auto simp: int_str_def digits_inj split: if_splits)
qed simp

section \<open>Time\<close>

text \<open>
  A \<open>time.Time\<close> is an instant: nanoseconds since the Unix epoch.  A
  \<open>time.Duration\<close> is an \<open>int64\<close> of nanoseconds.  \<open>t.After(u)\<close> is \<open>u < t\<close>,
  \<open>t.Before(u)\<close> is \<open>t < u\<close>, \<open>t.Add(d)\<close> is \<open>t + d\<close>; \<open>UTC()\<close> keeps the instant.
\<close>

type_synonym gotime = int

definition second :: int where "second = 1000000000"
definition minute :: int where "minute = 60 * second"
definition hour :: int where "hour = 60 * minute"
definition day :: int where "day = 24 * hour"

lemmas time_units = second_def minute_def hour_def day_def

text \<open>\<open>time.Time{}\<close> is 1 January of year 1; \<open>IsZero\<close> tests for it.\<close>

definition zero_time :: gotime where
  "zero_time = - 62135596800 * 1000000000"

text \<open>Year, month and day of an instant in UTC (proleptic Gregorian calendar).\<close>

definition civil_date :: "gotime \<Rightarrow> int \<times> int \<times> int" where
  "civil_date t =
     (let z = t div 86400000000000 + 719468;
          era = z div 146097;
          doe = z mod 146097;
          yoe = (doe - doe div 1460 + doe div 36524 - doe div 146096) div 365;
          doy = doe - (365 * yoe + yoe div 4 - yoe div 100);
          mp = (5 * doy + 2) div 153;
          m = (if mp < 10 then mp + 3 else mp - 9)
      in (yoe + era * 400 + (if m \<le> 2 then 1 else 0), m, doy - (153 * mp + 2) div 5 + 1))"

text \<open>Midnight UTC of a calendar date.\<close>

definition date_time :: "int \<Rightarrow> int \<Rightarrow> int \<Rightarrow> gotime" where
  "date_time y m d =
     (let y' = (if m \<le> 2 then y - 1 else y);
          era = y' div 400;
          yoe = y' mod 400;
          doy = (153 * (if m > 2 then m - 3 else m + 9) + 2) div 5 + d - 1;
          doe = yoe * 365 + yoe div 4 - yoe div 100 + doy
      in (era * 146097 + doe - 719468) * 86400000000000)"

text \<open>The digits of percent escapes, shared by \<open>net/url\<close>'s \<open>PathEscape\<close> and \<open>QueryEscape\<close>.\<close>

definition hex_upper :: "nat \<Rightarrow> char" where
  "hex_upper n = ''0123456789ABCDEF'' ! n"

section \<open>Slices\<close>

text \<open>\<open>slices.Compact\<close> drops the later ones of equal neighbours.\<close>

fun compact :: "'a list \<Rightarrow> 'a list" where
  "compact [] = []"
| "compact [x] = [x]"
| "compact (x # y # xs) = (if x = y then compact (y # xs) else x # compact (y # xs))"

lemma set_compact [simp]: "set (compact xs) = set xs"
  by (induction xs rule: compact.induct) auto

lemma compact_Cons: "compact (x # xs) \<noteq> [] \<and> hd (compact (x # xs)) = x"
  by (induction xs arbitrary: x) auto

lemma sorted_distinct_compact:
  "sorted xs \<Longrightarrow> sorted (compact xs) \<and> distinct (compact xs)"
proof (induction xs rule: compact.induct)
  case (3 x y xs)
  then show ?case
    by (cases "x = y") (auto simp: order.antisym)
qed simp_all

text \<open>Optional pointers.\<close>

definition opt_string :: "string \<Rightarrow> string option" where
  "opt_string s = (if s = [] then None else Some s)"

definition deref_string :: "string option \<Rightarrow> string" where
  "deref_string p = (case p of None \<Rightarrow> [] | Some s \<Rightarrow> s)"

lemma deref_opt_string [simp]: "deref_string (opt_string s) = s"
  by (simp add: deref_string_def opt_string_def)

end
