(* ===== verification/Apperr.thy ===== *)
theory Apperr
  imports GoLib
begin

text \<open>
  \<open>internal/platform\<close>: business errors with a code, an HTTP status and field
  errors (\<open>apperr\<close>), their mapping from PostgreSQL constraint names, business
  numbers and the retry on unique-key collisions (\<open>idgen\<close>), languages
  (\<open>i18n\<close>), money (\<open>money\<close>).
\<close>

section \<open>Error codes\<close>

datatype err_code =
    CodeInternal | CodeBadRequest | CodeValidation | CodeUnauthenticated | CodeForbidden
  | CodeCSRF | CodeNotFound | CodeRateLimited | CodeInvalidCredentials | CodeAccountLocked
  | CodeEventNotFound | CodeEventSlugTaken | CodeEventCategoryCodeTaken
  | CodeEventAlreadyPublished | CodeEventNoCategory | CodeEventCategoryIncomplete
  | CodeFileTooLarge | CodeFileTypeNotAllowed | CodeRegistrationNotReady
  | CodePriceRuleLocked | CodeCouponCodeTaken | CodeTelegramAuthInvalid | CodeConsentInvalid
  | CodeCouponInvalid | CodeCouponExhausted | CodeCategorySoldOut | CodePriceTierSoldOut
  | CodeRegistrationClosed | CodeAlreadyRegistered | CodePaymentAccountUnavailable
  | CodeIdempotencyKeyReused | CodeOrderStateConflict | CodeOrderNotFound | CodeOrderExpired
  | CodeProofTxnRefUsed | CodeReceivedAmountTooLow | CodeOTPPhoneInvalid
  | CodeOTPPhoneNotOnTelegram | CodeOTPSendFailed | CodeOTPInvalid | CodeOTPExpired
  | CodeOTPAttemptsExceeded

fun code_str :: "err_code \<Rightarrow> string" where
  "code_str CodeInternal = ''INTERNAL''"
| "code_str CodeBadRequest = ''BAD_REQUEST''"
| "code_str CodeValidation = ''VALIDATION_FAILED''"
| "code_str CodeUnauthenticated = ''UNAUTHENTICATED''"
| "code_str CodeForbidden = ''FORBIDDEN''"
| "code_str CodeCSRF = ''CSRF_HEADER_MISSING''"
| "code_str CodeNotFound = ''NOT_FOUND''"
| "code_str CodeRateLimited = ''RATE_LIMITED''"
| "code_str CodeInvalidCredentials = ''INVALID_CREDENTIALS''"
| "code_str CodeAccountLocked = ''ACCOUNT_LOCKED''"
| "code_str CodeEventNotFound = ''EVENT_NOT_FOUND''"
| "code_str CodeEventSlugTaken = ''EVENT_SLUG_TAKEN''"
| "code_str CodeEventCategoryCodeTaken = ''EVENT_CATEGORY_CODE_TAKEN''"
| "code_str CodeEventAlreadyPublished = ''EVENT_ALREADY_PUBLISHED''"
| "code_str CodeEventNoCategory = ''EVENT_NO_CATEGORY''"
| "code_str CodeEventCategoryIncomplete = ''EVENT_CATEGORY_INCOMPLETE''"
| "code_str CodeFileTooLarge = ''FILE_TOO_LARGE''"
| "code_str CodeFileTypeNotAllowed = ''FILE_TYPE_NOT_ALLOWED''"
| "code_str CodeRegistrationNotReady = ''REGISTRATION_NOT_READY''"
| "code_str CodePriceRuleLocked = ''PRICE_RULE_LOCKED''"
| "code_str CodeCouponCodeTaken = ''COUPON_CODE_TAKEN''"
| "code_str CodeTelegramAuthInvalid = ''TELEGRAM_AUTH_INVALID''"
| "code_str CodeConsentInvalid = ''CONSENT_INVALID''"
| "code_str CodeCouponInvalid = ''COUPON_INVALID''"
| "code_str CodeCouponExhausted = ''COUPON_EXHAUSTED''"
| "code_str CodeCategorySoldOut = ''CATEGORY_SOLD_OUT''"
| "code_str CodePriceTierSoldOut = ''PRICE_TIER_SOLD_OUT''"
| "code_str CodeRegistrationClosed = ''REGISTRATION_CLOSED''"
| "code_str CodeAlreadyRegistered = ''ALREADY_REGISTERED''"
| "code_str CodePaymentAccountUnavailable = ''PAYMENT_ACCOUNT_UNAVAILABLE''"
| "code_str CodeIdempotencyKeyReused = ''IDEMPOTENCY_KEY_REUSED''"
| "code_str CodeOrderStateConflict = ''ORDER_STATE_CONFLICT''"
| "code_str CodeOrderNotFound = ''ORDER_NOT_FOUND''"
| "code_str CodeOrderExpired = ''ORDER_EXPIRED''"
| "code_str CodeProofTxnRefUsed = ''PROOF_TXN_REF_USED''"
| "code_str CodeReceivedAmountTooLow = ''RECEIVED_AMOUNT_TOO_LOW''"
| "code_str CodeOTPPhoneInvalid = ''OTP_PHONE_INVALID''"
| "code_str CodeOTPPhoneNotOnTelegram = ''OTP_PHONE_NOT_ON_TELEGRAM''"
| "code_str CodeOTPSendFailed = ''OTP_SEND_FAILED''"
| "code_str CodeOTPInvalid = ''OTP_INVALID''"
| "code_str CodeOTPExpired = ''OTP_EXPIRED''"
| "code_str CodeOTPAttemptsExceeded = ''OTP_ATTEMPTS_EXCEEDED''"

section \<open>Errors\<close>

text \<open>
  Message parameters (\<open>map[string]any\<close>) hold numbers, text and lists of text.
  \<open>Err\<close>, the wrapped cause that only the log shows, is not kept.
\<close>

datatype param = PInt int | PStr string | PList "string list"

type_synonym params = "(string \<times> param) list"

record field_error =
  fe_key :: string
  fe_params :: params

record apperr =
  ae_code :: err_code
  ae_status :: int
  ae_fields :: "(string \<times> field_error) list"
  ae_params :: params

text \<open>\<open>apperr.New\<close>.\<close>

definition new_err :: "int \<Rightarrow> err_code \<Rightarrow> apperr" where
  "new_err st c = \<lparr>ae_code = c, ae_status = st, ae_fields = [], ae_params = []\<rparr>"

definition with_field :: "string \<Rightarrow> string \<Rightarrow> params \<Rightarrow> apperr \<Rightarrow> apperr" where
  "with_field f k ps e = e\<lparr>ae_fields := AList.update f \<lparr>fe_key = k, fe_params = ps\<rparr> (ae_fields e)\<rparr>"

definition with_params :: "params \<Rightarrow> apperr \<Rightarrow> apperr" where
  "with_params ps e = e\<lparr>ae_params := ps\<rparr>"

lemma with_field_simps [simp]:
  "ae_code (with_field f k ps e) = ae_code e"
  "ae_status (with_field f k ps e) = ae_status e"
  "ae_params (with_field f k ps e) = ae_params e"
  "map_of (ae_fields (with_field f k ps e))
     = (map_of (ae_fields e))(f \<mapsto> \<lparr>fe_key = k, fe_params = ps\<rparr>)"
  by (simp_all add: with_field_def update_conv')

lemma with_field_ne [simp]: "ae_fields (with_field f k ps e) \<noteq> []"
  by (cases "ae_fields e") (auto simp: with_field_def)

lemma new_err_simps [simp]:
  "ae_code (new_err st c) = c"
  "ae_status (new_err st c) = st"
  "ae_fields (new_err st c) = []"
  "ae_params (new_err st c) = []"
  by (simp_all add: new_err_def)

abbreviation validation_error :: apperr where
  "validation_error \<equiv> new_err 422 CodeValidation"

text \<open>
  A Go \<open>error\<close> is a business error, a PostgreSQL error with its SQLSTATE and
  constraint name, or anything else (rendered as 500 \<open>INTERNAL\<close>).  Wrapping
  with \<open>%w\<close> keeps what \<open>errors.As\<close> finds, so it is not a change here.
\<close>

datatype goerr =
    AppErr apperr
  | PgErr (pg_code: string) (pg_constraint: string)
  | OtherErr string

type_synonym 'a res = "goerr + 'a"

definition app :: "int \<Rightarrow> err_code \<Rightarrow> goerr" where
  "app st c = AppErr (new_err st c)"

fun as_app :: "goerr \<Rightarrow> apperr option" where
  "as_app (AppErr e) = Some e"
| "as_app _ = None"

section \<open>Field collectors\<close>

text \<open>
  The validation functions collect field errors through a local \<open>add\<close> and
  return \<open>verr\<close> when one was added.  A check is the list of the errors it adds;
  \<open>collect\<close> adds them in order, so a later error on a field replaces an earlier one.
\<close>

type_synonym field_item = "string \<times> string \<times> params"

definition item :: "bool \<Rightarrow> string \<Rightarrow> string \<Rightarrow> params \<Rightarrow> field_item list" where
  "item c f k ps = (if c then [(f, k, ps)] else [])"

definition add_items :: "field_item list \<Rightarrow> apperr \<Rightarrow> apperr" where
  "add_items is e = fold (\<lambda>(f, k, ps). with_field f k ps) is e"

definition collect :: "field_item list \<Rightarrow> unit res" where
  "collect is = (if is = [] then Inr () else Inl (AppErr (add_items is validation_error)))"

lemma item_empty_iff [simp]: "item c f k ps = [] \<longleftrightarrow> \<not> c"
  by (simp add: item_def)

lemma collect_Inr_iff [simp]: "collect is = Inr u \<longleftrightarrow> is = []"
  by (simp add: collect_def)

lemma add_items_simps [simp]:
  "add_items [] e = e"
  "add_items ((f, k, ps) # is) e = add_items is (with_field f k ps e)"
  by (simp_all add: add_items_def)

lemma add_items_code [simp]:
  "ae_code (add_items is e) = ae_code e" "ae_status (add_items is e) = ae_status e"
  by (induction "is" arbitrary: e) auto

lemma dom_add_items:
  "dom (map_of (ae_fields (add_items is e))) = fst ` set is \<union> dom (map_of (ae_fields e))"
proof (induction "is" arbitrary: e)
  case Nil
  then show ?case by simp
next
  case (Cons i "is")
  obtain f k ps where i: "i = (f, k, ps)" by (cases i) auto
  show ?case by (simp add: i Cons.IH) auto
qed

section \<open>Constraint names\<close>

text \<open>The builders the modules register in \<open>init()\<close>.\<close>

definition event_constraints :: "(string \<times> apperr) list" where
  "event_constraints =
    [(''events_slug_key'',
        with_field ''slug'' (code_str CodeEventSlugTaken) [] (new_err 409 CodeEventSlugTaken)),
     (''event_categories_event_id_code_key'', new_err 409 CodeEventCategoryCodeTaken)]"

definition coupon_constraints :: "(string \<times> apperr) list" where
  "coupon_constraints =
    [(''coupons_code_key'',
        with_field ''code'' (code_str CodeCouponCodeTaken) [] (new_err 409 CodeCouponCodeTaken))]"

definition proof_constraints :: "(string \<times> apperr) list" where
  "proof_constraints =
    [(''payment_proofs_txn_ref_uniq'',
        with_field ''bankTxnRef'' (code_str CodeProofTxnRefUsed) [] (new_err 409 CodeProofTxnRefUsed))]"

definition receipt_constraints :: "(string \<times> apperr) list" where
  "receipt_constraints =
    [(''payment_receipts_payment_account_id_txn_ref_key'', new_err 409 CodeProofTxnRefUsed)]"

definition free_constraints :: "(string \<times> apperr) list" where
  "free_constraints =
    [(''free_signups_one_active'',
        with_field ''fullName'' ''field.already_registered'' [] (new_err 409 CodeAlreadyRegistered))]"

definition consent_constraints :: "(string \<times> apperr) list" where
  "consent_constraints =
    [(''disclaimer_versions_pkey'', with_field ''version'' ''field.invalid'' [] validation_error)]"

definition staff_constraints :: "(string \<times> apperr) list" where
  "staff_constraints =
    [(''staff_username_key'', with_field ''username'' ''field.invalid'' [] validation_error)]"

definition constraints :: "(string \<times> apperr) list" where
  "constraints = event_constraints @ coupon_constraints @ proof_constraints
     @ receipt_constraints @ free_constraints @ consent_constraints @ staff_constraints"

text \<open>\<open>apperr.FromPG\<close>.\<close>

fun from_pg :: "goerr \<Rightarrow> goerr" where
  "from_pg (PgErr c n) =
     (if n = [] then PgErr c n
      else case map_of constraints n of None \<Rightarrow> PgErr c n | Some e \<Rightarrow> AppErr e)"
| "from_pg e = e"

definition map_err :: "('e \<Rightarrow> 'e) \<Rightarrow> 'e + 'a \<Rightarrow> 'e + 'a" where
  "map_err f m = (case m of Inl e \<Rightarrow> Inl (f e) | Inr x \<Rightarrow> Inr x)"

lemma map_err_Inr: "map_err f m = Inr x \<longleftrightarrow> m = Inr x"
  by (cases m) (simp_all add: map_err_def)

text \<open>Reading a successful run backwards: every call of the chain succeeded.\<close>

lemmas Inr_chain = Let_def case_prod_unfold bindE_Inr_iff split_paired_Ex prod.case map_err_Inr failIf_Inr_iff

lemma map_err_Inr_iff [simp]: "map_err f m = Inr x \<longleftrightarrow> m = Inr x"
  by (simp add: map_err_def split: sum.splits)

lemma map_err_simps [simp]: "map_err f (Inl e) = Inl (f e)" "map_err f (Inr x) = Inr x"
  by (simp_all add: map_err_def)

section \<open>Business numbers\<close>

definition crockford :: string where
  "crockford = ''0123456789ABCDEFGHJKMNPQRSTVWXYZ''"

text \<open>Base32 of whole groups of five bytes: eight characters each, no padding.\<close>

definition group_val :: "int \<Rightarrow> int \<Rightarrow> int \<Rightarrow> int \<Rightarrow> int \<Rightarrow> int" where
  "group_val a b c d e = (((a * 256 + b) * 256 + c) * 256 + d) * 256 + e"

fun base32 :: "int list \<Rightarrow> string" where
  "base32 (a # b # c # d # e # bs) =
     (let n = group_val a b c d e
      in map (\<lambda>i. crockford ! nat (n div 32 ^ i mod 32)) [7, 6, 5, 4, 3, 2, 1, 0 :: nat]) @ base32 bs"
| "base32 _ = []"

text \<open>\<open>idgen.Code\<close> and \<open>idgen.TicketCode\<close>, on the bytes drawn from \<open>crypto/rand\<close>.\<close>

definition idgen_code :: "string \<Rightarrow> int list \<Rightarrow> string" where
  "idgen_code prefix bs = prefix @ base32 (take 5 bs)"

definition ticket_code :: "int list \<Rightarrow> string" where
  "ticket_code bs = base32 (take 20 bs)"

definition prefix_order :: string where "prefix_order = ''WR''"
definition prefix_proof :: string where "prefix_proof = ''PF''"
definition prefix_registration :: string where "prefix_registration = ''RG''"
definition prefix_free_signup :: string where "prefix_free_signup = ''FS''"
definition prefix_exception :: string where "prefix_exception = ''EX''"

definition max_attempts :: nat where "max_attempts = 3"

fun is_unique_violation :: "goerr \<Rightarrow> string \<Rightarrow> bool" where
  "is_unique_violation (PgErr c n) k = (c = ''23505'' \<and> n = k)"
| "is_unique_violation _ _ = False"

text \<open>
  \<open>idgen.Retry\<close>: \<open>fn i\<close> is the \<open>i\<close>-th call.  The insert runs in a savepoint, so
  every attempt starts from the same state.
\<close>

fun retry_loop :: "nat \<Rightarrow> nat \<Rightarrow> goerr \<Rightarrow> string \<Rightarrow> (nat \<Rightarrow> 'a res) \<Rightarrow> 'a res" where
  "retry_loop 0 i err k fn = Inl err"
| "retry_loop (Suc n) i err k fn =
     (case fn i of
        Inr x \<Rightarrow> Inr x
      | Inl e \<Rightarrow> if is_unique_violation e k then retry_loop n (Suc i) e k fn else Inl e)"

definition retry :: "string \<Rightarrow> (nat \<Rightarrow> 'a res) \<Rightarrow> 'a res" where
  "retry k fn = retry_loop max_attempts 0 (OtherErr []) k fn"

lemma retry_loop_Inr:
  "retry_loop n i err k fn = Inr x \<Longrightarrow> \<exists>j. i \<le> j \<and> j < i + n \<and> fn j = Inr x"
proof (induction n arbitrary: i err)
  case 0
  then show ?case by simp
next
  case (Suc n)
  show ?case
  proof (cases "fn i")
    case (Inl e)
    with Suc.prems have "retry_loop n (Suc i) e k fn = Inr x" by (simp split: if_splits)
    from Suc.IH [OF this] show ?thesis by (metis Suc_leD add_Suc_shift)
  next
    case (Inr y)
    with Suc.prems show ?thesis by auto
  qed
qed

lemma retry_Inr: "retry k fn = Inr x \<Longrightarrow> \<exists>j<max_attempts. fn j = Inr x"
  using retry_loop_Inr [of max_attempts 0] by (fastforce simp: retry_def)

text \<open>Retrying gives up only on a third collision; any other result is passed on.\<close>

lemma retry_loop_first:
  assumes "\<And>j. i \<le> j \<Longrightarrow> j < m \<Longrightarrow> \<exists>e. fn j = Inl e \<and> is_unique_violation e k"
    and "i \<le> m" and "m < i + n"
    and "\<And>e. fn m = Inl e \<Longrightarrow> \<not> is_unique_violation e k"
  shows "retry_loop n i err k fn = fn m"
  using assms(1,2,3)
proof (induction n arbitrary: i err)
  case 0
  then show ?case by simp
next
  case (Suc n)
  show ?case
  proof (cases "i = m")
    case True
    with assms(4) show ?thesis by (auto split: sum.splits)
  next
    case False
    with Suc.prems(2) have "i < m" by simp
    with Suc.prems(1) obtain e where e: "fn i = Inl e" "is_unique_violation e k" by blast
    have "retry_loop n (Suc i) e k fn = fn m"
      using Suc.prems \<open>i < m\<close> by (intro Suc.IH) auto
    with e show ?thesis by simp
  qed
qed

section \<open>Languages\<close>

datatype lang = ZH | EN | KM

type_synonym i18n_text = "(lang \<times> string) list"

definition required_langs :: "lang list" where "required_langs = [ZH, EN, KM]"
definition default_lang :: lang where "default_lang = KM"

fun lang_str :: "lang \<Rightarrow> string" where
  "lang_str ZH = ''zh''" | "lang_str EN = ''en''" | "lang_str KM = ''km''"

text \<open>Indexing a \<open>map[Lang]string\<close>: a missing key gives the empty string.\<close>

definition text_get :: "i18n_text \<Rightarrow> lang \<Rightarrow> string" where
  "text_get t l = (case map_of t l of None \<Rightarrow> [] | Some s \<Rightarrow> s)"

text \<open>\<open>i18n.Parse\<close>.\<close>

definition parse_lang :: "string \<Rightarrow> lang option" where
  "parse_lang s =
     (let t = takeWhile (\<lambda>c. c \<noteq> CHR ''-'' \<and> c \<noteq> CHR ''_'') (to_lower (trim_space s))
      in if t = ''zh'' then Some ZH else if t = ''en'' then Some EN
         else if t = ''km'' then Some KM else None)"

text \<open>\<open>strings.Split(s, ",")\<close> and the part of a language tag before \<open>;\<close>.\<close>

fun split_on :: "char \<Rightarrow> string \<Rightarrow> string list" where
  "split_on d [] = [[]]"
| "split_on d (c # cs) =
     (if c = d then [] # split_on d cs
      else case split_on d cs of [] \<Rightarrow> [[c]] | p # ps \<Rightarrow> (c # p) # ps)"

lemma split_on_word: "d \<notin> set a \<Longrightarrow> split_on d a = [a]"
  by (induction a) auto

lemma split_on_append: "d \<notin> set a \<Longrightarrow> split_on d (a @ d # b) = a # split_on d b"
  by (induction a) (auto split: list.splits)

lemma split_on_not_Nil: "split_on d a \<noteq> []"
  by (cases a) (auto split: list.splits)

fun first_lang :: "string list \<Rightarrow> lang" where
  "first_lang [] = default_lang"
| "first_lang (p # ps) =
     (case parse_lang (takeWhile (\<lambda>c. c \<noteq> CHR '';'') p) of
        Some l \<Rightarrow> l | None \<Rightarrow> first_lang ps)"

definition from_request :: "string \<Rightarrow> string \<Rightarrow> lang" where
  "from_request query_lang accept =
     (case parse_lang query_lang of Some l \<Rightarrow> l | None \<Rightarrow> first_lang (split_on (CHR '','') accept))"

text \<open>\<open>Text.In\<close>: the language itself, then English, then Chinese.\<close>

definition text_in :: "i18n_text \<Rightarrow> lang \<Rightarrow> string" where
  "text_in t l = (case filter (\<lambda>v. v \<noteq> []) (map (text_get t) [l, EN, ZH]) of
                    [] \<Rightarrow> [] | v # _ \<Rightarrow> v)"

section \<open>Money\<close>

text \<open>
  \<open>money.Cents.String\<close>.  Negating the least \<open>int64\<close> overflows and leaves it
  negative; the digits are then those of \<open>v/100\<close> and \<open>v%100\<close> with their signs.
\<close>

definition cents_str :: "int \<Rightarrow> string" where
  "cents_str c =
     (let sign = (if c < 0 then ''-'' else []);
          v = (if c < 0 then int64 (- c) else c)
      in sign @ ''$'' @ int_str (v sdiv 100) @ ''.'' @ pad_zero 2 (int_str (v smod 100)))"

end
