(* ===== verification/Store.thy ===== *)
theory Store
  imports Apperr
begin

text \<open>
  The database the services share: one record per table row (the structs of
  \<open>store/models.go\<close>, less the columns nothing reads) and the record of all
  tables.  Text columns restricted by a CHECK to a few values the services
  only compare are datatypes; those compared with raw input stay text.  JSON
  columns hold the decoded value, since every service decodes what it encoded.
\<close>

section \<open>Column values\<close>

datatype order_status =
    PendingPayment | ProofSubmitted | ProofRejected | Paid
  | PartiallyRefunded | Refunded | Expired | Cancelled

datatype reservation_state = Reserved | Consumed | Released

datatype release_kind = ReleaseExpired | ReleaseCancelled

datatype registration_status = RegPending | RegConfirmed | RegCancelled

datatype proof_status = PfSubmitted | PfApproved | PfRejected | PfWithdrawn

datatype match_status = MatchApplied | MatchException | MatchUnmatched

datatype notify_status = NtPending | NtSent | NtFailed

fun status_str :: "order_status \<Rightarrow> string" where
  "status_str PendingPayment = ''PENDING_PAYMENT''"
| "status_str ProofSubmitted = ''PROOF_SUBMITTED''"
| "status_str ProofRejected = ''PROOF_REJECTED''"
| "status_str Paid = ''PAID''"
| "status_str PartiallyRefunded = ''PARTIALLY_REFUNDED''"
| "status_str Refunded = ''REFUNDED''"
| "status_str Expired = ''EXPIRED''"
| "status_str Cancelled = ''CANCELLED''"

section \<open>Rows\<close>

record event_row =
  ev_id :: int
  ev_slug :: string
  ev_type :: string
  ev_organizer :: string
  ev_name :: i18n_text
  ev_city :: string
  ev_race_date :: gotime
  ev_timezone :: string
  ev_status :: string
  ev_open :: bool
  ev_visible :: bool
  ev_opens_at :: "gotime option"
  ev_closes_at :: "gotime option"
  ev_published_at :: "gotime option"

record category_row =
  ec_id :: int
  ec_event :: int
  ec_code :: string
  ec_name :: i18n_text
  ec_distance :: int
  ec_capacity :: int
  ec_used :: int
  ec_reserved :: int
  ec_start_at :: "gotime option"
  ec_cutoff_at :: "gotime option"
  ec_min_age :: int
  ec_sort :: int

record price_rule_row =
  pr_id :: int
  pr_event :: int
  pr_name :: i18n_text
  pr_audience :: string
  pr_price :: int
  pr_quota :: "int option"
  pr_used :: int
  pr_reserved :: int
  pr_starts_at :: "gotime option"
  pr_ends_at :: "gotime option"
  pr_sort :: int

record link_row =
  cl_category :: int
  cl_rule :: int

record coupon_row =
  cp_id :: int
  cp_code :: string
  cp_event :: "int option"
  cp_type :: string
  cp_value :: int
  cp_quota :: int
  cp_used :: int
  cp_reserved :: int
  cp_min_runners :: "int option"
  cp_from :: "gotime option"
  cp_until :: "gotime option"
  cp_description :: "i18n_text option"
  cp_status :: string
  cp_created_at :: gotime

record redemption_row =
  cr_order :: int
  cr_coupon :: int
  cr_state :: reservation_state
  cr_discount :: int

record order_row =
  ro_id :: int
  ro_no :: string
  ro_event :: int
  ro_buyer :: "int option"
  ro_buyer_name :: string
  ro_buyer_phone :: string
  ro_buyer_email :: "string option"
  ro_status :: order_status
  ro_state :: reservation_state
  ro_release_kind :: "release_kind option"
  ro_list :: int
  ro_discount :: int
  ro_ident :: int
  ro_amount :: int
  ro_currency :: string
  ro_coupon :: "int option"
  ro_account :: "int option"
  ro_deadline :: "gotime option"
  ro_paid_at :: "gotime option"
  ro_expired_at :: "gotime option"
  ro_cancelled_at :: "gotime option"
  ro_version :: int
  ro_created_at :: gotime

record participant_row =
  op_id :: int
  op_order :: int
  op_category :: int
  op_rule :: int
  op_audience :: string
  op_list :: int
  op_paid :: int
  op_name :: string

record registration_row =
  rg_id :: int
  rg_no :: string
  rg_participant :: int
  rg_event :: int
  rg_category :: int
  rg_status :: registration_status
  rg_cancel_reason :: "release_kind option"
  rg_ticket :: string
  rg_user :: "int option"
  rg_name :: string
  rg_gender :: string
  rg_birth :: gotime
  rg_nationality :: string
  rg_id_type :: "string option"
  rg_id_enc :: string
  rg_id_hash :: string
  rg_phone :: "string option"
  rg_email :: "string option"
  rg_em_name :: "string option"
  rg_em_phone :: "string option"
  rg_tshirt :: "string option"
  rg_confirmed_at :: "gotime option"
  rg_version :: int

record free_signup_row =
  fs_id :: int
  fs_no :: string
  fs_event :: int
  fs_category :: int
  fs_user :: int
  fs_name :: string
  fs_phone :: string
  fs_gender :: "string option"
  fs_birth :: "gotime option"
  fs_em_name :: string
  fs_em_phone :: string
  fs_status :: string
  fs_created_at :: gotime

record account_row =
  pa_id :: int
  pa_name :: string
  pa_provider :: string
  pa_account_name :: string
  pa_no_masked :: string
  pa_currency :: string
  pa_qr_file :: int
  pa_scope :: string
  pa_event :: "int option"
  pa_active :: bool
  pa_created_at :: gotime

record proof_row =
  pf_id :: int
  pf_no :: string
  pf_order :: "int option"
  pf_account :: int
  pf_file :: int
  pf_user :: "int option"
  pf_declared :: int
  pf_txn_ref :: string
  pf_declared_at :: "gotime option"
  pf_payer :: "string option"
  pf_dup_file :: bool
  pf_status :: proof_status
  pf_reviewed_by :: "int option"
  pf_reviewed_at :: "gotime option"
  pf_reject_code :: "string option"
  pf_reject_reason :: "string option"
  pf_created_at :: gotime

record receipt_row =
  rc_id :: int
  rc_account :: int
  rc_txn_ref :: string
  rc_amount :: int
  rc_received_at :: gotime
  rc_proof :: "int option"
  rc_order :: "int option"
  rc_match :: match_status
  rc_recorded_by :: "int option"

record exception_row =
  ex_id :: int
  ex_no :: string
  ex_order :: "int option"
  ex_receipt :: int
  ex_amount :: int
  ex_note :: "string option"

record file_row =
  fl_id :: int
  fl_key :: string
  fl_visibility :: string
  fl_purpose :: string
  fl_mime :: string
  fl_size :: int
  fl_sha :: string
  fl_uploader_type :: string
  fl_uploader :: int

record log_row =
  nl_id :: int
  nl_recipient :: string
  nl_template :: string
  nl_locale :: lang
  nl_entity :: int
  nl_dedupe :: string
  nl_status :: notify_status
  nl_attempts :: int
  nl_last_error :: "string option"
  nl_sent_at :: "gotime option"

record job_row =
  jb_log :: int
  jb_chat :: int
  jb_text :: string
  jb_button_text :: string
  jb_button_url :: string
  jb_max_attempts :: int

record user_row =
  us_id :: int
  us_phone :: "string option"
  us_telegram :: "int option"
  us_username :: "string option"
  us_name :: "string option"
  us_locale :: string
  us_status :: string
  us_last_login :: "gotime option"

record profile_row =
  rp_id :: int
  rp_user :: int
  rp_name :: string
  rp_gender :: string
  rp_birth :: gotime
  rp_nationality :: string
  rp_id_type :: "string option"
  rp_id_enc :: string
  rp_id_hash :: string
  rp_phone :: "string option"
  rp_email :: "string option"
  rp_em_name :: "string option"
  rp_em_phone :: "string option"
  rp_tshirt :: "string option"
  rp_self :: bool

record consent_item =
  ci_key :: string
  ci_title :: string
  ci_desc :: string

record consent_row =
  cv_version :: string
  cv_lang :: string
  cv_effective :: gotime
  cv_text :: string
  cv_items :: "consent_item list"
  cv_sha :: string
  cv_purpose :: string

record signature_row =
  sg_id :: int
  sg_version :: string
  sg_lang :: string
  sg_sha :: string
  sg_user :: int
  sg_checked :: "string list"
  sg_signed_at :: gotime

record reg_consent_row =
  rx_signature :: int
  rx_order :: "int option"
  rx_free :: "int option"

text \<open>An audit row, less its summary text and JSON snapshots.\<close>

record audit_row =
  au_actor_type :: string
  au_actor :: "int option"
  au_role :: "string option"
  au_action :: string
  au_entity_type :: string
  au_entity :: int
  au_event :: "int option"
  au_financial :: bool

section \<open>The order as the API shows it\<close>

text \<open>
  \<open>apigen.OrderDetail\<close>, the body an idempotent replay returns; the fields
  \<open>orderDetailFromAPI\<close> restores.
\<close>

record api_participant =
  ap_reg_no :: string
  ap_category :: int
  ap_category_name :: i18n_text
  ap_full_name :: string
  ap_rule :: int
  ap_list :: int
  ap_paid :: int
  ap_status :: registration_status
  ap_ticket :: "string option"

record api_account =
  aa_id :: int
  aa_name :: string
  aa_provider :: string
  aa_account_name :: string
  aa_no_masked :: string
  aa_qr_file :: int

record rejection =
  rj_code :: string
  rj_reason :: "string option"
  rj_reviewed_at :: gotime

record api_order =
  ao_no :: string
  ao_status :: order_status
  ao_slug :: string
  ao_event_name :: i18n_text
  ao_timezone :: string
  ao_list :: int
  ao_discount :: int
  ao_ident :: int
  ao_amount :: int
  ao_currency :: string
  ao_deadline :: "gotime option"
  ao_paid_at :: "gotime option"
  ao_created_at :: gotime
  ao_participants :: "api_participant list"
  ao_account :: api_account
  ao_rejection :: "rejection option"

record idem_row =
  ik_key :: string
  ik_scope :: string
  ik_subject :: string
  ik_hash :: string
  ik_code :: "int option"
  ik_body :: "api_order option"
  ik_created_at :: gotime
  ik_expires_at :: gotime

section \<open>The database\<close>

text \<open>
  \<open>system_settings\<close> maps a key to its value cast to \<open>bigint\<close>; \<open>None\<close> is a
  value the cast rejects.
\<close>

record db =
  events :: "event_row list"
  categories :: "category_row list"
  price_rules :: "price_rule_row list"
  links :: "link_row list"
  coupons :: "coupon_row list"
  redemptions :: "redemption_row list"
  orders :: "order_row list"
  participants :: "participant_row list"
  registrations :: "registration_row list"
  free_signups :: "free_signup_row list"
  idem_keys :: "idem_row list"
  accounts :: "account_row list"
  proofs :: "proof_row list"
  receipts :: "receipt_row list"
  exceptions :: "exception_row list"
  files :: "file_row list"
  notify_logs :: "log_row list"
  jobs :: "job_row list"
  users :: "user_row list"
  profiles :: "profile_row list"
  consents :: "consent_row list"
  signatures :: "signature_row list"
  reg_consents :: "reg_consent_row list"
  audit_logs :: "audit_row list"
  settings :: "(string \<times> int option) list"

definition empty_db :: db where
  "empty_db = \<lparr>events = [], categories = [], price_rules = [], links = [], coupons = [],
     redemptions = [], orders = [], participants = [], registrations = [], free_signups = [],
     idem_keys = [], accounts = [], proofs = [], receipts = [], exceptions = [], files = [],
     notify_logs = [], jobs = [], users = [], profiles = [], consents = [], signatures = [],
     reg_consents = [], audit_logs = [], settings = []\<rparr>"

section \<open>What a request sees of its environment\<close>

text \<open>
  The clock of the service (\<open>s.now()\<close>), the wall clock (\<open>time.Now()\<close>) and the
  clock of the database (\<open>now()\<close>), the bytes
  \<open>crypto/rand\<close> returns at each call path, the keyed hash and the cipher of
  \<open>piicrypt\<close>, \<open>mail.ParseAddress\<close>, the message catalog, and the time-zone
  database (the offset of a zone at a time, \<open>None\<close> for an unknown zone); for uploads,
  \<open>http.DetectContentType\<close>, \<open>image.DecodeConfig\<close> (format, width and height),
  SHA-256, and the error a file operation meets in the operating system, if any;
  for the deadline job, the orders whose rows other transactions hold locked when its
  query runs, given how many orders the job has released so far.
\<close>

record env =
  e_now :: gotime
  e_wall_now :: gotime
  e_db_now :: gotime
  e_rand :: "nat list \<Rightarrow> int list"
  e_id_hash :: "string \<Rightarrow> string"
  e_encrypt :: "nat list \<Rightarrow> string \<Rightarrow> string"
  e_decrypt :: "string \<Rightarrow> string option"
  e_parse_address :: "string \<Rightarrow> string option"
  e_catalog :: "lang \<Rightarrow> string \<Rightarrow> string"
  e_app_url :: string
  e_zone :: "string \<Rightarrow> gotime \<Rightarrow> int option"
  e_detect :: "string \<Rightarrow> string"
  e_decode :: "string \<Rightarrow> (string \<times> int \<times> int) option"
  e_sha256 :: "string \<Rightarrow> string"
  e_io :: "string \<Rightarrow> string \<Rightarrow> goerr option"
  e_locked :: "nat \<Rightarrow> int list"

section \<open>Audit\<close>

text \<open>\<open>audit.Record\<close> inserts one row in the caller's transaction.\<close>

definition audit_record :: "audit_row \<Rightarrow> db \<Rightarrow> db" where
  "audit_record a s = s\<lparr>audit_logs := audit_logs s @ [a]\<rparr>"

definition staff_entry :: "int \<Rightarrow> string \<Rightarrow> string \<Rightarrow> string \<Rightarrow> int \<Rightarrow> int option \<Rightarrow> bool \<Rightarrow> audit_row" where
  "staff_entry actor role action etype eid ev fin =
     \<lparr>au_actor_type = ''STAFF'', au_actor = Some actor, au_role = Some role, au_action = action,
      au_entity_type = etype, au_entity = eid, au_event = ev, au_financial = fin\<rparr>"

definition runner_entry :: "int \<Rightarrow> string \<Rightarrow> int \<Rightarrow> int \<Rightarrow> audit_row" where
  "runner_entry uid action order_id event_id =
     \<lparr>au_actor_type = ''USER'', au_actor = Some uid, au_role = None, au_action = action,
      au_entity_type = ''reg_order'', au_entity = order_id, au_event = Some event_id,
      au_financial = True\<rparr>"

text \<open>The signed-in member of staff (\<open>iam.Staff\<close>, less the name).\<close>

record staff =
  st_id :: int
  st_role :: string

section \<open>Payment settings\<close>

record payment_settings =
  ps_upload :: int
  ps_reupload :: int
  ps_sla :: int
  ps_ident_max :: int

definition int_setting :: "db \<Rightarrow> string \<Rightarrow> int \<Rightarrow> int res" where
  "int_setting s k def =
     (case map_of (settings s) k of
        None \<Rightarrow> Inr def
      | Some None \<Rightarrow> Inl (OtherErr ''settings: read'')
      | Some (Some v) \<Rightarrow> Inr (if v \<le> 0 then def else v))"

definition ident_offset_hard_max :: int where "ident_offset_hard_max = 50"

definition load_payment :: "db \<Rightarrow> payment_settings res" where
  "load_payment s =
     bindE (int_setting s ''payment.upload_window_minutes'' 30) (\<lambda>upload.
     bindE (int_setting s ''payment.reupload_window_hours'' 24) (\<lambda>reupload.
     bindE (int_setting s ''payment.review_sla_hours'' 24) (\<lambda>sla.
     bindE (int_setting s ''payment.ident_offset_max_cents'' ident_offset_hard_max) (\<lambda>offset.
       Inr \<lparr>ps_upload = int64 (upload * minute), ps_reupload = int64 (reupload * hour),
            ps_sla = int64 (sla * hour), ps_ident_max = min offset ident_offset_hard_max\<rparr>))))"

lemma int_setting_pos: "int_setting s k d = Inr v \<Longrightarrow> 0 < d \<Longrightarrow> 0 < v"
  by (auto simp: int_setting_def split: option.splits if_splits)

lemma load_payment_ident_max:
  assumes "load_payment s = Inr p"
  shows "0 < ps_ident_max p \<and> ps_ident_max p \<le> 50"
proof -
  from assms obtain offset where "int_setting s ''payment.ident_offset_max_cents'' ident_offset_hard_max = Inr offset"
    and p: "ps_ident_max p = min offset ident_offset_hard_max"
    unfolding load_payment_def bindE_Inr_iff by auto
  from int_setting_pos [OF this(1)] p show ?thesis by (simp add: ident_offset_hard_max_def)
qed

end
