(* ===== verification/Pricing.thy ===== *)
theory Pricing
  imports Store "HOL-Library.Product_Lexorder" "HOL-Library.Multiset"
begin

text \<open>
  \<open>internal/pricing/quote.go\<close>: choosing a price tier, the age on race day, the
  coupon discount, its allocation to the participants, the identification
  offset, and the quote of a whole order.  Amounts are \<open>int64\<close> cents; the
  wrap-around of every product and sum is written out.
\<close>

section \<open>Choosing a price tier\<close>

text \<open>\<open>TierCandidate\<close>.\<close>

record tier =
  tc_rule :: int
  tc_audience :: string
  tc_price :: int
  tc_quota :: "int option"
  tc_used :: int
  tc_reserved :: int
  tc_starts :: "gotime option"
  tc_ends :: "gotime option"
  tc_sort :: int

text \<open>The \<open>continue\<close> tests of the loop in \<open>SelectTier\<close>, as one predicate.\<close>

definition tier_open :: "string \<Rightarrow> gotime \<Rightarrow> (int \<Rightarrow> int) \<Rightarrow> tier \<Rightarrow> bool" where
  "tier_open nationality now taken c \<longleftrightarrow>
     (if tc_audience c = ''ALL'' then True
      else if tc_audience c = ''LOCAL'' then nationality = ''KH''
      else False)
   \<and> (case tc_starts c of None \<Rightarrow> True | Some st \<Rightarrow> \<not> now < st)
   \<and> (case tc_ends c of None \<Rightarrow> True | Some en \<Rightarrow> now < en)
   \<and> (case tc_quota c of None \<Rightarrow> True
      | Some q \<Rightarrow> \<not> tc_used c + tc_reserved c + taken (tc_rule c) \<ge> q)"

definition tier_less :: "tier \<Rightarrow> tier \<Rightarrow> bool" where
  "tier_less a b =
     (if tc_price a \<noteq> tc_price b then tc_price a < tc_price b
      else if tc_sort a \<noteq> tc_sort b then tc_sort a < tc_sort b
      else tc_rule a < tc_rule b)"

fun select_loop :: "string \<Rightarrow> gotime \<Rightarrow> (int \<Rightarrow> int) \<Rightarrow> tier option \<Rightarrow> tier list \<Rightarrow> tier option" where
  "select_loop nationality now taken best [] = best"
| "select_loop nationality now taken best (c # cs) =
     (if \<not> tier_open nationality now taken c then select_loop nationality now taken best cs
      else select_loop nationality now taken
             (case best of None \<Rightarrow> Some c | Some b \<Rightarrow> if tier_less c b then Some c else Some b) cs)"

definition select_tier :: "tier list \<Rightarrow> string \<Rightarrow> gotime \<Rightarrow> (int \<Rightarrow> int) \<Rightarrow> tier option" where
  "select_tier cands nationality now taken = select_loop nationality now taken None cands"

definition tier_key :: "tier \<Rightarrow> int \<times> int \<times> int" where
  "tier_key t = (tc_price t, tc_sort t, tc_rule t)"

lemma tier_less_key: "tier_less a b \<longleftrightarrow> tier_key a < tier_key b"
  by (auto simp: tier_less_def tier_key_def)

lemma select_loop_spec:
  "select_loop n now tk best cs = Some t \<Longrightarrow>
     (\<forall>b. best = Some b \<longrightarrow> tier_key t \<le> tier_key b)
   \<and> (best = Some t \<or> t \<in> set cs \<and> tier_open n now tk t)
   \<and> (\<forall>c\<in>set cs. tier_open n now tk c \<longrightarrow> tier_key t \<le> tier_key c)"
proof (induction n now tk best cs rule: select_loop.induct)
  case (1 n now tk best)
  then show ?case by simp
next
  case (2 n now tk best c cs)
  show ?case
  proof (cases "tier_open n now tk c")
    case False
    with 2 show ?thesis by auto
  next
    case True
    let ?b = "case best of None \<Rightarrow> Some c | Some b \<Rightarrow> if tier_less c b then Some c else Some b"
    from True "2.prems" have "select_loop n now tk ?b cs = Some t" by simp
    from "2.IH"(2) [OF _ this] True
    have IH: "\<forall>b. ?b = Some b \<longrightarrow> tier_key t \<le> tier_key b"
      "?b = Some t \<or> t \<in> set cs \<and> tier_open n now tk t"
      "\<forall>c\<in>set cs. tier_open n now tk c \<longrightarrow> tier_key t \<le> tier_key c" by auto
    show ?thesis
    proof (cases best)
      case None
      with IH True show ?thesis by auto
    next
      case (Some b)
      with IH True show ?thesis
        by (auto simp: tier_less_key not_less split: if_splits intro: order_trans)
    qed
  qed
qed

lemma select_loop_None:
  "select_loop n now tk best cs = None \<longleftrightarrow> best = None \<and> (\<forall>c\<in>set cs. \<not> tier_open n now tk c)"
  by (induction n now tk best cs rule: select_loop.induct) (auto split: option.splits)

lemma select_tier_Some:
  assumes "select_tier cs n now tk = Some t"
  shows "t \<in> set cs" "tier_open n now tk t"
    "\<And>c. c \<in> set cs \<Longrightarrow> tier_open n now tk c \<Longrightarrow> tier_key t \<le> tier_key c"
  using select_loop_spec [of n now tk None cs t] assms by (auto simp: select_tier_def)

section \<open>Age\<close>

definition is_leap :: "int \<Rightarrow> bool" where
  "is_leap y \<longleftrightarrow> y mod 4 = 0 \<and> (y mod 100 \<noteq> 0 \<or> y mod 400 = 0)"

text \<open>\<open>AgeOn\<close> on calendar dates; a birthday on 29 February counts as 1 March outside leap years.\<close>

fun age_of :: "int \<times> int \<times> int \<Rightarrow> int \<times> int \<times> int \<Rightarrow> int" where
  "age_of (b_y, bm, bd) (ry, rm, rd) =
     (let (bm, bd) = (if bm = 2 \<and> bd = 29 \<and> \<not> is_leap ry then (3, 1) else (bm, bd));
          age = ry - b_y
      in if rm < bm \<or> (rm = bm \<and> rd < bd) then age - 1 else age)"

definition age_on :: "gotime \<Rightarrow> gotime \<Rightarrow> int" where
  "age_on birth race_date = age_of (civil_date birth) (civil_date race_date)"

section \<open>Coupon discount\<close>

text \<open>\<open>CouponDiscount\<close>; the rule is the discount type and value.\<close>

definition coupon_discount :: "string \<Rightarrow> int \<Rightarrow> int \<Rightarrow> int" where
  "coupon_discount ty v list_amount =
     (if list_amount \<le> 0 then 0
      else if ty = ''PERCENT'' then int64 (list_amount * min (max v 0) 100) sdiv 100
      else if ty = ''AMOUNT'' then min (max v 0) list_amount
      else if ty = ''WAIVER'' then list_amount
      else 0)"

lemma coupon_discount_bounds:
  assumes "0 \<le> l" and "l \<le> 92233720368547758"
  shows "0 \<le> coupon_discount ty v l \<and> coupon_discount ty v l \<le> l"
proof -
  let ?q = "min (max v 0) 100"
  have q: "0 \<le> ?q" "?q \<le> 100" by auto
  have "l * ?q \<le> l * 100" using assms(1) q by (intro mult_left_mono) auto
  moreover have "0 \<le> l * ?q" using assms(1) q by simp
  ultimately have id: "int64 (l * ?q) = l * ?q" and le: "l * ?q div 100 \<le> l"
    using assms(2) by (auto intro!: int64_id)
  have "0 \<le> l * ?q div 100" using \<open>0 \<le> l * ?q\<close> by simp
  with id le assms(1) \<open>0 \<le> l * ?q\<close> show ?thesis
    by (auto simp: coupon_discount_def sdiv_nonneg)
qed

section \<open>Allocating the discount\<close>

definition sum64 :: "int list \<Rightarrow> int" where
  "sum64 ps = foldl (\<lambda>a p. int64 (a + p)) 0 ps"

definition alloc_share :: "int \<Rightarrow> int \<Rightarrow> int \<Rightarrow> int" where
  "alloc_share discount tot p = int64 (discount * p) sdiv tot"

definition alloc_rem :: "int \<Rightarrow> int \<Rightarrow> int \<Rightarrow> int" where
  "alloc_rem discount tot p = int64 (discount * p) smod tot"

text \<open>
  The last loop of \<open>Allocate\<close>: \<open>for k := 0; k < n; k++ { paid[rems[k].idx]-- }\<close>.
  \<open>None\<close> is the panic of \<open>rems[k]\<close> out of range.
\<close>

fun dec_loop :: "(nat \<times> int) list \<Rightarrow> int \<Rightarrow> int list \<Rightarrow> int list option" where
  "dec_loop [] n paid = (if n \<le> 0 then Some paid else None)"
| "dec_loop ((i, r) # rems) n paid =
     (if n \<le> 0 then Some paid
      else dec_loop rems (n - 1) (paid[i := int64 (paid ! i - 1)]))"

definition allocate :: "int list \<Rightarrow> int \<Rightarrow> int list option" where
  "allocate ps discount =
     (let tot = sum64 ps
      in if tot \<le> 0 then Some (map (\<lambda>_. 0) ps)
         else
           let d = min (max discount 0) tot;
               paid = map (\<lambda>p. int64 (p - alloc_share d tot p)) ps;
               allocated = sum64 (map (alloc_share d tot) ps);
               rems = enumerate 0 (map (alloc_rem d tot) ps);
               sorted = sort_key (\<lambda>(i, r). - r) rems
           in dec_loop sorted (int64 (d - allocated)) paid)"

section \<open>Identification offset\<close>

definition ident_offset_cap :: int where "ident_offset_cap = 50"

text \<open>\<open>PickIdentOffset\<close>: the first free \<open>n\<close> from 1 to the limit, or 0.\<close>

definition pick_ident_offset :: "int \<Rightarrow> int list \<Rightarrow> int \<Rightarrow> int" where
  "pick_ident_offset amount taken max_cents =
     (let limit = min max_cents (min ident_offset_cap (int64 (amount - 1)))
      in case List.find (\<lambda>n. amount - n \<notin> set taken) [1..limit] of
           None \<Rightarrow> 0 | Some n \<Rightarrow> n)"

lemma pick_ident_offset_cases:
  assumes "0 < amount" and "amount < 9223372036854775808"
    and n_def: "n = pick_ident_offset amount taken m"
  shows "n = 0 \<and> (\<forall>k. 1 \<le> k \<and> k \<le> min m (min 50 (amount - 1)) \<longrightarrow> amount - k \<in> set taken)
       \<or> 1 \<le> n \<and> n \<le> min m (min 50 (amount - 1)) \<and> amount - n \<notin> set taken
         \<and> (\<forall>k. 1 \<le> k \<and> k < n \<longrightarrow> amount - k \<in> set taken)"
proof -
  have lim: "int64 (amount - 1) = amount - 1" using assms(1,2) by (intro int64_id) auto
  let ?f = "List.find (\<lambda>n. amount - n \<notin> set taken) [1..min m (min ident_offset_cap (amount - 1))]"
  show ?thesis
  proof (cases ?f)
    case None
    then have "n = 0" by (simp add: n_def pick_ident_offset_def lim)
    moreover from None
    have "\<forall>k. 1 \<le> k \<and> k \<le> min m (min 50 (amount - 1)) \<longrightarrow> amount - k \<in> set taken"
      by (simp add: find_None_all ident_offset_cap_def)
    ultimately show ?thesis by blast
  next
    case (Some k)
    then have "n = k" by (simp add: n_def pick_ident_offset_def lim)
    with find_upto_least [OF Some] show ?thesis
      by (simp add: ident_offset_cap_def)
  qed
qed

end
