(* ===== verification/Allocation.thy ===== *)
theory Allocation
  imports Pricing
begin

text \<open>
  Correctness of \<open>Allocate\<close>: below the bound that keeps every product in
  \<open>int64\<close>, the loop never indexes out of range, every share lies between zero
  and the list price, the shares differ from the exact proportion by less than
  a cent, and they add up to the total less the discount.
\<close>

text \<open>The largest total whose square fits in \<open>int64\<close>.\<close>

definition alloc_limit :: int where "alloc_limit = 3037000499"

section \<open>Sums without overflow\<close>

lemma foldl_sum64:
  assumes "\<forall>p\<in>set ps. 0 \<le> p" and "0 \<le> a" and "a + sum_list ps < 9223372036854775808"
  shows "foldl (\<lambda>a p. int64 (a + p)) a ps = a + sum_list ps"
  using assms
proof (induction ps arbitrary: a)
  case Nil
  then show ?case by simp
next
  case (Cons p ps)
  have nn: "0 \<le> sum_list ps" using Cons.prems(1) by (intro sum_list_nonneg) auto
  with Cons.prems have "int64 (a + p) = a + p" by (intro int64_id) auto
  with Cons nn show ?case by (simp add: add.assoc)
qed

lemma sum64_eq:
  "\<forall>p\<in>set ps. 0 \<le> p \<Longrightarrow> sum_list ps < 9223372036854775808 \<Longrightarrow> sum64 ps = sum_list ps"
  by (simp add: sum64_def foldl_sum64)

lemma sum_list_bound:
  fixes c :: int
  shows "(\<And>x. x \<in> set xs \<Longrightarrow> f x \<le> c) \<Longrightarrow> sum_list (map f xs) \<le> int (length xs) * c"
proof (induction xs)
  case Nil
  then show ?case by simp
next
  case (Cons x xs)
  then have "f x \<le> c" "sum_list (map f xs) \<le> int (length xs) * c" by auto
  then show ?case by (simp add: algebra_simps)
qed

lemma member_le_sum_list:
  fixes ps :: "int list"
  shows "\<forall>p\<in>set ps. 0 \<le> p \<Longrightarrow> p \<in> set ps \<Longrightarrow> p \<le> sum_list ps"
proof (induction ps)
  case Nil
  then show ?case by simp
next
  case (Cons q ps)
  then have "0 \<le> sum_list ps" by (intro sum_list_nonneg) auto
  with Cons show ?case by fastforce
qed

section \<open>The decrement loop\<close>

definition dec_at :: "nat set \<Rightarrow> int list \<Rightarrow> int list" where
  "dec_at S paid = map (\<lambda>j. paid ! j - (if j \<in> S then 1 else 0)) [0..<length paid]"

lemma length_dec_at [simp]: "length (dec_at S paid) = length paid"
  by (simp add: dec_at_def)

lemma nth_dec_at [simp]:
  "j < length paid \<Longrightarrow> dec_at S paid ! j = paid ! j - (if j \<in> S then 1 else 0)"
  by (simp add: dec_at_def)

lemma dec_at_empty [simp]: "dec_at {} paid = paid"
  by (rule nth_equalityI) auto

lemma dec_at_update:
  assumes "i < length paid" and "i \<notin> S"
  shows "dec_at S (paid[i := paid ! i - 1]) = dec_at (insert i S) paid"
proof (rule nth_equalityI)
  fix j assume "j < length (dec_at S (paid[i := paid ! i - 1]))"
  then have j: "j < length paid" by simp
  show "dec_at S (paid[i := paid ! i - 1]) ! j = dec_at (insert i S) paid ! j"
    using j assms by (cases "j = i") auto
qed simp

lemma dec_loop_spec:
  assumes "0 \<le> n" and "n \<le> int (length rems)" and "distinct (map fst rems)"
    and "\<forall>(i, r)\<in>set rems. i < length paid \<and> - 9223372036854775808 < paid ! i
                          \<and> paid ! i < 9223372036854775808"
  shows "dec_loop rems n paid = Some (dec_at (fst ` set (take (nat n) rems)) paid)"
  using assms
proof (induction rems n paid rule: dec_loop.induct)
  case (1 n paid)
  then show ?case by simp
next
  case (2 i r rems n paid)
  show ?case
  proof (cases "n = 0")
    case True
    then show ?thesis by simp
  next
    case False
    with "2.prems"(1) have pos: "\<not> n \<le> 0" by simp
    then have take: "take (nat n) ((i, r) # rems) = (i, r) # take (nat (n - 1)) rems"
      by (cases "nat n") (auto simp: nat_diff_distrib)
    have rng: "i < length paid" "int64 (paid ! i - 1) = paid ! i - 1"
      using "2.prems"(4) by (auto intro: int64_id)
    have notin: "i \<notin> fst ` set (take (nat (n - 1)) rems)"
      using "2.prems"(3) set_take_subset [of "nat (n - 1)" rems] by auto
    have rest: "\<forall>(i', r')\<in>set rems. i' < length (paid[i := int64 (paid ! i - 1)])
        \<and> - 9223372036854775808 < paid[i := int64 (paid ! i - 1)] ! i'
        \<and> paid[i := int64 (paid ! i - 1)] ! i' < 9223372036854775808"
    proof safe
      fix i' r' assume m: "(i', r') \<in> set rems"
      then have "i' \<noteq> i" using "2.prems"(3) by force
      with m "2.prems"(4) show
        "i' < length (paid[i := int64 (paid ! i - 1)])"
        "- 9223372036854775808 < paid[i := int64 (paid ! i - 1)] ! i'"
        "paid[i := int64 (paid ! i - 1)] ! i' < 9223372036854775808" by fastforce+
    qed
    have "dec_loop rems (n - 1) (paid[i := int64 (paid ! i - 1)])
        = Some (dec_at (fst ` set (take (nat (n - 1)) rems)) (paid[i := int64 (paid ! i - 1)]))"
      using pos "2.prems" rest by (intro "2.IH") auto
    with pos rng notin show ?thesis by (simp add: take dec_at_update del: take_Cons_numeral)
  qed
qed

lemma sum_list_dec_at:
  assumes "S \<subseteq> {..<length paid}"
  shows "sum_list (dec_at S paid) = sum_list paid - int (card S)"
proof -
  have "sum_list (dec_at S paid) = (\<Sum>j = 0..<length paid. paid ! j - (if j \<in> S then 1 else 0))"
    by (simp add: dec_at_def sum_list_sum_nth)
  also have "\<dots> = (\<Sum>j = 0..<length paid. paid ! j) - (\<Sum>j = 0..<length paid. if j \<in> S then 1 else 0)"
    by (simp add: sum_subtractf)
  also have "(\<Sum>j = 0..<length paid. if j \<in> S then 1 else (0::int)) = int (card S)"
  proof -
    have "{0..<length paid} \<inter> S = S" using assms by auto
    then show ?thesis by (simp add: sum.If_cases)
  qed
  finally show ?thesis by (simp add: sum_list_sum_nth)
qed

section \<open>Largest remainders\<close>

lemma top_remainders_positive:
  fixes T k :: int
  assumes sorted: "sorted (map (\<lambda>(i, r). - r) xs)"
    and rng: "\<forall>(i, r)\<in>set xs. 0 \<le> r \<and> r < T"
    and sum: "sum_list (map snd xs) = k * T" and "0 < T"
    and mem: "(i, r) \<in> set (take (nat k) xs)"
  shows "0 < r"
proof (rule ccontr)
  assume "\<not> 0 < r"
  from mem obtain j where j: "j < nat k" "j < length xs" "xs ! j = (i, r)"
    by (auto simp: in_set_conv_nth)
  have "r = 0" using \<open>\<not> 0 < r\<close> rng mem set_take_subset [of "nat k" xs] by fastforce
  have drop0: "sum_list (map snd (drop j xs)) \<le> 0"
  proof (rule sum_list_nonpos)
    fix x assume "x \<in> set (map snd (drop j xs))"
    then obtain m where m: "j \<le> m" "m < length xs" "x = snd (xs ! m)"
      by (auto simp: in_set_conv_nth) (metis add.commute le_add1 less_diff_conv nth_drop snd_conv)
    have "map (\<lambda>(i, r). - r) xs ! j \<le> map (\<lambda>(i, r). - r) xs ! m"
      using sorted m(1,2) by (intro sorted_nth_mono) auto
    with j m \<open>r = 0\<close> show "x \<le> 0" by (cases "xs ! m") auto
  qed
  have "sum_list (map snd (take j xs)) \<le> int (length (take j xs)) * (T - 1)"
    by (rule sum_list_bound) (use rng set_take_subset [of j xs] in fastforce)
  then have "sum_list (map snd (take j xs)) \<le> int j * (T - 1)" using j(2) by simp
  moreover have "sum_list (map snd xs) = sum_list (map snd (take j xs)) + sum_list (map snd (drop j xs))"
    by (metis append_take_drop_id map_append sum_list_append)
  ultimately have "k * T \<le> int j * (T - 1)" using sum drop0 by linarith
  also have "\<dots> \<le> int j * T" by (intro mult_left_mono) auto
  finally have "k \<le> int j" using \<open>0 < T\<close> by (simp add: mult_le_cancel_right)
  with j(1) show False by linarith
qed

lemma sum_list_enumerate: "sum_list (map snd (enumerate n xs)) = sum_list xs"
  by simp

lemma sum_list_mset_eq: "mset xs = mset ys \<Longrightarrow> sum_list (map f xs) = sum_list (map (f :: 'a \<Rightarrow> int) ys)"
  by (metis mset_map sum_mset_sum_list)

section \<open>The main theorem\<close>

text \<open>The quotient and the remainder of each price, free of overflow.\<close>

lemma alloc_share_rem:
  assumes "0 \<le> d" and "d \<le> T" and "0 \<le> p" and "p \<le> T" and "0 < T" and "T \<le> alloc_limit"
  shows "alloc_share d T p = d * p div T" "alloc_rem d T p = d * p mod T"
proof -
  have "d * p \<le> alloc_limit * alloc_limit" using assms by (intro mult_mono) auto
  moreover have "0 \<le> d * p" using assms by simp
  ultimately have "int64 (d * p) = d * p"
    by (intro int64_id) (auto simp: alloc_limit_def)
  with \<open>0 \<le> d * p\<close> assms(5) show "alloc_share d T p = d * p div T" "alloc_rem d T p = d * p mod T"
    by (simp_all add: alloc_share_def alloc_rem_def sdiv_nonneg smod_nonneg)
qed

lemma sum_list_div_mod:
  fixes T d :: int
  shows "sum_list (map (\<lambda>p. d * p div T) ps) * T + sum_list (map (\<lambda>p. d * p mod T) ps) = d * sum_list ps"
  by (induction ps) (simp_all add: algebra_simps)

text \<open>The prices less the floors, and the indices in the order the cents are handed out.\<close>

definition alloc_base :: "int \<Rightarrow> int \<Rightarrow> int list \<Rightarrow> int list" where
  "alloc_base d T ps = map (\<lambda>p. p - d * p div T) ps"

definition alloc_sorted :: "int \<Rightarrow> int \<Rightarrow> int list \<Rightarrow> (nat \<times> int) list" where
  "alloc_sorted d T ps = sort_key (\<lambda>(i, r). - r) (enumerate 0 (map (\<lambda>p. d * p mod T) ps))"

lemma alloc_sorted_mem:
  assumes "(i, r) \<in> set (alloc_sorted d T ps)"
  shows "i < length ps" "r = d * (ps ! i) mod T"
  using assms by (auto simp: alloc_sorted_def in_set_enumerate_eq)

lemma alloc_sorted_perm:
  "mset (alloc_sorted d T ps) = mset (enumerate 0 (map (\<lambda>p. d * p mod T) ps))"
  by (simp add: alloc_sorted_def)

lemma alloc_sorted_len [simp]: "length (alloc_sorted d T ps) = length ps"
  by (simp add: alloc_sorted_def)

lemma alloc_sorted_distinct: "distinct (map fst (alloc_sorted d T ps))"
proof -
  have "mset (map fst (alloc_sorted d T ps)) = mset [0..<length ps]"
    by (metis alloc_sorted_perm length_map map_fst_enumerate mset_map plus_nat.add_0)
  then show ?thesis by (metis distinct_upt mset_eq_imp_distinct_iff)
qed

lemma alloc_sorted_sorted: "sorted (map (\<lambda>(i, r). - r) (alloc_sorted d T ps))"
  by (simp add: alloc_sorted_def)

lemma alloc_sorted_sum: "sum_list (map snd (alloc_sorted d T ps)) = sum_list (map (\<lambda>p. d * p mod T) ps)"
  by (metis alloc_sorted_perm sum_list_enumerate sum_list_mset_eq)

text \<open>How many cents are left after the floors: the remainders add up to that many totals.\<close>

lemma alloc_left:
  fixes d :: int
  assumes "\<forall>p\<in>set ps. 0 \<le> p" and T: "T = sum_list ps" and "0 < T" and "0 \<le> d"
  defines "k \<equiv> d - sum_list (map (\<lambda>p. d * p div T) ps)"
  shows "sum_list (map (\<lambda>p. d * p mod T) ps) = k * T" "0 \<le> k" "k \<le> int (length ps)"
proof -
  let ?R = "sum_list (map (\<lambda>p. d * p mod T) ps)"
  show R: "?R = k * T"
    using sum_list_div_mod [of d T ps] by (simp add: k_def T algebra_simps)
  have "0 \<le> ?R" using \<open>0 < T\<close> by (intro sum_list_nonneg) auto
  with R \<open>0 < T\<close> show "0 \<le> k" by (simp add: zero_le_mult_iff)
  have "?R \<le> int (length ps) * T"
    by (rule sum_list_bound) (use \<open>0 < T\<close> in \<open>simp add: less_imp_le\<close>)
  with R \<open>0 < T\<close> show "k \<le> int (length ps)" by (simp add: mult_le_cancel_right)
qed

lemma alloc_eq:
  assumes nn: "\<forall>p\<in>set ps. 0 \<le> p" and T: "T = sum_list ps" and pos: "0 < T" and lim: "T \<le> alloc_limit"
    and d: "d = min (max discount 0) T"
  shows "allocate ps discount =
    Some (dec_at (fst ` set (take (nat (d - sum_list (map (\<lambda>p. d * p div T) ps))) (alloc_sorted d T ps)))
                 (alloc_base d T ps))"
proof -
  have d0: "0 \<le> d" "d \<le> T" using d pos by auto
  have le: "p \<le> T" if "p \<in> set ps" for p using member_le_sum_list [OF nn that] T by simp
  note sr = alloc_share_rem [OF d0 _ _ pos lim]
  have dp: "0 \<le> d * p div T" "d * p div T \<le> p" if "p \<in> set ps" for p
  proof -
    have "0 \<le> p" using nn that by auto
    then show "0 \<le> d * p div T" using d0 pos by (simp add: pos_imp_zdiv_nonneg_iff)
    have "d * p \<le> T * p" using d0 \<open>0 \<le> p\<close> by (intro mult_right_mono) auto
    then have "d * p div T \<le> T * p div T" using pos by (intro zdiv_mono1) auto
    then show "d * p div T \<le> p" using pos by simp
  qed
  have tot: "sum64 ps = T" using nn T lim by (subst sum64_eq) (auto simp: alloc_limit_def)
  have shares: "map (alloc_share d T) ps = map (\<lambda>p. d * p div T) ps"
    using nn le by (intro map_cong) (auto simp: sr)
  have rems: "map (alloc_rem d T) ps = map (\<lambda>p. d * p mod T) ps"
    using nn le by (intro map_cong) (auto simp: sr)
  have base: "map (\<lambda>p. int64 (p - alloc_share d T p)) ps = alloc_base d T ps"
    unfolding alloc_base_def
  proof (rule map_cong [OF refl])
    fix p assume p: "p \<in> set ps"
    with nn le [OF p] dp [OF p] lim show "int64 (p - alloc_share d T p) = p - d * p div T"
      by (auto simp: sr alloc_limit_def intro!: int64_id)
  qed
  let ?A = "sum_list (map (\<lambda>p. d * p div T) ps)"
  have k: "0 \<le> d - ?A" "d - ?A \<le> int (length ps)" using alloc_left [OF nn T pos d0(1)] by auto
  have A0: "0 \<le> ?A" by (intro sum_list_nonneg) (use dp in auto)
  have alloc: "sum64 (map (\<lambda>p. d * p div T) ps) = ?A"
    using k(1) d0 lim dp by (intro sum64_eq) (auto simp: alloc_limit_def)
  have k64: "int64 (d - ?A) = d - ?A"
    using k(1) A0 d0 lim by (intro int64_id) (auto simp: alloc_limit_def)
  have "dec_loop (alloc_sorted d T ps) (d - ?A) (alloc_base d T ps)
      = Some (dec_at (fst ` set (take (nat (d - ?A)) (alloc_sorted d T ps))) (alloc_base d T ps))"
  proof (rule dec_loop_spec)
    show "\<forall>(i, r)\<in>set (alloc_sorted d T ps). i < length (alloc_base d T ps)
        \<and> - 9223372036854775808 < alloc_base d T ps ! i \<and> alloc_base d T ps ! i < 9223372036854775808"
    proof safe
      fix i r assume "(i, r) \<in> set (alloc_sorted d T ps)"
      then have i: "i < length ps" by (rule alloc_sorted_mem)
      then show "i < length (alloc_base d T ps)" by (simp add: alloc_base_def)
      from i have p: "ps ! i \<in> set ps" by simp
      from dp [OF p] le [OF p] nn p lim
      show "- 9223372036854775808 < alloc_base d T ps ! i" "alloc_base d T ps ! i < 9223372036854775808"
        by (auto simp: alloc_base_def i alloc_limit_def)
    qed
  qed (use k alloc_sorted_distinct in auto)
  with pos show ?thesis
    by (simp add: allocate_def tot Let_def d [symmetric] shares alloc k64 base rems
        alloc_sorted_def [symmetric])
qed

text \<open>
  A share is fair: it lies between zero and the price, and differs from the
  exact proportional share \<open>p (T - d) / T\<close> by less than a cent.
\<close>

definition fair_share :: "int \<Rightarrow> int \<Rightarrow> int \<Rightarrow> int \<Rightarrow> bool" where
  "fair_share T d p paid \<longleftrightarrow> 0 \<le> paid \<and> paid \<le> p \<and> \<bar>T * paid - (T - d) * p\<bar> < T"

lemma fair_share_floor:
  assumes "0 \<le> d" and "d \<le> T" and "0 \<le> p" and "0 < T"
  shows "fair_share T d p (p - d * p div T)"
    and "0 < d * p mod T \<Longrightarrow> fair_share T d p (p - d * p div T - 1)"
proof -
  let ?q = "d * p div T" and ?r = "d * p mod T"
  have q: "d * p = ?q * T + ?r" by simp
  have r: "0 \<le> ?r" "?r < T" using assms(4) by auto
  have le: "d * p \<le> T * p" using assms by (intro mult_right_mono) auto
  have "0 \<le> d * p" using assms by simp
  then have q0: "0 \<le> ?q" using assms(4) by (simp add: pos_imp_zdiv_nonneg_iff)
  have dist: "T * (p - ?q) - (T - d) * p = ?r" using q by (simp add: algebra_simps)
  have qp: "?q \<le> p"
  proof -
    have "?q * T \<le> p * T" using q r le mult.commute [of T p] by linarith
    then show ?thesis using assms(4) by simp
  qed
  show "fair_share T d p (p - ?q)" using dist r q0 qp by (simp add: fair_share_def)
  assume pos: "0 < ?r"
  have "?q * T < p * T" using q pos le mult.commute [of T p] by linarith
  then have "?q < p" using assms(4) by simp
  moreover have "T * (p - ?q - 1) - (T - d) * p = ?r - T" using dist by (simp add: algebra_simps)
  ultimately show "fair_share T d p (p - ?q - 1)" using pos r q0 by (simp add: fair_share_def)
qed

lemma allocate_fair:
  assumes nn: "\<forall>p\<in>set ps. 0 \<le> p" and T: "T = sum_list ps" and pos: "0 < T" and lim: "T \<le> alloc_limit"
    and d: "d = min (max discount 0) T"
  shows "\<exists>paid. allocate ps discount = Some paid \<and> length paid = length ps
      \<and> sum_list paid = T - d \<and> (\<forall>i<length ps. fair_share T d (ps ! i) (paid ! i))"
proof -
  define k where "k = d - sum_list (map (\<lambda>p. d * p div T) ps)"
  define S where "S = fst ` set (take (nat k) (alloc_sorted d T ps))"
  define paid where "paid = dec_at S (alloc_base d T ps)"
  have d0: "0 \<le> d" "d \<le> T" using d pos by auto
  note left = alloc_left [OF nn T pos d0(1), folded k_def]
  have eq: "allocate ps discount = Some paid"
    using alloc_eq [OF nn T pos lim d] by (simp add: paid_def S_def k_def)
  have S: "S \<subseteq> {..<length (alloc_base d T ps)}"
    by (auto simp: S_def alloc_base_def dest!: in_set_takeD dest: alloc_sorted_mem(1))
  have S_pos: "0 < d * (ps ! i) mod T" if "i \<in> S" for i
  proof -
    from that obtain r where ir: "(i, r) \<in> set (take (nat k) (alloc_sorted d T ps))"
      by (auto simp: S_def)
    have "0 < r"
    proof (rule top_remainders_positive [OF alloc_sorted_sorted _ _ pos ir])
      show "\<forall>(i, r)\<in>set (alloc_sorted d T ps). 0 \<le> r \<and> r < T"
        using pos by (auto dest: alloc_sorted_mem(2))
      show "sum_list (map snd (alloc_sorted d T ps)) = k * T"
        by (simp add: alloc_sorted_sum left(1))
    qed
    with alloc_sorted_mem(2) [OF in_set_takeD [OF ir]] show ?thesis by simp
  qed
  have card: "int (card S) = k"
  proof -
    have "distinct (map fst (take (nat k) (alloc_sorted d T ps)))"
      using alloc_sorted_distinct [of d T ps] by (metis distinct_take take_map)
    then have "card S = length (take (nat k) (alloc_sorted d T ps))"
      by (metis S_def distinct_card length_map set_map)
    with left(2,3) show ?thesis by simp
  qed
  have "sum_list (alloc_base d T ps) = T - sum_list (map (\<lambda>p. d * p div T) ps)"
    by (simp add: alloc_base_def sum_list_subtractf T)
  then have sum: "sum_list paid = T - d"
    using sum_list_dec_at [OF S] card by (simp add: paid_def k_def)
  have fair: "fair_share T d (ps ! i) (paid ! i)" if i: "i < length ps" for i
  proof -
    have "0 \<le> ps ! i" using nn i by simp
    note fs = fair_share_floor [OF d0 this pos]
    from i have "paid ! i = ps ! i - d * (ps ! i) div T - (if i \<in> S then 1 else 0)"
      by (simp add: paid_def alloc_base_def)
    with fs S_pos show ?thesis by auto
  qed
  show ?thesis using eq sum fair by (intro exI [of _ paid]) (simp add: paid_def alloc_base_def)
qed

text \<open>Nothing to allocate when the prices add up to zero.\<close>

lemma allocate_zero:
  assumes "\<forall>p\<in>set ps. 0 \<le> p" and "sum_list ps = 0"
  shows "allocate ps discount = Some (map (\<lambda>_. 0) ps)"
  using assms by (simp add: allocate_def sum64_eq)

end
