(* ===== verification/Samples.thy ===== *)
theory Samples
  imports Store
begin

text \<open>
  A small database the witnesses run the model on: one published event with
  two categories, two price rules, a coupon, a payment account, two runners,
  and an environment with a fixed clock and simple stand-ins for the keyed
  hash, the cipher and the message catalog.
\<close>

definition sample_now :: gotime where
  "sample_now = date_time 2026 7 1 + 3 * hour"

definition sample_event :: event_row where
  "sample_event = \<lparr>ev_id = 1, ev_slug = ''run'', ev_type = ''RACE'', ev_organizer = [],
     ev_name = [(EN, ''Run'')], ev_city = ''Phnom Penh'', ev_race_date = date_time 2026 12 6,
     ev_timezone = ''Asia/Phnom_Penh'', ev_status = ''PUBLISHED'', ev_open = True,
     ev_visible = True, ev_opens_at = None, ev_closes_at = None, ev_published_at = Some 0\<rparr>"

definition sample_category :: "int \<Rightarrow> string \<Rightarrow> int \<Rightarrow> category_row" where
  "sample_category i code cap = \<lparr>ec_id = i, ec_event = 1, ec_code = code, ec_name = [(EN, code)],
     ec_distance = 10000, ec_capacity = cap, ec_used = 0, ec_reserved = 0, ec_start_at = None,
     ec_cutoff_at = None, ec_min_age = 16, ec_sort = i\<rparr>"

definition sample_rule :: "int \<Rightarrow> string \<Rightarrow> int \<Rightarrow> int option \<Rightarrow> price_rule_row" where
  "sample_rule i aud price quota = \<lparr>pr_id = i, pr_event = 1, pr_name = [], pr_audience = aud,
     pr_price = price, pr_quota = quota, pr_used = 0, pr_reserved = 0, pr_starts_at = None,
     pr_ends_at = None, pr_sort = 0\<rparr>"

definition sample_coupon :: coupon_row where
  "sample_coupon = \<lparr>cp_id = 1, cp_code = ''RUN10'', cp_event = Some 1, cp_type = ''PERCENT'',
     cp_value = 10, cp_quota = 5, cp_used = 0, cp_reserved = 0, cp_min_runners = None,
     cp_from = None, cp_until = None, cp_description = None, cp_status = ''ACTIVE'',
     cp_created_at = 0\<rparr>"

definition sample_account :: account_row where
  "sample_account = \<lparr>pa_id = 1, pa_name = ''KHQR'', pa_provider = ''ABA'',
     pa_account_name = ''WeRun'', pa_no_masked = ''***123'', pa_currency = ''USD'', pa_qr_file = 1,
     pa_scope = ''ALL'', pa_event = None, pa_active = True, pa_created_at = 0\<rparr>"

definition sample_user :: "int \<Rightarrow> user_row" where
  "sample_user i = \<lparr>us_id = i, us_phone = None, us_telegram = Some (1000 + i), us_username = None,
     us_name = Some ''Dara'', us_locale = ''en'', us_status = ''ACTIVE'', us_last_login = None\<rparr>"

definition sample_consent :: consent_row where
  "sample_consent = \<lparr>cv_version = ''v1'', cv_lang = ''en'', cv_effective = 0, cv_text = ''t'',
     cv_items = [\<lparr>ci_key = ''a'', ci_title = ''A'', ci_desc = []\<rparr>], cv_sha = ''h'',
     cv_purpose = ''REGISTRATION''\<rparr>"

definition sample_db :: db where
  "sample_db = empty_db\<lparr>
     events := [sample_event],
     categories := [sample_category 1 ''21K'' 3, sample_category 2 ''10K'' 1],
     price_rules := [sample_rule 1 ''ALL'' 2500 None, sample_rule 2 ''LOCAL'' 1500 (Some 1)],
     links := [\<lparr>cl_category = 1, cl_rule = 1\<rparr>, \<lparr>cl_category = 1, cl_rule = 2\<rparr>,
               \<lparr>cl_category = 2, cl_rule = 1\<rparr>],
     coupons := [sample_coupon],
     accounts := [sample_account],
     users := [sample_user 1, sample_user 2],
     consents := [sample_consent]\<rparr>"

text \<open>Bytes that differ with the call path.\<close>

definition sample_rand :: "nat list \<Rightarrow> int list" where
  "sample_rand path = map int path @ replicate 20 7"

definition sample_env :: env where
  "sample_env = \<lparr>e_now = sample_now, e_wall_now = sample_now, e_db_now = sample_now, e_rand = sample_rand,
     e_id_hash = (\<lambda>s. CHR ''h'' # s), e_encrypt = (\<lambda>path s. CHR ''c'' # s), e_decrypt = (\<lambda>s. Some (tl s)),
     e_parse_address = Some, e_catalog = (\<lambda>l k. k), e_app_url = ''https://run.example'',
     e_zone = (\<lambda>z t. if z = ''Asia/Phnom_Penh'' then Some (7 * hour) else None),
     e_detect = (\<lambda>bs. if take 3 bs = ''PNG'' then ''image/png'' else ''text/plain''),
     e_decode = (\<lambda>bs. if take 3 bs = ''PNG'' then Some (''png'', 2, 3) else None), e_sha256 = (\<lambda>bs. bs),
     e_io = (\<lambda>op key. None), e_locked = (\<lambda>_. [])\<rparr>"

definition sample_staff :: staff where
  "sample_staff = \<lparr>st_id = 1, st_role = ''ADMIN''\<rparr>"

lemmas sample_defs = sample_now_def sample_event_def sample_category_def sample_rule_def
  sample_coupon_def sample_account_def sample_user_def sample_consent_def sample_db_def sample_env_def sample_staff_def

end
