(* ===== verification/Quote.thy ===== *)
theory Quote
  imports Allocation Samples
begin

text \<open>
  \<open>Service.Quote\<close> in \<open>internal/pricing/quote.go\<close>: the price of a whole order
  inside the caller's transaction.  It reads categories, price rules, the
  coupon and the open orders of the payment account; it writes nothing.
\<close>

section \<open>Input and result\<close>

record participant_input =
  pi_category :: int
  pi_nationality :: string
  pi_birth :: gotime

record quote_input =
  qi_event :: int
  qi_race_date :: gotime
  qi_coupon :: string
  qi_participants :: "participant_input list"
  qi_now :: gotime
  qi_account :: "int option"

record participant_quote =
  pq_category :: int
  pq_rule :: int
  pq_audience :: string
  pq_list :: int
  pq_paid :: int

record quote =
  q_participants :: "participant_quote list"
  q_list :: int
  q_coupon :: "int option"
  q_coupon_discount :: int
  q_ident :: int
  q_discount :: int
  q_amount :: int
  q_currency :: string

section \<open>The queries\<close>

definition quote_list_categories :: "int \<Rightarrow> int list \<Rightarrow> db \<Rightarrow> (int \<times> int) list" where
  "quote_list_categories ev ids s =
     map (\<lambda>c. (ec_id c, ec_min_age c))
       (filter (\<lambda>c. ec_event c = ev \<and> ec_id c \<in> set ids) (categories s))"

definition tier_of_row :: "price_rule_row \<Rightarrow> tier" where
  "tier_of_row r =
     \<lparr>tc_rule = pr_id r, tc_audience = pr_audience r, tc_price = pr_price r, tc_quota = pr_quota r,
      tc_used = pr_used r, tc_reserved = pr_reserved r, tc_starts = pr_starts_at r,
      tc_ends = pr_ends_at r, tc_sort = pr_sort r\<rparr>"

definition quote_list_tier_candidates :: "int \<Rightarrow> int list \<Rightarrow> db \<Rightarrow> (int \<times> tier) list" where
  "quote_list_tier_candidates ev ids s =
     sort_key (\<lambda>(c, t). (c, tc_rule t))
       (concat (map (\<lambda>l. map (\<lambda>r. (cl_category l, tier_of_row r))
                   (filter (\<lambda>r. pr_id r = cl_rule l \<and> pr_event r = ev) (price_rules s)))
          (filter (\<lambda>l. cl_category l \<in> set ids) (links s))))"

definition quote_get_coupon_by_code :: "string \<Rightarrow> db \<Rightarrow> coupon_row option" where
  "quote_get_coupon_by_code code s = List.find (\<lambda>c. cp_code c = code) (coupons s)"

definition open_status :: "order_status \<Rightarrow> bool" where
  "open_status st \<longleftrightarrow> st = PendingPayment \<or> st = ProofSubmitted \<or> st = ProofRejected"

definition quote_list_open_order_amounts :: "int \<Rightarrow> db \<Rightarrow> int list" where
  "quote_list_open_order_amounts account s =
     map ro_amount (filter (\<lambda>o'. ro_account o' = Some account \<and> open_status (ro_status o')) (orders s))"

section \<open>The participants\<close>

text \<open>The categories of the order, each once, in order of first appearance.\<close>

definition quote_category_ids :: "participant_input list \<Rightarrow> int list" where
  "quote_category_ids ps =
     foldl (\<lambda>ids p. if pi_category p \<in> set ids then ids else ids @ [pi_category p]) [] ps"

text \<open>\<open>fmt.Sprintf("participants[%d].", i)\<close>.\<close>

definition participant_field :: "nat \<Rightarrow> string \<Rightarrow> string" where
  "participant_field i f = ''participants['' @ int_str (int i) @ ''].'' @ f"

text \<open>
  The local variables of the participant loop: the field errors added, the
  seats taken by this order in each price rule, the lines and their sum.
\<close>

record quote_loop =
  ql_items :: "field_item list"
  ql_taken :: "int \<Rightarrow> int"
  ql_lines :: "participant_quote list"
  ql_list :: int

definition quote_step ::
    "quote_input \<Rightarrow> (int \<times> int) list \<Rightarrow> (int \<times> tier) list \<Rightarrow> nat \<times> participant_input
       \<Rightarrow> quote_loop \<Rightarrow> quote_loop" where
  "quote_step inp min_ages cands = (\<lambda>(i, p) st.
     let no_category = (participant_field i ''categoryId'', ''field.category_unavailable'', [])
     in case map_of min_ages (pi_category p) of
          None \<Rightarrow> st\<lparr>ql_items := ql_items st @ [no_category]\<rparr>
        | Some min_age \<Rightarrow>
            let young = item (age_on (pi_birth p) (qi_race_date inp) < min_age)
                          (participant_field i ''birthDate'') ''field.too_young''
                          [(''minAge'', PInt min_age)];
                st = st\<lparr>ql_items := ql_items st @ young\<rparr>
            in (case select_tier (map snd (filter (\<lambda>(c, t). c = pi_category p) cands))
                      (to_upper (trim_space (pi_nationality p))) (qi_now inp) (ql_taken st) of
                 None \<Rightarrow> st\<lparr>ql_items := ql_items st @ [no_category]\<rparr>
               | Some t \<Rightarrow>
                   st\<lparr>ql_taken := (ql_taken st)(tc_rule t := ql_taken st (tc_rule t) + 1),
                      ql_lines := ql_lines st @
                        [\<lparr>pq_category = pi_category p, pq_rule = tc_rule t,
                          pq_audience = tc_audience t, pq_list = tc_price t, pq_paid = 0\<rparr>],
                      ql_list := int64 (ql_list st + tc_price t)\<rparr>))"

definition quote_lines :: "quote_input \<Rightarrow> db \<Rightarrow> quote_loop" where
  "quote_lines inp s =
     (let ids = quote_category_ids (qi_participants inp);
          min_ages = quote_list_categories (qi_event inp) ids s;
          cands = quote_list_tier_candidates (qi_event inp) ids s
      in fold (quote_step inp min_ages cands) (enumerate 0 (qi_participants inp))
           \<lparr>ql_items = [], ql_taken = (\<lambda>_. 0), ql_lines = [], ql_list = 0\<rparr>)"

section \<open>The coupon\<close>

text \<open>The conditions of \<open>checkCoupon\<close> under which a coupon cannot be used.\<close>

definition coupon_unusable :: "quote_input \<Rightarrow> coupon_row \<Rightarrow> bool" where
  "coupon_unusable inp c \<longleftrightarrow>
     cp_status c \<noteq> ''ACTIVE''
   \<or> (case cp_event c of None \<Rightarrow> False | Some ev \<Rightarrow> ev \<noteq> qi_event inp)
   \<or> (case cp_from c of None \<Rightarrow> False | Some t \<Rightarrow> qi_now inp < t)
   \<or> (case cp_until c of None \<Rightarrow> False | Some t \<Rightarrow> \<not> qi_now inp < t)
   \<or> (case cp_min_runners c of None \<Rightarrow> False | Some n \<Rightarrow> n > int (length (qi_participants inp)))"

definition coupon_invalid_err :: goerr where
  "coupon_invalid_err =
     AppErr (with_field ''couponCode'' ''field.coupon_invalid'' [] (new_err 422 CodeCouponInvalid))"

definition check_coupon :: "db \<Rightarrow> string \<Rightarrow> quote_input \<Rightarrow> coupon_row res" where
  "check_coupon s code inp =
     (case quote_get_coupon_by_code code s of
        None \<Rightarrow> Inl coupon_invalid_err
      | Some c \<Rightarrow>
          if coupon_unusable inp c then Inl coupon_invalid_err
          else if cp_used c + cp_reserved c \<ge> cp_quota c then Inl (app 409 CodeCouponExhausted)
          else Inr c)"

section \<open>The quote\<close>

text \<open>
  \<open>pickIdentOffsetLocked\<close>; the advisory lock makes the transactions that use
  one account run one after the other, so it has no effect on the state.
\<close>

definition pick_ident_offset_locked :: "int \<Rightarrow> int \<Rightarrow> db \<Rightarrow> int res" where
  "pick_ident_offset_locked account after s =
     bindE (load_payment s) (\<lambda>pay.
       Inr (pick_ident_offset after (quote_list_open_order_amounts account s) (ps_ident_max pay)))"

definition quote_coupon :: "db \<Rightarrow> quote_input \<Rightarrow> int \<Rightarrow> (int option \<times> int) res" where
  "quote_coupon s inp lst =
     (let code = to_upper (trim_space (qi_coupon inp))
      in if code = [] then Inr (None, 0)
         else bindE (check_coupon s code inp) (\<lambda>c.
                Inr (Some (cp_id c), coupon_discount (cp_type c) (cp_value c) lst)))"

definition quote_ident :: "db \<Rightarrow> quote_input \<Rightarrow> int \<Rightarrow> int res" where
  "quote_ident s inp after =
     (case qi_account inp of
        None \<Rightarrow> Inr 0
      | Some account \<Rightarrow> if after > 0 then pick_ident_offset_locked account after s else Inr 0)"

definition set_paid :: "participant_quote list \<Rightarrow> int list \<Rightarrow> participant_quote list" where
  "set_paid ls paid = map2 (\<lambda>l p. l\<lparr>pq_paid := p\<rparr>) ls paid"

definition quote_order :: "db \<Rightarrow> quote_input \<Rightarrow> quote res" where
  "quote_order s inp =
     (let st = quote_lines inp s
      in bindE (collect (ql_items st)) (\<lambda>_.
         bindE (quote_coupon s inp (ql_list st)) (\<lambda>(coupon, cdisc).
         let after = int64 (ql_list st - cdisc)
         in bindE (quote_ident s inp after) (\<lambda>offset.
            let disc = int64 (cdisc + offset)
            in (case allocate (map pq_list (ql_lines st)) disc of
                 None \<Rightarrow> Inl (OtherErr ''panic: index out of range'')
               | Some paid \<Rightarrow>
                   Inr \<lparr>q_participants = set_paid (ql_lines st) paid, q_list = ql_list st,
                        q_coupon = coupon, q_coupon_discount = cdisc, q_ident = offset,
                        q_discount = disc, q_amount = int64 (ql_list st - disc),
                        q_currency = ''USD''\<rparr>)))))"

section \<open>The participant loop\<close>

text \<open>The seats already taken by the earlier lines of the order in one price rule.\<close>

definition lines_taken :: "participant_quote list \<Rightarrow> int \<Rightarrow> int" where
  "lines_taken ls r = int (rows_where (\<lambda>l. pq_rule l = r) ls)"

text \<open>The price rules linked to a category, with their counters.\<close>

definition category_tiers :: "db \<Rightarrow> int \<Rightarrow> int \<Rightarrow> tier set" where
  "category_tiers s ev c =
     {tier_of_row r | r l. r \<in> set (price_rules s) \<and> l \<in> set (links s)
        \<and> pr_event r = ev \<and> pr_id r = cl_rule l \<and> cl_category l = c}"

text \<open>
  What the quote promises for one participant: the category belongs to the
  event, the runner is old enough on race day, and the line is priced by an
  open price rule of the category, the least one by price, sort order and id.
\<close>

definition line_ok :: "db \<Rightarrow> quote_input \<Rightarrow> participant_input \<Rightarrow> participant_quote list
    \<Rightarrow> participant_quote \<Rightarrow> bool" where
  "line_ok s inp p prior l \<longleftrightarrow>
     (let nat' = to_upper (trim_space (pi_nationality p));
          tiers = category_tiers s (qi_event inp) (pi_category p)
      in pq_category l = pi_category p
       \<and> (\<exists>c\<in>set (categories s). ec_id c = pi_category p \<and> ec_event c = qi_event inp
            \<and> ec_min_age c \<le> age_on (pi_birth p) (qi_race_date inp))
       \<and> (\<exists>t\<in>tiers. pq_rule l = tc_rule t \<and> pq_audience l = tc_audience t \<and> pq_list l = tc_price t
            \<and> tier_open nat' (qi_now inp) (lines_taken prior) t
            \<and> (\<forall>u\<in>tiers. tier_open nat' (qi_now inp) (lines_taken prior) u \<longrightarrow> tier_key t \<le> tier_key u)))"

lemma set_candidates:
  "set (map snd (filter (\<lambda>(c, t). c = cat) (quote_list_tier_candidates ev ids s)))
     = (if cat \<in> set ids then category_tiers s ev cat else {})"
  by (simp add: quote_list_tier_candidates_def category_tiers_def set_eq_iff image_iff) blast

lemma set_quote_category_ids: "set (quote_category_ids ps) = pi_category ` set ps"
proof -
  have "set (foldl (\<lambda>ids p. if pi_category p \<in> set ids then ids else ids @ [pi_category p]) ids ps)
      = set ids \<union> pi_category ` set ps" for ids
    by (induction ps arbitrary: ids) auto
  then show ?thesis by (simp add: quote_category_ids_def)
qed

definition loop_inv :: "db \<Rightarrow> quote_input \<Rightarrow> participant_input list \<Rightarrow> quote_loop \<Rightarrow> bool" where
  "loop_inv s inp ps st \<longleftrightarrow>
     (ql_items st = [] \<longrightarrow>
        length (ql_lines st) = length ps
      \<and> (\<forall>j<length ps. line_ok s inp (ps ! j) (take j (ql_lines st)) (ql_lines st ! j))
      \<and> ql_taken st = lines_taken (ql_lines st)
      \<and> ql_list st = sum64 (map pq_list (ql_lines st)))"

lemma map_of_categories:
  "map_of (quote_list_categories ev ids s) k = Some m \<Longrightarrow>
     \<exists>c\<in>set (categories s). ec_id c = k \<and> ec_event c = ev \<and> ec_min_age c = m"
  by (drule map_of_SomeD) (auto simp: quote_list_categories_def)

lemma quote_step_inv:
  assumes inv: "loop_inv s inp ps st" and p: "pi_category p \<in> set ids"
  defines "st' \<equiv> quote_step inp (quote_list_categories (qi_event inp) ids s)
                   (quote_list_tier_candidates (qi_event inp) ids s) (length ps, p) st"
  shows "loop_inv s inp (ps @ [p]) st'"
proof -
  let ?ev = "qi_event inp"
  let ?nat = "to_upper (trim_space (pi_nationality p))"
  let ?c = "map snd (filter (\<lambda>(c, t). c = pi_category p) (quote_list_tier_candidates ?ev ids s))"
  have "\<exists>m t. map_of (quote_list_categories ?ev ids s) (pi_category p) = Some m
      \<and> m \<le> age_on (pi_birth p) (qi_race_date inp)
      \<and> select_tier ?c ?nat (qi_now inp) (ql_taken st) = Some t \<and> ql_items st = []
      \<and> st' = st\<lparr>ql_items := [], ql_taken := (ql_taken st)(tc_rule t := ql_taken st (tc_rule t) + 1),
           ql_lines := ql_lines st @ [\<lparr>pq_category = pi_category p, pq_rule = tc_rule t,
              pq_audience = tc_audience t, pq_list = tc_price t, pq_paid = 0\<rparr>],
           ql_list := int64 (ql_list st + tc_price t)\<rparr>"
    if "ql_items st' = []"
    using that unfolding st'_def quote_step_def
    by (auto simp: Let_def item_def split: option.splits if_splits)
  note step = this
  show ?thesis
    unfolding loop_inv_def
  proof (intro impI)
    assume "ql_items st' = []"
    then obtain m t where m: "map_of (quote_list_categories ?ev ids s) (pi_category p) = Some m"
        "m \<le> age_on (pi_birth p) (qi_race_date inp)"
      and t: "select_tier ?c ?nat (qi_now inp) (ql_taken st) = Some t" and "ql_items st = []"
      and st': "st' = st\<lparr>ql_items := [], ql_taken := (ql_taken st)(tc_rule t := ql_taken st (tc_rule t) + 1),
           ql_lines := ql_lines st @ [\<lparr>pq_category = pi_category p, pq_rule = tc_rule t,
              pq_audience = tc_audience t, pq_list = tc_price t, pq_paid = 0\<rparr>],
           ql_list := int64 (ql_list st + tc_price t)\<rparr>"
      using step by blast
    from inv \<open>ql_items st = []\<close> have old: "length (ql_lines st) = length ps"
      "\<forall>j<length ps. line_ok s inp (ps ! j) (take j (ql_lines st)) (ql_lines st ! j)"
      "ql_taken st = lines_taken (ql_lines st)" "ql_list st = sum64 (map pq_list (ql_lines st))"
      by (auto simp: loop_inv_def)
    have cat: "\<exists>c\<in>set (categories s). ec_id c = pi_category p \<and> ec_event c = ?ev
        \<and> ec_min_age c \<le> age_on (pi_birth p) (qi_race_date inp)"
      using map_of_categories [OF m(1)] m(2) by auto
    have tiers: "set ?c = category_tiers s ?ev (pi_category p)" using p by (simp only: set_candidates if_True)
    have new: "line_ok s inp p (ql_lines st) (ql_lines st' ! length ps)"
      using cat select_tier_Some [OF t] old(3) unfolding tiers
      by (auto simp: line_ok_def Let_def st' old(1) nth_append intro!: bexI [of _ t])
    show "length (ql_lines st') = length (ps @ [p])
      \<and> (\<forall>j<length (ps @ [p]). line_ok s inp ((ps @ [p]) ! j) (take j (ql_lines st')) (ql_lines st' ! j))
      \<and> ql_taken st' = lines_taken (ql_lines st')
      \<and> ql_list st' = sum64 (map pq_list (ql_lines st'))"
      using new old
      by (auto simp: st' less_Suc_eq nth_append sum64_def lines_taken_def fun_eq_iff)
  qed
qed

lemma quote_lines_inv: "loop_inv s inp (qi_participants inp) (quote_lines inp s)"
proof -
  let ?ids = "quote_category_ids (qi_participants inp)"
  let ?f = "quote_step inp (quote_list_categories (qi_event inp) ?ids s)
                   (quote_list_tier_candidates (qi_event inp) ?ids s)"
  let ?st0 = "\<lparr>ql_items = [], ql_taken = (\<lambda>_. 0), ql_lines = [], ql_list = 0\<rparr>"
  have "loop_inv s inp ps (fold ?f (enumerate 0 ps) ?st0)"
    if "set ps \<subseteq> set (qi_participants inp)" for ps
    using that
  proof (induction ps rule: rev_induct)
    case Nil
    show ?case by (simp add: loop_inv_def lines_taken_def sum64_def fun_eq_iff)
  next
    case (snoc p ps)
    then show ?case
      by (simp add: enumerate_append_eq quote_step_inv set_quote_category_ids)
  qed
  then show ?thesis by (simp add: quote_lines_def Let_def)
qed

section \<open>The amounts\<close>

text \<open>
  Price rules within the bound under which ten participants stay within
  \<open>alloc_limit\<close>; the schema keeps prices from being negative.
\<close>

definition price_limit :: int where "price_limit = 303700049"

definition prices_ok :: "db \<Rightarrow> bool" where
  "prices_ok s \<longleftrightarrow> (\<forall>r\<in>set (price_rules s). 0 \<le> pr_price r \<and> pr_price r \<le> price_limit)"

lemma line_ok_price:
  "prices_ok s \<Longrightarrow> line_ok s inp p prior l \<Longrightarrow> 0 \<le> pq_list l \<and> pq_list l \<le> price_limit"
  by (auto simp: prices_ok_def line_ok_def Let_def category_tiers_def tier_of_row_def)

lemma quote_order_Inr:
  assumes "quote_order s inp = Inr q"
  obtains paid where
    "ql_items (quote_lines inp s) = []"
    "quote_coupon s inp (q_list q) = Inr (q_coupon q, q_coupon_discount q)"
    "quote_ident s inp (int64 (q_list q - q_coupon_discount q)) = Inr (q_ident q)"
    "q_discount q = int64 (q_coupon_discount q + q_ident q)"
    "q_amount q = int64 (q_list q - q_discount q)" "q_currency q = ''USD''"
    "q_list q = ql_list (quote_lines inp s)"
    "allocate (map pq_list (ql_lines (quote_lines inp s))) (q_discount q) = Some paid"
    "q_participants q = set_paid (ql_lines (quote_lines inp s)) paid"
  using assms unfolding quote_order_def
  by (auto simp: errE Let_def split: option.splits prod.splits)

lemma length_set_paid [simp]: "length (set_paid ls paid) = min (length ls) (length paid)"
  by (simp add: set_paid_def)

lemma nth_set_paid:
  "i < length ls \<Longrightarrow> i < length paid \<Longrightarrow> set_paid ls paid ! i = (ls ! i)\<lparr>pq_paid := paid ! i\<rparr>"
  by (simp add: set_paid_def)

lemma map_set_paid:
  "length paid = length ls \<Longrightarrow> map pq_paid (set_paid ls paid) = paid"
  "length paid = length ls \<Longrightarrow> map pq_list (set_paid ls paid) = map pq_list ls"
  by (auto simp: nth_set_paid intro!: nth_equalityI)

lemma line_ok_paid [simp]:
  "line_ok s inp p prior (l\<lparr>pq_paid := v\<rparr>) = line_ok s inp p prior l"
  by (simp add: line_ok_def)

lemma lines_taken_paid:
  "length ls \<le> length paid \<Longrightarrow> lines_taken (take j (set_paid ls paid)) = lines_taken (take j ls)"
proof -
  assume len: "length ls \<le> length paid"
  have "map pq_rule (set_paid ls paid) = map pq_rule ls"
    using len by (intro nth_equalityI) (auto simp: nth_set_paid)
  then have eq: "map pq_rule (take j (set_paid ls paid)) = map pq_rule (take j ls)" by (metis take_map)
  have "lines_taken xs = (\<lambda>r. int (length (filter (\<lambda>x. x = r) (map pq_rule xs))))" for xs
    by (simp add: fun_eq_iff lines_taken_def rows_where_def filter_map o_def)
  then show ?thesis by (simp only: eq)
qed

lemma line_ok_prior: "lines_taken prior = lines_taken prior' \<Longrightarrow> line_ok s inp p prior l = line_ok s inp p prior' l"
  by (simp add: line_ok_def)

lemma quote_ident_bounds:
  assumes "quote_ident s inp after = Inr n" and "after < 9223372036854775808" and "0 \<le> after"
  shows "0 \<le> n" "n \<le> 50" "n \<le> after" "0 < after \<Longrightarrow> n < after"
    "\<And>a. qi_account inp = Some a \<Longrightarrow> 0 < n \<Longrightarrow> after - n \<notin> set (quote_list_open_order_amounts a s)"
proof -
  have "n = 0 \<or> (\<exists>a m. qi_account inp = Some a \<and> 0 < after
      \<and> n = pick_ident_offset after (quote_list_open_order_amounts a s) m)"
    using assms(1) unfolding quote_ident_def pick_ident_offset_locked_def
    by (auto simp: errE split: option.splits if_splits)
  then have "n = 0 \<or> (\<exists>a. qi_account inp = Some a \<and> 1 \<le> n \<and> n \<le> 50 \<and> n < after
      \<and> after - n \<notin> set (quote_list_open_order_amounts a s))"
    using assms(2) by (metis (no_types, lifting) min.bounded_iff pick_ident_offset_cases zle_diff1_eq)
  then show "0 \<le> n" "n \<le> 50" "n \<le> after" "0 < after \<Longrightarrow> n < after"
    "\<And>a. qi_account inp = Some a \<Longrightarrow> 0 < n \<Longrightarrow> after - n \<notin> set (quote_list_open_order_amounts a s)"
    using assms(3) by auto
qed

lemma quote_coupon_bounds:
  assumes "quote_coupon s inp l = Inr (c, disc)" and "0 \<le> l" and "l \<le> alloc_limit"
  shows "0 \<le> disc \<and> disc \<le> l"
  using assms coupon_discount_bounds [of l] unfolding quote_coupon_def
  by (auto simp: errE Let_def alloc_limit_def split: if_splits)

text \<open>
  The quote, as the order uses it: one line per participant, each line as
  promised, a list amount that is the sum of the list prices, a discount that
  is coupon plus identification offset, an amount between zero and the list
  amount, and paid shares that are fair and add up to the amount.
\<close>

definition quote_ok :: "db \<Rightarrow> quote_input \<Rightarrow> quote \<Rightarrow> bool" where
  "quote_ok s inp q \<longleftrightarrow>
     length (q_participants q) = length (qi_participants inp)
   \<and> (\<forall>j<length (q_participants q).
        line_ok s inp (qi_participants inp ! j) (take j (q_participants q)) (q_participants q ! j)
      \<and> 0 \<le> pq_paid (q_participants q ! j) \<and> pq_paid (q_participants q ! j) \<le> pq_list (q_participants q ! j))
   \<and> q_list q = sum_list (map pq_list (q_participants q))
   \<and> 0 \<le> q_coupon_discount q \<and> 0 \<le> q_ident q \<and> q_ident q \<le> 50
   \<and> q_discount q = q_coupon_discount q + q_ident q \<and> q_discount q \<le> q_list q
   \<and> q_amount q = q_list q - q_discount q
   \<and> sum_list (map pq_paid (q_participants q)) = q_amount q"

lemma quote_order_ok:
  assumes q: "quote_order s inp = Inr q" and ok: "prices_ok s" and n: "length (qi_participants inp) \<le> 10"
  shows "quote_ok s inp q"
proof -
  let ?st = "quote_lines inp s" and ?P = "qi_participants inp"
  let ?prices = "map pq_list (ql_lines ?st)"
  from q obtain paid where e: "ql_items ?st = []"
    "quote_coupon s inp (q_list q) = Inr (q_coupon q, q_coupon_discount q)"
    "quote_ident s inp (int64 (q_list q - q_coupon_discount q)) = Inr (q_ident q)"
    "q_discount q = int64 (q_coupon_discount q + q_ident q)"
    "q_amount q = int64 (q_list q - q_discount q)"
    "q_list q = ql_list ?st" "allocate ?prices (q_discount q) = Some paid"
    "q_participants q = set_paid (ql_lines ?st) paid" by (rule quote_order_Inr)
  from quote_lines_inv [of s inp] e(1)
  have L: "length (ql_lines ?st) = length ?P"
    "\<forall>j<length ?P. line_ok s inp (?P ! j) (take j (ql_lines ?st)) (ql_lines ?st ! j)"
    "ql_list ?st = sum64 ?prices" by (auto simp: loop_inv_def)
  have rng: "\<forall>p\<in>set ?prices. 0 \<le> p \<and> p \<le> price_limit"
  proof
    fix p assume "p \<in> set ?prices"
    then obtain j where "j < length ?P" "p = pq_list (ql_lines ?st ! j)"
      using L(1) by (auto simp: in_set_conv_nth)
    with L(2) line_ok_price [OF ok] show "0 \<le> p \<and> p \<le> price_limit" by blast
  qed
  define T where "T = sum_list ?prices"
  have "sum_list (map id ?prices) \<le> int (length ?prices) * price_limit"
    by (rule sum_list_bound) (use rng in auto)
  also have "\<dots> \<le> 10 * price_limit" using n L(1) by (simp add: price_limit_def)
  finally have lim: "T \<le> alloc_limit" by (simp add: T_def price_limit_def alloc_limit_def)
  have T0: "0 \<le> T" unfolding T_def using rng by (intro sum_list_nonneg) auto
  have list: "q_list q = T"
    using e(6) L(3) rng lim by (simp add: sum64_eq T_def alloc_limit_def)
  have cd: "0 \<le> q_coupon_discount q" "q_coupon_discount q \<le> T"
    using quote_coupon_bounds [OF e(2)] T0 lim list by auto
  have after: "int64 (q_list q - q_coupon_discount q) = T - q_coupon_discount q"
    using cd list T0 lim by (auto intro!: int64_id simp: alloc_limit_def)
  note qi = quote_ident_bounds [OF e(3)[unfolded after]]
  have id: "0 \<le> q_ident q" "q_ident q \<le> 50" "q_ident q \<le> T - q_coupon_discount q"
    using qi cd lim by (auto simp: alloc_limit_def)
  have disc: "q_discount q = q_coupon_discount q + q_ident q"
    using e(4) cd id lim by (auto intro!: int64_id simp: alloc_limit_def)
  have amt: "q_amount q = T - q_discount q"
    using e(5) cd id lim disc list by (auto intro!: int64_id simp: alloc_limit_def)
  have d0: "0 \<le> q_discount q" "q_discount q \<le> T" using disc cd id by auto
  have alloc: "length paid = length ?prices \<and> sum_list paid = T - q_discount q
      \<and> (\<forall>i<length ?prices. 0 \<le> paid ! i \<and> paid ! i \<le> ?prices ! i)"
  proof (cases "T = 0")
    case True
    with rng e(7) have "paid = map (\<lambda>_. 0) ?prices" using allocate_zero [of ?prices] by (simp add: T_def)
    with rng True d0 show ?thesis by (auto simp: o_def)
  next
    case False
    with allocate_fair [of ?prices T "q_discount q" "q_discount q"] e(7) rng T0 lim d0
    show ?thesis by (auto simp: T_def fair_share_def min_def max_def)
  qed
  then have len: "length paid = length (ql_lines ?st)" by simp
  show ?thesis
    unfolding quote_ok_def
    using L alloc len disc amt list id cd d0
    by (auto simp: e(8) nth_set_paid map_set_paid T_def lines_taken_paid
        line_ok_prior [OF lines_taken_paid [of "ql_lines ?st" paid]])
qed

section \<open>Witness data\<close>

definition sample_quote_input :: quote_input where
  "sample_quote_input = \<lparr>qi_event = 1, qi_race_date = date_time 2026 12 6, qi_coupon = '' run10 '',
     qi_participants = [\<lparr>pi_category = 1, pi_nationality = ''kh'', pi_birth = date_time 1990 1 1\<rparr>,
                        \<lparr>pi_category = 1, pi_nationality = ''KH'', pi_birth = date_time 2000 2 29\<rparr>],
     qi_now = sample_now, qi_account = Some 1\<rparr>"

definition sample_quote :: quote where
  "sample_quote =
     \<lparr>q_participants =
        [\<lparr>pq_category = 1, pq_rule = 2, pq_audience = ''LOCAL'', pq_list = 1500, pq_paid = 1350\<rparr>,
         \<lparr>pq_category = 1, pq_rule = 1, pq_audience = ''ALL'', pq_list = 2500, pq_paid = 2249\<rparr>],
      q_list = 4000, q_coupon = Some 1, q_coupon_discount = 400, q_ident = 1, q_discount = 401,
      q_amount = 3599, q_currency = ''USD''\<rparr>"

lemma sample_quote_run: "quote_order sample_db sample_quote_input = Inr sample_quote"
  by code_simp

lemma sample_prices_ok: "prices_ok sample_db"
  by code_simp

text \<open>The calendar date on which someone born on \<open>b\<close> turns \<open>n\<close>.\<close>

definition birthday :: "int \<times> int \<times> int \<Rightarrow> int \<Rightarrow> int \<times> int \<times> int" where
  "birthday b n =
     (let (y, m, d) = b
      in if m = 2 \<and> d = 29 \<and> \<not> is_leap (y + n) then (y + n, 3, 1) else (y + n, m, d))"

section \<open>Properties\<close>

text \<open>\<open>SelectTier\<close> returns an open candidate (audience, sale window and quota all
  allow it, counting the seats this order has taken already) with the least price, then
  sort order, then id; it finds none only when no candidate is open.\<close>

theorem select_tier_correct:
  "case select_tier cands nationality now taken of
     None \<Rightarrow> (\<forall>c\<in>set cands. \<not> tier_open nationality now taken c)
   | Some t \<Rightarrow> t \<in> set cands \<and> tier_open nationality now taken t
       \<and> (\<forall>c\<in>set cands. tier_open nationality now taken c \<longrightarrow>
            (tc_price t, tc_sort t, tc_rule t) \<le> (tc_price c, tc_sort c, tc_rule c))"
proof (cases "select_tier cands nationality now taken")
  case None
  then show ?thesis using select_loop_None [of nationality now taken None cands] by (simp add: select_tier_def)
next
  case (Some t)
  then show ?thesis
    using select_tier_Some [OF Some] by (simp add: tier_key_def)
qed

lemma select_tier_correct_witness:
  "map_option tc_rule (select_tier (map tier_of_row
        [sample_rule 1 ''ALL'' 2500 None, sample_rule 2 ''LOCAL'' 1500 (Some 1)]) ''KH'' 0 (\<lambda>_. 0)) = Some 2
   \<and> (case select_tier (map tier_of_row
        [sample_rule 1 ''ALL'' 2500 None, sample_rule 2 ''LOCAL'' 1500 (Some 1)]) ''KH'' 0 (\<lambda>_. 0) of
        None \<Rightarrow> False | Some t \<Rightarrow> tier_open ''KH'' 0 (\<lambda>_. 0) t)"
proof -
  let ?cs = "map tier_of_row [sample_rule 1 ''ALL'' 2500 None, sample_rule 2 ''LOCAL'' 1500 (Some 1)]"
  have run: "select_tier ?cs ''KH'' 0 (\<lambda>_. 0) = Some (tier_of_row (sample_rule 2 ''LOCAL'' 1500 (Some 1)))"
    by code_simp
  from select_tier_correct [of ?cs "''KH''" 0 "\<lambda>_. 0"]
  show ?thesis unfolding run by (simp add: tier_of_row_def sample_rule_def less_eq_prod_def)
qed

text \<open>\<open>AgeOn\<close> is the number of birthdays reached: the race date lies on or after the
  birthday of that age and before the next one, where a birthday on 29 February falls on
  1 March in a year that is not a leap year.\<close>

theorem age_on_birthday:
  "birthday (civil_date birth) (age_on birth race) \<le> civil_date race
   \<and> civil_date race < birthday (civil_date birth) (age_on birth race + 1)"
proof -
  have "birthday b (age_of b r) \<le> r \<and> r < birthday b (age_of b r + 1)" for b r
  proof -
    obtain y m d ry rm rd where "b = (y, m, d)" "r = (ry, rm, rd)" by (cases b, cases r) auto
    then show ?thesis by (simp add: birthday_def Let_def split: if_splits) auto
  qed
  then show ?thesis by (simp add: age_on_def)
qed

text \<open>Up to the amount where a percentage fits in \<open>int64\<close>, a coupon takes off at least
  nothing and at most the list amount.\<close>

theorem coupon_discount_range:
  assumes "0 \<le> list_amount" and "list_amount \<le> 92233720368547758"
  shows "0 \<le> coupon_discount ty v list_amount \<and> coupon_discount ty v list_amount \<le> list_amount"
  using assms by (rule coupon_discount_bounds)

lemma coupon_discount_range_witness:
  "coupon_discount ''PERCENT'' 33 1999 = 659 \<and> coupon_discount ''PERCENT'' 33 1999 \<le> 1999"
proof -
  have "coupon_discount ''PERCENT'' 33 1999 = 659" by code_simp
  with coupon_discount_range [of 1999 "''PERCENT''" 33] show ?thesis by simp
qed

text \<open>C35: \<open>Allocate\<close> never indexes out of range, gives every participant a share between
  zero and the list price that differs from the exact proportion by less than a cent, and
  the shares add up to the total less the (clamped) discount.\<close>

theorem allocate_correct:
  fixes ps :: "int list" and discount :: int
  assumes "\<forall>p\<in>set ps. 0 \<le> p" and "0 < sum_list ps" and "sum_list ps \<le> alloc_limit"
  defines "d \<equiv> min (max discount 0) (sum_list ps)"
  shows "\<exists>paid. allocate ps discount = Some paid \<and> length paid = length ps
    \<and> sum_list paid = sum_list ps - d
    \<and> (\<forall>i<length ps. 0 \<le> paid ! i \<and> paid ! i \<le> ps ! i
         \<and> \<bar>sum_list ps * paid ! i - (sum_list ps - d) * ps ! i\<bar> < sum_list ps)"
  using allocate_fair [OF assms(1) refl assms(2,3), of d discount] d_def
  by (simp add: fair_share_def)

lemma allocate_correct_witness:
  "\<exists>paid. allocate [1000, 1000, 1000] 100 = Some paid \<and> sum_list paid = 2900"
  using allocate_correct [of "[1000, 1000, 1000]" 100] by (auto simp: alloc_limit_def)

text \<open>Above the bound the product of the waiver of one price is negative, and more than one cent is left to hand out.\<close>

lemma allocate_one_wraps:
  assumes "alloc_limit < p" and "p < 2 ^ 32"
  shows "allocate [p] p = None"
proof -
  let ?w = "18446744073709551616 - p * p"
  have p: "3037000500 \<le> p" "p < 4294967296" using assms by (simp_all add: alloc_limit_def)
  have "3037000500 * 3037000500 \<le> p * p" using p by (intro mult_mono) simp_all
  moreover have "p * p < 4294967296 * 4294967296" using p by (intro mult_strict_mono) simp_all
  ultimately have pp: "9223372036854775808 \<le> p * p" "p * p < 18446744073709551616" by simp_all
  have "(p * p + 9223372036854775808) mod 18446744073709551616 = (p * p - 9223372036854775808) mod 18446744073709551616"
    by (rule mod_eq_dvd_iff [THEN iffD2]) simp
  with pp have "int64 (p * p) = p * p - 18446744073709551616" by (simp add: wrap_int_def mod_pos_pos_trivial)
  with pp have w: "0 < ?w" "?w \<le> 9223372036854775808" "int64 (p * p) = - ?w" by simp_all
  define q where "q = ?w div p"
  have q: "0 \<le> q" using p w(1) by (simp add: q_def pos_imp_zdiv_nonneg_iff)
  have "?w div p \<le> ?w div 2" using p w(1) by (intro zdiv_mono2) simp_all
  then have q2: "q \<le> 4611686018427387904" using w(2) by (simp add: q_def)
  have sh: "alloc_share p p p = - q"
    using p w(1) sdiv_nonneg [of ?w p] unfolding alloc_share_def w(3) q_def by (simp only: minus_sdiv_eq)
  have "sum64 [p] = p" "sum64 (map (alloc_share p p) [p]) = - q"
    using p q q2 by (simp_all add: sum64_def sh int64_id)
  moreover have "int64 (p + q) = p + q" using p q q2 by (intro int64_id) simp_all
  ultimately show ?thesis using p q by (simp add: allocate_def Let_def sh enumerate_eq_zip)
qed

text \<open>C40: The bound of C35 is exact for the waiver of one price, up to forty-two million dollars: below it the whole
  price is waived; above it the product wraps to a negative number and the last loop of \<open>Allocate\<close> indexes past the end
  of \<open>rems\<close>, a panic.\<close>

theorem waiver_panics_above_bound:
  assumes "0 < p" and "p < 2 ^ 32"
  shows "allocate [p] (coupon_discount ''WAIVER'' v p) = (if p \<le> alloc_limit then Some [0] else None)"
proof -
  have d: "coupon_discount ''WAIVER'' v p = p" using assms(1) by (simp add: coupon_discount_def)
  show ?thesis
  proof (cases "p \<le> alloc_limit")
    case True
    with assms(1) allocate_fair [of "[p]" p p p] obtain paid where "allocate [p] p = Some paid" "length paid = 1" "sum_list paid = 0"
      by auto
    then show ?thesis using True d by (auto simp: length_Suc_conv)
  next
    case False
    with allocate_one_wraps assms(2) d show ?thesis by simp
  qed
qed

lemma waiver_panics_above_bound_witness:
  "allocate [4000000000] (coupon_discount ''WAIVER'' 0 4000000000) = None
   \<and> allocate [4000] (coupon_discount ''WAIVER'' 0 4000) = Some [0]"
  using waiver_panics_above_bound [of 4000000000 0] waiver_panics_above_bound [of 4000 0] by (simp add: alloc_limit_def)

text \<open>\<open>PickIdentOffset\<close> returns the least offset from 1 to the limit that gives an
  amount no open order has, and 0 exactly when every offset is taken.\<close>

theorem pick_ident_offset_least:
  fixes amount m :: int and taken :: "int list"
  assumes "0 < amount" and "amount < 9223372036854775808"
  defines "n \<equiv> pick_ident_offset amount taken m"
  shows "(n = 0 \<longleftrightarrow> (\<forall>k. 1 \<le> k \<and> k \<le> min m (min 50 (amount - 1)) \<longrightarrow> amount - k \<in> set taken))
    \<and> (n \<noteq> 0 \<longrightarrow> 1 \<le> n \<and> n \<le> min m (min 50 (amount - 1)) \<and> amount - n \<notin> set taken
         \<and> (\<forall>k. 1 \<le> k \<and> k < n \<longrightarrow> amount - k \<in> set taken))"
  using pick_ident_offset_cases [OF assms(1,2), of n taken m] n_def by fastforce

lemma pick_ident_offset_least_witness:
  "pick_ident_offset 2500 [2499, 2498, 2496] 50 = 3 \<and> 2500 - 3 \<notin> set [2499, 2498, 2496 :: int]"
proof -
  have "pick_ident_offset 2500 [2499, 2498, 2496] 50 = 3" by code_simp
  with pick_ident_offset_least [of 2500 "[2499, 2498, 2496]" 50] show ?thesis by simp
qed

text \<open>C34: a successful quote has one line per participant, each in a category of the event
  whose minimum age the runner has reached, priced by the least open price rule of that category
  given the earlier lines; its list amount is the sum of the list prices, its discount is coupon
  plus identification offset (at most 50 cents) and at most the list amount, and the paid shares
  lie between zero and the list prices and add up to the amount due.\<close>

theorem quote_correct:
  assumes "quote_order s inp = Inr q" and "prices_ok s" and "length (qi_participants inp) \<le> 10"
  shows "length (q_participants q) = length (qi_participants inp)
    \<and> (\<forall>j<length (q_participants q).
         line_ok s inp (qi_participants inp ! j) (take j (q_participants q)) (q_participants q ! j)
       \<and> 0 \<le> pq_paid (q_participants q ! j) \<and> pq_paid (q_participants q ! j) \<le> pq_list (q_participants q ! j))
    \<and> q_list q = sum_list (map pq_list (q_participants q))
    \<and> 0 \<le> q_coupon_discount q \<and> 0 \<le> q_ident q \<and> q_ident q \<le> 50
    \<and> q_discount q = q_coupon_discount q + q_ident q \<and> q_discount q \<le> q_list q
    \<and> q_amount q = q_list q - q_discount q
    \<and> sum_list (map pq_paid (q_participants q)) = q_amount q"
  using quote_order_ok [OF assms] unfolding quote_ok_def .

lemma quote_correct_witness:
  "q_discount sample_quote \<le> q_list sample_quote
   \<and> sum_list (map pq_paid (q_participants sample_quote)) = 3599"
proof -
  have "length (qi_participants sample_quote_input) \<le> 10" by (simp add: sample_quote_input_def)
  from quote_correct [OF sample_quote_run sample_prices_ok this]
  show ?thesis by (simp add: sample_quote_def)
qed

end
