(* ===== verification/Counters.thy ===== *)
theory Counters
  imports Quote
begin

text \<open>
  \<open>internal/pricing/counters.go\<close>: the seat counters of categories, price rules
  and coupons.  An order reserves seats when it is placed, consumes them when
  it is paid and releases them when it expires or is cancelled.  The three
  kinds of counters obey one contract, the locale \<open>seat_counter\<close>, whose loop
  lemmas say what a whole sequence of statements does to a table.
\<close>

section \<open>Statements and loops of statements\<close>

text \<open>An \<open>:execrows\<close> update whose caller fails when no row is affected.\<close>

definition exec_rows :: "('r \<Rightarrow> bool) \<Rightarrow> ('r \<Rightarrow> 'r) \<Rightarrow> 'r list \<Rightarrow> 'r list option" where
  "exec_rows P f t = (if rows_where P t = 0 then None else Some (update_where P f t))"

lemma exec_rows_Some_iff:
  "exec_rows P f t = Some t' \<longleftrightarrow> (\<exists>r\<in>set t. P r) \<and> t' = update_where P f t"
  by (auto simp: exec_rows_def)

definition stmt_loop :: "('x \<Rightarrow> 'r list \<Rightarrow> 'r list option) \<Rightarrow> ('x \<Rightarrow> goerr) \<Rightarrow> 'x list \<Rightarrow> 'r list \<Rightarrow> 'r list res" where
  "stmt_loop stmt err =
     foldE (\<lambda>x t. case stmt x t of None \<Rightarrow> Inl (err x) | Some t' \<Rightarrow> Inr t')"

lemma stmt_loop_simps [simp]:
  "stmt_loop stmt err [] t = Inr t"
  "stmt_loop stmt err (x # xs) t =
     (case stmt x t of None \<Rightarrow> Inl (err x) | Some t' \<Rightarrow> stmt_loop stmt err xs t')"
  by (simp_all add: stmt_loop_def split: option.split)

text \<open>Seats per key; \<open>groupSeats\<close> and the \<open>GROUP BY ... ORDER BY\<close> queries.\<close>

definition group_count :: "int list \<Rightarrow> (int \<times> int) list" where
  "group_count xs = map (\<lambda>i. (i, int (rows_where (\<lambda>x. x = i) xs))) (compact (sort xs))"

definition amount :: "(int \<times> int) list \<Rightarrow> int \<Rightarrow> int" where
  "amount xs k = (case map_of xs k of None \<Rightarrow> 0 | Some n \<Rightarrow> n)"

lemma amount_simps [simp]:
  "amount [] k = 0"
  "amount ((i, n) # xs) k = (if k = i then n else amount xs k)"
  by (simp_all add: amount_def)

lemma amount_notin: "k \<notin> fst ` set xs \<Longrightarrow> amount xs k = 0"
  by (simp add: amount_def map_of_eq_None_iff split: option.split) (metis option.distinct(1) map_of_eq_None_iff)

lemma distinct_group_count: "distinct (map fst (group_count xs))"
  using sorted_distinct_compact [of "sort xs"] by (simp add: group_count_def o_def)

lemma set_group_count:
  "set (group_count xs) = (\<lambda>i. (i, int (rows_where (\<lambda>x. x = i) xs))) ` set xs"
  by (simp add: group_count_def)

lemma amount_group_count: "amount (group_count xs) k = int (rows_where (\<lambda>x. x = k) xs)"
proof (cases "k \<in> set xs")
  case True
  then have "(k, int (rows_where (\<lambda>x. x = k) xs)) \<in> set (group_count xs)" by (simp add: set_group_count)
  then have "map_of (group_count xs) k = Some (int (rows_where (\<lambda>x. x = k) xs))"
    using distinct_group_count [of xs] by (simp add: map_of_eq_Some_iff)
  then show ?thesis by (simp add: amount_def)
next
  case False
  then have "rows_where (\<lambda>x. x = k) xs = 0" by auto
  moreover have "k \<notin> fst ` set (group_count xs)" using False by (auto simp: set_group_count)
  ultimately show ?thesis by (simp add: amount_notin)
qed

section \<open>Counter rows\<close>

locale counter_row =
  fixes key :: "'r \<Rightarrow> int" and used :: "'r \<Rightarrow> int" and reserved :: "'r \<Rightarrow> int"
    and put :: "int \<Rightarrow> int \<Rightarrow> 'r \<Rightarrow> 'r"
  assumes key_put [simp]: "key (put u v r) = key r"
    and used_put [simp]: "used (put u v r) = u"
    and reserved_put [simp]: "reserved (put u v r) = v"
    and put_same [simp]: "put (used r) (reserved r) r = r"
    and put_put [simp]: "put u v (put u' v' r) = put u v r"
begin

text \<open>Moving seats row by row: \<open>du k\<close> used and \<open>dv k\<close> reserved seats are added to key \<open>k\<close>.\<close>

definition shift :: "(int \<Rightarrow> int) \<Rightarrow> (int \<Rightarrow> int) \<Rightarrow> 'r list \<Rightarrow> 'r list" where
  "shift du dv t = map (\<lambda>r. put (used r + du (key r)) (reserved r + dv (key r)) r) t"

lemma map_key_shift [simp]: "map key (shift du dv t) = map key t"
  by (simp add: shift_def)

lemma shift_zero [simp]: "shift (\<lambda>_. 0) (\<lambda>_. 0) t = t"
  by (simp add: shift_def map_idI)

lemma shift_shift: "shift du dv (shift du' dv' t) = shift (\<lambda>k. du k + du' k) (\<lambda>k. dv k + dv' k) t"
  by (simp add: shift_def algebra_simps)

lemma shift_cong:
  "(\<And>r. r \<in> set t \<Longrightarrow> du (key r) = du' (key r) \<and> dv (key r) = dv' (key r)) \<Longrightarrow> shift du dv t = shift du' dv' t"
  by (simp add: shift_def)

lemma ex_shift_other:
  assumes "j \<noteq> i"
  shows "(\<exists>r\<in>set (shift (\<lambda>k. if k = i then a else 0) (\<lambda>k. if k = i then b else 0) t). key r = j \<and> G r)
     \<longleftrightarrow> (\<exists>r\<in>set t. key r = j \<and> G r)"
  using assms by (auto simp: shift_def)

text \<open>A conditional update of the row of one key.\<close>

lemma exec_rows_shift:
  assumes "distinct (map key t)"
  shows "exec_rows (\<lambda>r. key r = i \<and> P r) (\<lambda>r. put (used r + a) (reserved r + b) r) t = Some t' \<longleftrightarrow>
      (\<exists>r\<in>set t. key r = i \<and> P r)
    \<and> t' = shift (\<lambda>k. if k = i then a else 0) (\<lambda>k. if k = i then b else 0) t"
proof -
  have "update_where (\<lambda>r. key r = i \<and> P r) (\<lambda>r. put (used r + a) (reserved r + b) r) t
      = shift (\<lambda>k. if k = i then a else 0) (\<lambda>k. if k = i then b else 0) t"
    if "r \<in> set t" "key r = i" "P r" for r
  proof -
    have "P r'" if "r' \<in> set t" "key r' = i" for r'
      using distinct_key_eq [OF assms that(1) \<open>r \<in> set t\<close>] that \<open>key r = i\<close> \<open>P r\<close> by auto
    then show ?thesis by (auto simp: update_where_def shift_def)
  qed
  then show ?thesis by (auto simp: exec_rows_Some_iff)
qed

text \<open>A loop of statements that each move \<open>a n\<close> and \<open>b n\<close> seats of one key.\<close>

lemma stmt_loop_shift:
  assumes law: "\<And>i n t t'. distinct (map key t) \<Longrightarrow> stmt (i, n) t = Some t' \<longleftrightarrow>
        (\<exists>r\<in>set t. key r = i \<and> G n r)
      \<and> t' = shift (\<lambda>k. if k = i then a * n else 0) (\<lambda>k. if k = i then b * n else 0) t"
    and "distinct (map fst xs)" and "distinct (map key t)"
  shows "stmt_loop stmt err xs t = Inr t' \<longleftrightarrow>
      (\<forall>(i, n)\<in>set xs. \<exists>r\<in>set t. key r = i \<and> G n r)
    \<and> t' = shift (\<lambda>k. a * amount xs k) (\<lambda>k. b * amount xs k) t"
  using assms(2,3)
proof (induction xs arbitrary: t)
  case Nil
  then show ?case by auto
next
  case (Cons x xs)
  obtain i n where x: "x = (i, n)" by (cases x)
  let ?t = "shift (\<lambda>k. if k = i then a * n else 0) (\<lambda>k. if k = i then b * n else 0) t"
  have i: "i \<notin> fst ` set xs" "distinct (map fst xs)" using Cons.prems(1) by (auto simp: x)
  have "stmt_loop stmt err (x # xs) t = Inr t' \<longleftrightarrow>
      (\<exists>r\<in>set t. key r = i \<and> G n r) \<and> stmt_loop stmt err xs ?t = Inr t'"
  proof (cases "stmt (i, n) t")
    case None
    with law [OF Cons.prems(2), of i n ?t] have "\<not> (\<exists>r\<in>set t. key r = i \<and> G n r)" by simp
    with None show ?thesis by (simp add: x)
  next
    case (Some t1)
    with law [OF Cons.prems(2), of i n t1] have "\<exists>r\<in>set t. key r = i \<and> G n r" "t1 = ?t" by simp_all
    with Some show ?thesis unfolding x by simp
  qed
  also have "stmt_loop stmt err xs ?t = Inr t' \<longleftrightarrow>
      (\<forall>(j, m)\<in>set xs. \<exists>r\<in>set ?t. key r = j \<and> G m r)
    \<and> t' = shift (\<lambda>k. a * amount xs k) (\<lambda>k. b * amount xs k) ?t"
    using i(2) Cons.prems(2) by (intro Cons.IH) auto
  also have "(\<forall>(j, m)\<in>set xs. \<exists>r\<in>set ?t. key r = j \<and> G m r)
      \<longleftrightarrow> (\<forall>(j, m)\<in>set xs. \<exists>r\<in>set t. key r = j \<and> G m r)"
  proof (intro ball_cong refl, clarify)
    fix j m assume "(j, m) \<in> set xs"
    with i(1) have "j \<noteq> i" by force
    then show "(\<exists>r\<in>set ?t. key r = j \<and> G m r) \<longleftrightarrow> (\<exists>r\<in>set t. key r = j \<and> G m r)"
      by (rule ex_shift_other)
  qed
  also have "shift (\<lambda>k. a * amount xs k) (\<lambda>k. b * amount xs k) ?t
      = shift (\<lambda>k. a * amount (x # xs) k) (\<lambda>k. b * amount (x # xs) k) t"
    unfolding shift_shift by (rule shift_cong) (auto simp: x amount_notin [OF i(1)])
  finally have eq: "stmt_loop stmt err (x # xs) t = Inr t' \<longleftrightarrow>
      (\<exists>r\<in>set t. key r = i \<and> G n r)
    \<and> (\<forall>(j, m)\<in>set xs. \<exists>r\<in>set t. key r = j \<and> G m r)
    \<and> t' = shift (\<lambda>k. a * amount (x # xs) k) (\<lambda>k. b * amount (x # xs) k) t" .
  have "(\<forall>(j, m)\<in>set (x # xs). \<exists>r\<in>set t. key r = j \<and> G m r) \<longleftrightarrow>
      (\<exists>r\<in>set t. key r = i \<and> G n r) \<and> (\<forall>(j, m)\<in>set xs. \<exists>r\<in>set t. key r = j \<and> G m r)"
    by (simp add: x)
  with eq show ?case by (simp only: conj_assoc)
qed

end

section \<open>The contract of a counter table\<close>

text \<open>
  The three statements of a counter table, each given by what it does to a table
  whose keys are distinct: it affects a row exactly when the row of the key has
  room (\<open>reserve\<close>) or enough reserved seats (\<open>consume\<close>, \<open>release\<close>), and then
  moves the seats of that key only.
\<close>

locale seat_counter = counter_row key used reserved put
  for key used reserved :: "'r \<Rightarrow> int" and put :: "int \<Rightarrow> int \<Rightarrow> 'r \<Rightarrow> 'r" +
  fixes seat_limit :: "'r \<Rightarrow> int option" and active :: "'r \<Rightarrow> bool"
    and reserve consume release :: "int \<times> int \<Rightarrow> 'r list \<Rightarrow> 'r list option"
  assumes limit_put [simp]: "seat_limit (put u v r) = seat_limit r"
    and reserve_law: "distinct (map key t) \<Longrightarrow> reserve (i, n) t = Some t' \<longleftrightarrow>
        (\<exists>r\<in>set t. key r = i \<and> active r
           \<and> (case seat_limit r of None \<Rightarrow> True | Some q \<Rightarrow> used r + reserved r + n \<le> q))
      \<and> t' = shift (\<lambda>k. 0) (\<lambda>k. if k = i then n else 0) t"
    and consume_law: "distinct (map key t) \<Longrightarrow> consume (i, n) t = Some t' \<longleftrightarrow>
        (\<exists>r\<in>set t. key r = i \<and> n \<le> reserved r)
      \<and> t' = shift (\<lambda>k. if k = i then n else 0) (\<lambda>k. if k = i then - n else 0) t"
    and release_law: "distinct (map key t) \<Longrightarrow> release (i, n) t = Some t' \<longleftrightarrow>
        (\<exists>r\<in>set t. key r = i \<and> n \<le> reserved r)
      \<and> t' = shift (\<lambda>k. 0) (\<lambda>k. if k = i then - n else 0) t"
begin

definition room :: "int \<Rightarrow> 'r \<Rightarrow> bool" where
  "room n r \<longleftrightarrow> active r \<and> (case seat_limit r of None \<Rightarrow> True | Some q \<Rightarrow> used r + reserved r + n \<le> q)"

text \<open>No counter is negative and no limit exceeded: no overselling.\<close>

definition fits :: "'r \<Rightarrow> bool" where
  "fits r \<longleftrightarrow> 0 \<le> used r \<and> 0 \<le> reserved r
     \<and> (case seat_limit r of None \<Rightarrow> True | Some q \<Rightarrow> used r + reserved r \<le> q)"

lemma reserve_loop:
  assumes "distinct (map fst xs)" and "distinct (map key t)"
  shows "stmt_loop reserve err xs t = Inr t' \<longleftrightarrow>
      (\<forall>(i, n)\<in>set xs. \<exists>r\<in>set t. key r = i \<and> room n r) \<and> t' = shift (\<lambda>_. 0) (amount xs) t"
  using stmt_loop_shift [of reserve room 0 1, OF _ assms, of err t'] reserve_law
  by (simp add: room_def if_distrib cong: if_cong)

lemma consume_loop:
  assumes "distinct (map fst xs)" and "distinct (map key t)"
  shows "stmt_loop consume err xs t = Inr t' \<longleftrightarrow>
      (\<forall>(i, n)\<in>set xs. \<exists>r\<in>set t. key r = i \<and> n \<le> reserved r)
    \<and> t' = shift (amount xs) (\<lambda>k. - amount xs k) t"
  using stmt_loop_shift [of consume "\<lambda>n r. n \<le> reserved r" 1 "- 1", OF _ assms, of err t'] consume_law
  by (simp add: if_distrib cong: if_cong)

lemma release_loop:
  assumes "distinct (map fst xs)" and "distinct (map key t)"
  shows "stmt_loop release err xs t = Inr t' \<longleftrightarrow>
      (\<forall>(i, n)\<in>set xs. \<exists>r\<in>set t. key r = i \<and> n \<le> reserved r)
    \<and> t' = shift (\<lambda>_. 0) (\<lambda>k. - amount xs k) t"
  using stmt_loop_shift [of release "\<lambda>n r. n \<le> reserved r" 0 "- 1", OF _ assms, of err t'] release_law
  by (simp add: if_distrib cong: if_cong)

text \<open>Reserving never oversells, consuming and releasing keep every bound.\<close>

lemma reserve_loop_fits:
  assumes "stmt_loop reserve err xs t = Inr t'" and "distinct (map fst xs)" and "distinct (map key t)"
    and "\<forall>r\<in>set t. fits r" and "\<forall>(i, n)\<in>set xs. 0 \<le> n"
  shows "\<forall>r\<in>set t'. fits r"
proof
  fix r' assume "r' \<in> set t'"
  from assms(1) reserve_loop [OF assms(2,3)]
  have ok: "\<forall>(i, n)\<in>set xs. \<exists>r\<in>set t. key r = i \<and> room n r"
    and t': "t' = shift (\<lambda>_. 0) (amount xs) t" by auto
  from \<open>r' \<in> set t'\<close> obtain r where r: "r \<in> set t"
    "r' = put (used r) (reserved r + amount xs (key r)) r" by (auto simp: t' shift_def)
  show "fits r'"
  proof (cases "map_of xs (key r)")
    case None
    then have "amount xs (key r) = 0" by (simp add: amount_def)
    with r assms(4) show ?thesis by simp
  next
    case (Some n)
    then have n: "(key r, n) \<in> set xs" "amount xs (key r) = n"
      by (auto simp: amount_def dest: map_of_SomeD)
    with ok obtain r2 where "r2 \<in> set t" "key r2 = key r" "room n r2" by blast
    with distinct_key_eq [OF assms(3)] r(1) have "room n r" by metis
    moreover have "0 \<le> n" using n(1) assms(5) by blast
    ultimately show ?thesis using r n(2) assms(4) by (auto simp: fits_def room_def split: option.splits)
  qed
qed

lemma amount_le_reserved:
  assumes "\<forall>(i, n)\<in>set xs. \<exists>r\<in>set t. key r = i \<and> n \<le> reserved r" and "distinct (map key t)"
    and "\<forall>r\<in>set t. fits r" and "\<forall>(i, n)\<in>set xs. 0 \<le> n" and "r \<in> set t"
  shows "0 \<le> amount xs (key r) \<and> amount xs (key r) \<le> reserved r"
proof (cases "map_of xs (key r)")
  case None
  with assms(3,5) show ?thesis by (simp add: amount_def fits_def)
next
  case (Some n)
  then have n: "(key r, n) \<in> set xs" "amount xs (key r) = n"
    by (auto simp: amount_def dest: map_of_SomeD)
  with assms(1) obtain r2 where "r2 \<in> set t" "key r2 = key r" "n \<le> reserved r2" by blast
  moreover from n(1) assms(4) have "0 \<le> n" by blast
  ultimately show ?thesis using distinct_key_eq [OF assms(2)] assms(5) n(2) by metis
qed

lemma consume_loop_fits:
  assumes "stmt_loop consume err xs t = Inr t'" and "distinct (map fst xs)" and "distinct (map key t)"
    and "\<forall>r\<in>set t. fits r" and "\<forall>(i, n)\<in>set xs. 0 \<le> n"
  shows "\<forall>r\<in>set t'. fits r"
proof
  fix r' assume "r' \<in> set t'"
  from assms(1) consume_loop [OF assms(2,3)]
  have ok: "\<forall>(i, n)\<in>set xs. \<exists>r\<in>set t. key r = i \<and> n \<le> reserved r"
    and t': "t' = shift (amount xs) (\<lambda>k. - amount xs k) t" by auto
  from \<open>r' \<in> set t'\<close> obtain r where r: "r \<in> set t"
    "r' = put (used r + amount xs (key r)) (reserved r - amount xs (key r)) r" by (auto simp: t' shift_def)
  from amount_le_reserved [OF ok assms(3-5) r(1)] r assms(4) show "fits r'"
    by (auto simp: fits_def split: option.splits)
qed

lemma release_loop_fits:
  assumes "stmt_loop release err xs t = Inr t'" and "distinct (map fst xs)" and "distinct (map key t)"
    and "\<forall>r\<in>set t. fits r" and "\<forall>(i, n)\<in>set xs. 0 \<le> n"
  shows "\<forall>r\<in>set t'. fits r"
proof
  fix r' assume "r' \<in> set t'"
  from assms(1) release_loop [OF assms(2,3)]
  have ok: "\<forall>(i, n)\<in>set xs. \<exists>r\<in>set t. key r = i \<and> n \<le> reserved r"
    and t': "t' = shift (\<lambda>_. 0) (\<lambda>k. - amount xs k) t" by auto
  from \<open>r' \<in> set t'\<close> obtain r where r: "r \<in> set t"
    "r' = put (used r) (reserved r - amount xs (key r)) r" by (auto simp: t' shift_def)
  from amount_le_reserved [OF ok assms(3-5) r(1)] r assms(4) show "fits r'"
    by (auto simp: fits_def split: option.splits)
qed

text \<open>Releasing what was reserved restores the table.\<close>

lemma release_after_reserve:
  assumes "stmt_loop reserve err xs t = Inr t'" and "distinct (map fst xs)" and "distinct (map key t)"
    and "\<forall>r\<in>set t. fits r"
  shows "stmt_loop release err' xs t' = Inr t"
proof -
  from assms(1) reserve_loop [OF assms(2,3)]
  have ok: "\<forall>(i, n)\<in>set xs. \<exists>r\<in>set t. key r = i \<and> room n r"
    and t': "t' = shift (\<lambda>_. 0) (amount xs) t" by auto
  have d: "distinct (map key t')" using assms(3) by (simp add: t')
  have "\<forall>(i, n)\<in>set xs. \<exists>r\<in>set t'. key r = i \<and> n \<le> reserved r"
  proof clarify
    fix i n assume m: "(i, n) \<in> set xs"
    with ok obtain r where r: "r \<in> set t" "key r = i" by blast
    from m have "amount xs i = n" using assms(2) by (simp add: amount_def)
    with r assms(4) show "\<exists>r\<in>set t'. key r = i \<and> n \<le> reserved r"
      by (auto simp: t' shift_def fits_def intro!: bexI [of _ r])
  qed
  moreover have "shift (\<lambda>_. 0) (\<lambda>k. - amount xs k) t' = t"
    by (simp add: t' shift_shift)
  ultimately show ?thesis using release_loop [OF assms(2) d] by simp
qed

end

section \<open>The statements of \<open>pricing.sql.go\<close>\<close>

definition reserve_category_seats :: "int \<times> int \<Rightarrow> category_row list \<Rightarrow> category_row list option" where
  "reserve_category_seats = (\<lambda>(i, seats). exec_rows
     (\<lambda>c. ec_id c = i \<and> ec_used c + ec_reserved c + seats \<le> ec_capacity c)
     (\<lambda>c. c\<lparr>ec_reserved := ec_reserved c + seats\<rparr>))"

definition reserve_price_rule_seats :: "int \<times> int \<Rightarrow> price_rule_row list \<Rightarrow> price_rule_row list option" where
  "reserve_price_rule_seats = (\<lambda>(i, seats). exec_rows
     (\<lambda>r. pr_id r = i
        \<and> (case pr_quota r of None \<Rightarrow> True | Some q \<Rightarrow> pr_used r + pr_reserved r + seats \<le> q))
     (\<lambda>r. r\<lparr>pr_reserved := pr_reserved r + seats\<rparr>))"

text \<open>A coupon is reserved once per order: the statements move one use.\<close>

definition reserve_coupon_use :: "int \<Rightarrow> coupon_row list \<Rightarrow> coupon_row list option" where
  "reserve_coupon_use i = exec_rows
     (\<lambda>c. cp_id c = i \<and> cp_status c = ''ACTIVE'' \<and> cp_used c + cp_reserved c + 1 \<le> cp_quota c)
     (\<lambda>c. c\<lparr>cp_reserved := cp_reserved c + 1\<rparr>)"

definition consume_category_seats :: "int \<times> int \<Rightarrow> category_row list \<Rightarrow> category_row list option" where
  "consume_category_seats = (\<lambda>(i, seats). exec_rows
     (\<lambda>c. ec_id c = i \<and> ec_reserved c \<ge> seats)
     (\<lambda>c. c\<lparr>ec_reserved := ec_reserved c - seats, ec_used := ec_used c + seats\<rparr>))"

definition consume_price_rule_seats :: "int \<times> int \<Rightarrow> price_rule_row list \<Rightarrow> price_rule_row list option" where
  "consume_price_rule_seats = (\<lambda>(i, seats). exec_rows
     (\<lambda>r. pr_id r = i \<and> pr_reserved r \<ge> seats)
     (\<lambda>r. r\<lparr>pr_reserved := pr_reserved r - seats, pr_used := pr_used r + seats\<rparr>))"

definition consume_coupon_use :: "int \<Rightarrow> coupon_row list \<Rightarrow> coupon_row list option" where
  "consume_coupon_use i = exec_rows
     (\<lambda>c. cp_id c = i \<and> cp_reserved c \<ge> 1)
     (\<lambda>c. c\<lparr>cp_reserved := cp_reserved c - 1, cp_used := cp_used c + 1\<rparr>)"

definition release_category_seats :: "int \<times> int \<Rightarrow> category_row list \<Rightarrow> category_row list option" where
  "release_category_seats = (\<lambda>(i, seats). exec_rows
     (\<lambda>c. ec_id c = i \<and> ec_reserved c \<ge> seats)
     (\<lambda>c. c\<lparr>ec_reserved := ec_reserved c - seats\<rparr>))"

definition release_price_rule_seats :: "int \<times> int \<Rightarrow> price_rule_row list \<Rightarrow> price_rule_row list option" where
  "release_price_rule_seats = (\<lambda>(i, seats). exec_rows
     (\<lambda>r. pr_id r = i \<and> pr_reserved r \<ge> seats)
     (\<lambda>r. r\<lparr>pr_reserved := pr_reserved r - seats\<rparr>))"

definition release_coupon_use :: "int \<Rightarrow> coupon_row list \<Rightarrow> coupon_row list option" where
  "release_coupon_use i = exec_rows
     (\<lambda>c. cp_id c = i \<and> cp_reserved c \<ge> 1)
     (\<lambda>c. c\<lparr>cp_reserved := cp_reserved c - 1\<rparr>)"

section \<open>The three tables keep the contract\<close>

definition ec_put :: "int \<Rightarrow> int \<Rightarrow> category_row \<Rightarrow> category_row" where
  "ec_put u v c = c\<lparr>ec_used := u, ec_reserved := v\<rparr>"

definition pr_put :: "int \<Rightarrow> int \<Rightarrow> price_rule_row \<Rightarrow> price_rule_row" where
  "pr_put u v r = r\<lparr>pr_used := u, pr_reserved := v\<rparr>"

definition cp_put :: "int \<Rightarrow> int \<Rightarrow> coupon_row \<Rightarrow> coupon_row" where
  "cp_put u v c = c\<lparr>cp_used := u, cp_reserved := v\<rparr>"

interpretation cat_row: counter_row ec_id ec_used ec_reserved ec_put
  by unfold_locales (simp_all add: ec_put_def)

interpretation rule_row: counter_row pr_id pr_used pr_reserved pr_put
  by unfold_locales (simp_all add: pr_put_def)

interpretation coupon_row: counter_row cp_id cp_used cp_reserved cp_put
  by unfold_locales (simp_all add: cp_put_def)

text \<open>The statements write only the counters they change; \<open>put\<close> writes both.\<close>

lemma put_updates:
  "c\<lparr>ec_reserved := x\<rparr> = ec_put (ec_used c + 0) x c"
  "(ec_put z x c)\<lparr>ec_used := y\<rparr> = ec_put y x c"
  "r\<lparr>pr_reserved := x\<rparr> = pr_put (pr_used r + 0) x r"
  "(pr_put z x r)\<lparr>pr_used := y\<rparr> = pr_put y x r"
  "p\<lparr>cp_reserved := x\<rparr> = cp_put (cp_used p + 0) x p"
  "(cp_put z x p)\<lparr>cp_used := y\<rparr> = cp_put y x p"
  by (simp_all add: ec_put_def pr_put_def cp_put_def)

text \<open>The coupon statements for \<open>n\<close> uses, of which the code moves one at a time.\<close>

definition reserve_coupon_uses :: "int \<times> int \<Rightarrow> coupon_row list \<Rightarrow> coupon_row list option" where
  "reserve_coupon_uses = (\<lambda>(i, n). exec_rows
     (\<lambda>c. cp_id c = i \<and> cp_status c = ''ACTIVE'' \<and> cp_used c + cp_reserved c + n \<le> cp_quota c)
     (\<lambda>c. c\<lparr>cp_reserved := cp_reserved c + n\<rparr>))"

definition consume_coupon_uses :: "int \<times> int \<Rightarrow> coupon_row list \<Rightarrow> coupon_row list option" where
  "consume_coupon_uses = (\<lambda>(i, n). exec_rows (\<lambda>c. cp_id c = i \<and> cp_reserved c \<ge> n)
     (\<lambda>c. c\<lparr>cp_reserved := cp_reserved c - n, cp_used := cp_used c + n\<rparr>))"

definition release_coupon_uses :: "int \<times> int \<Rightarrow> coupon_row list \<Rightarrow> coupon_row list option" where
  "release_coupon_uses = (\<lambda>(i, n). exec_rows (\<lambda>c. cp_id c = i \<and> cp_reserved c \<ge> n)
     (\<lambda>c. c\<lparr>cp_reserved := cp_reserved c - n\<rparr>))"

lemma coupon_use_uses:
  "reserve_coupon_use i = reserve_coupon_uses (i, 1)"
  "consume_coupon_use i = consume_coupon_uses (i, 1)"
  "release_coupon_use i = release_coupon_uses (i, 1)"
  by (simp_all add: reserve_coupon_use_def consume_coupon_use_def release_coupon_use_def
      reserve_coupon_uses_def consume_coupon_uses_def release_coupon_uses_def)

interpretation cat: seat_counter ec_id ec_used ec_reserved ec_put
  "\<lambda>c. Some (ec_capacity c)" "\<lambda>_. True"
  reserve_category_seats consume_category_seats release_category_seats
proof
  fix t t' :: "category_row list" and i n :: int
  assume d: "distinct (map ec_id t)"
  note shift = cat_row.exec_rows_shift [OF d, of i]
  show "reserve_category_seats (i, n) t = Some t' \<longleftrightarrow>
      (\<exists>r\<in>set t. ec_id r = i \<and> True
         \<and> (case Some (ec_capacity r) of None \<Rightarrow> True | Some q \<Rightarrow> ec_used r + ec_reserved r + n \<le> q))
    \<and> t' = cat_row.shift (\<lambda>k. 0) (\<lambda>k. if k = i then n else 0) t"
    using shift [of "\<lambda>c. ec_used c + ec_reserved c + n \<le> ec_capacity c" 0 n t']
    by (simp add: reserve_category_seats_def put_updates)
  show "consume_category_seats (i, n) t = Some t' \<longleftrightarrow> (\<exists>r\<in>set t. ec_id r = i \<and> n \<le> ec_reserved r)
    \<and> t' = cat_row.shift (\<lambda>k. if k = i then n else 0) (\<lambda>k. if k = i then - n else 0) t"
    using shift [of "\<lambda>c. n \<le> ec_reserved c" n "- n" t'] by (simp add: consume_category_seats_def put_updates)
  show "release_category_seats (i, n) t = Some t' \<longleftrightarrow> (\<exists>r\<in>set t. ec_id r = i \<and> n \<le> ec_reserved r)
    \<and> t' = cat_row.shift (\<lambda>k. 0) (\<lambda>k. if k = i then - n else 0) t"
    using shift [of "\<lambda>c. n \<le> ec_reserved c" 0 "- n" t'] by (simp add: release_category_seats_def put_updates)
qed (simp add: ec_put_def)

interpretation rule: seat_counter pr_id pr_used pr_reserved pr_put pr_quota "\<lambda>_. True"
  reserve_price_rule_seats consume_price_rule_seats release_price_rule_seats
proof
  fix t t' :: "price_rule_row list" and i n :: int
  assume d: "distinct (map pr_id t)"
  note shift = rule_row.exec_rows_shift [OF d, of i]
  show "reserve_price_rule_seats (i, n) t = Some t' \<longleftrightarrow>
      (\<exists>r\<in>set t. pr_id r = i \<and> True
         \<and> (case pr_quota r of None \<Rightarrow> True | Some q \<Rightarrow> pr_used r + pr_reserved r + n \<le> q))
    \<and> t' = rule_row.shift (\<lambda>k. 0) (\<lambda>k. if k = i then n else 0) t"
    using shift [of "\<lambda>r. case pr_quota r of None \<Rightarrow> True | Some q \<Rightarrow> pr_used r + pr_reserved r + n \<le> q" 0 n t']
    by (simp add: reserve_price_rule_seats_def put_updates)
  show "consume_price_rule_seats (i, n) t = Some t' \<longleftrightarrow> (\<exists>r\<in>set t. pr_id r = i \<and> n \<le> pr_reserved r)
    \<and> t' = rule_row.shift (\<lambda>k. if k = i then n else 0) (\<lambda>k. if k = i then - n else 0) t"
    using shift [of "\<lambda>c. n \<le> pr_reserved c" n "- n" t'] by (simp add: consume_price_rule_seats_def put_updates)
  show "release_price_rule_seats (i, n) t = Some t' \<longleftrightarrow> (\<exists>r\<in>set t. pr_id r = i \<and> n \<le> pr_reserved r)
    \<and> t' = rule_row.shift (\<lambda>k. 0) (\<lambda>k. if k = i then - n else 0) t"
    using shift [of "\<lambda>c. n \<le> pr_reserved c" 0 "- n" t'] by (simp add: release_price_rule_seats_def put_updates)
qed (simp add: pr_put_def)

interpretation coupon: seat_counter cp_id cp_used cp_reserved cp_put
  "\<lambda>c. Some (cp_quota c)" "\<lambda>c. cp_status c = ''ACTIVE''"
  reserve_coupon_uses consume_coupon_uses release_coupon_uses
proof
  fix t t' :: "coupon_row list" and i n :: int
  assume d: "distinct (map cp_id t)"
  note shift = coupon_row.exec_rows_shift [OF d, of i]
  show "reserve_coupon_uses (i, n) t = Some t' \<longleftrightarrow>
      (\<exists>r\<in>set t. cp_id r = i \<and> cp_status r = ''ACTIVE''
         \<and> (case Some (cp_quota r) of None \<Rightarrow> True | Some q \<Rightarrow> cp_used r + cp_reserved r + n \<le> q))
    \<and> t' = coupon_row.shift (\<lambda>k. 0) (\<lambda>k. if k = i then n else 0) t"
    using shift [of "\<lambda>c. cp_status c = ''ACTIVE'' \<and> cp_used c + cp_reserved c + n \<le> cp_quota c" 0 n t']
    by (simp add: reserve_coupon_uses_def put_updates)
  show "consume_coupon_uses (i, n) t = Some t' \<longleftrightarrow> (\<exists>r\<in>set t. cp_id r = i \<and> n \<le> cp_reserved r)
    \<and> t' = coupon_row.shift (\<lambda>k. if k = i then n else 0) (\<lambda>k. if k = i then - n else 0) t"
    using shift [of "\<lambda>c. n \<le> cp_reserved c" n "- n" t'] by (simp add: consume_coupon_uses_def put_updates)
  show "release_coupon_uses (i, n) t = Some t' \<longleftrightarrow> (\<exists>r\<in>set t. cp_id r = i \<and> n \<le> cp_reserved r)
    \<and> t' = coupon_row.shift (\<lambda>k. 0) (\<lambda>k. if k = i then - n else 0) t"
    using shift [of "\<lambda>c. n \<le> cp_reserved c" 0 "- n" t'] by (simp add: release_coupon_uses_def put_updates)
qed (simp add: cp_put_def)

section \<open>Reserving, consuming and releasing the seats of an order\<close>

text \<open>\<open>Service.Reserve\<close>.\<close>

definition reserve :: "quote \<Rightarrow> db \<Rightarrow> db res" where
  "reserve q s =
     bindE (stmt_loop reserve_category_seats (\<lambda>_. app 409 CodeCategorySoldOut)
              (group_count (map pq_category (q_participants q))) (categories s)) (\<lambda>cats.
     bindE (stmt_loop reserve_price_rule_seats (\<lambda>_. app 409 CodePriceTierSoldOut)
              (group_count (map pq_rule (q_participants q))) (price_rules s)) (\<lambda>rules.
     let s1 = s\<lparr>categories := cats, price_rules := rules\<rparr>
     in case q_coupon q of
          None \<Rightarrow> Inr s1
        | Some i \<Rightarrow>
            (case reserve_coupon_use i (coupons s1) of
               None \<Rightarrow> Inl (app 409 CodeCouponExhausted)
             | Some cps \<Rightarrow> Inr (s1\<lparr>coupons := cps\<rparr>))))"

text \<open>\<open>RecordRedemption\<close>; \<open>order_id\<close> is the primary key of the table.\<close>

definition record_redemption :: "int \<Rightarrow> quote \<Rightarrow> db \<Rightarrow> db res" where
  "record_redemption order_id q s =
     (case q_coupon q of
        None \<Rightarrow> Inr s
      | Some i \<Rightarrow>
          if \<exists>r\<in>set (redemptions s). cr_order r = order_id
          then Inl (PgErr ''23505'' ''coupon_redemptions_pkey'')
          else Inr (s\<lparr>redemptions := redemptions s @
                 [\<lparr>cr_order = order_id, cr_coupon = i, cr_state = Reserved,
                   cr_discount = q_coupon_discount q\<rparr>]\<rparr>))"

definition list_order_category_seats :: "int \<Rightarrow> db \<Rightarrow> (int \<times> int) list" where
  "list_order_category_seats order_id s =
     group_count (map op_category (filter (\<lambda>p. op_order p = order_id) (participants s)))"

definition list_order_price_rule_seats :: "int \<Rightarrow> db \<Rightarrow> (int \<times> int) list" where
  "list_order_price_rule_seats order_id s =
     group_count (map op_rule (filter (\<lambda>p. op_order p = order_id) (participants s)))"

text \<open>\<open>MarkCouponRedemption\<close> with its \<open>RETURNING coupon_id\<close>.\<close>

definition mark_coupon_redemption ::
    "reservation_state \<Rightarrow> int \<Rightarrow> redemption_row list \<Rightarrow> (int \<times> redemption_row list) option" where
  "mark_coupon_redemption to_state order_id t =
     (case List.find (\<lambda>r. cr_order r = order_id \<and> cr_state r = Reserved) t of
        None \<Rightarrow> None
      | Some r \<Rightarrow> Some (cr_coupon r,
          update_where (\<lambda>r. cr_order r = order_id \<and> cr_state r = Reserved)
            (\<lambda>r. r\<lparr>cr_state := to_state\<rparr>) t))"

definition counter_err :: "string \<Rightarrow> goerr" where
  "counter_err what = OtherErr (what @ '': fewer reserved seats'')"

text \<open>\<open>moveCounters\<close>: categories, then price rules, then the coupon if one is reserved.\<close>

definition move_counters :: "bool \<Rightarrow> int \<Rightarrow> db \<Rightarrow> db res" where
  "move_counters is_consume order_id s =
     bindE (stmt_loop (if is_consume then consume_category_seats else release_category_seats)
              (\<lambda>_. counter_err ''category'') (list_order_category_seats order_id s) (categories s)) (\<lambda>cats.
     bindE (stmt_loop (if is_consume then consume_price_rule_seats else release_price_rule_seats)
              (\<lambda>_. counter_err ''price rule'') (list_order_price_rule_seats order_id s) (price_rules s)) (\<lambda>rules.
     let s1 = s\<lparr>categories := cats, price_rules := rules\<rparr>
     in case mark_coupon_redemption (if is_consume then Consumed else Released) order_id (redemptions s1) of
          None \<Rightarrow> Inr s1
        | Some (i, reds) \<Rightarrow>
            (case (if is_consume then consume_coupon_use else release_coupon_use) i (coupons s1) of
               None \<Rightarrow> Inl (counter_err ''coupon'')
             | Some cps \<Rightarrow> Inr (s1\<lparr>redemptions := reds, coupons := cps\<rparr>))))"

definition consume :: "int \<Rightarrow> db \<Rightarrow> db res" where
  "consume order_id s = move_counters True order_id s"

definition release :: "int \<Rightarrow> db \<Rightarrow> db res" where
  "release order_id s = move_counters False order_id s"

section \<open>What moving the counters of an order does\<close>

text \<open>Seats of an order per category and price rule, and its reserved coupon uses.\<close>

definition cat_seats :: "db \<Rightarrow> int \<Rightarrow> int \<Rightarrow> int" where
  "cat_seats s o' k = int (rows_where (\<lambda>p. op_order p = o' \<and> op_category p = k) (participants s))"

definition rule_seats :: "db \<Rightarrow> int \<Rightarrow> int \<Rightarrow> int" where
  "rule_seats s o' k = int (rows_where (\<lambda>p. op_order p = o' \<and> op_rule p = k) (participants s))"

definition coupon_uses :: "db \<Rightarrow> int \<Rightarrow> int \<Rightarrow> int" where
  "coupon_uses s o' k =
     int (rows_where (\<lambda>r. cr_order r = o' \<and> cr_coupon r = k \<and> cr_state r = Reserved) (redemptions s))"

definition counter_keys :: "db \<Rightarrow> bool" where
  "counter_keys s \<longleftrightarrow> distinct (map ec_id (categories s)) \<and> distinct (map pr_id (price_rules s))
     \<and> distinct (map cp_id (coupons s)) \<and> distinct (map cr_order (redemptions s))"

definition moved :: "bool \<Rightarrow> int \<Rightarrow> db \<Rightarrow> db" where
  "moved c o' s = s\<lparr>
     categories := cat_row.shift (\<lambda>k. if c then cat_seats s o' k else 0) (\<lambda>k. - cat_seats s o' k) (categories s),
     price_rules := rule_row.shift (\<lambda>k. if c then rule_seats s o' k else 0) (\<lambda>k. - rule_seats s o' k) (price_rules s),
     redemptions := update_where (\<lambda>r. cr_order r = o' \<and> cr_state r = Reserved)
        (\<lambda>r. r\<lparr>cr_state := (if c then Consumed else Released)\<rparr>) (redemptions s),
     coupons := coupon_row.shift (\<lambda>k. if c then coupon_uses s o' k else 0) (\<lambda>k. - coupon_uses s o' k) (coupons s)\<rparr>"

definition enough :: "int \<Rightarrow> db \<Rightarrow> bool" where
  "enough o' s \<longleftrightarrow>
     (\<forall>p\<in>set (participants s). op_order p = o' \<longrightarrow>
        (\<exists>c\<in>set (categories s). ec_id c = op_category p \<and> cat_seats s o' (op_category p) \<le> ec_reserved c)
      \<and> (\<exists>r\<in>set (price_rules s). pr_id r = op_rule p \<and> rule_seats s o' (op_rule p) \<le> pr_reserved r))
   \<and> (\<forall>r\<in>set (redemptions s). cr_order r = o' \<and> cr_state r = Reserved \<longrightarrow>
        (\<exists>c\<in>set (coupons s). cp_id c = cr_coupon r \<and> 1 \<le> cp_reserved c))"

lemma rows_where_map_filter:
  "rows_where (\<lambda>x. x = k) (map f (filter P xs)) = rows_where (\<lambda>p. P p \<and> f p = k) xs"
  by (induction xs) auto

lemma amount_order_seats:
  "amount (list_order_category_seats o' s) = cat_seats s o'"
  "amount (list_order_price_rule_seats o' s) = rule_seats s o'"
  by (simp_all add: fun_eq_iff list_order_category_seats_def list_order_price_rule_seats_def
      amount_group_count cat_seats_def rule_seats_def rows_where_map_filter)

lemma ball_group_count:
  "(\<forall>(i, n)\<in>set (group_count (map f (filter P xs))). Q i n) \<longleftrightarrow>
     (\<forall>p\<in>set xs. P p \<longrightarrow> Q (f p) (int (rows_where (\<lambda>q. P q \<and> f q = f p) xs)))"
  by (auto simp: set_group_count rows_where_map_filter)

text \<open>The two loops, for consuming and for releasing alike.\<close>

lemma category_loop_iff:
  assumes "counter_keys s"
  shows "stmt_loop (if c then consume_category_seats else release_category_seats) err
        (list_order_category_seats o' s) (categories s) = Inr t \<longleftrightarrow>
      (\<forall>p\<in>set (participants s). op_order p = o' \<longrightarrow>
        (\<exists>c\<in>set (categories s). ec_id c = op_category p \<and> cat_seats s o' (op_category p) \<le> ec_reserved c))
    \<and> t = cat_row.shift (\<lambda>k. if c then cat_seats s o' k else 0) (\<lambda>k. - cat_seats s o' k) (categories s)"
proof -
  let ?xs = "list_order_category_seats o' s"
  have d: "distinct (map fst ?xs)" "distinct (map ec_id (categories s))"
    using assms by (simp_all add: list_order_category_seats_def distinct_group_count counter_keys_def)
  have all: "(\<forall>(i, n)\<in>set ?xs. \<exists>r\<in>set (categories s). ec_id r = i \<and> n \<le> ec_reserved r)
      \<longleftrightarrow> (\<forall>p\<in>set (participants s). op_order p = o' \<longrightarrow>
        (\<exists>c\<in>set (categories s). ec_id c = op_category p \<and> cat_seats s o' (op_category p) \<le> ec_reserved c))"
    unfolding list_order_category_seats_def ball_group_count cat_seats_def ..
  show ?thesis
    using cat.consume_loop [OF d, of err t] cat.release_loop [OF d, of err t]
    by (cases c) (simp_all add: all amount_order_seats)
qed

lemma rule_loop_iff:
  assumes "counter_keys s"
  shows "stmt_loop (if c then consume_price_rule_seats else release_price_rule_seats) err
        (list_order_price_rule_seats o' s) (price_rules s) = Inr t \<longleftrightarrow>
      (\<forall>p\<in>set (participants s). op_order p = o' \<longrightarrow>
        (\<exists>r\<in>set (price_rules s). pr_id r = op_rule p \<and> rule_seats s o' (op_rule p) \<le> pr_reserved r))
    \<and> t = rule_row.shift (\<lambda>k. if c then rule_seats s o' k else 0) (\<lambda>k. - rule_seats s o' k) (price_rules s)"
proof -
  let ?xs = "list_order_price_rule_seats o' s"
  have d: "distinct (map fst ?xs)" "distinct (map pr_id (price_rules s))"
    using assms by (simp_all add: list_order_price_rule_seats_def distinct_group_count counter_keys_def)
  have all: "(\<forall>(i, n)\<in>set ?xs. \<exists>r\<in>set (price_rules s). pr_id r = i \<and> n \<le> pr_reserved r)
      \<longleftrightarrow> (\<forall>p\<in>set (participants s). op_order p = o' \<longrightarrow>
        (\<exists>r\<in>set (price_rules s). pr_id r = op_rule p \<and> rule_seats s o' (op_rule p) \<le> pr_reserved r))"
    unfolding list_order_price_rule_seats_def ball_group_count rule_seats_def ..
  show ?thesis
    using rule.consume_loop [OF d, of err t] rule.release_loop [OF d, of err t]
    by (cases c) (simp_all add: all amount_order_seats)
qed

lemma coupon_uses_Some:
  assumes "distinct (map cr_order (redemptions s))" and "r \<in> set (redemptions s)"
    and "cr_order r = o'" and "cr_state r = Reserved"
  shows "coupon_uses s o' = (\<lambda>k. if k = cr_coupon r then 1 else 0)"
proof
  fix k
  show "coupon_uses s o' k = (if k = cr_coupon r then 1 else 0)"
  proof (cases "k = cr_coupon r")
    case True
    with rows_where_key_eq_1 [of cr_order "redemptions s" r "\<lambda>x. cr_coupon x = k \<and> cr_state x = Reserved"] assms
    show ?thesis by (simp add: coupon_uses_def)
  next
    case False
    with distinct_key_eq [OF assms(1) _ assms(2)] assms(3)
    have "rows_where (\<lambda>x. cr_order x = o' \<and> cr_coupon x = k \<and> cr_state x = Reserved) (redemptions s) = 0"
      unfolding rows_where_0_iff by metis
    with False show ?thesis by (simp add: coupon_uses_def)
  qed
qed

lemma move_counters_iff:
  assumes "counter_keys s"
  shows "move_counters c o' s = Inr s' \<longleftrightarrow> enough o' s \<and> s' = moved c o' s"
proof -
  let ?P = "\<lambda>r. cr_order r = o' \<and> cr_state r = Reserved"
  let ?to = "if c then Consumed else Released"
  define cats where "cats = cat_row.shift (\<lambda>k. if c then cat_seats s o' k else 0) (\<lambda>k. - cat_seats s o' k) (categories s)"
  define rules where "rules = rule_row.shift (\<lambda>k. if c then rule_seats s o' k else 0) (\<lambda>k. - rule_seats s o' k) (price_rules s)"
  define s1 where "s1 = s\<lparr>categories := cats, price_rules := rules\<rparr>"
  define coup where "coup =
     (case mark_coupon_redemption ?to o' (redemptions s1) of
          None \<Rightarrow> Inr s1
        | Some (i, reds) \<Rightarrow>
            (case (if c then consume_coupon_use else release_coupon_use) i (coupons s1) of
               None \<Rightarrow> Inl (counter_err ''coupon'')
             | Some cps \<Rightarrow> Inr (s1\<lparr>redemptions := reds, coupons := cps\<rparr>)))"
  have "move_counters c o' s = Inr s' \<longleftrightarrow>
      (\<forall>p\<in>set (participants s). op_order p = o' \<longrightarrow>
        (\<exists>c\<in>set (categories s). ec_id c = op_category p \<and> cat_seats s o' (op_category p) \<le> ec_reserved c)
      \<and> (\<exists>r\<in>set (price_rules s). pr_id r = op_rule p \<and> rule_seats s o' (op_rule p) \<le> pr_reserved r))
      \<and> coup = Inr s'"
    unfolding move_counters_def bindE_Inr_iff category_loop_iff [OF assms] rule_loop_iff [OF assms]
      Let_def cats_def [symmetric] rules_def [symmetric] coup_def s1_def
    by blast
  moreover have sel: "redemptions s1 = redemptions s" "coupons s1 = coupons s" by (simp_all add: s1_def)
  moreover have "coup = Inr s' \<longleftrightarrow>
      (\<forall>r\<in>set (redemptions s). ?P r \<longrightarrow> (\<exists>c\<in>set (coupons s). cp_id c = cr_coupon r \<and> 1 \<le> cp_reserved c))
      \<and> s' = moved c o' s"
  proof (cases "List.find ?P (redemptions s)")
    case None
    then have none: "\<forall>r\<in>set (redemptions s). \<not> ?P r" by (simp add: find_None_all)
    then have "coupon_uses s o' = (\<lambda>_. 0)" by (auto simp: fun_eq_iff coupon_uses_def)
    with none have "moved c o' s = s1"
      by (simp add: moved_def s1_def cats_def rules_def update_where_none cong: if_cong)
    with None none show ?thesis by (auto simp: coup_def sel mark_coupon_redemption_def)
  next
    case (Some r)
    then have r: "r \<in> set (redemptions s)" "?P r" by (auto dest: find_Some_key)
    have keys: "distinct (map cr_order (redemptions s))" "distinct (map cp_id (coupons s))"
      using assms by (auto simp: counter_keys_def)
    have only: "r' = r" if "r' \<in> set (redemptions s)" "?P r'" for r'
      using distinct_key_eq [OF keys(1) that(1) r(1)] r(2) that(2) by simp
    have uses: "coupon_uses s o' = (\<lambda>k. if k = cr_coupon r then 1 else 0)"
      using coupon_uses_Some [OF keys(1) r(1)] r(2) by simp
    define cps where "cps = coupon_row.shift (\<lambda>k. if c then coupon_uses s o' k else 0) (\<lambda>k. - coupon_uses s o' k) (coupons s)"
    define st where "st = (if c then consume_coupon_use else release_coupon_use) (cr_coupon r) (coupons s)"
    let ?s2 = "s1\<lparr>redemptions := update_where ?P (\<lambda>r. r\<lparr>cr_state := ?to\<rparr>) (redemptions s), coupons := cps\<rparr>"
    have law: "st = Some t \<longleftrightarrow>
        (\<exists>x\<in>set (coupons s). cp_id x = cr_coupon r \<and> 1 \<le> cp_reserved x) \<and> t = cps" for t
      using coupon.consume_law [OF keys(2), of "cr_coupon r" 1 t] coupon.release_law [OF keys(2), of "cr_coupon r" 1 t]
      by (cases c) (simp_all add: st_def coupon_use_uses cps_def uses if_distrib [of uminus] cong: if_cong)
    have coup: "coup = (case st of None \<Rightarrow> Inl (counter_err ''coupon'')
        | Some cps \<Rightarrow> Inr (s1\<lparr>redemptions := update_where ?P (\<lambda>r. r\<lparr>cr_state := ?to\<rparr>) (redemptions s), coupons := cps\<rparr>))"
      by (simp add: coup_def sel mark_coupon_redemption_def Some st_def)
    have "coup = Inr s' \<longleftrightarrow> (\<exists>x\<in>set (coupons s). cp_id x = cr_coupon r \<and> 1 \<le> cp_reserved x) \<and> s' = ?s2"
    proof (cases st)
      case None
      with law [of cps] coup show ?thesis by simp
    next
      case (Some t)
      with law [of t] coup show ?thesis by auto
    qed
    moreover have "moved c o' s = s1\<lparr>redemptions := update_where ?P (\<lambda>r. r\<lparr>cr_state := ?to\<rparr>) (redemptions s), coupons := cps\<rparr>"
      by (simp add: moved_def s1_def cats_def rules_def cps_def)
    moreover have "(\<forall>r\<in>set (redemptions s). ?P r \<longrightarrow> (\<exists>c\<in>set (coupons s). cp_id c = cr_coupon r \<and> 1 \<le> cp_reserved c))
        \<longleftrightarrow> (\<exists>x\<in>set (coupons s). cp_id x = cr_coupon r \<and> 1 \<le> cp_reserved x)"
      using only r by metis
    ultimately show ?thesis by (simp only:)
  qed
  ultimately show ?thesis unfolding enough_def by blast
qed

section \<open>What reserving a quote does\<close>

definition quote_cat_seats :: "quote \<Rightarrow> int \<Rightarrow> int" where
  "quote_cat_seats q k = int (rows_where (\<lambda>l. pq_category l = k) (q_participants q))"

definition quote_rule_seats :: "quote \<Rightarrow> int \<Rightarrow> int" where
  "quote_rule_seats q k = int (rows_where (\<lambda>l. pq_rule l = k) (q_participants q))"

definition quote_coupon_uses :: "quote \<Rightarrow> int \<Rightarrow> int" where
  "quote_coupon_uses q k = (if q_coupon q = Some k then 1 else 0)"

definition has_room :: "quote \<Rightarrow> db \<Rightarrow> bool" where
  "has_room q s \<longleftrightarrow>
     (\<forall>l\<in>set (q_participants q).
        (\<exists>c\<in>set (categories s). ec_id c = pq_category l
           \<and> ec_used c + ec_reserved c + quote_cat_seats q (pq_category l) \<le> ec_capacity c)
      \<and> (\<exists>r\<in>set (price_rules s). pr_id r = pq_rule l
           \<and> (case pr_quota r of None \<Rightarrow> True
              | Some n \<Rightarrow> pr_used r + pr_reserved r + quote_rule_seats q (pq_rule l) \<le> n)))
   \<and> (\<forall>i. q_coupon q = Some i \<longrightarrow>
        (\<exists>c\<in>set (coupons s). cp_id c = i \<and> cp_status c = ''ACTIVE''
           \<and> cp_used c + cp_reserved c + 1 \<le> cp_quota c))"

definition reserved_db :: "quote \<Rightarrow> db \<Rightarrow> db" where
  "reserved_db q s = s\<lparr>
     categories := cat_row.shift (\<lambda>_. 0) (quote_cat_seats q) (categories s),
     price_rules := rule_row.shift (\<lambda>_. 0) (quote_rule_seats q) (price_rules s),
     coupons := coupon_row.shift (\<lambda>_. 0) (quote_coupon_uses q) (coupons s)\<rparr>"

lemma ball_group_count_map:
  "(\<forall>(i, n)\<in>set (group_count (map f xs)). Q i n) \<longleftrightarrow>
     (\<forall>p\<in>set xs. Q (f p) (int (rows_where (\<lambda>q. f q = f p) xs)))"
  using ball_group_count [of f "\<lambda>_. True" xs Q] by simp

lemma amount_map: "amount (group_count (map f xs)) k = int (rows_where (\<lambda>p. f p = k) xs)"
  using rows_where_map_filter [of k f "\<lambda>_. True" xs] by (simp add: amount_group_count)

lemma reserve_iff:
  assumes "counter_keys s"
  shows "reserve q s = Inr s' \<longleftrightarrow> has_room q s \<and> s' = reserved_db q s"
proof -
  let ?cs = "group_count (map pq_category (q_participants q))"
  let ?rs = "group_count (map pq_rule (q_participants q))"
  have keys: "distinct (map ec_id (categories s))" "distinct (map pr_id (price_rules s))"
    "distinct (map cp_id (coupons s))" using assms by (auto simp: counter_keys_def)
  have am: "amount ?cs = quote_cat_seats q" "amount ?rs = quote_rule_seats q"
    by (simp_all add: fun_eq_iff amount_map quote_cat_seats_def quote_rule_seats_def)
  define cats where "cats = cat_row.shift (\<lambda>_. 0) (quote_cat_seats q) (categories s)"
  define rules where "rules = rule_row.shift (\<lambda>_. 0) (quote_rule_seats q) (price_rules s)"
  define s1 where "s1 = s\<lparr>categories := cats, price_rules := rules\<rparr>"
  let ?A = "\<forall>l\<in>set (q_participants q). \<exists>c\<in>set (categories s). ec_id c = pq_category l
           \<and> ec_used c + ec_reserved c + quote_cat_seats q (pq_category l) \<le> ec_capacity c"
  let ?B = "\<forall>l\<in>set (q_participants q). \<exists>r\<in>set (price_rules s). pr_id r = pq_rule l
           \<and> (case pr_quota r of None \<Rightarrow> True
              | Some n \<Rightarrow> pr_used r + pr_reserved r + quote_rule_seats q (pq_rule l) \<le> n)"
  have L1: "stmt_loop reserve_category_seats err ?cs (categories s) = Inr t \<longleftrightarrow> ?A \<and> t = cats" for err t
    using cat.reserve_loop [OF distinct_group_count keys(1)]
    by (simp add: ball_group_count_map cat.room_def am cats_def quote_cat_seats_def)
  have L2: "stmt_loop reserve_price_rule_seats err ?rs (price_rules s) = Inr t \<longleftrightarrow> ?B \<and> t = rules" for err t
    using rule.reserve_loop [OF distinct_group_count keys(2)]
    by (simp add: ball_group_count_map rule.room_def am rules_def quote_rule_seats_def cong: option.case_cong)
  define fin where "fin = (case q_coupon q of
          None \<Rightarrow> Inr s1
        | Some i \<Rightarrow>
            (case reserve_coupon_use i (coupons s1) of
               None \<Rightarrow> Inl (app 409 CodeCouponExhausted)
             | Some cps \<Rightarrow> Inr (s1\<lparr>coupons := cps\<rparr>)))"
  have step: "reserve q s = Inr s' \<longleftrightarrow> (?A \<and> ?B) \<and> fin = Inr s'"
    unfolding reserve_def bindE_Inr_iff L1 L2 Let_def fin_def s1_def by blast
  have "fin = Inr s' \<longleftrightarrow> (\<forall>i. q_coupon q = Some i \<longrightarrow>
        (\<exists>c\<in>set (coupons s). cp_id c = i \<and> cp_status c = ''ACTIVE''
           \<and> cp_used c + cp_reserved c + 1 \<le> cp_quota c)) \<and> s' = reserved_db q s"
  proof (cases "q_coupon q")
    case None
    then have "quote_coupon_uses q = (\<lambda>_. 0)" by (simp add: fun_eq_iff quote_coupon_uses_def)
    then have "reserved_db q s = s1"
      by (simp add: reserved_db_def s1_def cats_def rules_def)
    with None show ?thesis by (auto simp: fin_def)
  next
    case (Some i)
    then have uses: "quote_coupon_uses q = (\<lambda>k. if k = i then 1 else 0)"
      by (auto simp: fun_eq_iff quote_coupon_uses_def)
    define cps where "cps = coupon_row.shift (\<lambda>_. 0) (quote_coupon_uses q) (coupons s)"
    have law: "reserve_coupon_use i (coupons s) = Some t \<longleftrightarrow>
        (\<exists>c\<in>set (coupons s). cp_id c = i \<and> cp_status c = ''ACTIVE''
           \<and> cp_used c + cp_reserved c + 1 \<le> cp_quota c) \<and> t = cps" for t
      using coupon.reserve_law [OF keys(3), of i 1 t] by (simp add: coupon_use_uses cps_def uses)
    have db: "reserved_db q s = s1\<lparr>coupons := cps\<rparr>"
      by (simp add: reserved_db_def s1_def cats_def rules_def cps_def)
    have sel: "coupons s1 = coupons s" by (simp add: s1_def)
    show ?thesis
    proof (cases "reserve_coupon_use i (coupons s)")
      case None
      with law [of cps] Some sel show ?thesis by (simp add: fin_def)
    next
      case (Some t)
      with law [of t] \<open>q_coupon q = Some i\<close> sel db show ?thesis by (auto simp: fin_def)
    qed
  qed
  with step show ?thesis unfolding has_room_def by blast
qed

text \<open>No statement touches anything but the counters and the redemption.\<close>

lemma moved_simps [simp]:
  "orders (moved c o' s) = orders s" "participants (moved c o' s) = participants s"
  "registrations (moved c o' s) = registrations s" "free_signups (moved c o' s) = free_signups s"
  "accounts (moved c o' s) = accounts s" "proofs (moved c o' s) = proofs s"
  "receipts (moved c o' s) = receipts s" "events (moved c o' s) = events s"
  "links (moved c o' s) = links s" "idem_keys (moved c o' s) = idem_keys s"
  "settings (moved c o' s) = settings s" "users (moved c o' s) = users s"
  "exceptions (moved c o' s) = exceptions s"
  by (simp_all add: moved_def)

lemma reserved_db_simps [simp]:
  "orders (reserved_db q s) = orders s" "participants (reserved_db q s) = participants s"
  "registrations (reserved_db q s) = registrations s" "free_signups (reserved_db q s) = free_signups s"
  "redemptions (reserved_db q s) = redemptions s" "links (reserved_db q s) = links s"
  "accounts (reserved_db q s) = accounts s" "proofs (reserved_db q s) = proofs s"
  "receipts (reserved_db q s) = receipts s" "events (reserved_db q s) = events s"
  "exceptions (reserved_db q s) = exceptions s"
  "idem_keys (reserved_db q s) = idem_keys s" "users (reserved_db q s) = users s"
  by (simp_all add: reserved_db_def)

end
