(* ===== verification/Profiles.thy ===== *)
theory Profiles
  imports Samples "HOL-Library.Multiset" "HOL-Library.Product_Lexorder"
begin

text \<open>
  \<open>internal/runner\<close>: normalising and validating runner profiles
  (\<open>profiles.go\<close>) and contact fields (\<open>contact.go\<close>), the runner's saved
  profiles with their one \<open>self\<close> flag, and consent versions and signatures
  (\<open>consents.go\<close>).
\<close>

section \<open>Profile data\<close>

text \<open>\<open>User\<close>: of the logged-in runner only the id matters here.\<close>

type_synonym user_id = int

record profile_data =
  pd_name :: string
  pd_gender :: string
  pd_birth :: gotime
  pd_nationality :: string
  pd_id_type :: string
  pd_id_no :: string
  pd_phone :: string
  pd_email :: string
  pd_em_name :: string
  pd_em_phone :: string
  pd_tshirt :: string

definition normalize_gender :: "string \<Rightarrow> string" where
  "normalize_gender s = to_upper (trim_space s)"

definition normalize_phone :: "string \<Rightarrow> string" where
  "normalize_phone s = filter (\<lambda>c. \<not> (is_space c \<or> c = CHR ''-'')) s"

text \<open>\<open>piicrypt.NormalizeIDNo\<close>.\<close>

definition normalize_id_no :: "string \<Rightarrow> string" where
  "normalize_id_no s = to_upper (filter (\<lambda>c. \<not> (is_space c \<or> c = CHR ''-'')) s)"

text \<open>\<open>piicrypt.MaskIDNo\<close>.\<close>

definition mask_id_no :: "string \<Rightarrow> string" where
  "mask_id_no s =
     (if length s \<le> 4 then replicate (length s) (CHR ''*'')
      else replicate (length s - 4) (CHR ''*'') @ drop (length s - 4) s)"

definition date_only :: "gotime \<Rightarrow> gotime" where
  "date_only t = t div day * day"

text \<open>The day in Cambodia (UTC+7, no daylight saving).\<close>

definition platform_today :: "gotime \<Rightarrow> gotime" where
  "platform_today now = date_only (now + 7 * hour)"

definition normalize_profile :: "profile_data \<Rightarrow> profile_data" where
  "normalize_profile p =
     \<lparr>pd_name = trim_space (pd_name p),
      pd_gender = normalize_gender (pd_gender p),
      pd_birth = (if pd_birth p = zero_time then pd_birth p else date_only (pd_birth p)),
      pd_nationality = to_upper (trim_space (pd_nationality p)),
      pd_id_type = to_upper (trim_space (pd_id_type p)),
      pd_id_no = normalize_id_no (pd_id_no p),
      pd_phone = normalize_phone (pd_phone p),
      pd_email = trim_space (pd_email p),
      pd_em_name = trim_space (pd_em_name p),
      pd_em_phone = normalize_phone (pd_em_phone p),
      pd_tshirt = to_upper (trim_space (pd_tshirt p))\<rparr>"

section \<open>Patterns\<close>

text \<open>\<open>^[A-Z]{2}$\<close>, \<open>^[A-Z0-9]{4,32}$\<close>, \<open>^\+[1-9][0-9]{7,14}$\<close>.\<close>

definition nationality_pattern :: "string \<Rightarrow> bool" where
  "nationality_pattern s \<longleftrightarrow> length s = 2 \<and> list_all is_upper s"

definition id_no_pattern :: "string \<Rightarrow> bool" where
  "id_no_pattern s \<longleftrightarrow> 4 \<le> length s \<and> length s \<le> 32 \<and> list_all (\<lambda>c. is_upper c \<or> is_digit c) s"

definition phone_pattern :: "string \<Rightarrow> bool" where
  "phone_pattern s \<longleftrightarrow>
     (case s of
        p # d # ds \<Rightarrow> p = CHR ''+'' \<and> is_digit d \<and> d \<noteq> CHR ''0''
          \<and> 7 \<le> length ds \<and> length ds \<le> 14 \<and> list_all is_digit ds
      | _ \<Rightarrow> False)"

text \<open>\<open>^[^\s@]+@[^\s@]+\.[^\s@]+$\<close>; \<open>\s\<close> is ASCII white space in Go.\<close>

definition re_space :: "char \<Rightarrow> bool" where
  "re_space c = (let n = code_of c in n = 9 \<or> n = 10 \<or> n = 12 \<or> n = 13 \<or> n = 32)"

definition email_pattern :: "string \<Rightarrow> bool" where
  "email_pattern s \<longleftrightarrow>
     (let loc = takeWhile (\<lambda>c. c \<noteq> CHR ''@'') s;
          dom = drop (length loc + 1) s
      in loc \<noteq> [] \<and> CHR ''@'' \<in> set s \<and> CHR ''@'' \<notin> set dom
       \<and> list_all (\<lambda>c. \<not> re_space c) s
       \<and> (\<exists>i\<in>set [1..<length dom - 1]. dom ! i = CHR ''.''))"

definition valid_email :: "env \<Rightarrow> string \<Rightarrow> bool" where
  "valid_email e s \<longleftrightarrow> byte_len s \<le> 254 \<and> email_pattern s \<and> e_parse_address e s = Some s"

section \<open>Validation\<close>

definition check_name :: "string \<Rightarrow> string \<Rightarrow> field_item list" where
  "check_name f v =
     (if v = [] then [(f, ''field.required'', [])]
      else if length v > 100 then [(f, ''field.invalid'', [])] else [])"

definition check_enum :: "string \<Rightarrow> string \<Rightarrow> string list \<Rightarrow> field_item list" where
  "check_enum f v allowed =
     (if v = [] then [(f, ''field.required'', [])]
      else if v \<notin> set allowed then [(f, ''field.invalid'', [])] else [])"

definition check_pattern :: "string \<Rightarrow> string \<Rightarrow> (string \<Rightarrow> bool) \<Rightarrow> field_item list" where
  "check_pattern f v pat =
     (if v = [] then [(f, ''field.required'', [])]
      else if \<not> pat v then [(f, ''field.invalid'', [])] else [])"

definition check_birth :: "string \<Rightarrow> gotime \<Rightarrow> gotime \<Rightarrow> field_item list" where
  "check_birth f b now =
     (if b = zero_time then [(f, ''field.required'', [])]
      else if b < date_time 1900 1 1 \<or> platform_today now < b then [(f, ''field.invalid'', [])] else [])"

definition profile_items :: "env \<Rightarrow> profile_data \<Rightarrow> string \<Rightarrow> bool \<Rightarrow> gotime \<Rightarrow> field_item list" where
  "profile_items e p prefix require_id_no now =
     check_name (prefix @ ''fullName'') (pd_name p)
   @ check_enum (prefix @ ''gender'') (pd_gender p) [''M'', ''F'', ''X'']
   @ check_birth (prefix @ ''birthDate'') (pd_birth p) now
   @ check_pattern (prefix @ ''nationality'') (pd_nationality p) nationality_pattern
   @ check_enum (prefix @ ''idType'') (pd_id_type p) [''NATIONAL_ID'', ''PASSPORT'', ''OTHER'']
   @ (if pd_id_no p \<noteq> [] \<or> require_id_no
      then check_pattern (prefix @ ''idNo'') (pd_id_no p) id_no_pattern else [])
   @ check_pattern (prefix @ ''phone'') (pd_phone p) phone_pattern
   @ item (pd_email p \<noteq> [] \<and> \<not> valid_email e (pd_email p)) (prefix @ ''email'') ''field.invalid'' []
   @ check_name (prefix @ ''emergencyName'') (pd_em_name p)
   @ check_pattern (prefix @ ''emergencyPhone'') (pd_em_phone p) phone_pattern
   @ check_enum (prefix @ ''tshirtSize'') (pd_tshirt p) [''XS'', ''S'', ''M'', ''L'', ''XL'', ''XXL'']"

text \<open>\<open>validateProfile\<close> on normalised data, and \<open>ValidateProfile\<close>, which uses the wall clock.\<close>

definition validate_profile_at :: "env \<Rightarrow> profile_data \<Rightarrow> string \<Rightarrow> bool \<Rightarrow> gotime \<Rightarrow> unit res" where
  "validate_profile_at e p prefix require_id_no now = collect (profile_items e p prefix require_id_no now)"

definition validate_profile :: "env \<Rightarrow> profile_data \<Rightarrow> string \<Rightarrow> unit res" where
  "validate_profile e p prefix =
     validate_profile_at e (normalize_profile p) prefix True (e_wall_now e)"

lemma check_empty_iff [simp]:
  "check_name f v = [] \<longleftrightarrow> v \<noteq> [] \<and> length v \<le> 100"
  "check_enum f v allowed = [] \<longleftrightarrow> v \<noteq> [] \<and> v \<in> set allowed"
  "check_pattern f v pat = [] \<longleftrightarrow> v \<noteq> [] \<and> pat v"
  "check_birth f b now = [] \<longleftrightarrow> b \<noteq> zero_time \<and> date_time 1900 1 1 \<le> b \<and> b \<le> platform_today now"
  by (auto simp: check_name_def check_enum_def check_pattern_def check_birth_def)

text \<open>What a valid profile is.\<close>

definition profile_valid :: "env \<Rightarrow> profile_data \<Rightarrow> bool \<Rightarrow> gotime \<Rightarrow> bool" where
  "profile_valid e p require_id_no now \<longleftrightarrow>
     pd_name p \<noteq> [] \<and> length (pd_name p) \<le> 100
   \<and> pd_gender p \<in> {''M'', ''F'', ''X''}
   \<and> date_time 1900 1 1 \<le> pd_birth p \<and> pd_birth p \<le> platform_today now
   \<and> nationality_pattern (pd_nationality p)
   \<and> pd_id_type p \<in> {''NATIONAL_ID'', ''PASSPORT'', ''OTHER''}
   \<and> (id_no_pattern (pd_id_no p) \<or> (\<not> require_id_no \<and> pd_id_no p = []))
   \<and> phone_pattern (pd_phone p)
   \<and> (pd_email p = [] \<or> valid_email e (pd_email p))
   \<and> pd_em_name p \<noteq> [] \<and> length (pd_em_name p) \<le> 100
   \<and> phone_pattern (pd_em_phone p)
   \<and> pd_tshirt p \<in> {''XS'', ''S'', ''M'', ''L'', ''XL'', ''XXL''}"

lemma pattern_not_Nil: "\<not> nationality_pattern []" "\<not> id_no_pattern []" "\<not> phone_pattern []"
  by (simp_all add: nationality_pattern_def id_no_pattern_def phone_pattern_def)

lemma min_birth_after_zero: "zero_time < date_time 1900 1 1"
  by code_simp

lemma profile_items_empty_iff:
  "profile_items e p prefix r now = [] \<longleftrightarrow> profile_valid e p r now"
proof -
  have "pd_birth p \<noteq> zero_time" if "date_time 1900 1 1 \<le> pd_birth p"
    using that min_birth_after_zero by auto
  moreover have "(if pd_id_no p \<noteq> [] \<or> r then check_pattern (prefix @ ''idNo'') (pd_id_no p) id_no_pattern else []) = []
      \<longleftrightarrow> id_no_pattern (pd_id_no p) \<or> (\<not> r \<and> pd_id_no p = [])"
    using pattern_not_Nil by auto
  moreover have "pd_gender p \<noteq> []" if "pd_gender p \<in> {''M'', ''F'', ''X''}" using that by auto
  moreover have "pd_id_type p \<noteq> []" if "pd_id_type p \<in> {''NATIONAL_ID'', ''PASSPORT'', ''OTHER''}"
    using that by auto
  moreover have "pd_tshirt p \<noteq> []" if "pd_tshirt p \<in> {''XS'', ''S'', ''M'', ''L'', ''XL'', ''XXL''}"
    using that by auto
  moreover have "pd_nationality p \<noteq> []" if "nationality_pattern (pd_nationality p)"
    using that pattern_not_Nil by auto
  moreover have "pd_phone p \<noteq> []" if "phone_pattern (pd_phone p)" using that pattern_not_Nil by auto
  moreover have "pd_em_phone p \<noteq> []" if "phone_pattern (pd_em_phone p)" using that pattern_not_Nil by auto
  ultimately show ?thesis
    unfolding profile_items_def profile_valid_def append_is_Nil_conv check_empty_iff item_empty_iff
    by (simp only: list.set) blast
qed

lemma validate_profile_at_iff:
  "validate_profile_at e p prefix r now = Inr () \<longleftrightarrow> profile_valid e p r now"
  by (simp add: validate_profile_at_def profile_items_empty_iff)

section \<open>Normalising is idempotent\<close>

lemma code_of_char_of: "n < 256 \<Longrightarrow> code_of (char_of n) = n"
  by (simp add: code_of_def)

lemma code_of_less: "code_of c < 256"
  by (simp add: code_of_def)

lemma to_upper_char_code:
  "code_of (to_upper_char c) =
     (let n = code_of c in
      if (97 \<le> n \<and> n \<le> 122) \<or> (224 \<le> n \<and> n \<le> 254 \<and> n \<noteq> 247) then n - 32 else n)"
  using code_of_less [of c] by (simp add: to_upper_char_def Let_def code_of_char_of)

lemma is_space_upper [simp]: "is_space (to_upper_char c) = is_space c"
  unfolding is_space_def to_upper_char_code Let_def by auto

lemma to_upper_char_idem [simp]: "to_upper_char (to_upper_char c) = to_upper_char c"
proof -
  have "\<not> ((97 \<le> code_of (to_upper_char c) \<and> code_of (to_upper_char c) \<le> 122)
      \<or> (224 \<le> code_of (to_upper_char c) \<and> code_of (to_upper_char c) \<le> 254 \<and> code_of (to_upper_char c) \<noteq> 247))"
    unfolding to_upper_char_code Let_def by auto
  then show ?thesis unfolding to_upper_char_def [of "to_upper_char c"] Let_def by (simp only: if_False)
qed

lemma minus_upper: "to_upper_char c = CHR ''-'' \<longleftrightarrow> c = CHR ''-''"
proof
  assume "to_upper_char c = CHR ''-''"
  then have "code_of (to_upper_char c) = 45" by (simp add: code_of_def)
  then have "code_of c = 45" unfolding to_upper_char_code Let_def by (auto split: if_splits)
  then have "of_char c = (of_char (CHR ''-'') :: nat)" by (simp add: code_of_def)
  then show "c = CHR ''-''" by (simp only: of_char_eq_iff)
qed (simp add: to_upper_char_def code_of_def)

lemma trim_space_to_upper: "trim_space (to_upper s) = to_upper (trim_space s)"
  by (simp add: trim_space_def dropWhile_map o_def rev_map)

lemma to_upper_idem: "to_upper (to_upper s) = to_upper s"
  by simp

lemma upper_trim_idem [simp]: "to_upper (trim_space (to_upper (trim_space s))) = to_upper (trim_space s)"
  by (simp add: trim_space_to_upper)

lemma normalize_phone_idem [simp]: "normalize_phone (normalize_phone s) = normalize_phone s"
  by (simp add: normalize_phone_def)

lemma normalize_id_no_idem [simp]: "normalize_id_no (normalize_id_no s) = normalize_id_no s"
  by (simp add: normalize_id_no_def filter_map o_def minus_upper)

lemma date_only_idem [simp]: "date_only (date_only t) = date_only t"
  by (simp add: date_only_def time_units)

lemma normalize_profile_idem [simp]: "normalize_profile (normalize_profile p) = normalize_profile p"
proof -
  have "date_only zero_time = zero_time" by code_simp
  then have "(if date_only b = zero_time then date_only b else date_only (date_only b)) = date_only b" for b
    by simp
  then show ?thesis
    by (simp add: normalize_profile_def normalize_gender_def)
qed

section \<open>Saved profiles\<close>

text \<open>\<open>Profile\<close>: what the API returns; the identity number only masked.\<close>

record profile_view =
  pv_id :: int
  pv_data :: profile_data
  pv_masked :: string
  pv_self :: bool

text \<open>\<open>profileData\<close>; an empty \<open>id_no_enc\<close> is a row without identity number.\<close>

definition profile_data_of :: "env \<Rightarrow> profile_row \<Rightarrow> profile_data res" where
  "profile_data_of e r =
     bindE (if rp_id_enc r = [] then Inr []
            else case e_decrypt e (rp_id_enc r) of
                   None \<Rightarrow> Inl (OtherErr ''decrypt id number'') | Some plain \<Rightarrow> Inr plain) (\<lambda>id_no.
       Inr \<lparr>pd_name = rp_name r, pd_gender = rp_gender r, pd_birth = rp_birth r,
            pd_nationality = rp_nationality r, pd_id_type = deref_string (rp_id_type r),
            pd_id_no = id_no, pd_phone = deref_string (rp_phone r),
            pd_email = deref_string (rp_email r), pd_em_name = deref_string (rp_em_name r),
            pd_em_phone = deref_string (rp_em_phone r), pd_tshirt = deref_string (rp_tshirt r)\<rparr>)"

definition to_profile :: "env \<Rightarrow> profile_row \<Rightarrow> profile_view res" where
  "to_profile e r =
     bindE (profile_data_of e r) (\<lambda>d.
       Inr \<lparr>pv_id = rp_id r, pv_data = d\<lparr>pd_id_no := []\<rparr>, pv_masked = mask_id_no (pd_id_no d),
            pv_self = rp_self r\<rparr>)"

text \<open>\<open>LockUser\<close> fails when the user is gone.\<close>

definition lock_user :: "user_id \<Rightarrow> db \<Rightarrow> unit res" where
  "lock_user u s = failIf (\<not> (\<exists>r\<in>set (users s). us_id r = u)) (OtherErr ''lock user: no rows'')"

definition clear_self_profiles :: "user_id \<Rightarrow> int \<Rightarrow> profile_row list \<Rightarrow> profile_row list" where
  "clear_self_profiles u except t =
     update_where (\<lambda>r. rp_user r = u \<and> rp_self r \<and> rp_id r \<noteq> except) (\<lambda>r. r\<lparr>rp_self := False\<rparr>) t"

definition fill_profile :: "profile_data \<Rightarrow> string \<Rightarrow> string \<Rightarrow> bool \<Rightarrow> profile_row \<Rightarrow> profile_row" where
  "fill_profile p enc hash is_self r =
     r\<lparr>rp_name := pd_name p, rp_gender := pd_gender p, rp_birth := pd_birth p,
       rp_nationality := pd_nationality p, rp_id_type := Some (pd_id_type p), rp_id_enc := enc,
       rp_id_hash := hash, rp_phone := Some (pd_phone p), rp_email := opt_string (pd_email p),
       rp_em_name := Some (pd_em_name p), rp_em_phone := Some (pd_em_phone p),
       rp_tshirt := Some (pd_tshirt p), rp_self := is_self\<rparr>"

definition blank_profile :: "int \<Rightarrow> user_id \<Rightarrow> profile_row" where
  "blank_profile i u =
     \<lparr>rp_id = i, rp_user = u, rp_name = [], rp_gender = [], rp_birth = 0, rp_nationality = [],
      rp_id_type = None, rp_id_enc = [], rp_id_hash = [], rp_phone = None, rp_email = None,
      rp_em_name = None, rp_em_phone = None, rp_tshirt = None, rp_self = False\<rparr>"

text \<open>\<open>insertProfile\<close>; \<open>path\<close> names the draw of the cipher's nonce.\<close>

definition insert_profile :: "env \<Rightarrow> nat list \<Rightarrow> user_id \<Rightarrow> profile_data \<Rightarrow> bool \<Rightarrow> db \<Rightarrow> (profile_row \<times> db) res" where
  "insert_profile e path u p is_self s =
     (let enc = e_encrypt e path (pd_id_no p)
      in bindE (if is_self
                then bindE (lock_user u s) (\<lambda>_. Inr (clear_self_profiles u 0 (profiles s)))
                else Inr (profiles s)) (\<lambda>t.
         let row = fill_profile p enc (e_id_hash e (pd_id_no p)) is_self (blank_profile (next_id rp_id t) u)
         in Inr (row, s\<lparr>profiles := t @ [row]\<rparr>)))"

definition create_profile :: "env \<Rightarrow> user_id \<Rightarrow> profile_data \<Rightarrow> bool \<Rightarrow> db \<Rightarrow> (profile_view \<times> db) res" where
  "create_profile e u p is_self s =
     (let p = normalize_profile p
      in bindE (validate_profile_at e p [] True (e_now e)) (\<lambda>_.
         bindE (insert_profile e [0] u p is_self s) (\<lambda>(row, s').
         bindE (to_profile e row) (\<lambda>v. Inr (v, s')))))"

definition update_profile ::
    "env \<Rightarrow> user_id \<Rightarrow> int \<Rightarrow> profile_data \<Rightarrow> bool \<Rightarrow> db \<Rightarrow> (profile_view \<times> db) res" where
  "update_profile e u i p is_self s =
     (let p = normalize_profile p;
          keep = (pd_id_no p = [])
      in bindE (validate_profile_at e p [] (\<not> keep) (e_now e)) (\<lambda>_.
         bindE (if is_self then lock_user u s else Inr ()) (\<lambda>_.
         case List.find (\<lambda>r. rp_id r = i \<and> rp_user r = u) (profiles s) of
           None \<Rightarrow> Inl (app 404 CodeNotFound)
         | Some old \<Rightarrow>
             bindE (if keep
                    then bindE (failIf (rp_id_enc old = [])
                            (AppErr (with_field ''idNo'' ''field.required'' [] validation_error)))
                          (\<lambda>_. Inr (rp_id_enc old, rp_id_hash old))
                    else Inr (e_encrypt e [0] (pd_id_no p), e_id_hash e (pd_id_no p))) (\<lambda>(enc, hash).
             let t = (if is_self then clear_self_profiles u i (profiles s) else profiles s);
                 row = fill_profile p enc hash is_self old
             in bindE (to_profile e row) (\<lambda>v.
                  Inr (v, s\<lparr>profiles := update_where (\<lambda>r. rp_id r = i \<and> rp_user r = u)
                             (fill_profile p enc hash is_self) t\<rparr>))))))"

definition delete_profile :: "user_id \<Rightarrow> int \<Rightarrow> db \<Rightarrow> db res" where
  "delete_profile u i s =
     bindE (failIf (rows_where (\<lambda>r. rp_id r = i \<and> rp_user r = u) (profiles s) = 0) (app 404 CodeNotFound)) (\<lambda>_.
       Inr (s\<lparr>profiles := filter (\<lambda>r. \<not> (rp_id r = i \<and> rp_user r = u)) (profiles s)\<rparr>))"

definition create_profile_tx :: "env \<Rightarrow> nat list \<Rightarrow> user_id \<Rightarrow> profile_data \<Rightarrow> db \<Rightarrow> (int \<times> db) res" where
  "create_profile_tx e path u p s =
     (let p = normalize_profile p
      in bindE (validate_profile_at e p [] True (e_now e)) (\<lambda>_.
         bindE (insert_profile e path u p False s) (\<lambda>(row, s'). Inr (rp_id row, s'))))"

definition load_profile_for_order :: "env \<Rightarrow> user_id \<Rightarrow> int \<Rightarrow> string \<Rightarrow> db \<Rightarrow> profile_data res" where
  "load_profile_for_order e u i prefix s =
     (case List.find (\<lambda>r. rp_id r = i \<and> rp_user r = u) (profiles s) of
        None \<Rightarrow> Inl (AppErr (with_field (prefix @ ''profileId'') ''field.invalid'' [] validation_error))
      | Some r \<Rightarrow> profile_data_of e r)"

text \<open>\<open>ORDER BY is_self DESC, id\<close>.\<close>

definition list_profiles :: "env \<Rightarrow> user_id \<Rightarrow> db \<Rightarrow> profile_view list res" where
  "list_profiles e u s =
     foldE (\<lambda>r out. bindE (to_profile e r) (\<lambda>v. Inr (out @ [v])))
       (sort_key (\<lambda>r. (\<not> rp_self r, rp_id r)) (filter (\<lambda>r. rp_user r = u) (profiles s))) []"

section \<open>At most one self\<close>

definition self_count :: "user_id \<Rightarrow> profile_row list \<Rightarrow> nat" where
  "self_count u t = rows_where (\<lambda>r. rp_user r = u \<and> rp_self r) t"

definition one_self :: "db \<Rightarrow> bool" where
  "one_self s \<longleftrightarrow> (\<forall>u. self_count u (profiles s) \<le> 1)"

lemma fill_profile_simps [simp]:
  "rp_id (fill_profile p enc hash b r) = rp_id r"
  "rp_user (fill_profile p enc hash b r) = rp_user r"
  "rp_self (fill_profile p enc hash b r) = b"
  by (simp_all add: fill_profile_def)

lemma self_count_clear:
  "self_count v (clear_self_profiles u x t) =
     (if v = u then rows_where (\<lambda>r. rp_user r = u \<and> rp_self r \<and> rp_id r = x) t else self_count v t)"
  by (auto simp: self_count_def clear_self_profiles_def rows_where_update_where intro!: rows_where_cong)

lemma fresh_none: "rows_where (\<lambda>r. P r \<and> rp_id r = 0) t = 0" if "\<forall>r\<in>set t. 0 < rp_id r"
  using that by auto

lemma insert_profile_one_self:
  assumes "insert_profile e path u p b s = Inr (row, s')" and "one_self s"
    and "\<forall>r\<in>set (profiles s). 0 < rp_id r"
  shows "one_self s'"
proof -
  from assms(1) obtain t where t: "t = (if b then clear_self_profiles u 0 (profiles s) else profiles s)"
    and s': "s' = s\<lparr>profiles := t @ [row]\<rparr>" and row: "rp_user row = u" "rp_self row = b"
    by (auto simp: insert_profile_def Let_def errE blank_profile_def split: if_splits)
  have "self_count v (t @ [row]) \<le> 1" for v
  proof (cases b)
    case True
    have "self_count v t = (if v = u then 0 else self_count v (profiles s))"
      using True t fresh_none [OF assms(3), of "\<lambda>r. rp_user r = u \<and> rp_self r"]
      by (simp add: self_count_clear conj_assoc)
    moreover have "self_count v (profiles s) \<le> 1" using assms(2) by (simp add: one_self_def)
    ultimately show ?thesis using row by (auto simp: self_count_def)
  next
    case False
    with t row assms(2) show ?thesis by (simp add: self_count_def one_self_def)
  qed
  then show ?thesis by (simp add: one_self_def s')
qed

lemma update_profile_one_self:
  assumes "update_profile e u i p b s = Inr (v, s')" and "one_self s"
    and "distinct (map rp_id (profiles s))"
  shows "one_self s'"
proof -
  from assms(1) obtain enc hash p' where s': "s' = s\<lparr>profiles :=
        update_where (\<lambda>r. rp_id r = i \<and> rp_user r = u) (fill_profile p' enc hash b)
          (if b then clear_self_profiles u i (profiles s) else profiles s)\<rparr>"
    by (auto simp: update_profile_def Let_def errE split: option.splits)
  let ?t = "if b then clear_self_profiles u i (profiles s) else profiles s"
  have "self_count w (update_where (\<lambda>r. rp_id r = i \<and> rp_user r = u) (fill_profile p' enc hash b) ?t) \<le> 1" for w
  proof (cases "b \<and> w = u")
    case True
    then have "self_count w (update_where (\<lambda>r. rp_id r = i \<and> rp_user r = u) (fill_profile p' enc hash b) ?t)
        \<le> rows_where (\<lambda>r. rp_id r = i \<and> rp_user r = u) (profiles s)"
      unfolding self_count_def clear_self_profiles_def
      by (auto simp: rows_where_update_where intro!: rows_where_mono split: if_splits)
    also have "\<dots> \<le> 1" by (rule rows_where_key_le_1 [OF assms(3)])
    finally show ?thesis .
  next
    case False
    then have "self_count w (update_where (\<lambda>r. rp_id r = i \<and> rp_user r = u) (fill_profile p' enc hash b) ?t)
        \<le> self_count w (profiles s)"
      unfolding self_count_def clear_self_profiles_def
      by (auto simp: rows_where_update_where intro!: rows_where_mono split: if_splits)
    also have "\<dots> \<le> 1" using assms(2) by (simp add: one_self_def)
    finally show ?thesis .
  qed
  then show ?thesis by (simp add: one_self_def s')
qed

lemma delete_profile_one_self:
  assumes "delete_profile u i s = Inr s'" and "one_self s"
  shows "one_self s'"
proof -
  have "self_count w (filter P t) \<le> self_count w t" for w P t
    by (induction t) (auto simp: self_count_def)
  moreover from assms(1) have "s' = s\<lparr>profiles := filter (\<lambda>r. \<not> (rp_id r = i \<and> rp_user r = u)) (profiles s)\<rparr>"
    by (auto simp: delete_profile_def errE)
  then have "profiles s' = filter (\<lambda>r. \<not> (rp_id r = i \<and> rp_user r = u)) (profiles s)" by simp
  ultimately show ?thesis using assms(2) unfolding one_self_def by (metis order_trans)
qed

end
