(* ===== verification/Consents.thy ===== *)
theory Consents
  imports Profiles
begin

text \<open>
  \<open>internal/runner/contact.go\<close>, the contact fields of a free sign-up checked
  through the profile rules, and \<open>internal/runner/consents.go\<close>: publishing
  consent versions, finding the current one and signing it.
\<close>

section \<open>Contact fields\<close>

record contact_fields =
  cf_name :: string
  cf_phone :: string
  cf_em_name :: string
  cf_em_phone :: string
  cf_gender :: "string option"
  cf_birth :: "gotime option"

definition contact_field_keys :: "string list" where
  "contact_field_keys =
     [''fullName'', ''phone'', ''emergencyName'', ''emergencyPhone'', ''gender'', ''birthDate'']"

definition normalize_contact_fields :: "contact_fields \<Rightarrow> contact_fields" where
  "normalize_contact_fields c =
     \<lparr>cf_name = trim_space (cf_name c), cf_phone = normalize_phone (cf_phone c),
      cf_em_name = trim_space (cf_em_name c), cf_em_phone = normalize_phone (cf_em_phone c),
      cf_gender = (case cf_gender c of None \<Rightarrow> None
                   | Some g \<Rightarrow> if normalize_gender g = [] then None else Some (normalize_gender g)),
      cf_birth = cf_birth c\<rparr>"

text \<open>The profile with placeholders that \<open>ValidateContactFields\<close> checks.\<close>

definition contact_profile :: "contact_fields \<Rightarrow> profile_data" where
  "contact_profile c =
     \<lparr>pd_name = cf_name c,
      pd_gender = (case cf_gender c of None \<Rightarrow> ''M'' | Some g \<Rightarrow> g),
      pd_birth = (case cf_birth c of None \<Rightarrow> date_time 1990 1 1 | Some b \<Rightarrow> b),
      pd_nationality = ''KH'', pd_id_type = ''PASSPORT'', pd_id_no = ''N01234567'',
      pd_phone = cf_phone c, pd_email = [], pd_em_name = cf_em_name c,
      pd_em_phone = cf_em_phone c, pd_tshirt = ''M''\<rparr>"

definition kept_fields :: "string \<Rightarrow> apperr \<Rightarrow> field_item list" where
  "kept_fields prefix e =
     concat (map (\<lambda>k. case map_of (ae_fields e) (prefix @ k) of
                    None \<Rightarrow> [] | Some fe \<Rightarrow> [(prefix @ k, fe_key fe, fe_params fe)]) contact_field_keys)"

definition validate_contact_fields :: "env \<Rightarrow> contact_fields \<Rightarrow> string \<Rightarrow> unit res" where
  "validate_contact_fields e c prefix =
     (case validate_profile e (contact_profile c) prefix of
        Inr _ \<Rightarrow> Inr ()
      | Inl err \<Rightarrow>
          (case as_app err of
             None \<Rightarrow> Inl err
           | Some ae \<Rightarrow>
               if ae_code ae \<noteq> CodeValidation then Inl err
               else let kept = kept_fields prefix ae
                    in if kept = [] then Inr ()
                       else Inl (AppErr (add_items kept (new_err (ae_status ae) CodeValidation)))))"

lemma validate_profile_Inl:
  "validate_profile e p prefix = Inl err \<Longrightarrow>
     \<exists>is. is = profile_items e (normalize_profile p) prefix True (e_wall_now e) \<and> is \<noteq> []
       \<and> err = AppErr (add_items is validation_error)"
  by (auto simp: validate_profile_def validate_profile_at_def collect_def split: if_splits)

lemma kept_fields_empty_iff:
  "kept_fields prefix e = [] \<longleftrightarrow> (\<forall>k\<in>set contact_field_keys. prefix @ k \<notin> dom (map_of (ae_fields e)))"
  by (auto simp: kept_fields_def split: option.splits)

lemma fst_checks:
  "fst ` set (check_name f v) = (if check_name f v = [] then {} else {f})"
  "fst ` set (check_enum f v a) = (if check_enum f v a = [] then {} else {f})"
  "fst ` set (check_pattern f v p) = (if check_pattern f v p = [] then {} else {f})"
  "fst ` set (check_birth f b now) = (if check_birth f b now = [] then {} else {f})"
  "fst ` set (item c f k ps) = (if item c f k ps = [] then {} else {f})"
  by (simp_all add: check_name_def check_enum_def check_pattern_def check_birth_def item_def)

lemma in_checked: "x \<in> (if b then {} else {f}) \<longleftrightarrow> \<not> b \<and> x = f"
  by simp

text \<open>The normalised contact data the runner has to give; gender and birth date only when given.\<close>

definition contact_valid :: "env \<Rightarrow> contact_fields \<Rightarrow> bool" where
  "contact_valid e c \<longleftrightarrow>
     (let p = normalize_profile (contact_profile c)
      in pd_name p \<noteq> [] \<and> length (pd_name p) \<le> 100
       \<and> phone_pattern (pd_phone p)
       \<and> pd_em_name p \<noteq> [] \<and> length (pd_em_name p) \<le> 100
       \<and> phone_pattern (pd_em_phone p)
       \<and> (\<forall>g. cf_gender c = Some g \<longrightarrow> pd_gender p \<in> {''M'', ''F'', ''X''})
       \<and> (\<forall>b. cf_birth c = Some b \<longrightarrow>
            date_time 1900 1 1 \<le> pd_birth p \<and> pd_birth p \<le> platform_today (e_wall_now e)))"

text \<open>The placeholders pass as long as it is after 1990.\<close>

lemma placeholder_ok:
  "nationality_pattern (to_upper (trim_space ''KH''))" "id_no_pattern (normalize_id_no ''N01234567'')"
  "to_upper (trim_space ''PASSPORT'') = ''PASSPORT''" "to_upper (trim_space ''M'') = ''M''"
  "date_only (date_time 1990 1 1) = date_time 1990 1 1" "date_time 1990 1 1 \<noteq> zero_time"
  "date_time 1900 1 1 \<le> date_time 1990 1 1"
  by code_simp+

lemma validate_contact_iff:
  assumes now: "date_time 1990 1 1 \<le> platform_today (e_wall_now e)"
  shows "validate_contact_fields e c prefix = Inr () \<longleftrightarrow> contact_valid e c"
proof -
  let ?p = "normalize_profile (contact_profile c)" and ?now = "e_wall_now e"
  let ?is = "profile_items e ?p prefix True ?now"
  have some_key: "(\<forall>k\<in>set contact_field_keys. prefix @ k \<notin> fst ` set ?is) \<longleftrightarrow> contact_valid e c"
    (is "?L \<longleftrightarrow> _")
  proof -
    have "?L \<longleftrightarrow> check_name (prefix @ ''fullName'') (pd_name ?p) = []
        \<and> check_pattern (prefix @ ''phone'') (pd_phone ?p) phone_pattern = []
        \<and> check_name (prefix @ ''emergencyName'') (pd_em_name ?p) = []
        \<and> check_pattern (prefix @ ''emergencyPhone'') (pd_em_phone ?p) phone_pattern = []
        \<and> check_enum (prefix @ ''gender'') (pd_gender ?p) [''M'', ''F'', ''X''] = []
        \<and> check_birth (prefix @ ''birthDate'') (pd_birth ?p) ?now = []"
      unfolding profile_items_def contact_field_keys_def set_append image_Un Un_iff fst_checks list.set ball_simps
      by (simp only: in_checked same_append_eq list.inject char.inject simp_thms if_True fst_checks)
    also have "\<dots> \<longleftrightarrow> contact_valid e c"
    proof -
      have ph: "v \<noteq> []" if "phone_pattern v" for v using that pattern_not_Nil by auto
      have g: "pd_gender ?p = ''M''" if "cf_gender c = None"
        using that placeholder_ok(4) by (simp add: normalize_profile_def contact_profile_def normalize_gender_def)
      have b: "pd_birth ?p = date_time 1990 1 1" if "cf_birth c = None"
        using that placeholder_ok(5,6) by (simp add: normalize_profile_def contact_profile_def)
      have nz: "pd_birth ?p \<noteq> zero_time" if "date_time 1900 1 1 \<le> pd_birth ?p"
        using that min_birth_after_zero by auto
      show ?thesis
        unfolding check_empty_iff contact_valid_def Let_def
        using ph g b nz now placeholder_ok(7)
        by (cases "cf_gender c"; cases "cf_birth c") auto
    qed
    finally show ?thesis .
  qed
  show ?thesis
  proof (cases "validate_profile e (contact_profile c) prefix")
    case (Inr u)
    then have "?is = []" by (simp add: validate_profile_def validate_profile_at_def)
    then have "contact_valid e c" using some_key by simp
    with Inr show ?thesis by (simp add: validate_contact_fields_def)
  next
    case (Inl err)
    with validate_profile_Inl have err: "err = AppErr (add_items ?is validation_error)" by blast
    have "kept_fields prefix (add_items ?is validation_error) = []
        \<longleftrightarrow> (\<forall>k\<in>set contact_field_keys. prefix @ k \<notin> fst ` set ?is)"
      by (simp add: kept_fields_empty_iff dom_add_items)
    with Inl err some_key show ?thesis by (simp add: validate_contact_fields_def Let_def)
  qed
qed

section \<open>Consent versions\<close>

record consent_acceptance =
  ca_version :: string
  ca_lang :: string
  ca_checked :: "string list"

record consent_link =
  ln_order :: "int option"
  ln_free :: "int option"

record publish_input =
  pc_purpose :: string
  pc_version :: string
  pc_lang :: string
  pc_effective :: gotime
  pc_text :: string
  pc_items :: "consent_item list"

text \<open>\<open>^[A-Za-z0-9._-]{1,64}$\<close> and \<open>^[a-z][a-z0-9_]{0,31}$\<close>.\<close>

definition consent_version_pattern :: "string \<Rightarrow> bool" where
  "consent_version_pattern s \<longleftrightarrow> 1 \<le> length s \<and> length s \<le> 64
     \<and> list_all (\<lambda>c. is_upper c \<or> is_lower c \<or> is_digit c \<or> c \<in> set ''._-'') s"

definition consent_item_key_pattern :: "string \<Rightarrow> bool" where
  "consent_item_key_pattern s \<longleftrightarrow>
     (case s of [] \<Rightarrow> False
      | c # cs \<Rightarrow> is_lower c \<and> length cs \<le> 31
          \<and> list_all (\<lambda>c. is_lower c \<or> is_digit c \<or> c = CHR ''_'') cs)"

definition consent_item_items :: "nat \<Rightarrow> consent_item \<Rightarrow> string list \<Rightarrow> field_item list" where
  "consent_item_items i it seen =
     (let prefix = ''items['' @ int_str (int i) @ ''].''
      in (if ci_key it = [] then [(prefix @ ''key'', ''field.required'', [])]
          else if \<not> consent_item_key_pattern (ci_key it) \<or> ci_key it \<in> set seen
          then [(prefix @ ''key'', ''field.invalid'', [])] else [])
       @ (let title = trim_space (ci_title it)
          in if title = [] then [(prefix @ ''title'', ''field.required'', [])]
             else if length title > 200 then [(prefix @ ''title'', ''field.invalid'', [])] else [])
       @ item (length (trim_space (ci_desc it)) > 1000) (prefix @ ''description'') ''field.invalid'' [])"

fun consent_items_loop :: "nat \<Rightarrow> consent_item list \<Rightarrow> string list \<Rightarrow> field_item list" where
  "consent_items_loop i [] seen = []"
| "consent_items_loop i (it # its) seen =
     consent_item_items i it seen @ consent_items_loop (Suc i) its (ci_key it # seen)"

definition publish_items :: "publish_input \<Rightarrow> field_item list" where
  "publish_items inp =
     (if pc_purpose inp = [] then [(''purpose'', ''field.required'', [])]
      else if pc_purpose inp \<noteq> ''COMMUNITY'' \<and> pc_purpose inp \<noteq> ''REGISTRATION''
      then [(''purpose'', ''field.invalid'', [])] else [])
   @ (if pc_version inp = [] then [(''version'', ''field.required'', [])]
      else if \<not> consent_version_pattern (pc_version inp)
      then [(''version'', ''field.invalid'', [])] else [])
   @ (if pc_lang inp = [] then [(''lang'', ''field.required'', [])]
      else if pc_lang inp \<notin> {''zh'', ''en'', ''km''} then [(''lang'', ''field.invalid'', [])] else [])
   @ item (pc_effective inp = zero_time) ''effectiveDate'' ''field.required'' []
   @ item (trim_space (pc_text inp) = []) ''fullText'' ''field.required'' []
   @ (if pc_items inp = [] then [(''items'', ''field.required'', [])]
      else if length (pc_items inp) > 20 then [(''items'', ''field.invalid'', [])] else [])
   @ consent_items_loop 0 (pc_items inp) []"

text \<open>\<open>PublishConsent\<close>; \<open>sha\<close> is SHA-256.  The primary key is (version, lang).\<close>

definition publish_consent :: "(string \<Rightarrow> string) \<Rightarrow> publish_input \<Rightarrow> db \<Rightarrow> db res" where
  "publish_consent sha inp s =
     bindE (collect (publish_items inp)) (\<lambda>_.
     bindE (if \<exists>c\<in>set (consents s). cv_version c = pc_version inp \<and> cv_lang c = pc_lang inp
            then Inl (from_pg (PgErr ''23505'' ''disclaimer_versions_pkey''))
            else Inr (s\<lparr>consents := consents s @
              [\<lparr>cv_version = pc_version inp, cv_lang = pc_lang inp,
                cv_effective = date_only (pc_effective inp), cv_text = pc_text inp,
                cv_items = map (\<lambda>i. \<lparr>ci_key = ci_key i, ci_title = trim_space (ci_title i),
                                   ci_desc = trim_space (ci_desc i)\<rparr>) (pc_items inp),
                cv_sha = sha (pc_text inp), cv_purpose = pc_purpose inp\<rparr>]\<rparr>)) (\<lambda>s1.
       Inr (audit_record \<lparr>au_actor_type = ''SYSTEM'', au_actor = None, au_role = None,
              au_action = ''consent.publish'', au_entity_type = ''disclaimer_version'', au_entity = 0,
              au_event = None, au_financial = False\<rparr> s1)))"

section \<open>Signing\<close>

definition ordered_checked_items :: "consent_item list \<Rightarrow> string list \<Rightarrow> string list option" where
  "ordered_checked_items its checked =
     (if length checked \<noteq> length its then None
      else if \<not> distinct checked then None
      else if \<exists>i\<in>set its. ci_key i \<notin> set checked then None
      else Some (map ci_key its))"

definition consent_invalid :: goerr where
  "consent_invalid = app 422 CodeConsentInvalid"

definition sign_consent :: "env \<Rightarrow> user_id \<Rightarrow> consent_acceptance \<Rightarrow> consent_link \<Rightarrow> db \<Rightarrow> db res" where
  "sign_consent e u acc link s =
     bindE (failIf ((ln_order link = None) = (ln_free link = None)) (OtherErr ''runner: ConsentLink'')) (\<lambda>_.
     case List.find (\<lambda>c. cv_version c = ca_version acc \<and> cv_lang c = ca_lang acc) (consents s) of
       None \<Rightarrow> Inl consent_invalid
     | Some c \<Rightarrow>
         if cv_purpose c \<noteq> ''REGISTRATION'' then Inl consent_invalid
         else (case ordered_checked_items (cv_items c) (ca_checked acc) of
                 None \<Rightarrow> Inl consent_invalid
               | Some checked \<Rightarrow>
                   let sid = next_id sg_id (signatures s)
                   in Inr (s\<lparr>signatures := signatures s @
                             [\<lparr>sg_id = sid, sg_version = cv_version c, sg_lang = cv_lang c,
                               sg_sha = cv_sha c, sg_user = u, sg_checked = checked,
                               sg_signed_at = e_now e\<rparr>],
                           reg_consents := reg_consents s @
                             [\<lparr>rx_signature = sid, rx_order = ln_order link, rx_free = ln_free link\<rparr>]\<rparr>)))"

text \<open>\<open>consentLangOrder\<close> and \<open>CurrentConsent\<close>; rows are in insertion order, which is
  \<open>created_at\<close> order, so of two versions with one effective date the later row wins.\<close>

definition consent_lang_order :: "lang \<Rightarrow> lang list" where
  "consent_lang_order l =
     fold (\<lambda>f order. if f \<in> set order then order else order @ [f]) [EN, ZH] [l]"

definition get_current_consent :: "string \<Rightarrow> string \<Rightarrow> gotime \<Rightarrow> db \<Rightarrow> consent_row option" where
  "get_current_consent purpose l today s =
     fold (\<lambda>c best. if cv_purpose c = purpose \<and> cv_lang c = l \<and> cv_effective c \<le> today
              then (case best of None \<Rightarrow> Some c
                    | Some b \<Rightarrow> if cv_effective b \<le> cv_effective c then Some c else Some b)
              else best) (consents s) None"

fun first_consent :: "string \<Rightarrow> gotime \<Rightarrow> db \<Rightarrow> lang list \<Rightarrow> consent_row option" where
  "first_consent purpose today s [] = None"
| "first_consent purpose today s (l # ls) =
     (case get_current_consent purpose (lang_str l) today s of
        Some c \<Rightarrow> Some c | None \<Rightarrow> first_consent purpose today s ls)"

definition current_consent :: "env \<Rightarrow> string \<Rightarrow> lang \<Rightarrow> db \<Rightarrow> consent_row res" where
  "current_consent e purpose l s =
     (if purpose \<noteq> ''COMMUNITY'' \<and> purpose \<noteq> ''REGISTRATION''
      then Inl (AppErr (with_field ''purpose'' ''field.invalid'' [] validation_error))
      else case first_consent purpose (platform_today (e_now e)) s (consent_lang_order l) of
             None \<Rightarrow> Inl (app 404 CodeNotFound) | Some c \<Rightarrow> Inr c)"

section \<open>Facts\<close>

lemma ordered_checked_items_Some:
  "ordered_checked_items its checked = Some o' \<longleftrightarrow>
     o' = map ci_key its \<and> length checked = length its \<and> distinct checked \<and> ci_key ` set its \<subseteq> set checked"
  by (auto simp: ordered_checked_items_def)

text \<open>Published items have distinct keys, so the ticked keys are a permutation of them.\<close>

lemma consent_items_loop_distinct:
  "consent_items_loop i its seen = [] \<Longrightarrow>
     distinct (map ci_key its) \<and> ci_key ` set its \<inter> set seen = {}"
proof (induction i its seen rule: consent_items_loop.induct)
  case (1 i seen)
  then show ?case by simp
next
  case (2 i it its seen)
  then have "consent_item_items i it seen = []" "consent_items_loop (Suc i) its (ci_key it # seen) = []"
    by simp_all
  from this(1) have "ci_key it \<notin> set seen"
    by (auto simp: consent_item_items_def Let_def split: if_splits)
  with "2.IH" [OF \<open>consent_items_loop (Suc i) its (ci_key it # seen) = []\<close>] show ?case by auto
qed

lemma ordered_checked_perm:
  assumes "distinct (map ci_key its)"
  shows "ordered_checked_items its checked = Some o' \<longleftrightarrow> o' = map ci_key its \<and> mset checked = mset o'"
proof
  assume "ordered_checked_items its checked = Some o'"
  then have o: "o' = map ci_key its" "length checked = length its" "distinct checked"
    "ci_key ` set its \<subseteq> set checked" by (auto simp: ordered_checked_items_Some)
  have "card (set checked) = card (set o')"
    using o(1-3) assms by (metis distinct_card length_map)
  then have "set o' = set checked" using o by (intro card_subset_eq) auto
  then show "o' = map ci_key its \<and> mset checked = mset o'"
    using o(1,3) assms by (metis set_eq_iff_mset_eq_distinct)
next
  assume *: "o' = map ci_key its \<and> mset checked = mset o'"
  then have "length checked = length its" by (metis length_map mset_eq_length)
  moreover have "distinct checked" using * assms by (metis mset_eq_imp_distinct_iff)
  moreover have "ci_key ` set its \<subseteq> set checked" using * by (metis list.set_map mset_eq_setD order_refl)
  ultimately show "ordered_checked_items its checked = Some o'"
    using * by (simp add: ordered_checked_items_Some)
qed

text \<open>What signing writes.\<close>

lemma sign_consent_Inr:
  assumes "sign_consent e u acc link s = Inr s'"
  shows "\<exists>c checked. c \<in> set (consents s) \<and> cv_version c = ca_version acc \<and> cv_lang c = ca_lang acc
      \<and> cv_purpose c = ''REGISTRATION'' \<and> ordered_checked_items (cv_items c) (ca_checked acc) = Some checked
      \<and> (ln_order link = None) \<noteq> (ln_free link = None)
      \<and> s' = s\<lparr>signatures := signatures s @
                 [\<lparr>sg_id = next_id sg_id (signatures s), sg_version = cv_version c, sg_lang = cv_lang c,
                   sg_sha = cv_sha c, sg_user = u, sg_checked = checked, sg_signed_at = e_now e\<rparr>],
               reg_consents := reg_consents s @
                 [\<lparr>rx_signature = next_id sg_id (signatures s), rx_order = ln_order link,
                   rx_free = ln_free link\<rparr>]\<rparr>"
proof -
  from assms obtain c checked where
    c: "List.find (\<lambda>c. cv_version c = ca_version acc \<and> cv_lang c = ca_lang acc) (consents s) = Some c"
    and k: "cv_purpose c = ''REGISTRATION''" "ordered_checked_items (cv_items c) (ca_checked acc) = Some checked"
      "(ln_order link = None) \<noteq> (ln_free link = None)"
    and s': "s' = s\<lparr>signatures := signatures s @
                 [\<lparr>sg_id = next_id sg_id (signatures s), sg_version = cv_version c, sg_lang = cv_lang c,
                   sg_sha = cv_sha c, sg_user = u, sg_checked = checked, sg_signed_at = e_now e\<rparr>],
               reg_consents := reg_consents s @
                 [\<lparr>rx_signature = next_id sg_id (signatures s), rx_order = ln_order link,
                   rx_free = ln_free link\<rparr>]\<rparr>"
    by (simp add: sign_consent_def errE Let_def split: option.splits if_splits)
  from find_Some_key [OF c] k s' show ?thesis by blast
qed

lemma sign_consent_frame:
  "sign_consent e u acc link s = Inr s' \<Longrightarrow> \<exists>a b. s' = s\<lparr>signatures := a, reg_consents := b\<rparr>"
  by (drule sign_consent_Inr) blast

end
