(* ===== verification/Orders.thy ===== *)
theory Orders
  imports Counters Consents
begin

text \<open>
  Orders after they are placed: \<open>internal/registration/orders.go\<close> (detail, list,
  cancel, release), \<open>locks.go\<close> (locking and the proof transitions) and
  \<open>ConfirmPaid\<close> of \<open>create.go\<close>.  Every transition is a conditional update on
  \<open>reservation_state\<close> and \<open>status\<close>, so it takes effect at most once.
\<close>

section \<open>Order detail\<close>

text \<open>\<open>Order\<close>; an empty \<open>ReservationState\<close> (a replayed response) is \<open>None\<close>.\<close>

record order_head =
  oh_id :: int
  oh_event :: int
  oh_buyer :: int
  oh_no :: string
  oh_status :: order_status
  oh_state :: "reservation_state option"
  oh_list :: int
  oh_discount :: int
  oh_ident :: int
  oh_amount :: int
  oh_currency :: string
  oh_account :: int
  oh_deadline :: "gotime option"
  oh_paid_at :: "gotime option"
  oh_created_at :: gotime

record detail_participant =
  dp_reg_id :: int
  dp_reg_no :: string
  dp_category :: int
  dp_category_name :: i18n_text
  dp_full_name :: string
  dp_rule :: int
  dp_list :: int
  dp_paid :: int
  dp_status :: registration_status
  dp_ticket :: "string option"

record order_detail =
  od_head :: order_head
  od_slug :: string
  od_event_name :: i18n_text
  od_timezone :: string
  od_participants :: "detail_participant list"
  od_account :: api_account
  od_rejection :: "rejection option"

record order_summary =
  os_head :: order_head
  os_slug :: string
  os_event_name :: i18n_text
  os_count :: int

definition deref_int :: "int option \<Rightarrow> int" where
  "deref_int p = (case p of None \<Rightarrow> 0 | Some i \<Rightarrow> i)"

text \<open>\<open>orderFromLockedRow\<close>; \<open>loadDetail\<close> and \<open>ListMyOrders\<close> copy the same columns.\<close>

definition order_from_row :: "order_row \<Rightarrow> order_head" where
  "order_from_row r =
     \<lparr>oh_id = ro_id r, oh_event = ro_event r, oh_buyer = deref_int (ro_buyer r), oh_no = ro_no r,
      oh_status = ro_status r, oh_state = Some (ro_state r), oh_list = ro_list r,
      oh_discount = ro_discount r, oh_ident = ro_ident r, oh_amount = ro_amount r,
      oh_currency = ro_currency r, oh_account = deref_int (ro_account r),
      oh_deadline = ro_deadline r, oh_paid_at = ro_paid_at r, oh_created_at = ro_created_at r\<rparr>"

definition no_account :: api_account where
  "no_account = \<lparr>aa_id = 0, aa_name = [], aa_provider = [], aa_account_name = [],
     aa_no_masked = [], aa_qr_file = 0\<rparr>"

definition get_order_detail :: "int \<Rightarrow> db \<Rightarrow> (order_row \<times> event_row) option" where
  "get_order_detail i s =
     (case List.find (\<lambda>r. ro_id r = i) (orders s) of
        None \<Rightarrow> None
      | Some r \<Rightarrow> (case List.find (\<lambda>ev. ev_id ev = ro_event r) (events s) of
                    None \<Rightarrow> None | Some ev \<Rightarrow> Some (r, ev)))"

definition list_order_participant_details :: "int \<Rightarrow> db \<Rightarrow> detail_participant list" where
  "list_order_participant_details i s =
     concat (map (\<lambda>p. concat (map (\<lambda>r. map (\<lambda>c.
            \<lparr>dp_reg_id = rg_id r, dp_reg_no = rg_no r, dp_category = op_category p,
             dp_category_name = ec_name c, dp_full_name = rg_name r, dp_rule = op_rule p,
             dp_list = op_list p, dp_paid = op_paid p, dp_status = rg_status r,
             dp_ticket = (if rg_status r = RegConfirmed then Some (rg_ticket r) else None)\<rparr>)
          (filter (\<lambda>c. ec_id c = op_category p) (categories s)))
        (filter (\<lambda>r. rg_participant r = op_id p) (registrations s))))
      (sort_key op_id (filter (\<lambda>p. op_order p = i) (participants s))))"

definition get_order_payment_account :: "int \<Rightarrow> db \<Rightarrow> api_account option" where
  "get_order_payment_account i s =
     map_option (\<lambda>a. \<lparr>aa_id = pa_id a, aa_name = pa_name a, aa_provider = pa_provider a,
        aa_account_name = pa_account_name a, aa_no_masked = pa_no_masked a, aa_qr_file = pa_qr_file a\<rparr>)
       (List.find (\<lambda>a. pa_id a = i) (accounts s))"

text \<open>\<open>ORDER BY reviewed_at DESC, id DESC LIMIT 1\<close>, nulls first.\<close>

definition get_last_rejected_proof :: "int \<Rightarrow> db \<Rightarrow> proof_row option" where
  "get_last_rejected_proof i s =
     (case sort_key (\<lambda>p. (case pf_reviewed_at p of None \<Rightarrow> (0, 0) | Some t \<Rightarrow> (1 :: int, - t), - pf_id p))
             (filter (\<lambda>p. pf_order p = Some i \<and> pf_status p = PfRejected) (proofs s)) of
        [] \<Rightarrow> None | p # _ \<Rightarrow> Some p)"

definition load_detail :: "int \<Rightarrow> db \<Rightarrow> order_detail res" where
  "load_detail i s =
     (case get_order_detail i s of
        None \<Rightarrow> Inl (OtherErr ''load order: no rows'')
      | Some (r, ev) \<Rightarrow>
          bindE (case ro_account r of
                   None \<Rightarrow> Inr no_account
                 | Some a \<Rightarrow> (case get_order_payment_account a s of
                              None \<Rightarrow> Inl (OtherErr ''load payment account: no rows'')
                            | Some v \<Rightarrow> Inr v)) (\<lambda>acct.
          Inr \<lparr>od_head = order_from_row r, od_slug = ev_slug ev, od_event_name = ev_name ev,
               od_timezone = ev_timezone ev,
               od_participants = list_order_participant_details i s, od_account = acct,
               od_rejection = (case get_last_rejected_proof i s of
                   None \<Rightarrow> None
                 | Some p \<Rightarrow> (case (pf_reject_code p, pf_reviewed_at p) of
                     (Some code, Some at) \<Rightarrow> Some \<lparr>rj_code = code, rj_reason = pf_reject_reason p, rj_reviewed_at = at\<rparr>
                   | _ \<Rightarrow> None))\<rparr>))"

section \<open>The API form and back\<close>

definition localized :: "i18n_text \<Rightarrow> i18n_text" where
  "localized t = concat (map (\<lambda>l. case map_of t l of None \<Rightarrow> [] | Some v \<Rightarrow> [(l, v)]) [ZH, EN, KM])"

definition to_api_order :: "order_detail \<Rightarrow> api_order" where
  "to_api_order d =
     (let h = od_head d in
      \<lparr>ao_no = oh_no h, ao_status = oh_status h, ao_slug = od_slug d,
       ao_event_name = localized (od_event_name d), ao_timezone = od_timezone d, ao_list = oh_list h,
       ao_discount = oh_discount h, ao_ident = oh_ident h, ao_amount = oh_amount h,
       ao_currency = oh_currency h, ao_deadline = oh_deadline h, ao_paid_at = oh_paid_at h,
       ao_created_at = oh_created_at h,
       ao_participants = map (\<lambda>p. \<lparr>ap_reg_no = dp_reg_no p, ap_category = dp_category p,
          ap_category_name = localized (dp_category_name p), ap_full_name = dp_full_name p,
          ap_rule = dp_rule p, ap_list = dp_list p, ap_paid = dp_paid p, ap_status = dp_status p,
          ap_ticket = dp_ticket p\<rparr>) (od_participants d),
       ao_account = od_account d, ao_rejection = od_rejection d\<rparr>)"

definition order_detail_from_api :: "api_order \<Rightarrow> order_detail" where
  "order_detail_from_api a =
     \<lparr>od_head = \<lparr>oh_id = 0, oh_event = 0, oh_buyer = 0, oh_no = ao_no a, oh_status = ao_status a,
         oh_state = None, oh_list = ao_list a, oh_discount = ao_discount a, oh_ident = ao_ident a,
         oh_amount = ao_amount a, oh_currency = ao_currency a, oh_account = aa_id (ao_account a),
         oh_deadline = ao_deadline a, oh_paid_at = ao_paid_at a, oh_created_at = ao_created_at a\<rparr>,
      od_slug = ao_slug a, od_event_name = localized (ao_event_name a), od_timezone = ao_timezone a,
      od_participants = map (\<lambda>p. \<lparr>dp_reg_id = 0, dp_reg_no = ap_reg_no p, dp_category = ap_category p,
          dp_category_name = localized (ap_category_name p), dp_full_name = ap_full_name p,
          dp_rule = ap_rule p, dp_list = ap_list p, dp_paid = ap_paid p, dp_status = ap_status p,
          dp_ticket = ap_ticket p\<rparr>) (ao_participants a),
      od_account = ao_account a, od_rejection = ao_rejection a\<rparr>"

lemma localized_idem [simp]: "localized (localized t) = localized t"
  by (simp add: localized_def split: option.split)

lemma to_api_from_api: "to_api_order (order_detail_from_api (to_api_order d)) = to_api_order d"
  by (simp add: to_api_order_def order_detail_from_api_def Let_def o_def)

section \<open>Conditional updates\<close>

text \<open>Each is an \<open>:execrows\<close> statement on \<open>reg_orders\<close>: new table and affected rows.\<close>

definition exec_orders :: "(order_row \<Rightarrow> bool) \<Rightarrow> (order_row \<Rightarrow> order_row) \<Rightarrow> db \<Rightarrow> nat \<times> db" where
  "exec_orders P f s = (rows_where P (orders s), s\<lparr>orders := update_where P f (orders s)\<rparr>)"

definition mark_order_paid :: "gotime \<Rightarrow> int \<Rightarrow> db \<Rightarrow> nat \<times> db" where
  "mark_order_paid paid_at i = exec_orders
     (\<lambda>r. ro_id r = i \<and> ro_state r = Reserved
        \<and> (ro_status r = ProofSubmitted \<or> (ro_status r = PendingPayment \<and> ro_amount r = 0)))
     (\<lambda>r. r\<lparr>ro_status := Paid, ro_paid_at := Some paid_at, ro_deadline := None,
            ro_state := Consumed, ro_version := ro_version r + 1\<rparr>)"

definition release_order_expired :: "gotime \<Rightarrow> int \<Rightarrow> db \<Rightarrow> nat \<times> db" where
  "release_order_expired at i = exec_orders
     (\<lambda>r. ro_id r = i \<and> ro_state r = Reserved
        \<and> (ro_status r = PendingPayment \<or> ro_status r = ProofRejected))
     (\<lambda>r. r\<lparr>ro_status := Expired, ro_state := Released, ro_release_kind := Some ReleaseExpired,
            ro_expired_at := Some at, ro_deadline := None, ro_version := ro_version r + 1\<rparr>)"

definition release_order_cancelled :: "gotime \<Rightarrow> int \<Rightarrow> db \<Rightarrow> nat \<times> db" where
  "release_order_cancelled at i = exec_orders
     (\<lambda>r. ro_id r = i \<and> ro_state r = Reserved \<and> ro_status r = PendingPayment)
     (\<lambda>r. r\<lparr>ro_status := Cancelled, ro_state := Released, ro_release_kind := Some ReleaseCancelled,
            ro_cancelled_at := Some at, ro_deadline := None, ro_version := ro_version r + 1\<rparr>)"

definition set_order_proof_submitted :: "int \<Rightarrow> db \<Rightarrow> nat \<times> db" where
  "set_order_proof_submitted i = exec_orders
     (\<lambda>r. ro_id r = i \<and> ro_state r = Reserved
        \<and> (ro_status r = PendingPayment \<or> ro_status r = ProofRejected))
     (\<lambda>r. r\<lparr>ro_status := ProofSubmitted, ro_deadline := None, ro_version := ro_version r + 1\<rparr>)"

definition set_order_proof_rejected :: "int \<Rightarrow> gotime \<Rightarrow> db \<Rightarrow> nat \<times> db" where
  "set_order_proof_rejected i deadline = exec_orders
     (\<lambda>r. ro_id r = i \<and> ro_state r = Reserved \<and> ro_status r = ProofSubmitted)
     (\<lambda>r. r\<lparr>ro_status := ProofRejected, ro_deadline := Some deadline, ro_version := ro_version r + 1\<rparr>)"

text \<open>The registrations of an order: \<open>FROM order_participants op WHERE op.id = ... AND op.order_id = ...\<close>.\<close>

definition reg_of_order :: "db \<Rightarrow> int \<Rightarrow> registration_row \<Rightarrow> bool" where
  "reg_of_order s i r \<longleftrightarrow> (\<exists>p\<in>set (participants s). op_id p = rg_participant r \<and> op_order p = i)"

definition confirm_order_registrations :: "gotime \<Rightarrow> int \<Rightarrow> db \<Rightarrow> db" where
  "confirm_order_registrations at i s = s\<lparr>registrations :=
     update_where (\<lambda>r. reg_of_order s i r \<and> rg_status r = RegPending)
       (\<lambda>r. r\<lparr>rg_status := RegConfirmed, rg_confirmed_at := Some at, rg_version := rg_version r + 1\<rparr>)
       (registrations s)\<rparr>"

definition cancel_order_registrations :: "release_kind \<Rightarrow> int \<Rightarrow> db \<Rightarrow> db" where
  "cancel_order_registrations kind i s = s\<lparr>registrations :=
     update_where (\<lambda>r. reg_of_order s i r \<and> rg_status r = RegPending)
       (\<lambda>r. r\<lparr>rg_status := RegCancelled, rg_cancel_reason := Some kind, rg_version := rg_version r + 1\<rparr>)
       (registrations s)\<rparr>"

section \<open>Paying and releasing\<close>

definition state_conflict :: goerr where
  "state_conflict = app 409 CodeOrderStateConflict"

definition order_not_found :: goerr where
  "order_not_found = app 404 CodeOrderNotFound"

definition confirm_paid :: "env \<Rightarrow> int \<Rightarrow> gotime \<Rightarrow> db \<Rightarrow> db res" where
  "confirm_paid e i paid_at s =
     (let (n, s1) = mark_order_paid paid_at i s
      in bindE (failIf (n \<noteq> 1) state_conflict) (\<lambda>_.
         bindE (consume i s1) (\<lambda>s2.
           Inr (confirm_order_registrations (e_now e) i s2))))"

definition release_order :: "env \<Rightarrow> int \<Rightarrow> release_kind \<Rightarrow> db \<Rightarrow> (bool \<times> db) res" where
  "release_order e i kind s =
     (let (n, s1) = (case kind of ReleaseExpired \<Rightarrow> release_order_expired (e_now e) i s
                     | ReleaseCancelled \<Rightarrow> release_order_cancelled (e_now e) i s)
      in if n = 0 then Inr (False, s1)
         else bindE (release i s1) (\<lambda>s2. Inr (True, cancel_order_registrations kind i s2)))"

definition mark_proof_submitted :: "int \<Rightarrow> db \<Rightarrow> db res" where
  "mark_proof_submitted i s =
     (let (n, s1) = set_order_proof_submitted i s
      in if n \<noteq> 1 then Inl state_conflict else Inr s1)"

definition mark_proof_rejected :: "int \<Rightarrow> gotime \<Rightarrow> db \<Rightarrow> db res" where
  "mark_proof_rejected i deadline s =
     (let (n, s1) = set_order_proof_rejected i deadline s
      in if n \<noteq> 1 then Inl state_conflict else Inr s1)"

definition lock_order_by_no :: "string \<Rightarrow> db \<Rightarrow> order_head res" where
  "lock_order_by_no no s =
     (case List.find (\<lambda>r. ro_no r = to_upper (trim_space no)) (orders s) of
        None \<Rightarrow> Inl order_not_found | Some r \<Rightarrow> Inr (order_from_row r))"

definition lock_order_by_id :: "int \<Rightarrow> db \<Rightarrow> order_head res" where
  "lock_order_by_id i s =
     (case List.find (\<lambda>r. ro_id r = i) (orders s) of
        None \<Rightarrow> Inl order_not_found | Some r \<Rightarrow> Inr (order_from_row r))"

section \<open>The runner's orders\<close>

text \<open>\<open>ListOrdersForBuyer\<close>: newest first, at most 100.\<close>

definition list_my_orders :: "user_id \<Rightarrow> db \<Rightarrow> order_summary list" where
  "list_my_orders u s =
     take 100 (concat (map (\<lambda>r. map (\<lambda>ev.
         \<lparr>os_head = order_from_row r, os_slug = ev_slug ev, os_event_name = ev_name ev,
          os_count = int (rows_where (\<lambda>p. op_order p = ro_id r) (participants s))\<rparr>)
        (filter (\<lambda>ev. ev_id ev = ro_event r) (events s)))
      (sort_key (\<lambda>r. (- ro_created_at r, - ro_id r)) (filter (\<lambda>r. ro_buyer r = Some u) (orders s)))))"

definition get_my_order :: "user_id \<Rightarrow> string \<Rightarrow> db \<Rightarrow> order_detail res" where
  "get_my_order u no s =
     (case List.find (\<lambda>r. ro_no r = no \<and> ro_buyer r = Some u) (orders s) of
        None \<Rightarrow> Inl order_not_found | Some r \<Rightarrow> load_detail (ro_id r) s)"

definition cancel_order :: "env \<Rightarrow> user_id \<Rightarrow> string \<Rightarrow> db \<Rightarrow> (order_detail \<times> db) res" where
  "cancel_order e u no s =
     (case List.find (\<lambda>r. ro_no r = no \<and> ro_buyer r = Some u) (orders s) of
        None \<Rightarrow> Inl order_not_found
      | Some r \<Rightarrow>
          bindE (failIf (ro_status r \<noteq> PendingPayment) state_conflict) (\<lambda>_.
          bindE (release_order e (ro_id r) ReleaseCancelled s) (\<lambda>(released, s1).
          bindE (failIf (\<not> released) state_conflict) (\<lambda>_.
          let s2 = audit_record (runner_entry u ''reg_order.cancel'' (ro_id r) (ro_event r)) s1
          in bindE (load_detail (ro_id r) s2) (\<lambda>d. Inr (d, s2))))))"

end
