(* ===== verification/Notify.thy ===== *)
theory Notify
  imports Orders
begin

text \<open>
  \<open>internal/notify\<close>: registering a push message in the caller's transaction
  (\<open>Enqueue\<close>, with its deduplication key and rendered text) and the worker that
  sends it and records the outcome (\<open>SendWorker.Work\<close>).
\<close>

section \<open>Text\<close>

text \<open>\<open>strings.ReplaceAll\<close> with a non-empty \<open>old\<close>.\<close>

function replace_all :: "string \<Rightarrow> string \<Rightarrow> string \<Rightarrow> string" where
  "replace_all old new [] = []"
| "replace_all old new (c # s) =
     (if old \<noteq> [] \<and> has_prefix (c # s) old then new @ replace_all old new (drop (length old) (c # s))
      else c # replace_all old new s)"
  by pat_completeness auto
termination by (relation "measure (\<lambda>(old, new, s). length s)") auto

text \<open>\<open>Catalog.T\<close>; a missing message is the empty text. The map of parameters is applied in list order.\<close>

definition catalog_t :: "env \<Rightarrow> lang \<Rightarrow> string \<Rightarrow> (string \<times> string) list \<Rightarrow> string" where
  "catalog_t e l key params =
     fold (\<lambda>(name, v) msg. replace_all (''{'' @ name @ ''}'') v msg) params
       (case List.find (\<lambda>c. e_catalog e c key \<noteq> []) [l, EN, ZH] of
          None \<Rightarrow> key | Some c \<Rightarrow> e_catalog e c key)"

datatype template = ProofApproved | ProofRejectedMsg | DeadlineReminder | OrderExpiredMsg

fun template_str :: "template \<Rightarrow> string" where
  "template_str ProofApproved = ''proof_approved''"
| "template_str ProofRejectedMsg = ''proof_rejected''"
| "template_str DeadlineReminder = ''payment_deadline_reminder''"
| "template_str OrderExpiredMsg = ''order_expired''"

datatype notify_param = NpString string | NpText i18n_text | NpReason string "string option"

record notification =
  nt_template :: template
  nt_user :: int
  nt_order :: int
  nt_proof :: "int option"
  nt_dedupe :: string
  nt_params :: "(string \<times> notify_param) list"

definition localize_param :: "env \<Rightarrow> lang \<Rightarrow> notify_param \<Rightarrow> string" where
  "localize_param e l v =
     (case v of
        NpString s \<Rightarrow> s
      | NpText t \<Rightarrow> text_in t l
      | NpReason code note \<Rightarrow>
          catalog_t e l (''notify.reject_code.'' @ code) []
          @ (case note of None \<Rightarrow> []
             | Some n \<Rightarrow> if trim_space n = [] then [] else char_of (10 :: nat) # trim_space n))"

definition localize_params :: "env \<Rightarrow> lang \<Rightarrow> (string \<times> notify_param) list \<Rightarrow> (string \<times> string) list" where
  "localize_params e l ps = map (\<lambda>(n, v). (n, localize_param e l v)) ps"

definition render :: "env \<Rightarrow> lang \<Rightarrow> template \<Rightarrow> (string \<times> notify_param) list \<Rightarrow> string" where
  "render e l t ps = catalog_t e l (''notify.'' @ template_str t) (localize_params e l ps)"

text \<open>\<open>FormatTime\<close>: \<open>YYYY-MM-DD HH:mm\<close> in the zone, Phnom Penh by default, UTC at last.\<close>

definition default_timezone :: string where "default_timezone = ''Asia/Phnom_Penh''"

definition zone_offset :: "env \<Rightarrow> gotime \<Rightarrow> string \<Rightarrow> int" where
  "zone_offset e t zone =
     (let dflt = (case e_zone e default_timezone t of None \<Rightarrow> 0 | Some off \<Rightarrow> off)
      in if zone = [] then dflt else case e_zone e zone t of None \<Rightarrow> dflt | Some off \<Rightarrow> off)"

definition format_time :: "env \<Rightarrow> gotime \<Rightarrow> string \<Rightarrow> string" where
  "format_time e t zone =
     (let l = t + zone_offset e t zone; (y, m, d) = civil_date l; mins = l mod day div minute
      in pad_zero 4 (int_str y) @ ''-'' @ pad_zero 2 (int_str m) @ ''-'' @ pad_zero 2 (int_str d)
         @ '' '' @ pad_zero 2 (int_str (mins div 60)) @ '':'' @ pad_zero 2 (int_str (mins mod 60)))"

text \<open>\<open>url.PathEscape\<close> on the UTF-8 bytes.\<close>

definition utf8_bytes :: "char \<Rightarrow> nat list" where
  "utf8_bytes c = (let n = code_of c in if n < 128 then [n] else [192 + n div 64, 128 + n mod 64])"

definition path_escape :: "string \<Rightarrow> string" where
  "path_escape s = concat (map (\<lambda>c.
     if is_upper c \<or> is_lower c \<or> is_digit c \<or> c \<in> set ''-_.~$&+=:@'' then [c]
     else concat (map (\<lambda>b. [CHR ''%'', hex_upper (b div 16), hex_upper (b mod 16)]) (utf8_bytes c))) s)"

text \<open>\<open>NewService\<close> trims the slashes at the end of the app address.\<close>

definition app_base :: "env \<Rightarrow> string" where
  "app_base e = rev (dropWhile (\<lambda>c. c = CHR ''/'') (rev (e_app_url e)))"

section \<open>Enqueue\<close>

definition send_max_attempts :: int where "send_max_attempts = 5"

definition dedupe_key :: "notification \<Rightarrow> string" where
  "dedupe_key n = (if nt_dedupe n \<noteq> [] then nt_dedupe n
     else template_str (nt_template n) @ '':'' @ int_str (nt_order n) @ '':''
        @ int_str (case nt_proof n of None \<Rightarrow> 0 | Some i \<Rightarrow> i))"

text \<open>\<open>InsertNotificationLog\<close>: \<open>ON CONFLICT (dedupe_key) DO NOTHING\<close>, \<open>None\<close> on a conflict.\<close>

definition insert_notification_log :: "log_row \<Rightarrow> db \<Rightarrow> (int \<times> db) option" where
  "insert_notification_log row s =
     (if \<exists>l\<in>set (notify_logs s). nl_dedupe l = nl_dedupe row then None
      else let i = next_id nl_id (notify_logs s)
           in Some (i, s\<lparr>notify_logs := notify_logs s @ [row\<lparr>nl_id := i\<rparr>]\<rparr>))"

definition order_no_param :: "notification \<Rightarrow> string" where
  "order_no_param n = (case map_of (nt_params n) ''orderNo'' of Some (NpString v) \<Rightarrow> v | _ \<Rightarrow> [])"

definition enqueue :: "env \<Rightarrow> notification \<Rightarrow> db \<Rightarrow> db res" where
  "enqueue e n s =
     (if order_no_param n = [] then Inl (OtherErr ''notify: params.orderNo is required'')
      else case List.find (\<lambda>u. us_id u = nt_user n) (users s) of
        None \<Rightarrow> Inl (OtherErr ''notify: load recipient user'')
      | Some u \<Rightarrow>
          (case us_telegram u of
             None \<Rightarrow> Inr s
           | Some chat \<Rightarrow>
               (let l = (case parse_lang (us_locale u) of None \<Rightarrow> default_lang | Some l \<Rightarrow> l)
                in case insert_notification_log
                       \<lparr>nl_id = 0, nl_recipient = int_str chat, nl_template = template_str (nt_template n),
                        nl_locale = l, nl_entity = nt_order n, nl_dedupe = dedupe_key n, nl_status = NtPending,
                        nl_attempts = 0, nl_last_error = None, nl_sent_at = None\<rparr> s of
                     None \<Rightarrow> Inr s
                   | Some (i, s') \<Rightarrow>
                       Inr (s'\<lparr>jobs := jobs s' @ [\<lparr>jb_log = i, jb_chat = chat,
                          jb_text = render e l (nt_template n) (nt_params n),
                          jb_button_text = catalog_t e l ''notify.open_order'' [],
                          jb_button_url = app_base e @ ''/orders/'' @ path_escape (order_no_param n),
                          jb_max_attempts = send_max_attempts\<rparr>]\<rparr>))))"

text \<open>Audit entries and messages change nothing else: the database without its logs.\<close>

definition core :: "db \<Rightarrow> db" where
  "core s = s\<lparr>audit_logs := [], notify_logs := [], jobs := []\<rparr>"

lemma core_audit [simp]: "core (audit_record a s) = core s"
  by (simp add: core_def audit_record_def)

lemma enqueue_core: "enqueue e n s = Inr s' \<Longrightarrow> core s' = core s"
  unfolding enqueue_def insert_notification_log_def Let_def core_def
  by (simp split: if_splits option.splits; hypsubst; simp)

lemma core_simps [simp]:
  "events (core s) = events s"
  "categories (core s) = categories s"
  "price_rules (core s) = price_rules s"
  "coupons (core s) = coupons s"
  "redemptions (core s) = redemptions s"
  "orders (core s) = orders s"
  "participants (core s) = participants s"
  "registrations (core s) = registrations s"
  "free_signups (core s) = free_signups s"
  "idem_keys (core s) = idem_keys s"
  "proofs (core s) = proofs s"
  "receipts (core s) = receipts s"
  "exceptions (core s) = exceptions s"
  "users (core s) = users s"
  "accounts (core s) = accounts s"
  by (simp_all add: core_def)

lemma coreD:
  assumes "core s' = core s"
  shows "events s' = events s" "categories s' = categories s" "price_rules s' = price_rules s"
    "coupons s' = coupons s" "redemptions s' = redemptions s" "orders s' = orders s"
    "participants s' = participants s" "registrations s' = registrations s"
    "free_signups s' = free_signups s" "idem_keys s' = idem_keys s" "proofs s' = proofs s"
    "receipts s' = receipts s" "exceptions s' = exceptions s" "users s' = users s" "accounts s' = accounts s"
  using arg_cong [OF assms, of events] arg_cong [OF assms, of categories] arg_cong [OF assms, of price_rules] arg_cong [OF assms, of coupons] arg_cong [OF assms, of redemptions] arg_cong [OF assms, of orders] arg_cong [OF assms, of participants]
    arg_cong [OF assms, of registrations] arg_cong [OF assms, of free_signups] arg_cong [OF assms, of idem_keys] arg_cong [OF assms, of proofs] arg_cong [OF assms, of receipts] arg_cong [OF assms, of exceptions] arg_cong [OF assms, of users] arg_cong [OF assms, of accounts] by simp_all

section \<open>The worker\<close>

text \<open>What \<open>Sender.Send\<close> returned: delivered, or an error, which may say the recipient blocked the bot.\<close>

datatype send_result = SendOk | SendErr bool string

datatype job_outcome = JobDone | JobCancel string | JobError string

text \<open>\<open>truncateError\<close>: the first 1000 bytes, less a cut code point.\<close>

fun take_bytes :: "nat \<Rightarrow> string \<Rightarrow> string" where
  "take_bytes n [] = []"
| "take_bytes n (c # s) = (let k = length (utf8_bytes c) in if k \<le> n then c # take_bytes (n - k) s else [])"

definition max_last_error_bytes :: nat where "max_last_error_bytes = 1000"

definition mark_notification_sent :: "int \<Rightarrow> gotime \<Rightarrow> db \<Rightarrow> db" where
  "mark_notification_sent i at s = s\<lparr>notify_logs := update_where (\<lambda>l. nl_id l = i)
     (\<lambda>l. l\<lparr>nl_status := NtSent, nl_sent_at := Some at, nl_attempts := nl_attempts l + 1,
            nl_last_error := None\<rparr>) (notify_logs s)\<rparr>"

definition mark_attempt_failed :: "int \<Rightarrow> notify_status \<Rightarrow> string \<Rightarrow> db \<Rightarrow> db" where
  "mark_attempt_failed i st msg s = s\<lparr>notify_logs := update_where (\<lambda>l. nl_id l = i)
     (\<lambda>l. l\<lparr>nl_status := st, nl_attempts := nl_attempts l + 1, nl_last_error := Some msg\<rparr>) (notify_logs s)\<rparr>"

definition send_work :: "env \<Rightarrow> int \<Rightarrow> int \<Rightarrow> int \<Rightarrow> send_result \<Rightarrow> db \<Rightarrow> job_outcome \<times> db" where
  "send_work e log_id attempt max_tries result s =
     (case List.find (\<lambda>l. nl_id l = log_id) (notify_logs s) of
        None \<Rightarrow> (JobCancel (''notify: notification log '' @ int_str log_id @ '' not found''), s)
      | Some l \<Rightarrow>
          if nl_status l = NtSent then (JobDone, s)
          else case result of
            SendOk \<Rightarrow> (JobDone, mark_notification_sent log_id (e_wall_now e) s)
          | SendErr blocked msg \<Rightarrow>
              (let st = (if blocked \<or> max_tries \<le> attempt then NtFailed else NtPending);
                   s' = mark_attempt_failed log_id st (take_bytes max_last_error_bytes msg) s
               in if blocked then (JobCancel msg, s') else (JobError (''notify: send log '' @ int_str log_id @ '': '' @ msg), s')))"

text \<open>The row of a log after an attempt.\<close>

definition attempted :: "env \<Rightarrow> int \<Rightarrow> int \<Rightarrow> send_result \<Rightarrow> log_row \<Rightarrow> log_row" where
  "attempted e attempt max_tries result l =
     (if nl_status l = NtSent then l
      else case result of
        SendOk \<Rightarrow> l\<lparr>nl_status := NtSent, nl_sent_at := Some (e_wall_now e), nl_attempts := nl_attempts l + 1, nl_last_error := None\<rparr>
      | SendErr blocked msg \<Rightarrow>
          l\<lparr>nl_status := (if blocked \<or> max_tries \<le> attempt then NtFailed else NtPending),
            nl_attempts := nl_attempts l + 1, nl_last_error := Some (take_bytes max_last_error_bytes msg)\<rparr>)"

lemma attempted_id [simp]: "nl_id (attempted e a m r l) = nl_id l"
  by (simp add: attempted_def split: send_result.split)

lemma find_update_key:
  assumes "distinct (map key t)" and "\<And>r. key (f r) = key r"
  shows "List.find (\<lambda>r. key r = i) (update_where (\<lambda>r. key r = i) f t) = map_option f (List.find (\<lambda>r. key r = i) t)"
  using assms by (induction t) auto

lemma send_work_row:
  assumes "distinct (map nl_id (notify_logs s))"
  shows "List.find (\<lambda>l. nl_id l = i) (notify_logs (snd (send_work e i a m r s)))
    = map_option (attempted e a m r) (List.find (\<lambda>l. nl_id l = i) (notify_logs s))"
proof (cases "List.find (\<lambda>l. nl_id l = i) (notify_logs s)")
  case None
  then show ?thesis by (simp add: send_work_def)
next
  case (Some l)
  with find_update_key [OF assms] show ?thesis
    by (cases r) (simp_all add: send_work_def Let_def attempted_def mark_notification_sent_def mark_attempt_failed_def)
qed

lemma byte_len_take_bytes: "byte_len (take_bytes n s) \<le> n"
  by (induction n s rule: take_bytes.induct) (auto simp: byte_len_def utf8_bytes_def Let_def)

end
