(* ===== verification/AdminOrders.thy ===== *)
theory AdminOrders
  imports Orders "HOL-Library.Sublist"
begin

text \<open>
  \<open>internal/registration/admin.go\<close>: the staff's order list with its literal
  text search (SQL \<open>LIKE\<close> on an escaped pattern) and the order detail with
  proofs, receipts and coupon.
\<close>

section \<open>SQL patterns\<close>

text \<open>\<open>s LIKE p ESCAPE '\'\<close>; PostgreSQL rejects a pattern that ends in the escape character.\<close>

abbreviation backslash :: char where "backslash \<equiv> CHR 0x5C"

fun like :: "string \<Rightarrow> string \<Rightarrow> bool" where
  "like [] s = (s = [])"
| "like (c # p) [] = (c = CHR ''%'' \<and> like p [])"
| "like (c # p) (x # s) =
     (if c = CHR ''%'' then like p (x # s) \<or> like (c # p) s
      else if c = backslash then (case p of [] \<Rightarrow> False | d # p' \<Rightarrow> d = x \<and> like p' s)
      else (c = CHR ''_'' \<or> c = x) \<and> like p s)"

text \<open>\<open>ILIKE\<close> compares without case.\<close>

definition ilike :: "string \<Rightarrow> string \<Rightarrow> bool" where
  "ilike p s = like (to_lower p) (to_lower s)"

text \<open>\<open>escapeLike\<close>.\<close>

definition escape_like :: "string \<Rightarrow> string" where
  "escape_like s = concat (map (\<lambda>c. if c = backslash \<or> c = CHR ''%'' \<or> c = CHR ''_'' then [backslash, c] else [c]) s)"

definition contains_pattern :: "string \<Rightarrow> string" where
  "contains_pattern q = ''%'' @ escape_like q @ ''%''"

lemma escape_like_simps [simp]:
  "escape_like [] = []"
  "escape_like (c # q) = (if c = backslash \<or> c = CHR ''%'' \<or> c = CHR ''_'' then backslash # c # escape_like q else c # escape_like q)"
  by (simp_all add: escape_like_def)

lemma like_any: "like ''%'' s"
  by (induction s) auto

lemma like_prefix: "like (escape_like q @ ''%'') s \<longleftrightarrow> prefix q s"
proof (induction q arbitrary: s)
  case Nil
  then show ?case by (simp add: like_any)
next
  case (Cons c q)
  then show ?case by (cases s) auto
qed

text \<open>An escaped pattern between two \<open>%\<close> finds exactly the texts that contain the query.\<close>

lemma like_contains: "like (contains_pattern q) s \<longleftrightarrow> sublist q s"
proof (induction s)
  case Nil
  have "like (escape_like q @ ''%'') [] \<longleftrightarrow> prefix q []" by (rule like_prefix)
  then show ?case by (simp add: contains_pattern_def)
next
  case (Cons x s)
  have "like (escape_like q @ ''%'') (x # s) \<longleftrightarrow> prefix q (x # s)" by (rule like_prefix)
  with Cons show ?case by (simp add: contains_pattern_def sublist_Cons_right)
qed

section \<open>The order list\<close>

record admin_filter =
  af_event :: "int option"
  af_status :: string
  af_query :: string
  af_limit :: int
  af_offset :: int

definition admin_order_statuses :: "string list" where
  "admin_order_statuses = [''PENDING_PAYMENT'', ''PROOF_SUBMITTED'', ''PROOF_REJECTED'', ''PAID'',
     ''PARTIALLY_REFUNDED'', ''REFUNDED'', ''EXPIRED'', ''CANCELLED'']"

definition admin_match :: "int option \<Rightarrow> string \<Rightarrow> string \<Rightarrow> string \<Rightarrow> order_row \<Rightarrow> bool" where
  "admin_match ev status q qlike r \<longleftrightarrow>
     (case ev of None \<Rightarrow> True | Some i \<Rightarrow> ro_event r = i)
   \<and> (status = [] \<or> status_str (ro_status r) = status)
   \<and> (q = [] \<or> ro_no r = to_upper q \<or> like (''%'' @ qlike @ ''%'') (ro_buyer_phone r)
        \<or> ilike (''%'' @ qlike @ ''%'') (ro_buyer_name r))"

definition admin_list_reg_orders :: "int option \<Rightarrow> string \<Rightarrow> string \<Rightarrow> string \<Rightarrow> int \<Rightarrow> int \<Rightarrow> db \<Rightarrow> order_summary list" where
  "admin_list_reg_orders ev status q qlike limit offset s =
     take (nat limit) (drop (nat offset) (concat (map (\<lambda>r. map (\<lambda>e.
         \<lparr>os_head = order_from_row r, os_slug = ev_slug e, os_event_name = ev_name e,
          os_count = int (rows_where (\<lambda>p. op_order p = ro_id r) (participants s))\<rparr>)
        (filter (\<lambda>e. ev_id e = ro_event r) (events s)))
      (sort_key (\<lambda>r. (- ro_created_at r, - ro_id r)) (filter (admin_match ev status q qlike) (orders s))))))"

definition admin_count_reg_orders :: "int option \<Rightarrow> string \<Rightarrow> string \<Rightarrow> string \<Rightarrow> db \<Rightarrow> int" where
  "admin_count_reg_orders ev status q qlike s = int (rows_where (admin_match ev status q qlike) (orders s))"

definition admin_list_orders :: "admin_filter \<Rightarrow> db \<Rightarrow> (order_summary list \<times> int) res" where
  "admin_list_orders f s =
     (let status = to_upper (trim_space (af_status f));
          limit = min (if af_limit f \<le> 0 then 20 else af_limit f) 100;
          offset = max (af_offset f) 0;
          q = trim_space (af_query f)
      in if status \<noteq> [] \<and> status \<notin> set admin_order_statuses
         then Inl (AppErr (with_field ''status'' ''field.invalid'' [] (new_err 422 CodeValidation)))
         else Inr (admin_list_reg_orders (af_event f) status q (escape_like q) limit offset s,
                   admin_count_reg_orders (af_event f) status q (escape_like q) s))"

section \<open>The order detail\<close>

record proof_history_item =
  ph_id :: int
  ph_no :: string
  ph_status :: proof_status
  ph_ref :: string
  ph_declared :: int
  ph_reject_code :: "string option"
  ph_created_at :: gotime
  ph_reviewed_at :: "gotime option"

record receipt_item =
  ri_id :: int
  ri_ref :: string
  ri_amount :: int
  ri_received_at :: gotime
  ri_match :: match_status

record admin_order_detail =
  ad_detail :: order_detail
  ad_buyer_name :: string
  ad_buyer_phone :: string
  ad_proofs :: "proof_history_item list"
  ad_receipts :: "receipt_item list"
  ad_coupon :: "(string \<times> int \<times> reservation_state) option"

definition admin_list_order_proofs :: "int \<Rightarrow> db \<Rightarrow> proof_history_item list" where
  "admin_list_order_proofs i s =
     map (\<lambda>p. \<lparr>ph_id = pf_id p, ph_no = pf_no p, ph_status = pf_status p, ph_ref = pf_txn_ref p,
        ph_declared = pf_declared p, ph_reject_code = pf_reject_code p, ph_created_at = pf_created_at p,
        ph_reviewed_at = pf_reviewed_at p\<rparr>)
      (sort_key (\<lambda>p. (- pf_created_at p, - pf_id p)) (filter (\<lambda>p. pf_order p = Some i) (proofs s)))"

definition admin_list_order_receipts :: "int \<Rightarrow> db \<Rightarrow> receipt_item list" where
  "admin_list_order_receipts i s =
     map (\<lambda>r. \<lparr>ri_id = rc_id r, ri_ref = rc_txn_ref r, ri_amount = rc_amount r,
        ri_received_at = rc_received_at r, ri_match = rc_match r\<rparr>)
      (sort_key (\<lambda>r. (rc_received_at r, rc_id r)) (filter (\<lambda>r. rc_order r = Some i) (receipts s)))"

definition admin_get_order_coupon :: "int \<Rightarrow> db \<Rightarrow> (string \<times> int \<times> reservation_state) option" where
  "admin_get_order_coupon i s =
     (case List.find (\<lambda>r. cr_order r = i) (redemptions s) of
        None \<Rightarrow> None
      | Some r \<Rightarrow> (case List.find (\<lambda>c. cp_id c = cr_coupon r) (coupons s) of
            None \<Rightarrow> None | Some c \<Rightarrow> Some (cp_code c, cr_discount r, cr_state r)))"

definition admin_get_order :: "int \<Rightarrow> db \<Rightarrow> admin_order_detail res" where
  "admin_get_order i s =
     (case List.find (\<lambda>r. ro_id r = i) (orders s) of
        None \<Rightarrow> Inl order_not_found
      | Some r \<Rightarrow>
          bindE (load_detail i s) (\<lambda>d.
            Inr \<lparr>ad_detail = d, ad_buyer_name = ro_buyer_name r, ad_buyer_phone = ro_buyer_phone r,
                 ad_proofs = admin_list_order_proofs i s, ad_receipts = admin_list_order_receipts i s,
                 ad_coupon = admin_get_order_coupon i s\<rparr>))"

text \<open>The list and its total select the same orders.\<close>

lemma admin_list_query:
  "admin_match ev status q (escape_like q) r \<longleftrightarrow>
     (case ev of None \<Rightarrow> True | Some i \<Rightarrow> ro_event r = i)
   \<and> (status = [] \<or> status_str (ro_status r) = status)
   \<and> (q = [] \<or> ro_no r = to_upper q \<or> sublist q (ro_buyer_phone r)
        \<or> sublist (to_lower q) (to_lower (ro_buyer_name r)))"
proof -
  have low: "to_lower_char c = d \<longleftrightarrow> c = d" if d: "d = backslash \<or> d = CHR ''%'' \<or> d = CHR ''_''" for c d
  proof -
    have dc: "code_of d \<in> {92, 37, 95}" using d by (auto simp: code_of_def)
    have "code_of (to_lower_char c) = (let n = code_of c in
        if (65 \<le> n \<and> n \<le> 90) \<or> (192 \<le> n \<and> n \<le> 222 \<and> n \<noteq> 215) then n + 32 else n)"
      using code_of_less [of c] by (simp add: to_lower_char_def Let_def code_of_char_of)
    then have "code_of (to_lower_char c) = code_of d \<longleftrightarrow> code_of c = code_of d"
      using dc by (auto simp: Let_def)
    then show ?thesis by (simp add: code_of_def)
  qed
  have "to_lower (escape_like q) = escape_like (to_lower q)"
    by (induction q) (auto simp: low)
  then have "to_lower (''%'' @ escape_like q @ ''%'') = contains_pattern (to_lower q)"
    by (simp add: contains_pattern_def low)
  then show ?thesis
    using like_contains [of q "ro_buyer_phone r"] like_contains [of "to_lower q" "to_lower (ro_buyer_name r)"]
    by (simp add: admin_match_def ilike_def contains_pattern_def)
qed

end
