(* ===== verification/Ledger.thy ===== *)
theory Ledger
  imports Counters
begin

text \<open>
  The abstract seat ledger.  Its entries (order participants, coupon
  redemptions) each belong to an order and occupy one seat of a key; the state
  of the order says whether the seat is reserved, consumed or released.  A
  counter table \<open>agrees\<close> with the ledger when every reserved count is the
  number of entries of reserved orders and every used count that of consumed
  orders plus the seats taken without an order.  Reserving, consuming and
  releasing keep the agreement: the counters refine the ledger.
\<close>

section \<open>Counting entries\<close>

type_synonym order_states = "int \<Rightarrow> reservation_state option"

definition total :: "('p \<Rightarrow> int) \<Rightarrow> ('p \<Rightarrow> int) \<Rightarrow> order_states \<Rightarrow> 'p list \<Rightarrow> reservation_state \<Rightarrow> int \<Rightarrow> int" where
  "total own okey st xs x k = int (rows_where (\<lambda>p. okey p = k \<and> st (own p) = Some x) xs)"

definition seats :: "('p \<Rightarrow> int) \<Rightarrow> ('p \<Rightarrow> int) \<Rightarrow> 'p list \<Rightarrow> int \<Rightarrow> int \<Rightarrow> int" where
  "seats own okey xs i k = int (rows_where (\<lambda>p. own p = i \<and> okey p = k) xs)"

lemma total_simps [simp]:
  "total own okey st [] x k = 0"
  "total own okey st (p # xs) x k = (if okey p = k \<and> st (own p) = Some x then 1 else 0) + total own okey st xs x k"
  by (simp_all add: total_def)

lemma seats_simps [simp]:
  "seats own okey [] i k = 0"
  "seats own okey (p # xs) i k = (if own p = i \<and> okey p = k then 1 else 0) + seats own okey xs i k"
  by (simp_all add: seats_def)

lemma total_nonneg: "0 \<le> total own okey st xs x k"
  by (simp add: total_def)

lemma seats_nonneg: "0 \<le> seats own okey xs i k"
  by (simp add: seats_def)

lemma total_append: "total own okey st (xs @ ys) x k = total own okey st xs x k + total own okey st ys x k"
  by (simp add: total_def)

lemma total_cong:
  "(\<And>p. p \<in> set xs \<Longrightarrow> st (own p) = st' (own p)) \<Longrightarrow> total own okey st xs x k = total own okey st' xs x k"
  by (auto simp: total_def intro!: rows_where_cong)

text \<open>Changing the state of one order moves its seats from the old to the new state.\<close>

lemma total_update:
  assumes "st i = Some a" and "a \<noteq> b"
  shows "total own okey (st(i \<mapsto> b)) xs x k = total own okey st xs x k
     + (if x = b then seats own okey xs i k else 0) - (if x = a then seats own okey xs i k else 0)"
proof (induction xs)
  case Nil
  then show ?case by simp
next
  case (Cons p xs)
  then show ?case using assms by (cases "own p = i") auto
qed

lemma total_new:
  assumes "\<forall>p\<in>set xs. own p \<noteq> i" and "\<forall>p\<in>set ys. own p = i"
  shows "total own okey (st(i \<mapsto> a)) (xs @ ys) x k
     = total own okey st xs x k + (if x = a then int (rows_where (\<lambda>p. okey p = k) ys) else 0)"
proof -
  have "total own okey (st(i \<mapsto> a)) xs x k = total own okey st xs x k"
    by (rule total_cong) (use assms(1) in auto)
  moreover have "total own okey (st(i \<mapsto> a)) ys x k = (if x = a then int (rows_where (\<lambda>p. okey p = k) ys) else 0)"
    using assms(2) by (auto simp: total_def intro!: rows_where_cong)
  ultimately show ?thesis by (simp only: total_append)
qed

lemma seats_le_total: "st i = Some x \<Longrightarrow> seats own okey xs i k \<le> total own okey st xs x k"
  by (auto simp: seats_def total_def intro!: rows_where_mono)

section \<open>Agreement\<close>

context counter_row
begin

definition agree ::
    "'r list \<Rightarrow> ('p \<Rightarrow> int) \<Rightarrow> ('p \<Rightarrow> int) \<Rightarrow> 'p list \<Rightarrow> order_states \<Rightarrow> (int \<Rightarrow> int) \<Rightarrow> bool" where
  "agree t own okey xs st extra \<longleftrightarrow>
     (\<forall>r\<in>set t. reserved r = total own okey st xs Reserved (key r)
        \<and> used r = total own okey st xs Consumed (key r) + extra (key r))"

lemma agree_consume:
  assumes "agree t own okey xs st extra" and "st i = Some Reserved"
  shows "agree (shift (seats own okey xs i) (\<lambda>k. - seats own okey xs i k) t) own okey xs (st(i \<mapsto> Consumed)) extra"
  using assms total_update [of st i Reserved Consumed own okey xs]
  by (auto simp: agree_def shift_def)

lemma agree_release:
  assumes "agree t own okey xs st extra" and "st i = Some Reserved"
  shows "agree (shift (\<lambda>_. 0) (\<lambda>k. - seats own okey xs i k) t) own okey xs (st(i \<mapsto> Released)) extra"
  using assms total_update [of st i Reserved Released own okey xs]
  by (auto simp: agree_def shift_def)

lemma agree_settle:
  assumes "agree t own okey xs st extra" and "st i = Some Reserved"
  shows "agree (shift (\<lambda>k. if c then seats own okey xs i k else 0) (\<lambda>k. - seats own okey xs i k) t)
    own okey xs (st(i \<mapsto> if c then Consumed else Released)) extra"
  using agree_consume [OF assms] agree_release [OF assms] by (cases c) simp_all

lemma agree_place:
  assumes "agree t own okey xs st extra" and "\<forall>p\<in>set xs. own p \<noteq> i" and "\<forall>p\<in>set ys. own p = i"
  shows "agree (shift (\<lambda>_. 0) (\<lambda>k. int (rows_where (\<lambda>p. okey p = k) ys)) t) own okey (xs @ ys) (st(i \<mapsto> Reserved)) extra"
  using assms(1) total_new [OF assms(2,3), of okey st Reserved]
  by (auto simp: agree_def shift_def)

lemma agree_extra:
  assumes "agree t own okey xs st extra"
  shows "agree (shift du (\<lambda>_. 0) t) own okey xs st (\<lambda>k. extra k + du k)"
  using assms by (auto simp: agree_def shift_def)

lemma agree_states:
  assumes "agree t own okey xs st extra" and "\<And>p. p \<in> set xs \<Longrightarrow> st' (own p) = st (own p)"
  shows "agree t own okey xs st' extra"
  using assms(1) total_cong [of xs st' own st] assms(2) by (auto simp: agree_def)

lemma agree_enough:
  assumes "agree t own okey xs st extra" and "st i = Some Reserved" and "r \<in> set t"
  shows "seats own okey xs i (key r) \<le> reserved r"
  using assms(1,3) seats_le_total [of st i Reserved own okey xs "key r"] assms(2) by (auto simp: agree_def)

text \<open>Rows added with zero counters, and rows changed in other columns only.\<close>

lemma agree_new_row:
  assumes "agree t own okey xs st extra" and "reserved r = 0" and "used r = 0"
    and "\<forall>p\<in>set xs. okey p \<noteq> key r" and "extra (key r) = 0"
  shows "agree (t @ [r]) own okey xs st extra"
proof -
  have "total own okey st xs x (key r) = 0" for x using assms(4) by (auto simp: total_def)
  with assms show ?thesis by (auto simp: agree_def)
qed

lemma agree_update_where:
  assumes "agree t own okey xs st extra"
    and "\<And>r. r \<in> set t \<Longrightarrow> P r \<Longrightarrow> key (f r) = key r \<and> used (f r) = used r \<and> reserved (f r) = reserved r"
  shows "agree (update_where P f t) own okey xs st extra"
  using assms by (auto simp: agree_def set_update_where)

end

end
