(* ===== verification/Registration.thy ===== *)
theory Registration
  imports Orders "HOL-Library.List_Lexorder"
begin

text \<open>
  \<open>internal/registration/create.go\<close>: normalising the request, the idempotency
  key, and the transaction that places an order (\<open>CreateOrder\<close>), with the quote
  preview.  Unique keys and CHECK constraints of the tables written are part of
  the statements: a violated one is the PostgreSQL error of the insert.
\<close>

section \<open>The request\<close>

record order_participant_input =
  oi_category :: int
  oi_profile_id :: "int option"
  oi_profile :: "profile_data option"
  oi_save :: bool

record create_input =
  in_slug :: string
  in_coupon :: string
  in_consent :: consent_acceptance
  in_participants :: "order_participant_input list"
  in_key :: string

text \<open>\<open>^[A-Za-z0-9_-]{8,64}$\<close>.\<close>

definition idempotency_key_pattern :: "string \<Rightarrow> bool" where
  "idempotency_key_pattern s \<longleftrightarrow> 8 \<le> length s \<and> length s \<le> 64
     \<and> list_all (\<lambda>c. is_upper c \<or> is_lower c \<or> is_digit c \<or> c = CHR ''_'' \<or> c = CHR ''-'') s"

text \<open>\<open>fieldErrors.merge\<close>: the fields of a validation error are added, any other error is returned.\<close>

definition merge_err :: "'a res \<Rightarrow> field_item list res" where
  "merge_err m =
     (case m of
        Inr _ \<Rightarrow> Inr []
      | Inl err \<Rightarrow>
          (case as_app err of
             None \<Rightarrow> Inl err
           | Some ae \<Rightarrow>
               if ae_code ae \<noteq> CodeValidation then Inl err
               else Inr (map (\<lambda>(f, fe). (f, fe_key fe, fe_params fe)) (ae_fields ae))))"

definition normalize_participant ::
    "env \<Rightarrow> nat \<times> order_participant_input \<Rightarrow> field_item list \<times> order_participant_input list
       \<Rightarrow> (field_item list \<times> order_participant_input list) res" where
  "normalize_participant e = (\<lambda>(i, p) (its, out).
     let np = \<lparr>oi_category = oi_category p, oi_profile_id = None, oi_profile = None, oi_save = False\<rparr>;
         its = its @ item (oi_category p \<le> 0) (participant_field i ''categoryId'') ''field.required'' []
     in case (oi_profile_id p, oi_profile p) of
          (Some pid, Some prof) \<Rightarrow>
            Inr (its @ [(participant_field i ''profileId'', ''field.invalid'', [])], out @ [np])
        | (Some pid, None) \<Rightarrow> Inr (its, out @ [np\<lparr>oi_profile_id := Some pid\<rparr>])
        | (None, Some prof) \<Rightarrow>
            (let prof = normalize_profile prof
             in bindE (merge_err (validate_profile e prof (participant_field i []))) (\<lambda>more.
                  Inr (its @ more, out @ [np\<lparr>oi_profile := Some prof, oi_save := oi_save p\<rparr>])))
        | (None, None) \<Rightarrow>
            Inr (its @ [(participant_field i ''profileId'', ''field.required'', [])], out @ [np]))"

definition normalize_create_input :: "env \<Rightarrow> create_input \<Rightarrow> create_input res" where
  "normalize_create_input e inp =
     (let slug = trim_space (in_slug inp);
          n = length (in_participants inp);
          its0 = item (\<not> idempotency_key_pattern (in_key inp)) ''idempotencyKey'' ''field.invalid'' []
               @ item (slug = []) ''eventSlug'' ''field.required'' []
               @ item (n < 1 \<or> n > 10) ''participants'' ''field.invalid'' []
      in bindE (foldE (normalize_participant e) (enumerate 0 (in_participants inp)) (its0, [])) (\<lambda>(its, out).
         bindE (collect its) (\<lambda>_.
           Inr \<lparr>in_slug = slug, in_coupon = to_upper (trim_space (in_coupon inp)),
                in_consent = (in_consent inp)\<lparr>ca_version := trim_space (ca_version (in_consent inp)),
                                             ca_checked := sort (ca_checked (in_consent inp))\<rparr>,
                in_participants = out, in_key = in_key inp\<rparr>)))"

text \<open>\<open>requestHashPayload\<close>: without the key, identity numbers replaced by their keyed hash.\<close>

definition request_payload :: "env \<Rightarrow> create_input \<Rightarrow> create_input" where
  "request_payload e inp = inp\<lparr>in_key := [],
     in_participants := map (\<lambda>p. p\<lparr>oi_profile :=
        map_option (\<lambda>d. d\<lparr>pd_id_no := e_id_hash e (pd_id_no d)\<rparr>) (oi_profile p)\<rparr>) (in_participants inp)\<rparr>"

section \<open>The idempotency key\<close>

definition idempotency_scope :: string where "idempotency_scope = ''reg_order.create''"

definition idempotency_ttl :: int where "idempotency_ttl = 24 * hour"

definition idem_match :: "string \<Rightarrow> string \<Rightarrow> idem_row \<Rightarrow> bool" where
  "idem_match subject key r \<longleftrightarrow>
     ik_scope r = idempotency_scope \<and> ik_subject r = subject \<and> ik_key r = key"

text \<open>\<open>ClaimIdempotencyKey\<close>: insert, or overwrite an expired row; \<open>None\<close> when a live row exists.\<close>

definition claim_key_stmt :: "string \<Rightarrow> string \<Rightarrow> string \<Rightarrow> gotime \<Rightarrow> idem_row list \<Rightarrow> idem_row list option" where
  "claim_key_stmt subject key hash now t =
     (case List.find (idem_match subject key) t of
        None \<Rightarrow> Some (t @ [\<lparr>ik_key = key, ik_scope = idempotency_scope, ik_subject = subject,
                  ik_hash = hash, ik_code = None, ik_body = None, ik_created_at = now,
                  ik_expires_at = now + idempotency_ttl\<rparr>])
      | Some r \<Rightarrow>
          if ik_expires_at r \<le> now
          then Some (update_where (idem_match subject key)
                 (\<lambda>r. r\<lparr>ik_hash := hash, ik_code := None, ik_body := None, ik_created_at := now,
                        ik_expires_at := now + idempotency_ttl\<rparr>) t)
          else None)"

definition claim_idempotency_key ::
    "string \<Rightarrow> string \<Rightarrow> string \<Rightarrow> gotime \<Rightarrow> db \<Rightarrow> (order_detail option \<times> db) res" where
  "claim_idempotency_key subject key hash now s =
     (case claim_key_stmt subject key hash now (idem_keys s) of
        Some t \<Rightarrow> Inr (None, s\<lparr>idem_keys := t\<rparr>)
      | None \<Rightarrow>
          (case List.find (idem_match subject key) (idem_keys s) of
             None \<Rightarrow> Inl (OtherErr ''load idempotency key: no rows'')
           | Some r \<Rightarrow>
               if ik_hash r \<noteq> hash then Inl (app 422 CodeIdempotencyKeyReused)
               else if ik_code r = None then Inl (OtherErr ''idempotency key has no stored response'')
               else (case ik_body r of
                       None \<Rightarrow> Inl (OtherErr ''decode idempotent response'')
                     | Some body \<Rightarrow> Inr (Some (order_detail_from_api body), s))))"

definition save_idempotency_response :: "string \<Rightarrow> string \<Rightarrow> api_order \<Rightarrow> db \<Rightarrow> db" where
  "save_idempotency_response subject key body s = s\<lparr>idem_keys :=
     update_where (idem_match subject key) (\<lambda>r. r\<lparr>ik_code := Some 201, ik_body := Some body\<rparr>) (idem_keys s)\<rparr>"

section \<open>The participants\<close>

record resolved =
  rv_input :: order_participant_input
  rv_profile :: profile_data
  rv_hash :: string

definition resolve_step ::
    "env \<Rightarrow> user_id \<Rightarrow> db \<Rightarrow> nat \<times> order_participant_input
       \<Rightarrow> field_item list \<times> string list \<times> resolved list
       \<Rightarrow> (field_item list \<times> string list \<times> resolved list) res" where
  "resolve_step e u s = (\<lambda>(i, p) (its, seen, out).
     let add = (\<lambda>its prof.
           let h = e_id_hash e (pd_id_no prof)
           in Inr (its @ item (h \<in> set seen) (participant_field i ''idNo'') ''field.duplicate_id_no'' [],
                   h # seen, out @ [\<lparr>rv_input = p, rv_profile = prof, rv_hash = h\<rparr>]))
     in case oi_profile_id p of
          Some pid \<Rightarrow>
            (case load_profile_for_order e u pid (participant_field i []) s of
               Inl err \<Rightarrow> bindE (merge_err (Inl err :: unit res)) (\<lambda>more. Inr (its @ more, seen, out))
             | Inr loaded \<Rightarrow>
                 (let loaded = normalize_profile loaded
                  in bindE (merge_err (validate_profile e loaded (participant_field i []))) (\<lambda>more.
                       add (its @ more) loaded)))
        | None \<Rightarrow>
            (case oi_profile p of
               None \<Rightarrow> Inl (OtherErr ''panic: nil pointer dereference'')
             | Some prof \<Rightarrow> add its prof))"

definition resolve_participants :: "env \<Rightarrow> user_id \<Rightarrow> db \<Rightarrow> create_input \<Rightarrow> resolved list res" where
  "resolve_participants e u s inp =
     bindE (foldE (resolve_step e u s) (enumerate 0 (in_participants inp)) ([], [], [])) (\<lambda>(its, seen, out).
     bindE (collect its) (\<lambda>_. Inr out))"

text \<open>\<open>checkAlreadyRegistered\<close>; the advisory locks have no effect on one transaction.\<close>

definition list_registered_hashes :: "int \<Rightarrow> string list \<Rightarrow> db \<Rightarrow> string list" where
  "list_registered_hashes ev hashes s =
     map rg_id_hash (filter (\<lambda>r. rg_event r = ev \<and> (rg_status r = RegPending \<or> rg_status r = RegConfirmed)
                               \<and> rg_id_hash r \<in> set hashes) (registrations s))"

definition check_already_registered :: "int \<Rightarrow> resolved list \<Rightarrow> db \<Rightarrow> unit res" where
  "check_already_registered ev parts s =
     (let taken = list_registered_hashes ev (map rv_hash parts) s
      in if taken = [] then Inr ()
         else Inl (AppErr (add_items
                (concat (map (\<lambda>(i, p). item (rv_hash p \<in> set taken) (participant_field i ''idNo'')
                                         ''field.already_registered'' []) (enumerate 0 parts)))
                (new_err 409 CodeAlreadyRegistered))))"

section \<open>The inserts\<close>

definition registration_open :: "event_row \<Rightarrow> gotime \<Rightarrow> bool" where
  "registration_open ev now \<longleftrightarrow>
     ev_status ev = ''PUBLISHED'' \<and> ev_type ev = ''RACE'' \<and> ev_open ev
   \<and> (case ev_opens_at ev of None \<Rightarrow> True | Some t \<Rightarrow> \<not> now < t)
   \<and> (case ev_closes_at ev of None \<Rightarrow> True | Some t \<Rightarrow> now < t)"

text \<open>\<open>SelectRegistrationPaymentAccount\<close>: the event's own account first, then by id.\<close>

definition select_payment_account :: "int \<Rightarrow> db \<Rightarrow> int option" where
  "select_payment_account ev s =
     (case sort_key (\<lambda>a. (pa_event a = None, pa_id a))
             (filter (\<lambda>a. pa_active a \<and> pa_currency a = ''USD''
                        \<and> (pa_scope a = ''REGISTRATION'' \<or> pa_scope a = ''ALL'')
                        \<and> (pa_event a = Some ev \<or> pa_event a = None)) (accounts s)) of
        [] \<Rightarrow> None | a # _ \<Rightarrow> Some (pa_id a))"

definition check_violation :: "string \<Rightarrow> goerr" where
  "check_violation name = PgErr ''23514'' name"

text \<open>\<open>InsertRegOrder\<close> with the CHECK constraints and the unique order number of \<open>reg_orders\<close>.\<close>

definition insert_reg_order :: "order_row \<Rightarrow> db \<Rightarrow> (int \<times> db) res" where
  "insert_reg_order row s =
     (if \<not> (0 \<le> ro_list row \<and> 0 \<le> ro_discount row \<and> 0 \<le> ro_ident row \<and> ro_ident row \<le> 50
           \<and> 0 \<le> ro_amount row \<and> ro_amount row = ro_list row - ro_discount row)
      then Inl (check_violation ''reg_orders_check'')
      else if \<exists>r\<in>set (orders s). ro_no r = ro_no row then Inl (PgErr ''23505'' ''reg_orders_order_no_key'')
      else let i = next_id ro_id (orders s)
           in Inr (i, s\<lparr>orders := orders s @ [row\<lparr>ro_id := i\<rparr>]\<rparr>))"

definition insert_order_participant :: "participant_row \<Rightarrow> db \<Rightarrow> (int \<times> db) res" where
  "insert_order_participant row s =
     (if \<not> (0 \<le> op_list row \<and> 0 \<le> op_paid row) then Inl (check_violation ''order_participants_check'')
      else let i = next_id op_id (participants s)
           in Inr (i, s\<lparr>participants := participants s @ [row\<lparr>op_id := i\<rparr>]\<rparr>))"

definition insert_registration_stmt :: "registration_row \<Rightarrow> db \<Rightarrow> db res" where
  "insert_registration_stmt row s =
     (if \<exists>r\<in>set (registrations s). rg_no r = rg_no row then Inl (PgErr ''23505'' ''registrations_reg_no_key'')
      else if \<exists>r\<in>set (registrations s). rg_participant r = rg_participant row
      then Inl (PgErr ''23505'' ''registrations_order_participant_id_key'')
      else if \<exists>r\<in>set (registrations s). rg_ticket r = rg_ticket row
      then Inl (PgErr ''23505'' ''registrations_ticket_code_key'')
      else Inr (s\<lparr>registrations := registrations s @ [row\<lparr>rg_id := next_id rg_id (registrations s)\<rparr>]\<rparr>))"

text \<open>\<open>insertRegistration\<close>: the two nested retries, each attempt with fresh codes.\<close>

definition insert_registration :: "env \<Rightarrow> nat list \<Rightarrow> registration_row \<Rightarrow> db \<Rightarrow> db res" where
  "insert_registration e path row s =
     retry ''registrations_reg_no_key'' (\<lambda>i.
     retry ''registrations_ticket_code_key'' (\<lambda>j.
       insert_registration_stmt
         (row\<lparr>rg_no := idgen_code prefix_registration (e_rand e (path @ [i, j, 0])),
              rg_ticket := ticket_code (e_rand e (path @ [i, j, 1]))\<rparr>) s))"

section \<open>Placing the order\<close>

definition quote_input_of :: "event_row \<Rightarrow> string \<Rightarrow> gotime \<Rightarrow> int option \<Rightarrow> resolved list \<Rightarrow> quote_input" where
  "quote_input_of ev coupon now account parts =
     \<lparr>qi_event = ev_id ev, qi_race_date = ev_race_date ev, qi_coupon = coupon,
      qi_participants = map (\<lambda>p. \<lparr>pi_category = oi_category (rv_input p),
          pi_nationality = pd_nationality (rv_profile p), pi_birth = pd_birth (rv_profile p)\<rparr>) parts,
      qi_now = now, qi_account = account\<rparr>"

definition new_order :: "env \<Rightarrow> user_id \<Rightarrow> event_row \<Rightarrow> quote \<Rightarrow> int \<Rightarrow> gotime \<Rightarrow> profile_data \<Rightarrow> order_row" where
  "new_order e u ev q account deadline buyer =
     \<lparr>ro_id = 0, ro_no = [], ro_event = ev_id ev, ro_buyer = Some u, ro_buyer_name = pd_name buyer,
      ro_buyer_phone = pd_phone buyer, ro_buyer_email = opt_string (pd_email buyer),
      ro_status = PendingPayment, ro_state = Reserved, ro_release_kind = None, ro_list = q_list q,
      ro_discount = q_discount q, ro_ident = int16 (q_ident q), ro_amount = q_amount q,
      ro_currency = ''USD'', ro_coupon = q_coupon q, ro_account = Some account,
      ro_deadline = Some deadline, ro_paid_at = None, ro_expired_at = None, ro_cancelled_at = None,
      ro_version = 1, ro_created_at = e_db_now e\<rparr>"

definition insert_order :: "env \<Rightarrow> order_row \<Rightarrow> db \<Rightarrow> (int \<times> db) res" where
  "insert_order e row s =
     retry ''reg_orders_order_no_key'' (\<lambda>i.
       insert_reg_order (row\<lparr>ro_no := idgen_code prefix_order (e_rand e [0, i])\<rparr>) s)"

definition participant_of :: "int \<Rightarrow> participant_quote \<Rightarrow> profile_data \<Rightarrow> participant_row" where
  "participant_of order_id pq prof =
     \<lparr>op_id = 0, op_order = order_id, op_category = pq_category pq, op_rule = pq_rule pq,
      op_audience = pq_audience pq, op_list = pq_list pq, op_paid = pq_paid pq,
      op_name = pd_name prof\<rparr>"

definition registration_of ::
    "env \<Rightarrow> nat \<Rightarrow> user_id \<Rightarrow> event_row \<Rightarrow> int \<Rightarrow> participant_quote \<Rightarrow> resolved \<Rightarrow> registration_row" where
  "registration_of e i u ev opid pq p =
     (let prof = rv_profile p in
      \<lparr>rg_id = 0, rg_no = [], rg_participant = opid, rg_event = ev_id ev, rg_category = pq_category pq,
       rg_status = RegPending, rg_cancel_reason = None, rg_ticket = [], rg_user = Some u,
       rg_name = pd_name prof, rg_gender = pd_gender prof, rg_birth = pd_birth prof,
       rg_nationality = pd_nationality prof, rg_id_type = opt_string (pd_id_type prof),
       rg_id_enc = e_encrypt e [1, i] (pd_id_no prof), rg_id_hash = rv_hash p,
       rg_phone = opt_string (pd_phone prof), rg_email = opt_string (pd_email prof),
       rg_em_name = opt_string (pd_em_name prof), rg_em_phone = opt_string (pd_em_phone prof),
       rg_tshirt = opt_string (pd_tshirt prof), rg_confirmed_at = None, rg_version = 1\<rparr>)"

definition insert_participant ::
    "env \<Rightarrow> user_id \<Rightarrow> event_row \<Rightarrow> int \<Rightarrow> nat \<times> participant_quote \<times> resolved \<Rightarrow> db \<Rightarrow> db res" where
  "insert_participant e u ev order_id = (\<lambda>(i, pq, p) s.
     bindE (insert_order_participant (participant_of order_id pq (rv_profile p)) s) (\<lambda>(opid, s1).
     bindE (insert_registration e [2, i] (registration_of e i u ev opid pq p) s1) (\<lambda>s2.
     if oi_save (rv_input p) \<and> oi_profile (rv_input p) \<noteq> None
     then bindE (create_profile_tx e [3, i] u (rv_profile p) s2) (\<lambda>(_, s3). Inr s3)
     else Inr s2)))"

definition create_order_tx :: "env \<Rightarrow> user_id \<Rightarrow> event_row \<Rightarrow> create_input \<Rightarrow> db \<Rightarrow> (order_detail \<times> db) res" where
  "create_order_tx e u ev inp s =
     (let now = e_now e in
      bindE (failIf (\<not> registration_open ev now) (app 409 CodeRegistrationClosed)) (\<lambda>_.
      bindE (resolve_participants e u s inp) (\<lambda>parts.
      bindE (check_already_registered (ev_id ev) parts s) (\<lambda>_.
      bindE (case select_payment_account (ev_id ev) s of
               None \<Rightarrow> Inl (app 503 CodePaymentAccountUnavailable) | Some a \<Rightarrow> Inr a) (\<lambda>account.
      bindE (quote_order s (quote_input_of ev (in_coupon inp) now (Some account) parts)) (\<lambda>q.
      bindE (reserve q s) (\<lambda>s1.
      bindE (load_payment s1) (\<lambda>pay.
      bindE (case parts of [] \<Rightarrow> Inl (OtherErr ''panic: index out of range'')
               | p # _ \<Rightarrow> Inr (rv_profile p)) (\<lambda>buyer.
      bindE (insert_order e (new_order e u ev q account (now + ps_upload pay) buyer) s1) (\<lambda>(order_id, s2).
      bindE (foldE (insert_participant e u ev order_id) (enumerate 0 (zip (q_participants q) parts)) s2) (\<lambda>s3.
      bindE (record_redemption order_id q s3) (\<lambda>s4.
      bindE (sign_consent e u (in_consent inp) \<lparr>ln_order = Some order_id, ln_free = None\<rparr> s4) (\<lambda>s5.
      bindE (let s6 = audit_record (runner_entry u ''reg_order.create'' order_id (ev_id ev)) s5
             in if q_amount q = 0
                then bindE (confirm_paid e order_id now s6) (\<lambda>s7.
                       Inr (audit_record (runner_entry u ''reg_order.paid_zero'' order_id (ev_id ev)) s7))
                else Inr s6) (\<lambda>s8.
      bindE (load_detail order_id s8) (\<lambda>d. Inr (d, s8))))))))))))))))"

definition subject_of :: "user_id \<Rightarrow> string" where
  "subject_of u = ''user:'' @ int_str u"

text \<open>\<open>CreateOrder\<close>; \<open>digest\<close> is the SHA-256 of the JSON of the payload.\<close>

definition create_order ::
    "env \<Rightarrow> (create_input \<Rightarrow> string) \<Rightarrow> user_id \<Rightarrow> create_input \<Rightarrow> db \<Rightarrow> (order_detail \<times> db) res" where
  "create_order e digest u inp s =
     bindE (normalize_create_input e inp) (\<lambda>norm.
     let hash = digest (request_payload e norm);
         subject = subject_of u
     in case List.find (\<lambda>ev. ev_slug ev = in_slug norm) (events s) of
          None \<Rightarrow> Inl (app 404 CodeEventNotFound)
        | Some ev \<Rightarrow>
            bindE (claim_idempotency_key subject (in_key norm) hash (e_now e) s) (\<lambda>(replay, s1).
            case replay of
              Some d \<Rightarrow> Inr (d, s1)
            | None \<Rightarrow>
                bindE (create_order_tx e u ev norm s1) (\<lambda>(d, s2).
                  Inr (d, save_idempotency_response subject (in_key norm) (to_api_order d) s2))))"

section \<open>Preview\<close>

definition preview_items :: "participant_input list \<Rightarrow> field_item list" where
  "preview_items ps =
     item (length ps < 1 \<or> length ps > 10) ''participants'' ''field.invalid'' []
   @ concat (map (\<lambda>(i, p).
        item (pi_category p \<le> 0) (participant_field i ''categoryId'') ''field.required'' []
      @ item (\<not> nationality_pattern (to_upper (trim_space (pi_nationality p))))
          (participant_field i ''nationality'') ''field.invalid'' []
      @ item (pi_birth p = zero_time) (participant_field i ''birthDate'') ''field.required'' [])
      (enumerate 0 ps))"

definition preview_quote :: "env \<Rightarrow> string \<Rightarrow> string \<Rightarrow> participant_input list \<Rightarrow> db \<Rightarrow> quote res" where
  "preview_quote e slug coupon ps s =
     bindE (collect (preview_items ps)) (\<lambda>_.
     case List.find (\<lambda>ev. ev_slug ev = trim_space slug) (events s) of
       None \<Rightarrow> Inl (app 404 CodeEventNotFound)
     | Some ev \<Rightarrow>
         if ev_status ev \<noteq> ''PUBLISHED'' \<or> ev_type ev \<noteq> ''RACE'' then Inl (app 404 CodeEventNotFound)
         else quote_order s \<lparr>qi_event = ev_id ev, qi_race_date = ev_race_date ev, qi_coupon = coupon,
                qi_participants = ps, qi_now = e_now e, qi_account = None\<rparr>)"

end
