(* ===== verification/Invariant.thy ===== *)
theory Invariant
  imports Ledger Registration
begin

text \<open>
  The invariant of the registration database and its preservation by the
  transitions of an order: paying (\<open>ConfirmPaid\<close>), releasing (\<open>ReleaseOrder\<close>)
  and the proof transitions.  From it, paying and releasing never fail half-way.
\<close>

section \<open>The invariant\<close>

definition order_state :: "db \<Rightarrow> order_states" where
  "order_state s i = map_option ro_state (List.find (\<lambda>r. ro_id r = i) (orders s))"

definition state_of_reg :: "registration_status \<Rightarrow> reservation_state" where
  "state_of_reg st = (case st of RegPending \<Rightarrow> Reserved | RegConfirmed \<Rightarrow> Consumed | RegCancelled \<Rightarrow> Released)"

text \<open>The order status fits the reservation state, and the amounts add up.\<close>

definition order_ok :: "order_row \<Rightarrow> bool" where
  "order_ok r \<longleftrightarrow>
     (case ro_state r of
        Reserved \<Rightarrow> open_status (ro_status r)
      | Consumed \<Rightarrow> ro_status r = Paid \<and> ro_paid_at r \<noteq> None
      | Released \<Rightarrow> ro_status r = Expired \<and> ro_release_kind r = Some ReleaseExpired
                   \<or> ro_status r = Cancelled \<and> ro_release_kind r = Some ReleaseCancelled)
   \<and> ro_amount r = ro_list r - ro_discount r \<and> 0 \<le> ro_amount r \<and> 0 \<le> ro_discount r
   \<and> 0 \<le> ro_ident r \<and> ro_ident r \<le> 50"

definition free_seats :: "db \<Rightarrow> int \<Rightarrow> int" where
  "free_seats s k = int (rows_where (\<lambda>f. fs_category f = k) (free_signups s))"

definition keys_ok :: "db \<Rightarrow> bool" where
  "keys_ok s \<longleftrightarrow> counter_keys s \<and> distinct (map ro_id (orders s)) \<and> distinct (map ro_no (orders s))
     \<and> distinct (map op_id (participants s)) \<and> distinct (map rg_participant (registrations s))"

definition refs_ok :: "db \<Rightarrow> bool" where
  "refs_ok s \<longleftrightarrow>
     (\<forall>p\<in>set (participants s). order_state s (op_order p) \<noteq> None
        \<and> op_category p \<in> ec_id ` set (categories s) \<and> op_rule p \<in> pr_id ` set (price_rules s))
   \<and> (\<forall>r\<in>set (redemptions s). order_state s (cr_order r) = Some (cr_state r)
        \<and> cr_coupon r \<in> cp_id ` set (coupons s))
   \<and> (\<forall>f\<in>set (free_signups s). fs_category f \<in> ec_id ` set (categories s))"

definition regs_ok :: "db \<Rightarrow> bool" where
  "regs_ok s \<longleftrightarrow> (\<forall>r\<in>set (registrations s). \<exists>p\<in>set (participants s).
     op_id p = rg_participant r \<and> order_state s (op_order p) = Some (state_of_reg (rg_status r)))"

definition ledger_ok :: "db \<Rightarrow> bool" where
  "ledger_ok s \<longleftrightarrow>
     cat_row.agree (categories s) op_order op_category (participants s) (order_state s) (free_seats s)
   \<and> rule_row.agree (price_rules s) op_order op_rule (participants s) (order_state s) (\<lambda>_. 0)
   \<and> coupon_row.agree (coupons s) cr_order cr_coupon (redemptions s) (order_state s) (\<lambda>_. 0)"

definition limits_ok :: "db \<Rightarrow> bool" where
  "limits_ok s \<longleftrightarrow> (\<forall>c\<in>set (categories s). cat.fits c) \<and> (\<forall>r\<in>set (price_rules s). rule.fits r)
     \<and> (\<forall>c\<in>set (coupons s). coupon.fits c)"

definition db_ok :: "db \<Rightarrow> bool" where
  "db_ok s \<longleftrightarrow> keys_ok s \<and> (\<forall>r\<in>set (orders s). order_ok r) \<and> refs_ok s \<and> regs_ok s
     \<and> ledger_ok s \<and> limits_ok s"

lemmas ok_defs = keys_ok_def refs_ok_def regs_ok_def ledger_ok_def limits_ok_def

lemma db_ok_empty: "db_ok empty_db"
  by (simp add: db_ok_def ok_defs empty_db_def counter_keys_def cat_row.agree_def rule_row.agree_def
      coupon_row.agree_def)

text \<open>The invariant speaks of these tables only.\<close>

lemma db_ok_cong:
  assumes "orders s' = orders s" "participants s' = participants s" "registrations s' = registrations s"
    "free_signups s' = free_signups s" "categories s' = categories s" "price_rules s' = price_rules s"
    "coupons s' = coupons s" "redemptions s' = redemptions s"
  shows "db_ok s' = db_ok s"
proof -
  have "order_state s' = order_state s" "free_seats s' = free_seats s"
    using assms by (simp_all add: fun_eq_iff order_state_def free_seats_def)
  with assms show ?thesis by (simp add: db_ok_def ok_defs counter_keys_def)
qed

section \<open>The state of an order\<close>

lemma order_state_Some:
  "order_state s i = Some st \<longleftrightarrow> (\<exists>r. List.find (\<lambda>r. ro_id r = i) (orders s) = Some r \<and> ro_state r = st)"
  by (auto simp: order_state_def)

lemma order_state_row:
  assumes "distinct (map ro_id (orders s))" and "r \<in> set (orders s)"
  shows "order_state s (ro_id r) = Some (ro_state r)"
  using find_key_unique [OF assms] by (simp add: order_state_def)

lemma order_state_None: "order_state s i = None \<longleftrightarrow> i \<notin> ro_id ` set (orders s)"
  by (auto simp: order_state_def find_None_iff)

lemma order_state_unique:
  assumes "distinct (map ro_id (orders s))"
  shows "order_state s i = Some st \<longleftrightarrow> (\<exists>r\<in>set (orders s). ro_id r = i \<and> ro_state r = st)"
  using order_state_row [OF assms] order_state_None [of s i] by (cases "order_state s i") force+

text \<open>A conditional update that affects the row \<open>r\<close> of order \<open>i\<close>.\<close>

lemma find_update_where:
  assumes "\<And>r. key (f r) = key r"
  shows "List.find (\<lambda>r. key r = i) (update_where P f t)
     = map_option (\<lambda>r. if P r then f r else r) (List.find (\<lambda>r. key r = i) t)"
  using assms by (induction t) auto

lemma order_state_update:
  assumes "distinct (map ro_id (orders s))" and "r \<in> set (orders s)" and "P r" and "ro_id r = i"
    and "\<And>x. P x \<Longrightarrow> ro_id x = i" and "\<And>x. ro_id (f x) = ro_id x" and "ro_state (f r) = st"
  shows "order_state (s\<lparr>orders := update_where P f (orders s)\<rparr>) = (order_state s)(i \<mapsto> st)"
proof
  fix j
  have r: "List.find (\<lambda>r. ro_id r = i) (orders s) = Some r"
    using find_key_unique [OF assms(1,2)] assms(4) by simp
  show "order_state (s\<lparr>orders := update_where P f (orders s)\<rparr>) j = ((order_state s)(i \<mapsto> st)) j"
  proof (cases "j = i")
    case True
    with r assms(3,6,7) show ?thesis by (simp add: order_state_def find_update_where)
  next
    case False
    have "\<not> P x" if "List.find (\<lambda>r. ro_id r = j) (orders s) = Some x" for x
      using find_Some_key [OF that] assms(5) False by auto
    with False assms(6) show ?thesis
      by (cases "List.find (\<lambda>r. ro_id r = j) (orders s)") (auto simp: order_state_def find_update_where)
  qed
qed

lemma exec_orders_rows:
  assumes "distinct (map ro_id (orders s))"
  shows "rows_where (\<lambda>r. ro_id r = i \<and> P r) (orders s) =
     (if \<exists>r\<in>set (orders s). ro_id r = i \<and> P r then 1 else 0)"
  using rows_where_key_le_1 [OF assms, of i P] rows_where_0_iff [of "\<lambda>r. ro_id r = i \<and> P r" "orders s"]
  by (cases "rows_where (\<lambda>r. ro_id r = i \<and> P r) (orders s)") auto

section \<open>Moving the counters of a reserved order\<close>

lemma seats_eq:
  "cat_seats s i = seats op_order op_category (participants s) i"
  "rule_seats s i = seats op_order op_rule (participants s) i"
  by (simp_all add: fun_eq_iff cat_seats_def rule_seats_def seats_def)

lemma coupon_uses_eq:
  assumes "refs_ok s" and "order_state s i = Some Reserved"
  shows "coupon_uses s i = seats cr_order cr_coupon (redemptions s) i"
proof
  fix k
  have "cr_state r = Reserved" if "r \<in> set (redemptions s)" "cr_order r = i" for r
    using assms that by (auto simp: refs_ok_def)
  then show "coupon_uses s i k = seats cr_order cr_coupon (redemptions s) i k"
    by (auto simp: coupon_uses_def seats_def intro!: rows_where_cong)
qed

lemma ledger_enough:
  assumes "db_ok s" and "order_state s i = Some Reserved"
  shows "enough i s"
  unfolding enough_def
proof (intro conjI ballI impI)
  fix p assume p: "p \<in> set (participants s)" "op_order p = i"
  from assms(1) p have "op_category p \<in> ec_id ` set (categories s)" "op_rule p \<in> pr_id ` set (price_rules s)"
    by (auto simp: db_ok_def refs_ok_def)
  then obtain c r where c: "c \<in> set (categories s)" "ec_id c = op_category p"
    and r: "r \<in> set (price_rules s)" "pr_id r = op_rule p" by auto
  from assms(1) have ag: "cat_row.agree (categories s) op_order op_category (participants s) (order_state s) (free_seats s)"
    "rule_row.agree (price_rules s) op_order op_rule (participants s) (order_state s) (\<lambda>_. 0)"
    by (auto simp: db_ok_def ledger_ok_def)
  from cat_row.agree_enough [OF ag(1) assms(2) c(1)] c
  show "\<exists>c\<in>set (categories s). ec_id c = op_category p \<and> cat_seats s i (op_category p) \<le> ec_reserved c"
    by (auto simp: seats_eq)
  from rule_row.agree_enough [OF ag(2) assms(2) r(1)] r
  show "\<exists>r\<in>set (price_rules s). pr_id r = op_rule p \<and> rule_seats s i (op_rule p) \<le> pr_reserved r"
    by (auto simp: seats_eq)
next
  fix r assume r: "r \<in> set (redemptions s)" "cr_order r = i \<and> cr_state r = Reserved"
  from assms(1) r have "cr_coupon r \<in> cp_id ` set (coupons s)" by (auto simp: db_ok_def refs_ok_def)
  then obtain c where c: "c \<in> set (coupons s)" "cp_id c = cr_coupon r" by auto
  from assms(1) have "coupon_row.agree (coupons s) cr_order cr_coupon (redemptions s) (order_state s) (\<lambda>_. 0)"
    by (auto simp: db_ok_def ledger_ok_def)
  from coupon_row.agree_enough [OF this assms(2) c(1)]
  have "seats cr_order cr_coupon (redemptions s) i (cr_coupon r) \<le> cp_reserved c" using c by simp
  moreover have "rows_where (\<lambda>x. cr_order x = i \<and> cr_coupon x = cr_coupon r) (redemptions s) \<noteq> 0"
    using r by (simp only: rows_where_0_iff) blast
  ultimately have "1 \<le> cp_reserved c" unfolding seats_def by linarith
  with c show "\<exists>c\<in>set (coupons s). cp_id c = cr_coupon r \<and> 1 \<le> cp_reserved c" by auto
qed

section \<open>Settling a reserved order\<close>

text \<open>Moving the counters of an order keeps every counter within its limits.\<close>

lemma group_count_nonneg: "\<forall>(i, n)\<in>set (group_count xs). 0 \<le> n"
  by (auto simp: set_group_count)

lemma moved_limits:
  assumes keys: "counter_keys s" and "limits_ok s" and en: "enough i s"
  shows "limits_ok (moved c i s)"
proof -
  let ?cs = "list_order_category_seats i s" and ?rs = "list_order_price_rule_seats i s"
  let ?err = "\<lambda>_. state_conflict"
  have d: "distinct (map fst ?cs)" "distinct (map fst ?rs)" "distinct (map ec_id (categories s))"
    "distinct (map pr_id (price_rules s))" "distinct (map cp_id (coupons s))"
    "distinct (map cr_order (redemptions s))"
    using keys by (simp_all add: list_order_category_seats_def list_order_price_rule_seats_def
        distinct_group_count counter_keys_def)
  have nn: "\<forall>(i, n)\<in>set ?cs. 0 \<le> n" "\<forall>(i, n)\<in>set ?rs. 0 \<le> n"
    unfolding list_order_category_seats_def list_order_price_rule_seats_def by (rule group_count_nonneg)+
  have f: "\<forall>c\<in>set (categories s). cat.fits c" "\<forall>r\<in>set (price_rules s). rule.fits r"
    "\<forall>c\<in>set (coupons s). coupon.fits c" using assms(2) by (auto simp: limits_ok_def)
  have L1: "stmt_loop (if c then consume_category_seats else release_category_seats) ?err ?cs (categories s)
      = Inr (categories (moved c i s))"
    using category_loop_iff [OF keys, of c ?err i] en by (simp add: enough_def moved_def)
  have "\<forall>c\<in>set (categories (moved c i s)). cat.fits c"
    using L1 cat.consume_loop_fits [OF _ d(1,3) f(1) nn(1)] cat.release_loop_fits [OF _ d(1,3) f(1) nn(1)]
    by (cases c) auto
  moreover have L2: "stmt_loop (if c then consume_price_rule_seats else release_price_rule_seats) ?err ?rs (price_rules s)
      = Inr (price_rules (moved c i s))"
    using rule_loop_iff [OF keys, of c ?err i] en by (simp add: enough_def moved_def)
  moreover have "\<forall>r\<in>set (price_rules (moved c i s)). rule.fits r"
    using L2 rule.consume_loop_fits [OF _ d(2,4) f(2) nn(2)] rule.release_loop_fits [OF _ d(2,4) f(2) nn(2)]
    by (cases c) auto
  moreover have "\<forall>x\<in>set (coupons (moved c i s)). coupon.fits x"
  proof
    fix x assume "x \<in> set (coupons (moved c i s))"
    then obtain y where y: "y \<in> set (coupons s)"
      "x = cp_put (cp_used y + (if c then coupon_uses s i (cp_id y) else 0)) (cp_reserved y - coupon_uses s i (cp_id y)) y"
      by (auto simp: moved_def coupon_row.shift_def)
    have "coupon_uses s i (cp_id y) \<le> cp_reserved y \<and> 0 \<le> coupon_uses s i (cp_id y)"
    proof (cases "\<exists>r\<in>set (redemptions s). cr_order r = i \<and> cr_state r = Reserved \<and> cr_coupon r = cp_id y")
      case True
      then obtain r where r: "r \<in> set (redemptions s)" "cr_order r = i" "cr_state r = Reserved" "cr_coupon r = cp_id y"
        by blast
      with en obtain z where "z \<in> set (coupons s)" "cp_id z = cp_id y" "1 \<le> cp_reserved z"
        unfolding enough_def by metis
      with distinct_key_eq [OF d(5)] y(1) have "1 \<le> cp_reserved y" by metis
      with coupon_uses_Some [OF d(6) r(1-3)] r(4) show ?thesis by simp
    next
      case False
      then have "coupon_uses s i (cp_id y) = 0" by (auto simp: coupon_uses_def)
      with f(3) y(1) show ?thesis by (simp add: coupon.fits_def)
    qed
    with f(3) y show "coupon.fits x" by (auto simp: coupon.fits_def cp_put_def)
  qed
  ultimately show ?thesis by (simp add: limits_ok_def)
qed

text \<open>
  A transition that settles a reserved order \<open>i\<close>: its row satisfies the guard
  \<open>P\<close>, the update \<open>f\<close> moves it to the consumed (\<open>c\<close>) or released state, the
  counters move, and \<open>g\<close> updates the pending registrations of the order.
\<close>

definition settling ::
    "bool \<Rightarrow> int \<Rightarrow> order_row \<Rightarrow> (order_row \<Rightarrow> bool) \<Rightarrow> (order_row \<Rightarrow> order_row)
       \<Rightarrow> (registration_row \<Rightarrow> registration_row) \<Rightarrow> db \<Rightarrow> bool" where
  "settling c i r P f g s \<longleftrightarrow>
     r \<in> set (orders s) \<and> ro_id r = i \<and> ro_state r = Reserved \<and> P r
   \<and> (\<forall>x. P x \<longrightarrow> ro_id x = i) \<and> (\<forall>x. ro_id (f x) = ro_id x \<and> ro_no (f x) = ro_no x)
   \<and> ro_state (f r) = (if c then Consumed else Released) \<and> order_ok (f r)
   \<and> (\<forall>x. rg_participant (g x) = rg_participant x
         \<and> state_of_reg (rg_status (g x)) = (if c then Consumed else Released))"

definition with_orders :: "(order_row \<Rightarrow> bool) \<Rightarrow> (order_row \<Rightarrow> order_row) \<Rightarrow> db \<Rightarrow> db" where
  "with_orders P f s = s\<lparr>orders := update_where P f (orders s)\<rparr>"

definition settled ::
    "bool \<Rightarrow> int \<Rightarrow> (order_row \<Rightarrow> bool) \<Rightarrow> (order_row \<Rightarrow> order_row)
       \<Rightarrow> (registration_row \<Rightarrow> registration_row) \<Rightarrow> db \<Rightarrow> db" where
  "settled c i P f g s = (moved c i (with_orders P f s))\<lparr>registrations :=
     update_where (\<lambda>x. reg_of_order s i x \<and> rg_status x = RegPending) g (registrations s)\<rparr>"

lemma with_orders_simps [simp]:
  "cat_seats (with_orders P f s) = cat_seats s" "rule_seats (with_orders P f s) = rule_seats s"
  "coupon_uses (with_orders P f s) = coupon_uses s" "categories (with_orders P f s) = categories s"
  "price_rules (with_orders P f s) = price_rules s" "coupons (with_orders P f s) = coupons s"
  "redemptions (with_orders P f s) = redemptions s" "participants (with_orders P f s) = participants s"
  "orders (with_orders P f s) = update_where P f (orders s)" "free_signups (with_orders P f s) = free_signups s"
  "registrations (with_orders P f s) = registrations s"
  by (simp_all add: with_orders_def fun_eq_iff cat_seats_def rule_seats_def coupon_uses_def)

lemma settled_simps [simp]:
  "orders (settled c i P f g s) = update_where P f (orders s)"
  "participants (settled c i P f g s) = participants s"
  "free_signups (settled c i P f g s) = free_signups s"
  "free_seats (settled c i P f g s) = free_seats s"
  by (simp_all add: settled_def free_seats_def fun_eq_iff)

lemma settling_facts:
  assumes "db_ok s" and "settling c i r P f g s"
  shows "order_state s i = Some Reserved" "enough i s"
    "order_state (settled c i P f g s) = (order_state s)(i \<mapsto> if c then Consumed else Released)"
proof -
  have K: "distinct (map ro_id (orders s))" using assms(1) by (simp add: db_ok_def keys_ok_def)
  have r: "r \<in> set (orders s)" "ro_id r = i" "ro_state r = Reserved" "P r"
    and P: "\<And>x. P x \<Longrightarrow> ro_id x = i" and f: "\<And>x. ro_id (f x) = ro_id x"
      "ro_state (f r) = (if c then Consumed else Released)"
    using assms(2) by (auto simp: settling_def)
  show st: "order_state s i = Some Reserved" using order_state_row [OF K r(1)] r(2,3) by simp
  show "enough i s" by (rule ledger_enough [OF assms(1) st])
  have "order_state (settled c i P f g s) = order_state (s\<lparr>orders := update_where P f (orders s)\<rparr>)"
    by (simp add: order_state_def fun_eq_iff)
  also have "\<dots> = (order_state s)(i \<mapsto> if c then Consumed else Released)"
    using order_state_update [where P = P and f = f, OF K r(1) r(4) r(2) P f(1) f(2)] .
  finally show "order_state (settled c i P f g s) = (order_state s)(i \<mapsto> if c then Consumed else Released)" .
qed

text \<open>The counters always cover the order, so moving them succeeds.\<close>

lemma settling_moves:
  assumes "db_ok s" and "settling c i r P f g s"
  shows "move_counters c i (with_orders P f s) = Inr (moved c i (with_orders P f s))"
proof -
  have "counter_keys (with_orders P f s)" using assms(1) by (simp add: db_ok_def keys_ok_def counter_keys_def)
  moreover have "enough i (with_orders P f s)"
    using settling_facts(2) [OF assms] by (simp add: enough_def)
  ultimately show ?thesis using move_counters_iff by blast
qed

lemma settled_keys:
  assumes "db_ok s" and "settling c i r P f g s"
  shows "keys_ok (settled c i P f g s)"
proof -
  have f: "\<And>x. ro_id (f x) = ro_id x" "\<And>x. ro_no (f x) = ro_no x"
    "\<And>x. rg_participant (g x) = rg_participant x"
    using assms(2) by (auto simp: settling_def)
  then have "map ro_id (update_where P f (orders s)) = map ro_id (orders s)"
    "map ro_no (update_where P f (orders s)) = map ro_no (orders s)"
    by (simp_all add: map_update_where)
  then show ?thesis
    using assms(1) f(3)
    by (simp add: db_ok_def keys_ok_def counter_keys_def settled_def moved_def map_update_where)
qed

lemma settled_orders:
  assumes "db_ok s" and "settling c i r P f g s"
  shows "\<forall>x\<in>set (orders (settled c i P f g s)). order_ok x"
proof
  have K: "distinct (map ro_id (orders s))" and O: "\<forall>r\<in>set (orders s). order_ok r"
    using assms(1) by (auto simp: db_ok_def keys_ok_def)
  have r: "r \<in> set (orders s)" "ro_id r = i" "order_ok (f r)" and P: "\<And>x. P x \<Longrightarrow> ro_id x = i"
    using assms(2) by (auto simp: settling_def)
  fix x assume "x \<in> set (orders (settled c i P f g s))"
  then obtain y where y: "y \<in> set (orders s)" "x = (if P y then f y else y)"
    by (auto simp: set_update_where)
  show "order_ok x"
  proof (cases "P y")
    case True
    with P [of y] distinct_key_eq [OF K y(1) r(1)] r(2) have "y = r" by simp
    with y True r(3) show ?thesis by simp
  next
    case False
    with y O show ?thesis by simp
  qed
qed

lemma moved_ids:
  "ec_id ` set (categories (moved c i s)) = ec_id ` set (categories s)"
  "pr_id ` set (price_rules (moved c i s)) = pr_id ` set (price_rules s)"
  "cp_id ` set (coupons (moved c i s)) = cp_id ` set (coupons s)"
  by (simp_all add: moved_def image_set [symmetric] del: image_set)
    (simp_all only: set_map [symmetric] cat_row.map_key_shift rule_row.map_key_shift coupon_row.map_key_shift)

lemma settled_refs:
  assumes "db_ok s" and "settling c i r P f g s"
  shows "refs_ok (settled c i P f g s)"
proof -
  let ?b = "if c then Consumed else Released" and ?s' = "settled c i P f g s"
  have R: "refs_ok s" using assms(1) by (simp add: db_ok_def)
  note st = settling_facts(1,3) [OF assms]
  have ids: "ec_id ` set (categories ?s') = ec_id ` set (categories s)"
    "pr_id ` set (price_rules ?s') = pr_id ` set (price_rules s)"
    "cp_id ` set (coupons ?s') = cp_id ` set (coupons s)"
    using moved_ids [of c i "with_orders P f s"] by (simp_all add: settled_def)
  have "order_state ?s' (cr_order x) = Some (cr_state x) \<and> cr_coupon x \<in> cp_id ` set (coupons s)"
    if x: "x \<in> set (redemptions ?s')" for x
  proof -
    from x obtain y where y: "y \<in> set (redemptions s)"
      "x = (if cr_order y = i \<and> cr_state y = Reserved then y\<lparr>cr_state := ?b\<rparr> else y)"
      by (auto simp: settled_def moved_def set_update_where)
    with R have "order_state s (cr_order y) = Some (cr_state y)" "cr_coupon y \<in> cp_id ` set (coupons s)"
      by (auto simp: refs_ok_def)
    with y st show ?thesis by (cases "cr_order y = i") auto
  qed
  with R show ?thesis unfolding refs_ok_def ids st(2) by auto
qed

lemma settled_regs:
  assumes "db_ok s" and "settling c i r P f g s"
  shows "regs_ok (settled c i P f g s)"
  unfolding regs_ok_def
proof
  note st = settling_facts(1,3) [OF assms]
  have K: "distinct (map op_id (participants s))" and G: "regs_ok s"
    using assms(1) by (auto simp: db_ok_def keys_ok_def)
  have g: "\<And>x. rg_participant (g x) = rg_participant x"
    "\<And>x. state_of_reg (rg_status (g x)) = (if c then Consumed else Released)"
    using assms(2) by (auto simp: settling_def)
  fix x assume "x \<in> set (registrations (settled c i P f g s))"
  then obtain y where y: "y \<in> set (registrations s)"
    "x = (if reg_of_order s i y \<and> rg_status y = RegPending then g y else y)"
    by (auto simp: settled_def set_update_where)
  with G obtain p where p: "p \<in> set (participants s)" "op_id p = rg_participant y"
    "order_state s (op_order p) = Some (state_of_reg (rg_status y))" by (auto simp: regs_ok_def)
  have only: "p' = p" if "p' \<in> set (participants s)" "op_id p' = rg_participant y" for p'
    using distinct_key_eq [OF K that(1) p(1)] that(2) p(2) by simp
  show "\<exists>p\<in>set (participants (settled c i P f g s)). op_id p = rg_participant x
      \<and> order_state (settled c i P f g s) (op_order p) = Some (state_of_reg (rg_status x))"
  proof (cases "op_order p = i")
    case True
    with p st have "state_of_reg (rg_status y) = Reserved" by simp
    then have "rg_status y = RegPending" by (cases "rg_status y") (simp_all add: state_of_reg_def)
    moreover have "reg_of_order s i y" using p True by (auto simp: reg_of_order_def)
    ultimately show ?thesis using y p True g st by (auto intro!: bexI [of _ p])
  next
    case False
    with only have "\<not> reg_of_order s i y" by (auto simp: reg_of_order_def)
    with y p False st show ?thesis by (auto intro!: bexI [of _ p])
  qed
qed

lemma settled_ledger:
  assumes "db_ok s" and "settling c i r P f g s"
  shows "ledger_ok (settled c i P f g s)"
proof -
  let ?s' = "settled c i P f g s"
  note st = settling_facts(1,3) [OF assms]
  have R: "refs_ok s" and L: "ledger_ok s" using assms(1) by (auto simp: db_ok_def)
  have L1: "cat_row.agree (categories s) op_order op_category (participants s) (order_state s) (free_seats s)"
    and L2: "rule_row.agree (price_rules s) op_order op_rule (participants s) (order_state s) (\<lambda>_. 0)"
    and L3: "coupon_row.agree (coupons s) cr_order cr_coupon (redemptions s) (order_state s) (\<lambda>_. 0)"
    using L by (auto simp: ledger_ok_def)
  have "total cr_order cr_coupon st2 (redemptions ?s') x k = total cr_order cr_coupon st2 (redemptions s) x k" for st2 x k
    by (simp add: settled_def moved_def total_def rows_where_update_where if_distrib cong: if_cong)
      (auto intro!: rows_where_cong)
  then have ag: "coupon_row.agree t cr_order cr_coupon (redemptions ?s') st2 ex2
      = coupon_row.agree t cr_order cr_coupon (redemptions s) st2 ex2" for t st2 ex2
    by (simp add: coupon_row.agree_def)
  have tabs: "categories ?s' = cat_row.shift (\<lambda>k. if c then seats op_order op_category (participants s) i k else 0)
      (\<lambda>k. - seats op_order op_category (participants s) i k) (categories s)"
    "price_rules ?s' = rule_row.shift (\<lambda>k. if c then seats op_order op_rule (participants s) i k else 0)
      (\<lambda>k. - seats op_order op_rule (participants s) i k) (price_rules s)"
    "coupons ?s' = coupon_row.shift (\<lambda>k. if c then seats cr_order cr_coupon (redemptions s) i k else 0)
      (\<lambda>k. - seats cr_order cr_coupon (redemptions s) i k) (coupons s)"
    by (simp_all add: settled_def moved_def seats_eq coupon_uses_eq [OF R st(1)] cong: if_cong)
  show ?thesis
    unfolding ledger_ok_def st(2) settled_simps ag tabs
    by (intro conjI cat_row.agree_settle [OF L1 st(1)] rule_row.agree_settle [OF L2 st(1)]
        coupon_row.agree_settle [OF L3 st(1)])
qed

lemma settled_limits:
  assumes "db_ok s" and "settling c i r P f g s"
  shows "limits_ok (settled c i P f g s)"
proof -
  have "counter_keys (with_orders P f s)" "limits_ok (with_orders P f s)"
    using assms(1) by (simp_all add: db_ok_def keys_ok_def counter_keys_def limits_ok_def)
  moreover have "enough i (with_orders P f s)"
    using settling_facts(2) [OF assms] by (simp add: enough_def)
  ultimately have "limits_ok (moved c i (with_orders P f s))" by (rule moved_limits)
  then show ?thesis by (simp add: limits_ok_def settled_def)
qed

lemma settled_ok: "db_ok s \<Longrightarrow> settling c i r P f g s \<Longrightarrow> db_ok (settled c i P f g s)"
  unfolding db_ok_def [of "settled c i P f g s"]
  by (intro conjI settled_keys settled_orders settled_refs settled_regs settled_ledger settled_limits)

section \<open>Paying, releasing and the proof transitions\<close>

definition payable :: "order_row \<Rightarrow> bool" where
  "payable r \<longleftrightarrow> ro_state r = Reserved
     \<and> (ro_status r = ProofSubmitted \<or> (ro_status r = PendingPayment \<and> ro_amount r = 0))"

definition releasable :: "release_kind \<Rightarrow> order_row \<Rightarrow> bool" where
  "releasable kind r \<longleftrightarrow> ro_state r = Reserved
     \<and> (ro_status r = PendingPayment \<or> (kind = ReleaseExpired \<and> ro_status r = ProofRejected))"

definition pay_row :: "gotime \<Rightarrow> order_row \<Rightarrow> order_row" where
  "pay_row at r = r\<lparr>ro_status := Paid, ro_paid_at := Some at, ro_deadline := None,
     ro_state := Consumed, ro_version := ro_version r + 1\<rparr>"

definition release_row :: "release_kind \<Rightarrow> gotime \<Rightarrow> order_row \<Rightarrow> order_row" where
  "release_row kind at r =
     (case kind of
        ReleaseExpired \<Rightarrow> r\<lparr>ro_status := Expired, ro_state := Released, ro_release_kind := Some ReleaseExpired,
            ro_expired_at := Some at, ro_deadline := None, ro_version := ro_version r + 1\<rparr>
      | ReleaseCancelled \<Rightarrow> r\<lparr>ro_status := Cancelled, ro_state := Released, ro_release_kind := Some ReleaseCancelled,
            ro_cancelled_at := Some at, ro_deadline := None, ro_version := ro_version r + 1\<rparr>)"

definition confirm_reg :: "gotime \<Rightarrow> registration_row \<Rightarrow> registration_row" where
  "confirm_reg at r = r\<lparr>rg_status := RegConfirmed, rg_confirmed_at := Some at, rg_version := rg_version r + 1\<rparr>"

definition cancel_reg :: "release_kind \<Rightarrow> registration_row \<Rightarrow> registration_row" where
  "cancel_reg kind r = r\<lparr>rg_status := RegCancelled, rg_cancel_reason := Some kind, rg_version := rg_version r + 1\<rparr>"

definition paid_db :: "env \<Rightarrow> int \<Rightarrow> gotime \<Rightarrow> db \<Rightarrow> db" where
  "paid_db e i at = settled True i (\<lambda>r. ro_id r = i \<and> payable r) (pay_row at) (confirm_reg (e_now e))"

definition released_db :: "env \<Rightarrow> int \<Rightarrow> release_kind \<Rightarrow> db \<Rightarrow> db" where
  "released_db e i kind =
     settled False i (\<lambda>r. ro_id r = i \<and> releasable kind r) (release_row kind (e_now e)) (cancel_reg kind)"

lemma order_row_of:
  assumes "db_ok s" and "r \<in> set (orders s)"
  shows "order_ok r"
  using assms by (simp add: db_ok_def)

lemma order_ok_amounts:
  "order_ok r \<Longrightarrow> ro_amount r = ro_list r - ro_discount r \<and> 0 \<le> ro_amount r \<and> 0 \<le> ro_discount r
     \<and> 0 \<le> ro_ident r \<and> ro_ident r \<le> 50"
  by (simp add: order_ok_def)

lemma settling_pay:
  assumes "db_ok s" and "r \<in> set (orders s)" and "ro_id r = i" and "payable r"
  shows "settling True i r (\<lambda>r. ro_id r = i \<and> payable r) (pay_row at) (confirm_reg at') s"
  using assms order_ok_amounts [OF order_row_of [OF assms(1,2)]]
  by (auto simp: settling_def payable_def pay_row_def confirm_reg_def order_ok_def state_of_reg_def)

lemma settling_release:
  assumes "db_ok s" and "r \<in> set (orders s)" and "ro_id r = i" and "releasable kind r"
  shows "settling False i r (\<lambda>r. ro_id r = i \<and> releasable kind r) (release_row kind at) (cancel_reg kind) s"
  using assms order_ok_amounts [OF order_row_of [OF assms(1,2)]]
  by (cases kind) (auto simp: settling_def releasable_def release_row_def cancel_reg_def order_ok_def state_of_reg_def)

lemma mark_order_paid_eq:
  "mark_order_paid at i s =
     (rows_where (\<lambda>r. ro_id r = i \<and> payable r) (orders s), with_orders (\<lambda>r. ro_id r = i \<and> payable r) (pay_row at) s)"
  by (simp add: mark_order_paid_def exec_orders_def payable_def pay_row_def [abs_def] with_orders_def)

lemma release_stmt_eq:
  "(case kind of ReleaseExpired \<Rightarrow> release_order_expired at i s | ReleaseCancelled \<Rightarrow> release_order_cancelled at i s) =
     (rows_where (\<lambda>r. ro_id r = i \<and> releasable kind r) (orders s),
      with_orders (\<lambda>r. ro_id r = i \<and> releasable kind r) (release_row kind at) s)"
  by (cases kind) (simp_all add: release_order_expired_def release_order_cancelled_def exec_orders_def
      releasable_def release_row_def [abs_def] with_orders_def)

lemma reg_of_order_cong: "participants s' = participants s \<Longrightarrow> reg_of_order s' i x = reg_of_order s i x"
  by (simp add: reg_of_order_def)

lemma registrations_moved [simp]: "registrations (moved c i (with_orders P f s)) = registrations s"
  by simp

text \<open>Paying succeeds on a payable order and is a state conflict on any other.\<close>

lemma confirm_paid_eq:
  assumes "db_ok s"
  shows "confirm_paid e i at s =
     (if \<exists>r\<in>set (orders s). ro_id r = i \<and> payable r then Inr (paid_db e i at s) else Inl state_conflict)"
proof -
  let ?P = "\<lambda>r. ro_id r = i \<and> payable r"
  have K: "distinct (map ro_id (orders s))" using assms by (simp add: db_ok_def keys_ok_def)
  show ?thesis
  proof (cases "\<exists>r\<in>set (orders s). ?P r")
    case True
    then obtain r where r: "r \<in> set (orders s)" "ro_id r = i" "payable r" by blast
    have n: "rows_where ?P (orders s) = 1" using exec_orders_rows [OF K, of i payable] True by simp
    have mv: "consume i (with_orders ?P (pay_row at) s) = Inr (moved True i (with_orders ?P (pay_row at) s))"
      unfolding consume_def by (rule settling_moves [OF assms settling_pay [OF assms r]])
    show ?thesis using True
      by (simp add: confirm_paid_def mark_order_paid_eq n mv paid_db_def settled_def
          confirm_order_registrations_def confirm_reg_def [abs_def] reg_of_order_def [abs_def])
  next
    case False
    then have n: "rows_where ?P (orders s) = 0" by (simp only: rows_where_0_iff) blast
    show ?thesis using False by (simp add: confirm_paid_def mark_order_paid_eq n del: rows_where_0_iff)
  qed
qed

lemma release_order_eq:
  assumes "db_ok s"
  shows "release_order e i kind s =
     (if \<exists>r\<in>set (orders s). ro_id r = i \<and> releasable kind r
      then Inr (True, released_db e i kind s) else Inr (False, s))"
proof -
  let ?P = "\<lambda>r. ro_id r = i \<and> releasable kind r"
  show ?thesis
  proof (cases "\<exists>r\<in>set (orders s). ?P r")
    case True
    then obtain r where r: "r \<in> set (orders s)" "ro_id r = i" "releasable kind r" by blast
    have n: "rows_where ?P (orders s) \<noteq> 0" using True by (simp only: rows_where_0_iff) blast
    have mv: "release i (with_orders ?P (release_row kind (e_now e)) s)
        = Inr (moved False i (with_orders ?P (release_row kind (e_now e)) s))"
      unfolding release_def by (rule settling_moves [OF assms settling_release [OF assms r]])
    show ?thesis using True n
      by (simp add: release_order_def release_stmt_eq mv released_db_def settled_def
          cancel_order_registrations_def cancel_reg_def [abs_def] reg_of_order_def [abs_def])
  next
    case False
    then have n: "rows_where ?P (orders s) = 0" by (simp only: rows_where_0_iff) blast
    from False have "update_where ?P f (orders s) = orders s" for f by (auto intro: update_where_none)
    with False show ?thesis
      by (simp add: release_order_def release_stmt_eq with_orders_def n del: rows_where_0_iff)
  qed
qed

lemma confirm_paid_ok: "db_ok s \<Longrightarrow> confirm_paid e i at s = Inr s' \<Longrightarrow> db_ok s'"
  by (auto simp: confirm_paid_eq paid_db_def split: if_splits intro!: settled_ok settling_pay)

lemma release_order_ok: "db_ok s \<Longrightarrow> release_order e i kind s = Inr (b, s') \<Longrightarrow> db_ok s'"
  by (auto simp: release_order_eq released_db_def split: if_splits intro!: settled_ok settling_release)

text \<open>A status change within the open states keeps everything.\<close>

lemma open_transition_ok:
  assumes ok: "db_ok s"
    and f: "\<And>x. ro_id (f x) = ro_id x" "\<And>x. ro_no (f x) = ro_no x" "\<And>x. ro_state (f x) = ro_state x"
      "\<And>x. x \<in> set (orders s) \<Longrightarrow> P x \<Longrightarrow> order_ok x \<Longrightarrow> order_ok (f x)"
  shows "db_ok (with_orders P f s)"
proof -
  have ids: "map ro_id (update_where P f (orders s)) = map ro_id (orders s)"
    "map ro_no (update_where P f (orders s)) = map ro_no (orders s)"
    using f(1,2) by (simp_all add: map_update_where)
  have st: "order_state (with_orders P f s) = order_state s"
    using f(1,3) by (auto simp: fun_eq_iff order_state_def find_update_where option.map_comp o_def
        intro!: option.map_cong)
  have fs: "free_seats (with_orders P f s) = free_seats s" by (simp add: free_seats_def fun_eq_iff)
  have "\<forall>x\<in>set (orders (with_orders P f s)). order_ok x"
    using ok f(4) by (auto simp: db_ok_def set_update_where)
  then show ?thesis
    using ok by (simp add: db_ok_def ok_defs counter_keys_def ids st fs)
qed

lemma mark_proof_submitted_ok:
  assumes "db_ok s" and "mark_proof_submitted i s = Inr s'"
  shows "db_ok s'"
proof -
  from assms(2) have "s' = with_orders
      (\<lambda>r. ro_id r = i \<and> ro_state r = Reserved \<and> (ro_status r = PendingPayment \<or> ro_status r = ProofRejected))
      (\<lambda>r. r\<lparr>ro_status := ProofSubmitted, ro_deadline := None, ro_version := ro_version r + 1\<rparr>) s"
    by (simp add: mark_proof_submitted_def set_order_proof_submitted_def exec_orders_def with_orders_def split: if_splits)
  then show ?thesis
    by (simp only:) (rule open_transition_ok [OF assms(1)], auto simp: order_ok_def open_status_def)
qed

lemma mark_proof_rejected_ok:
  assumes "db_ok s" and "mark_proof_rejected i d s = Inr s'"
  shows "db_ok s'"
proof -
  from assms(2) have "s' = with_orders
      (\<lambda>r. ro_id r = i \<and> ro_state r = Reserved \<and> ro_status r = ProofSubmitted)
      (\<lambda>r. r\<lparr>ro_status := ProofRejected, ro_deadline := Some d, ro_version := ro_version r + 1\<rparr>) s"
    by (simp add: mark_proof_rejected_def set_order_proof_rejected_def exec_orders_def with_orders_def split: if_splits)
  then show ?thesis
    by (simp only:) (rule open_transition_ok [OF assms(1)], auto simp: order_ok_def open_status_def)
qed

lemma audit_record_ok [simp]: "db_ok (audit_record a s) = db_ok s"
  by (rule db_ok_cong) (simp_all add: audit_record_def)

lemma cancel_order_Inr:
  assumes "cancel_order e u no s = Inr (d, s')"
  obtains r s1 where "r \<in> set (orders s)" "ro_no r = no" "ro_buyer r = Some u" "ro_status r = PendingPayment"
    "release_order e (ro_id r) ReleaseCancelled s = Inr (True, s1)"
    "s' = audit_record (runner_entry u ''reg_order.cancel'' (ro_id r) (ro_event r)) s1"
    "load_detail (ro_id r) s' = Inr d"
proof -
  from assms obtain r where r: "List.find (\<lambda>r. ro_no r = no \<and> ro_buyer r = Some u) (orders s) = Some r"
    by (auto simp: cancel_order_def split: option.splits)
  from assms r obtain b s1 where "ro_status r = PendingPayment"
    "release_order e (ro_id r) ReleaseCancelled s = Inr (b, s1)" "b"
    "s' = audit_record (runner_entry u ''reg_order.cancel'' (ro_id r) (ro_event r)) s1"
    "load_detail (ro_id r) s' = Inr d"
    by (auto simp: cancel_order_def errE Let_def)
  with find_Some_key [OF r] show thesis by (intro that) auto
qed

lemma cancel_order_ok: "db_ok s \<Longrightarrow> cancel_order e u no s = Inr (d, s') \<Longrightarrow> db_ok s'"
  by (erule cancel_order_Inr) (simp add: release_order_ok)

end
