(* ===== verification/Placement.thy ===== *)
theory Placement
  imports Invariant
begin

text \<open>
  \<open>CreateOrder\<close> keeps the invariant: the seats it reserves are those of the
  participants it inserts, and a new registration never duplicates a live one
  of the same event and identity number.
\<close>

section \<open>Reserving keeps the limits\<close>

lemma reserved_limits:
  assumes keys: "counter_keys s" and lim: "limits_ok s" and room: "has_room q s"
  shows "limits_ok (reserved_db q s)"
proof -
  let ?cs = "group_count (map pq_category (q_participants q))"
  let ?rs = "group_count (map pq_rule (q_participants q))"
  let ?err = "\<lambda>_. state_conflict"
  have d: "distinct (map ec_id (categories s))" "distinct (map pr_id (price_rules s))"
    "distinct (map cp_id (coupons s))" using keys by (auto simp: counter_keys_def)
  have am: "amount ?cs = quote_cat_seats q" "amount ?rs = quote_rule_seats q"
    by (simp_all add: fun_eq_iff amount_map quote_cat_seats_def quote_rule_seats_def)
  have "\<forall>(i, n)\<in>set ?cs. \<exists>r\<in>set (categories s). ec_id r = i \<and> cat.room n r"
    using room unfolding ball_group_count_map has_room_def cat.room_def quote_cat_seats_def by auto
  then have "stmt_loop reserve_category_seats ?err ?cs (categories s) = Inr (categories (reserved_db q s))"
    using cat.reserve_loop [OF distinct_group_count d(1)] by (simp add: am reserved_db_def)
  then have "\<forall>c\<in>set (categories (reserved_db q s)). cat.fits c"
    by (rule cat.reserve_loop_fits [OF _ distinct_group_count d(1) _ group_count_nonneg])
      (use lim in \<open>simp add: limits_ok_def\<close>)
  moreover have "\<forall>(i, n)\<in>set ?rs. \<exists>r\<in>set (price_rules s). pr_id r = i \<and> rule.room n r"
    using room unfolding ball_group_count_map has_room_def rule.room_def quote_rule_seats_def by auto
  then have "stmt_loop reserve_price_rule_seats ?err ?rs (price_rules s) = Inr (price_rules (reserved_db q s))"
    using rule.reserve_loop [OF distinct_group_count d(2)] by (simp add: am reserved_db_def)
  then have "\<forall>r\<in>set (price_rules (reserved_db q s)). rule.fits r"
    by (rule rule.reserve_loop_fits [OF _ distinct_group_count d(2) _ group_count_nonneg])
      (use lim in \<open>simp add: limits_ok_def\<close>)
  moreover have "coupon.fits x" if "x \<in> set (coupons (reserved_db q s))" for x
  proof -
    from that obtain y where y: "y \<in> set (coupons s)"
      "x = cp_put (cp_used y) (cp_reserved y + quote_coupon_uses q (cp_id y)) y"
      by (auto simp: reserved_db_def coupon_row.shift_def)
    have "cp_used y + cp_reserved y + 1 \<le> cp_quota y" if "q_coupon q = Some (cp_id y)"
      using room that distinct_key_eq [OF d(3) _ y(1)] unfolding has_room_def by metis
    with y lim show ?thesis
      by (auto simp: limits_ok_def coupon.fits_def cp_put_def quote_coupon_uses_def)
  qed
  ultimately show ?thesis by (simp add: limits_ok_def)
qed

section \<open>The participants that were inserted\<close>

text \<open>
  What the participant loop has done after the lines \<open>ls\<close> of the order \<open>i\<close>:
  rows \<open>ps\<close> and \<open>rs\<close> were appended, one per line, and nothing else the
  invariant speaks of has changed.
\<close>

definition inserted :: "int \<Rightarrow> event_row \<Rightarrow> (participant_quote \<times> resolved) list \<Rightarrow> db \<Rightarrow> db
    \<Rightarrow> participant_row list \<Rightarrow> registration_row list \<Rightarrow> bool" where
  "inserted i ev ls s s' ps rs \<longleftrightarrow>
     participants s' = participants s @ ps \<and> registrations s' = registrations s @ rs
   \<and> map op_order ps = replicate (length ls) i
   \<and> map op_category ps = map (\<lambda>l. pq_category (fst l)) ls \<and> map op_rule ps = map (\<lambda>l. pq_rule (fst l)) ls
   \<and> map rg_participant rs = map op_id ps \<and> (\<forall>r\<in>set rs. rg_status r = RegPending \<and> rg_event r = ev_id ev)
   \<and> map rg_id_hash rs = map (\<lambda>l. rv_hash (snd l)) ls
   \<and> distinct (map op_id (participants s')) \<and> distinct (map rg_participant (registrations s'))
   \<and> orders s' = orders s \<and> free_signups s' = free_signups s \<and> categories s' = categories s
   \<and> price_rules s' = price_rules s \<and> coupons s' = coupons s \<and> redemptions s' = redemptions s
   \<and> idem_keys s' = idem_keys s \<and> events s' = events s \<and> proofs s' = proofs s
   \<and> receipts s' = receipts s \<and> exceptions s' = exceptions s"

lemma insert_order_participant_Inr:
  assumes "insert_order_participant row s = Inr (i, s')"
  shows "i = next_id op_id (participants s)"
    "s' = s\<lparr>participants := participants s @ [row\<lparr>op_id := next_id op_id (participants s)\<rparr>]\<rparr>"
  using assms by (auto simp: insert_order_participant_def Let_def split: if_splits)

lemma insert_registration_stmt_Inr:
  assumes "insert_registration_stmt row s = Inr s'"
  shows "s' = s\<lparr>registrations := registrations s @ [row\<lparr>rg_id := next_id rg_id (registrations s)\<rparr>]\<rparr>
     \<and> rg_participant row \<notin> rg_participant ` set (registrations s)"
proof -
  have "rg_participant row \<notin> rg_participant ` set (registrations s)"
    using assms unfolding insert_registration_stmt_def by (metis (no_types, lifting) Inl_Inr_False imageE)
  moreover from this have "s' = s\<lparr>registrations := registrations s @ [row\<lparr>rg_id := next_id rg_id (registrations s)\<rparr>]\<rparr>"
    using assms unfolding insert_registration_stmt_def by (simp split: if_splits)
  ultimately show ?thesis by blast
qed

lemma insert_registration_Inr:
  assumes "insert_registration e path row s = Inr s'"
  shows "\<exists>no ticket rid. s' = s\<lparr>registrations := registrations s @ [row\<lparr>rg_no := no, rg_ticket := ticket, rg_id := rid\<rparr>]\<rparr>
      \<and> rg_participant row \<notin> rg_participant ` set (registrations s)"
proof -
  from retry_Inr [OF assms [unfolded insert_registration_def]] obtain i where
    "retry ''registrations_ticket_code_key'' (\<lambda>j. insert_registration_stmt
       (row\<lparr>rg_no := idgen_code prefix_registration (e_rand e (path @ [i, j, 0])),
              rg_ticket := ticket_code (e_rand e (path @ [i, j, 1]))\<rparr>) s) = Inr s'" by blast
  from retry_Inr [OF this] obtain no ticket where
    "insert_registration_stmt (row\<lparr>rg_no := no, rg_ticket := ticket\<rparr>) s = Inr s'" by blast
  from insert_registration_stmt_Inr [OF this] show ?thesis by (intro exI) simp
qed

lemma create_profile_tx_frame:
  "create_profile_tx e path u p s = Inr (i, s') \<Longrightarrow> \<exists>t. s' = s\<lparr>profiles := t\<rparr>"
  by (auto simp: create_profile_tx_def insert_profile_def Let_def errE split: if_splits)

lemma insert_participant_Inr:
  assumes "insert_participant e u ev i (n, pq, p) s = Inr s'"
  obtains opid s1 s2 where
    "insert_order_participant (participant_of i pq (rv_profile p)) s = Inr (opid, s1)"
    "insert_registration e [2, n] (registration_of e n u ev opid pq p) s1 = Inr s2"
    "s' = s2 \<or> (\<exists>t. s' = s2\<lparr>profiles := t\<rparr>)"
proof -
  from assms obtain x where x: "insert_order_participant (participant_of i pq (rv_profile p)) s = Inr x"
    "(case x of (opid, s1) \<Rightarrow>
       bindE (insert_registration e [2, n] (registration_of e n u ev opid pq p) s1) (\<lambda>s2.
         if oi_save (rv_input p) \<and> oi_profile (rv_input p) \<noteq> None
         then bindE (create_profile_tx e [3, n] u (rv_profile p) s2) (\<lambda>(_, s3). Inr s3) else Inr s2)) = Inr s'"
    unfolding insert_participant_def prod.case by (rule bindE_InrE)
  obtain opid s1 where xx: "x = (opid, s1)" by (cases x)
  from x(1) have a: "insert_order_participant (participant_of i pq (rv_profile p)) s = Inr (opid, s1)"
    by (simp only: xx)
  from x(2) obtain s2 where
    b: "insert_registration e [2, n] (registration_of e n u ev opid pq p) s1 = Inr s2"
    and c: "(if oi_save (rv_input p) \<and> oi_profile (rv_input p) \<noteq> None
        then bindE (create_profile_tx e [3, n] u (rv_profile p) s2) (\<lambda>(_, s3). Inr s3) else Inr s2) = Inr s'"
    unfolding xx prod.case by (rule bindE_InrE)
  have "s' = s2 \<or> (\<exists>t. s' = s2\<lparr>profiles := t\<rparr>)"
  proof (cases "oi_save (rv_input p) \<and> oi_profile (rv_input p) \<noteq> None")
    case True
    with c have "bindE (create_profile_tx e [3, n] u (rv_profile p) s2) (\<lambda>(_, s3). Inr s3) = Inr s'" by argo
    then obtain y where y: "create_profile_tx e [3, n] u (rv_profile p) s2 = Inr y"
      "(case y of (_, s3) \<Rightarrow> Inr s3) = (Inr s' :: db res)" by (rule bindE_InrE)
    then have "create_profile_tx e [3, n] u (rv_profile p) s2 = Inr (fst y, s')" by (cases y) simp
    from create_profile_tx_frame [OF this] show ?thesis by (rule disjI2)
  next
    case False
    with c have "Inr s2 = (Inr s' :: db res)" by argo
    then show ?thesis by simp
  qed
  with a b show thesis by (rule that)
qed

lemma insert_participant_step:
  assumes "inserted i ev ls s s' ps rs" and "insert_participant e u ev i (n, pq, p) s' = Inr s''"
  shows "\<exists>ps rs. inserted i ev (ls @ [(pq, p)]) s s'' ps rs"
proof -
  from assms(2) obtain opid s1 s2 where
    a: "insert_order_participant (participant_of i pq (rv_profile p)) s' = Inr (opid, s1)"
    and b: "insert_registration e [2, n] (registration_of e n u ev opid pq p) s1 = Inr s2"
    and c: "s'' = s2 \<or> (\<exists>t. s'' = s2\<lparr>profiles := t\<rparr>)"
    by (rule insert_participant_Inr)
  note a' = insert_order_participant_Inr [OF a]
  from insert_registration_Inr [OF b] obtain no ticket rid where
    b': "s2 = s1\<lparr>registrations := registrations s1 @ [(registration_of e n u ev opid pq p)\<lparr>rg_no := no, rg_ticket := ticket, rg_id := rid\<rparr>]\<rparr>"
      "opid \<notin> rg_participant ` set (registrations s1)"
    by (auto simp: registration_of_def Let_def)
  let ?p = "(participant_of i pq (rv_profile p))\<lparr>op_id := opid\<rparr>"
  let ?r = "(registration_of e n u ev opid pq p)\<lparr>rg_no := no, rg_ticket := ticket, rg_id := rid\<rparr>"
  have tabs: "participants s'' = participants s' @ [?p]" "registrations s'' = registrations s' @ [?r]"
    "orders s'' = orders s'" "free_signups s'' = free_signups s'" "categories s'' = categories s'"
    "price_rules s'' = price_rules s'" "coupons s'' = coupons s'" "redemptions s'' = redemptions s'"
    "idem_keys s'' = idem_keys s'" "events s'' = events s'" "proofs s'' = proofs s'"
    "receipts s'' = receipts s'" "exceptions s'' = exceptions s'"
    using a' b' c by auto
  have fresh: "opid \<notin> op_id ` set (participants s')" unfolding a'(1) by (rule next_id_fresh)
  have fresh': "opid \<notin> rg_participant ` set (registrations s')" using b'(2) a'(2) by simp
  have sel: "op_order ?p = i" "op_category ?p = pq_category pq" "op_rule ?p = pq_rule pq" "op_id ?p = opid"
    "rg_participant ?r = opid" "rg_status ?r = RegPending" "rg_event ?r = ev_id ev" "rg_id_hash ?r = rv_hash p"
    by (simp_all add: participant_of_def registration_of_def Let_def)
  note I = assms(1) [unfolded inserted_def]
  have K: "distinct (map op_id (participants s'))" "distinct (map rg_participant (registrations s'))"
    using I by blast+
  have d: "distinct (map op_id (participants s' @ [?p]))" "distinct (map rg_participant (registrations s' @ [?r]))"
    using K fresh fresh' by (simp_all add: sel)
  have "inserted i ev (ls @ [(pq, p)]) s s'' (ps @ [?p]) (rs @ [?r])"
    unfolding inserted_def tabs using d I by (simp add: sel replicate_append_same [symmetric])
  then show ?thesis by blast
qed

lemma insert_participants_loop:
  assumes "foldE (insert_participant e u ev i) (enumerate n xs) s' = Inr s''" and "inserted i ev ls s s' ps rs"
  shows "\<exists>ps rs. inserted i ev (ls @ xs) s s'' ps rs"
  using assms
proof (induction xs arbitrary: n s' ls ps rs)
  case Nil
  then show ?case by auto
next
  case (Cons x xs)
  obtain pq p where x: "x = (pq, p)" by (cases x)
  from Cons.prems(1) x obtain t where t: "insert_participant e u ev i (n, pq, p) s' = Inr t"
    "foldE (insert_participant e u ev i) (enumerate (Suc n) xs) t = Inr s''"
    by (auto simp: errE)
  from insert_participant_step [OF Cons.prems(2) t(1)] obtain ps' rs' where
    "inserted i ev (ls @ [(pq, p)]) s t ps' rs'" by blast
  from Cons.IH [OF t(2) this] show ?case by (simp add: x)
qed

section \<open>A placed order keeps the invariant\<close>

text \<open>
  The net effect of placing the quote \<open>q\<close> as the order row \<open>row\<close>: counters
  reserved, order, participants \<open>ps\<close>, registrations \<open>rs\<close> and the coupon
  redemption appended.
\<close>

definition new_redemptions :: "quote \<Rightarrow> int \<Rightarrow> redemption_row list" where
  "new_redemptions q i = (case q_coupon q of None \<Rightarrow> []
     | Some c \<Rightarrow> [\<lparr>cr_order = i, cr_coupon = c, cr_state = Reserved, cr_discount = q_coupon_discount q\<rparr>])"

definition placed :: "quote \<Rightarrow> order_row \<Rightarrow> participant_row list \<Rightarrow> registration_row list \<Rightarrow> db \<Rightarrow> db \<Rightarrow> bool" where
  "placed q row ps rs s s' \<longleftrightarrow>
     has_room q s \<and> ro_id row \<notin> ro_id ` set (orders s) \<and> ro_no row \<notin> ro_no ` set (orders s)
   \<and> order_ok row \<and> ro_state row = Reserved
   \<and> orders s' = orders s @ [row] \<and> participants s' = participants s @ ps
   \<and> registrations s' = registrations s @ rs \<and> free_signups s' = free_signups s
   \<and> categories s' = categories (reserved_db q s) \<and> price_rules s' = price_rules (reserved_db q s)
   \<and> coupons s' = coupons (reserved_db q s) \<and> redemptions s' = redemptions s @ new_redemptions q (ro_id row)
   \<and> (\<forall>p\<in>set ps. op_order p = ro_id row)
   \<and> map op_category ps = map pq_category (q_participants q) \<and> map op_rule ps = map pq_rule (q_participants q)
   \<and> map rg_participant rs = map op_id ps \<and> (\<forall>r\<in>set rs. rg_status r = RegPending)
   \<and> distinct (map op_id (participants s')) \<and> distinct (map rg_participant (registrations s'))"

lemma placed_state:
  assumes "placed q row ps rs s s'"
  shows "order_state s' = (order_state s)(ro_id row \<mapsto> Reserved)"
proof
  fix j
  have new: "ro_id row \<notin> ro_id ` set (orders s)" and o: "orders s' = orders s @ [row]" "ro_state row = Reserved"
    using assms by (auto simp: placed_def)
  show "order_state s' j = ((order_state s)(ro_id row \<mapsto> Reserved)) j"
  proof (cases "j = ro_id row")
    case True
    with new have "List.find (\<lambda>r. ro_id r = j) (orders s) = None"
      by (simp add: find_None_all) (metis image_eqI)
    with True o show ?thesis by (simp add: order_state_def find_append)
  next
    case False
    with o show ?thesis by (auto simp: order_state_def find_append split: option.split)
  qed
qed

lemma placed_ids:
  assumes "placed q row ps rs s s'"
  shows "ec_id ` set (categories s') = ec_id ` set (categories s)"
    "pr_id ` set (price_rules s') = pr_id ` set (price_rules s)"
    "cp_id ` set (coupons s') = cp_id ` set (coupons s)"
    "map ec_id (categories s') = map ec_id (categories s)"
    "map pr_id (price_rules s') = map pr_id (price_rules s)"
    "map cp_id (coupons s') = map cp_id (coupons s)"
proof -
  show m: "map ec_id (categories s') = map ec_id (categories s)"
    "map pr_id (price_rules s') = map pr_id (price_rules s)"
    "map cp_id (coupons s') = map cp_id (coupons s)"
    using assms by (simp_all add: placed_def reserved_db_def)
  show "ec_id ` set (categories s') = ec_id ` set (categories s)"
    "pr_id ` set (price_rules s') = pr_id ` set (price_rules s)"
    "cp_id ` set (coupons s') = cp_id ` set (coupons s)"
    using m by (metis set_map)+
qed

lemma placed_old:
  assumes "db_ok s" and "placed q row ps rs s s'"
  shows "\<forall>p\<in>set (participants s). op_order p \<noteq> ro_id row" "\<forall>r\<in>set (redemptions s). cr_order r \<noteq> ro_id row"
proof -
  have n: "order_state s (ro_id row) = None" using assms(2) by (simp add: placed_def order_state_None)
  have R: "refs_ok s" using assms(1) by (simp add: db_ok_def)
  show "\<forall>p\<in>set (participants s). op_order p \<noteq> ro_id row" "\<forall>r\<in>set (redemptions s). cr_order r \<noteq> ro_id row"
    using R n by (auto simp: refs_ok_def)
qed

lemma placed_keys:
  assumes "db_ok s" and "placed q row ps rs s s'"
  shows "keys_ok s'"
proof -
  have "distinct (map cr_order (redemptions s'))"
    using assms placed_old(2) [OF assms]
    by (auto simp: placed_def db_ok_def keys_ok_def counter_keys_def new_redemptions_def split: option.split)
  moreover have "distinct (map op_id (participants s'))" "distinct (map rg_participant (registrations s'))"
    using assms(2) unfolding placed_def by blast+
  moreover have "distinct (map ro_id (orders s'))" "distinct (map ro_no (orders s'))"
    using assms by (simp_all add: placed_def db_ok_def keys_ok_def)
  ultimately show ?thesis
    using assms(1) placed_ids(4-6) [OF assms(2)] by (simp add: db_ok_def keys_ok_def counter_keys_def)
qed

lemma map_eq_ex: "map f xs = map g ys \<Longrightarrow> x \<in> set xs \<Longrightarrow> \<exists>y\<in>set ys. f x = g y"
  by (metis (no_types, lifting) imageE image_eqI set_map)

lemma placed_refs:
  assumes "db_ok s" and "placed q row ps rs s s'"
  shows "refs_ok s'"
proof -
  note st = placed_state [OF assms(2)] and ids = placed_ids [OF assms(2)] and old = placed_old [OF assms]
  have R: "refs_ok s" using assms(1) by (simp add: db_ok_def)
  have P: "has_room q s" "\<forall>p\<in>set ps. op_order p = ro_id row" "map op_category ps = map pq_category (q_participants q)"
    "map op_rule ps = map pq_rule (q_participants q)" "participants s' = participants s @ ps"
    "redemptions s' = redemptions s @ new_redemptions q (ro_id row)" "free_signups s' = free_signups s"
    using assms(2) by (auto simp: placed_def)
  have "op_category p \<in> ec_id ` set (categories s) \<and> op_rule p \<in> pr_id ` set (price_rules s)" if "p \<in> set ps" for p
    using map_eq_ex [OF P(3) that] map_eq_ex [OF P(4) that] P(1) unfolding has_room_def by (metis imageI)
  moreover have "cr_coupon r \<in> cp_id ` set (coupons s) \<and> cr_state r = Reserved \<and> cr_order r = ro_id row"
    if "r \<in> set (new_redemptions q (ro_id row))" for r
    using that P(1) unfolding new_redemptions_def has_room_def
    by (cases "q_coupon q") (auto intro: rev_image_eqI)
  ultimately show ?thesis
    using R old P unfolding refs_ok_def ids st by auto
qed

lemma placed_regs:
  assumes "db_ok s" and "placed q row ps rs s s'"
  shows "regs_ok s'"
proof -
  note st = placed_state [OF assms(2)] and old = placed_old [OF assms]
  have R: "regs_ok s" using assms(1) by (simp add: db_ok_def)
  have P: "\<forall>p\<in>set ps. op_order p = ro_id row" "map rg_participant rs = map op_id ps"
    "\<forall>r\<in>set rs. rg_status r = RegPending" "participants s' = participants s @ ps"
    "registrations s' = registrations s @ rs"
    using assms(2) by (auto simp: placed_def)
  have "\<exists>p\<in>set (participants s'). op_id p = rg_participant r \<and> order_state s' (op_order p) = Some (state_of_reg (rg_status r))"
    if r: "r \<in> set rs" for r
  proof -
    from map_eq_ex [OF P(2) r] obtain p where "p \<in> set ps" "rg_participant r = op_id p" by blast
    with P r show ?thesis by (intro bexI [of _ p]) (simp_all add: st state_of_reg_def)
  qed
  moreover have "\<exists>p\<in>set (participants s'). op_id p = rg_participant r \<and> order_state s' (op_order p) = Some (state_of_reg (rg_status r))"
    if r: "r \<in> set (registrations s)" for r
  proof -
    from R r obtain p where "p \<in> set (participants s)" "op_id p = rg_participant r"
      "order_state s (op_order p) = Some (state_of_reg (rg_status r))" unfolding regs_ok_def by blast
    with P old show ?thesis by (intro bexI [of _ p]) (simp_all add: st)
  qed
  ultimately show ?thesis unfolding regs_ok_def P(5) by auto
qed

lemma rows_where_map: "rows_where (\<lambda>x. f x = k) xs = rows_where (\<lambda>y. y = k) (map f xs)"
  by (induction xs) auto

lemma placed_ledger:
  assumes "db_ok s" and "placed q row ps rs s s'"
  shows "ledger_ok s'"
proof -
  let ?i = "ro_id row"
  note st = placed_state [OF assms(2)] and old = placed_old [OF assms]
  have P: "\<forall>p\<in>set ps. op_order p = ?i" "map op_category ps = map pq_category (q_participants q)"
    "map op_rule ps = map pq_rule (q_participants q)" and tabs: "participants s' = participants s @ ps"
    "redemptions s' = redemptions s @ new_redemptions q ?i" "free_seats s' = free_seats s"
    "categories s' = cat_row.shift (\<lambda>_. 0) (quote_cat_seats q) (categories s)"
    "price_rules s' = rule_row.shift (\<lambda>_. 0) (quote_rule_seats q) (price_rules s)"
    "coupons s' = coupon_row.shift (\<lambda>_. 0) (quote_coupon_uses q) (coupons s)"
    using assms(2) by (auto simp: placed_def reserved_db_def free_seats_def fun_eq_iff)
  have L: "ledger_ok s" using assms(1) by (simp add: db_ok_def)
  have L1: "cat_row.agree (categories s) op_order op_category (participants s) (order_state s) (free_seats s)"
    and L2: "rule_row.agree (price_rules s) op_order op_rule (participants s) (order_state s) (\<lambda>_. 0)"
    and L3: "coupon_row.agree (coupons s) cr_order cr_coupon (redemptions s) (order_state s) (\<lambda>_. 0)"
    using L by (auto simp: ledger_ok_def)
  have n: "quote_cat_seats q = (\<lambda>k. int (rows_where (\<lambda>p. op_category p = k) ps))"
    "quote_rule_seats q = (\<lambda>k. int (rows_where (\<lambda>p. op_rule p = k) ps))"
    "quote_coupon_uses q = (\<lambda>k. int (rows_where (\<lambda>r. cr_coupon r = k) (new_redemptions q ?i)))"
    using P(2,3) unfolding quote_cat_seats_def quote_rule_seats_def rows_where_map [of op_category]
      rows_where_map [of op_rule] rows_where_map [of pq_category] rows_where_map [of pq_rule]
    by (auto simp: fun_eq_iff quote_coupon_uses_def new_redemptions_def split: option.split)
  have r: "\<forall>r\<in>set (new_redemptions q ?i). cr_order r = ?i"
    by (auto simp: new_redemptions_def split: option.split)
  show ?thesis
    unfolding ledger_ok_def st tabs n
    by (intro conjI cat_row.agree_place [OF L1 old(1) P(1)] rule_row.agree_place [OF L2 old(1) P(1)]
        coupon_row.agree_place [OF L3 old(2) r])
qed

lemma placed_ok:
  assumes "db_ok s" and "placed q row ps rs s s'"
  shows "db_ok s'"
proof -
  have "counter_keys s" "limits_ok s" "\<forall>r\<in>set (orders s). order_ok r"
    using assms(1) by (auto simp: db_ok_def keys_ok_def)
  moreover from this reserved_limits assms(2) have "limits_ok (reserved_db q s)" by (simp add: placed_def)
  ultimately have "limits_ok s'" "\<forall>r\<in>set (orders s'). order_ok r"
    using assms(2) by (auto simp: placed_def limits_ok_def)
  with placed_keys [OF assms] placed_refs [OF assms] placed_regs [OF assms] placed_ledger [OF assms]
  show ?thesis by (simp add: db_ok_def)
qed

section \<open>\<open>CreateOrder\<close>\<close>

lemma insert_order_Inr:
  assumes "insert_order e row s = Inr (i, s')"
  shows "\<exists>no. i = next_id ro_id (orders s) \<and> no \<notin> ro_no ` set (orders s)
     \<and> s' = s\<lparr>orders := orders s @ [row\<lparr>ro_no := no, ro_id := i\<rparr>]\<rparr>
     \<and> 0 \<le> ro_discount row \<and> 0 \<le> ro_ident row \<and> ro_ident row \<le> 50 \<and> 0 \<le> ro_amount row
     \<and> ro_amount row = ro_list row - ro_discount row"
proof -
  from retry_Inr [OF assms [unfolded insert_order_def]] obtain no where
    "insert_reg_order (row\<lparr>ro_no := no\<rparr>) s = Inr (i, s')" by blast
  then show ?thesis
    by (intro exI [of _ no]) (simp add: insert_reg_order_def Let_def split: if_splits, blast)
qed

lemma record_redemption_Inr:
  assumes "record_redemption i q s = Inr s'"
  shows "s' = s\<lparr>redemptions := redemptions s @ new_redemptions q i\<rparr>"
  using assms by (simp add: record_redemption_def new_redemptions_def split: option.splits if_splits)

lemma map_zip_fst: "length xs \<le> length ys \<Longrightarrow> map (\<lambda>l. f (fst l)) (zip xs ys) = map f xs"
  using map_map [of f fst "zip xs ys"] by (simp add: map_fst_zip_take o_def)

lemma quote_order_length:
  assumes "quote_order s inp = Inr q"
  shows "length (q_participants q) \<le> length (qi_participants inp)"
proof -
  from assms obtain paid where "ql_items (quote_lines inp s) = []"
    "q_participants q = set_paid (ql_lines (quote_lines inp s)) paid" by (rule quote_order_Inr)
  with quote_lines_inv [of s inp] show ?thesis by (auto simp: loop_inv_def)
qed

text \<open>What a successful placement did, before the audit entry and a zero order's payment.\<close>

lemma create_order_tx_Inr:
  assumes "create_order_tx e u ev inp s = Inr (d, s')"
  obtains parts account q s1 i s2 s3 s4 s5 where
    "registration_open ev (e_now e)"
    "resolve_participants e u s inp = Inr parts"
    "check_already_registered (ev_id ev) parts s = Inr ()"
    "select_payment_account (ev_id ev) s = Some account"
    "quote_order s (quote_input_of ev (in_coupon inp) (e_now e) (Some account) parts) = Inr q"
    "reserve q s = Inr s1"
    "\<exists>deadline buyer. insert_order e (new_order e u ev q account deadline buyer) s1 = Inr (i, s2)"
    "foldE (insert_participant e u ev i) (enumerate 0 (zip (q_participants q) parts)) s2 = Inr s3"
    "record_redemption i q s3 = Inr s4"
    "sign_consent e u (in_consent inp) \<lparr>ln_order = Some i, ln_free = None\<rparr> s4 = Inr s5"
    "(if q_amount q = 0
      then bindE (confirm_paid e i (e_now e) (audit_record (runner_entry u ''reg_order.create'' i (ev_id ev)) s5))
        (\<lambda>s7. Inr (audit_record (runner_entry u ''reg_order.paid_zero'' i (ev_id ev)) s7))
      else Inr (audit_record (runner_entry u ''reg_order.create'' i (ev_id ev)) s5)) = (Inr s' :: db res)"
    "load_detail i s' = Inr d"
proof -
  note U = bindE_simps prod.case failIf_simps
  from assms have 0: "registration_open ev (e_now e)"
    by (cases "registration_open ev (e_now e)") (simp_all add: create_order_tx_def)
  note A0 = assms [unfolded create_order_tx_def Let_def eqTrueI [OF 0] not_True_eq_False U]
  from A0 obtain parts where 1: "resolve_participants e u s inp = Inr parts" by (rule bindE_InrE)
  note A1 = A0 [unfolded 1 U]
  from A1 have 2: "check_already_registered (ev_id ev) parts s = Inr ()" by (rule bindE_InrE) simp
  note A2 = A1 [unfolded 2 U]
  from A2 obtain account where 3: "select_payment_account (ev_id ev) s = Some account"
    by (cases "select_payment_account (ev_id ev) s") simp_all
  note A3 = A2 [unfolded 3 option.case U]
  from A3 obtain q where 4: "quote_order s (quote_input_of ev (in_coupon inp) (e_now e) (Some account) parts) = Inr q"
    by (rule bindE_InrE)
  note A4 = A3 [unfolded 4 U]
  from A4 obtain s1 where 5: "reserve q s = Inr s1" by (rule bindE_InrE)
  note A5 = A4 [unfolded 5 U]
  from A5 obtain pay where pay: "load_payment s1 = Inr pay" by (rule bindE_InrE)
  note A6 = A5 [unfolded pay U]
  obtain p ps where parts: "parts = p # ps" using A6 by (cases parts) simp_all
  note A7 = A6 [unfolded parts list.case U, folded parts]
  from A7 obtain y where "insert_order e (new_order e u ev q account (e_now e + ps_upload pay) (rv_profile p)) s1 = Inr y"
    by (rule bindE_InrE)
  then obtain i s2 where
    6: "insert_order e (new_order e u ev q account (e_now e + ps_upload pay) (rv_profile p)) s1 = Inr (i, s2)"
    by (cases y) blast
  have P6: "\<exists>deadline buyer. insert_order e (new_order e u ev q account deadline buyer) s1 = Inr (i, s2)"
    using 6 by blast
  note A8 = A7 [unfolded 6 U]
  from A8 obtain s3 where
    7: "foldE (insert_participant e u ev i) (enumerate 0 (zip (q_participants q) parts)) s2 = Inr s3"
    by (rule bindE_InrE)
  note A9 = A8 [unfolded 7 U]
  from A9 obtain s4 where 8: "record_redemption i q s3 = Inr s4" by (rule bindE_InrE)
  note A10 = A9 [unfolded 8 U]
  from A10 obtain s5 where 9: "sign_consent e u (in_consent inp) \<lparr>ln_order = Some i, ln_free = None\<rparr> s4 = Inr s5"
    by (rule bindE_InrE)
  note A11 = A10 [unfolded 9 U]
  from A11 obtain t where
    10: "(if q_amount q = 0
      then bindE (confirm_paid e i (e_now e) (audit_record (runner_entry u ''reg_order.create'' i (ev_id ev)) s5))
        (\<lambda>s7. Inr (audit_record (runner_entry u ''reg_order.paid_zero'' i (ev_id ev)) s7))
      else Inr (audit_record (runner_entry u ''reg_order.create'' i (ev_id ev)) s5)) = Inr t"
    and 11: "bindE (load_detail i t) (\<lambda>d. Inr (d, t)) = Inr (d, s')"
    by (rule bindE_InrE)
  from 11 obtain d' where "load_detail i t = Inr d'" "Inr (d', t) = (Inr (d, s') :: (order_detail \<times> db) res)"
    by (rule bindE_InrE)
  then have 12: "t = s'" "load_detail i t = Inr d" by simp_all
  show thesis
    by (rule that [OF 0 1 2 3 4 5 P6 7 8 9 10 [unfolded 12(1)] 12(2) [unfolded 12(1)]])
qed

text \<open>A successful \<open>CreateOrder\<close> places the quote, and pays it when nothing is due.\<close>

lemma create_order_tx_placed:
  assumes ok: "db_ok s" and "create_order_tx e u ev inp s = Inr (d, s')"
  obtains q parts row ps rs s5 where
    "placed q row ps rs s s5" "resolve_participants e u s inp = Inr parts"
    "check_already_registered (ev_id ev) parts s = Inr ()"
    "map rg_id_hash rs = take (length rs) (map rv_hash parts)" "\<forall>r\<in>set rs. rg_event r = ev_id ev"
    "idem_keys s5 = idem_keys s" "events s5 = events s"
    "proofs s5 = proofs s" "receipts s5 = receipts s" "exceptions s5 = exceptions s"
    "ro_status row = PendingPayment"
    "ro_amount row \<noteq> 0 \<and> (\<exists>a. s' = audit_record a s5)
      \<or> (\<exists>a b t. confirm_paid e (ro_id row) (e_now e) (audit_record a s5) = Inr t \<and> s' = audit_record b t)"
proof -
  from assms(2) obtain parts account q s1 i s2 s3 s4 s5 where
    res: "resolve_participants e u s inp = Inr parts" "check_already_registered (ev_id ev) parts s = Inr ()"
    and q: "quote_order s (quote_input_of ev (in_coupon inp) (e_now e) (Some account) parts) = Inr q"
    and rv: "reserve q s = Inr s1"
    and "\<exists>deadline buyer. insert_order e (new_order e u ev q account deadline buyer) s1 = Inr (i, s2)"
    and loop: "foldE (insert_participant e u ev i) (enumerate 0 (zip (q_participants q) parts)) s2 = Inr s3"
    and rr: "record_redemption i q s3 = Inr s4"
    and sc: "sign_consent e u (in_consent inp) \<lparr>ln_order = Some i, ln_free = None\<rparr> s4 = Inr s5"
    and fin: "(if q_amount q = 0
      then bindE (confirm_paid e i (e_now e) (audit_record (runner_entry u ''reg_order.create'' i (ev_id ev)) s5))
        (\<lambda>s7. Inr (audit_record (runner_entry u ''reg_order.paid_zero'' i (ev_id ev)) s7))
      else Inr (audit_record (runner_entry u ''reg_order.create'' i (ev_id ev)) s5)) = (Inr s' :: db res)"
    by (rule create_order_tx_Inr)
  then obtain deadline buyer where
    ins: "insert_order e (new_order e u ev q account deadline buyer) s1 = Inr (i, s2)" by blast
  have keys: "counter_keys s" "distinct (map op_id (participants s))" "distinct (map rg_participant (registrations s))"
    using ok by (auto simp: db_ok_def keys_ok_def)
  from rv reserve_iff [OF keys(1)] have room: "has_room q s" and s1: "s1 = reserved_db q s" by auto
  let ?n = "new_order e u ev q account deadline buyer"
  from insert_order_Inr [OF ins] obtain no where
    new: "i = next_id ro_id (orders s1)" "no \<notin> ro_no ` set (orders s1)"
    and s2: "s2 = s1\<lparr>orders := orders s1 @ [?n\<lparr>ro_no := no, ro_id := i\<rparr>]\<rparr>"
    and chk: "0 \<le> ro_discount ?n" "0 \<le> ro_ident ?n" "ro_ident ?n \<le> 50" "0 \<le> ro_amount ?n"
      "ro_amount ?n = ro_list ?n - ro_discount ?n" by blast
  let ?row = "?n\<lparr>ro_no := no, ro_id := i\<rparr>"
  have row: "order_ok ?row" "ro_id ?row = i" "ro_no ?row = no" "ro_state ?row = Reserved"
    using chk by (simp_all add: order_ok_def new_order_def open_status_def)
  let ?ls = "zip (q_participants q) parts"
  have "inserted i ev [] s2 s2 [] []" using keys by (simp add: inserted_def s2 s1)
  from insert_participants_loop [OF loop this] obtain ps rs where I: "inserted i ev ?ls s2 s3 ps rs" by auto
  have len: "length (q_participants q) \<le> length parts"
    using quote_order_length [OF q] by (simp add: quote_input_of_def)
  have ps: "\<forall>p\<in>set ps. op_order p = i"
    using I map_eq_ex [of op_order ps "\<lambda>_. i" ?ls] by (simp add: inserted_def map_replicate_const)
  have maps: "map op_category ps = map pq_category (q_participants q)" "map op_rule ps = map pq_rule (q_participants q)"
    using I map_zip_fst [OF len] by (simp_all add: inserted_def)
  have hashes: "map rg_id_hash rs = map rv_hash (take (length (q_participants q)) parts)"
  proof -
    have "map snd ?ls = take (length (q_participants q)) parts" using len by (simp add: map_snd_zip_take)
    then have "map rv_hash (map snd ?ls) = map rv_hash (take (length (q_participants q)) parts)" by simp
    with I show ?thesis by (simp add: inserted_def o_def)
  qed
  have nrs: "length rs = length (q_participants q)" using arg_cong [OF hashes, of length] len by simp
  from record_redemption_Inr [OF rr] have s4: "s4 = s3\<lparr>redemptions := redemptions s3 @ new_redemptions q i\<rparr>" .
  from sign_consent_frame [OF sc] obtain a b where s5: "s5 = s4\<lparr>signatures := a, reg_consents := b\<rparr>" by blast
  note T = I [unfolded inserted_def]
  have "i \<notin> ro_id ` set (orders s)" using new(1) next_id_fresh s1 by simp
  moreover have "no \<notin> ro_no ` set (orders s)" using new(2) s1 by simp
  moreover have "distinct (map op_id (participants s3))" "distinct (map rg_participant (registrations s3))"
    using T by blast+
  then have "distinct (map op_id (participants s5))" "distinct (map rg_participant (registrations s5))"
    by (simp_all add: s5 s4)
  ultimately have "placed q ?row ps rs s s5"
    unfolding placed_def row using T row(1) room ps maps
    by (simp add: s5 s4 s2 s1 del: map_append distinct_append)
  moreover have "\<forall>r\<in>set rs. rg_event r = ev_id ev" "idem_keys s5 = idem_keys s" "events s5 = events s"
    "proofs s5 = proofs s" "receipts s5 = receipts s" "exceptions s5 = exceptions s"
    using T by (simp_all add: s5 s4 s2 s1)
  moreover have "map rg_id_hash rs = take (length rs) (map rv_hash parts)"
    using hashes nrs by (simp add: take_map)
  moreover have "ro_status ?row = PendingPayment" "ro_amount ?row = q_amount q" by (simp_all add: new_order_def)
  moreover have "q_amount q \<noteq> 0 \<and> (\<exists>a. s' = audit_record a s5)
      \<or> (\<exists>a b t. confirm_paid e (ro_id ?row) (e_now e) (audit_record a s5) = Inr t \<and> s' = audit_record b t)"
    using fin unfolding row by (cases "q_amount q = 0") (simp_all add: bindE_Inr_iff, blast+)
  ultimately show thesis using that res by metis
qed

lemma create_order_tx_ok:
  assumes ok: "db_ok s" and tx: "create_order_tx e u ev inp s = Inr (d, s')"
  shows "db_ok s'"
proof -
  from create_order_tx_placed [OF assms] obtain q row ps rs s5 where
    P: "placed q row ps rs s s5" and fin: "(\<exists>a. s' = audit_record a s5)
      \<or> (\<exists>a b t. confirm_paid e (ro_id row) (e_now e) (audit_record a s5) = Inr t \<and> s' = audit_record b t)" by metis
  from placed_ok [OF ok P] have k: "db_ok s5" .
  from fin show ?thesis
  proof
    assume "\<exists>a. s' = audit_record a s5"
    with k show ?thesis by (elim exE) simp
  next
    assume "\<exists>a b t. confirm_paid e (ro_id row) (e_now e) (audit_record a s5) = Inr t \<and> s' = audit_record b t"
    then obtain a b t where "confirm_paid e (ro_id row) (e_now e) (audit_record a s5) = Inr t" "s' = audit_record b t"
      by blast
    with k confirm_paid_ok [of "audit_record a s5"] show ?thesis by simp
  qed
qed

section \<open>Idempotency of \<open>CreateOrder\<close>\<close>

lemma confirm_paid_frame:
  assumes "db_ok s" and "confirm_paid e i at s = Inr s'"
  shows "idem_keys s' = idem_keys s" "events s' = events s"
proof -
  from assms have "s' = paid_db e i at s" by (simp add: confirm_paid_eq split: if_splits)
  then show "idem_keys s' = idem_keys s" "events s' = events s"
    by (simp_all add: paid_db_def settled_def with_orders_def)
qed

lemma create_order_tx_frame:
  assumes ok: "db_ok s" and "create_order_tx e u ev inp s = Inr (d, s')"
  shows "idem_keys s' = idem_keys s \<and> events s' = events s"
proof -
  from assms(2) obtain q parts row ps rs s5 where
    P: "placed q row ps rs s s5" and "resolve_participants e u s inp = Inr parts"
      "check_already_registered (ev_id ev) parts s = Inr ()"
      "map rg_id_hash rs = take (length rs) (map rv_hash parts)" "\<forall>r\<in>set rs. rg_event r = ev_id ev"
    and F: "idem_keys s5 = idem_keys s" "events s5 = events s"
    and "proofs s5 = proofs s" "receipts s5 = receipts s" "exceptions s5 = exceptions s" "ro_status row = PendingPayment"
    and fin: "ro_amount row \<noteq> 0 \<and> (\<exists>a. s' = audit_record a s5)
      \<or> (\<exists>a b t. confirm_paid e (ro_id row) (e_now e) (audit_record a s5) = Inr t \<and> s' = audit_record b t)" by (rule create_order_tx_placed [OF ok])
  have k: "db_ok (audit_record a s5)" for a using placed_ok [OF ok P] by simp
  have au: "idem_keys (audit_record a t) = idem_keys t" "events (audit_record a t) = events t" for a t
    by (simp_all add: audit_record_def)
  from fin show ?thesis
  proof
    assume "ro_amount row \<noteq> 0 \<and> (\<exists>a. s' = audit_record a s5)"
    then have "\<exists>a. s' = audit_record a s5" by blast
    with F show ?thesis by (elim exE) (simp add: au)
  next
    assume "\<exists>a b t. confirm_paid e (ro_id row) (e_now e) (audit_record a s5) = Inr t \<and> s' = audit_record b t"
    then obtain a b t where t: "confirm_paid e (ro_id row) (e_now e) (audit_record a s5) = Inr t" "s' = audit_record b t"
      by blast
    from confirm_paid_frame [OF k t(1)] t(2) F show ?thesis by (simp add: au)
  qed
qed

lemma find_update_self:
  assumes "\<And>r. P (f r) = P r"
  shows "List.find P (update_where P f t) = map_option f (List.find P t)"
  using assms by (induction t) auto

lemma idem_match_simps [simp]:
  "idem_match sub key (r\<lparr>ik_hash := h, ik_code := c, ik_body := b, ik_created_at := n, ik_expires_at := x\<rparr>) = idem_match sub key r"
  "idem_match sub key (r\<lparr>ik_code := c, ik_body := b\<rparr>) = idem_match sub key r"
  by (simp_all add: idem_match_def)

text \<open>The row a successful claim leaves: the request hash, no response, valid for a day.\<close>

lemma claim_key_stmt_row:
  assumes "claim_key_stmt sub key hash now t = Some t'"
  shows "\<exists>r. List.find (idem_match sub key) t' = Some r \<and> ik_hash r = hash \<and> ik_expires_at r = now + idempotency_ttl"
proof (cases "List.find (idem_match sub key) t")
  case None
  with assms show ?thesis by (auto simp: claim_key_stmt_def find_append idem_match_def)
next
  case (Some r)
  with assms show ?thesis
    by (auto simp: claim_key_stmt_def find_update_self split: if_splits)
qed

lemma claim_replay:
  assumes "List.find (idem_match sub key) (idem_keys s) = Some r" and "ik_hash r = hash" and "now < ik_expires_at r"
    and "ik_code r = Some c" and "ik_body r = Some body"
  shows "claim_idempotency_key sub key hash now s = Inr (Some (order_detail_from_api body), s)"
  using assms by (simp add: claim_idempotency_key_def claim_key_stmt_def)

lemma claim_reused:
  assumes "List.find (idem_match sub key) (idem_keys s) = Some r" and "ik_hash r \<noteq> hash" and "now < ik_expires_at r"
  shows "claim_idempotency_key sub key hash now s = Inl (app 422 CodeIdempotencyKeyReused)"
  using assms by (simp add: claim_idempotency_key_def claim_key_stmt_def)

text \<open>A successful call: the request is normal, the event exists, and it is a replay or a placement.\<close>

lemma create_order_Inr:
  assumes "create_order e digest u inp s = Inr (d, s')"
  obtains norm ev where
    "normalize_create_input e inp = Inr norm"
    "List.find (\<lambda>ev. ev_slug ev = in_slug norm) (events s) = Some ev"
    "claim_idempotency_key (subject_of u) (in_key norm) (digest (request_payload e norm)) (e_now e) s = Inr (Some d, s')
     \<or> (\<exists>s1 s2. claim_idempotency_key (subject_of u) (in_key norm) (digest (request_payload e norm)) (e_now e) s = Inr (None, s1)
          \<and> create_order_tx e u ev norm s1 = Inr (d, s2)
          \<and> s' = save_idempotency_response (subject_of u) (in_key norm) (to_api_order d) s2)"
proof -
  from assms obtain norm where n: "normalize_create_input e inp = Inr norm"
    unfolding create_order_def by (rule bindE_InrE)
  note A1 = assms [unfolded create_order_def n bindE_simps Let_def]
  from A1 obtain ev where ev: "List.find (\<lambda>ev. ev_slug ev = in_slug norm) (events s) = Some ev"
    by (cases "List.find (\<lambda>ev. ev_slug ev = in_slug norm) (events s)") simp_all
  note A2 = A1 [unfolded ev option.case]
  from A2 obtain y where
    "claim_idempotency_key (subject_of u) (in_key norm) (digest (request_payload e norm)) (e_now e) s = Inr y"
    by (rule bindE_InrE)
  then obtain rep s1 where
    c: "claim_idempotency_key (subject_of u) (in_key norm) (digest (request_payload e norm)) (e_now e) s = Inr (rep, s1)"
    by (cases y) blast
  note A3 = A2 [unfolded c bindE_simps prod.case]
  show thesis
  proof (cases rep)
    case (Some d')
    with A3 c show ?thesis by (intro that [OF n ev]) simp
  next
    case None
    from A3 [unfolded None option.case] obtain y where y: "create_order_tx e u ev norm s1 = Inr y"
      "(case y of (d, s2) \<Rightarrow> Inr (d, save_idempotency_response (subject_of u) (in_key norm) (to_api_order d) s2))
         = (Inr (d, s') :: (order_detail \<times> db) res)" by (rule bindE_InrE)
    obtain d' s2 where y2: "y = (d', s2)" by (cases y)
    from y(2) have "d' = d" "s' = save_idempotency_response (subject_of u) (in_key norm) (to_api_order d) s2"
      by (auto simp add: y2)
    with y(1) y2 c None show ?thesis by (intro that [OF n ev] disjI2) blast
  qed
qed

lemma claim_idempotency_key_None:
  assumes "claim_idempotency_key sub key hash now s = Inr (None, s1)"
  obtains t where "claim_key_stmt sub key hash now (idem_keys s) = Some t" "s1 = s\<lparr>idem_keys := t\<rparr>"
proof (cases "claim_key_stmt sub key hash now (idem_keys s)")
  case None
  with assms show thesis by (simp add: claim_idempotency_key_def split: option.splits if_splits)
next
  case (Some t)
  with assms have "s\<lparr>idem_keys := t\<rparr> = s1" by (simp add: claim_idempotency_key_def)
  from that [OF Some this [symmetric]] show thesis .
qed

lemma claim_idempotency_key_ok:
  assumes "claim_idempotency_key sub key hash now s = Inr (r, s1)"
  shows "db_ok s1 = db_ok s" "registrations s1 = registrations s" "events s1 = events s"
proof -
  from assms have "s1 = s \<or> (\<exists>t. s1 = s\<lparr>idem_keys := t\<rparr>)"
    unfolding claim_idempotency_key_def by (simp split: option.splits if_splits) blast
  moreover have "db_ok (s\<lparr>idem_keys := t\<rparr>) = db_ok s" for t by (rule db_ok_cong) simp_all
  ultimately show "db_ok s1 = db_ok s" "registrations s1 = registrations s" "events s1 = events s" by auto
qed

lemma save_idempotency_response_ok [simp]:
  "db_ok (save_idempotency_response sub key b s) = db_ok s"
  by (rule db_ok_cong) (simp_all add: save_idempotency_response_def)

lemma create_order_ok:
  assumes ok: "db_ok s" and "create_order e digest u inp s = Inr (d, s')"
  shows "db_ok s'"
proof -
  from assms(2) obtain norm ev where "normalize_create_input e inp = Inr norm"
    "List.find (\<lambda>ev. ev_slug ev = in_slug norm) (events s) = Some ev" and
    "claim_idempotency_key (subject_of u) (in_key norm) (digest (request_payload e norm)) (e_now e) s = Inr (Some d, s')
     \<or> (\<exists>s1 s2. claim_idempotency_key (subject_of u) (in_key norm) (digest (request_payload e norm)) (e_now e) s = Inr (None, s1)
          \<and> create_order_tx e u ev norm s1 = Inr (d, s2)
          \<and> s' = save_idempotency_response (subject_of u) (in_key norm) (to_api_order d) s2)" by (rule create_order_Inr)
  from this(3) show ?thesis
  proof
    assume "claim_idempotency_key (subject_of u) (in_key norm) (digest (request_payload e norm)) (e_now e) s = Inr (Some d, s')"
    from claim_idempotency_key_ok(1) [OF this] ok show ?thesis by simp
  next
    assume "\<exists>s1 s2. claim_idempotency_key (subject_of u) (in_key norm) (digest (request_payload e norm)) (e_now e) s = Inr (None, s1)
          \<and> create_order_tx e u ev norm s1 = Inr (d, s2)
          \<and> s' = save_idempotency_response (subject_of u) (in_key norm) (to_api_order d) s2"
    then obtain s1 s2 where c: "claim_idempotency_key (subject_of u) (in_key norm) (digest (request_payload e norm)) (e_now e) s = Inr (None, s1)"
      and t: "create_order_tx e u ev norm s1 = Inr (d, s2)"
      and s': "s' = save_idempotency_response (subject_of u) (in_key norm) (to_api_order d) s2" by blast
    from claim_idempotency_key_ok(1) [OF c] ok have "db_ok s1" by simp
    from create_order_tx_ok [OF this t] show ?thesis by (simp add: s')
  qed
qed

text \<open>No live row of the key: it was never used, or its row has expired.\<close>

definition key_free :: "user_id \<Rightarrow> string \<Rightarrow> gotime \<Rightarrow> db \<Rightarrow> bool" where
  "key_free u key now s \<longleftrightarrow>
     (\<forall>r\<in>set (idem_keys s). idem_match (subject_of u) key r \<longrightarrow> ik_expires_at r \<le> now)"

lemma claim_free:
  assumes "key_free u key now s"
  shows "\<exists>t. claim_key_stmt (subject_of u) key hash now (idem_keys s) = Some t"
proof (cases "List.find (idem_match (subject_of u) key) (idem_keys s)")
  case None
  then show ?thesis by (simp add: claim_key_stmt_def)
next
  case (Some r)
  with find_Some_key [OF Some] assms show ?thesis by (simp add: claim_key_stmt_def key_free_def)
qed

lemma idem_row_saved:
  "List.find (idem_match sub key) (idem_keys (save_idempotency_response sub key b s))
     = map_option (\<lambda>r. r\<lparr>ik_code := Some 201, ik_body := Some b\<rparr>) (List.find (idem_match sub key) (idem_keys s))"
  by (simp add: save_idempotency_response_def find_update_self)

text \<open>After a first call the key's row holds the request hash and the response.\<close>

lemma create_order_row:
  assumes ok: "db_ok s" and run: "create_order e digest u inp s = Inr (d, s')"
    and n: "normalize_create_input e inp = Inr norm" and free: "key_free u (in_key norm) (e_now e) s"
  shows "\<exists>r. List.find (idem_match (subject_of u) (in_key norm)) (idem_keys s') = Some r
       \<and> ik_hash r = digest (request_payload e norm) \<and> ik_body r = Some (to_api_order d) \<and> ik_code r = Some 201
       \<and> ik_expires_at r = e_now e + idempotency_ttl"
proof -
  let ?sub = "subject_of u" and ?h = "digest (request_payload e norm)"
  from run obtain norm' ev where n': "normalize_create_input e inp = Inr norm'"
    and "List.find (\<lambda>ev. ev_slug ev = in_slug norm') (events s) = Some ev" and
    C: "claim_idempotency_key (subject_of u) (in_key norm') (digest (request_payload e norm')) (e_now e) s = Inr (Some d, s')
     \<or> (\<exists>s1 s2. claim_idempotency_key (subject_of u) (in_key norm') (digest (request_payload e norm')) (e_now e) s = Inr (None, s1)
          \<and> create_order_tx e u ev norm' s1 = Inr (d, s2)
          \<and> s' = save_idempotency_response (subject_of u) (in_key norm') (to_api_order d) s2)"
    by (rule create_order_Inr)
  have nn: "norm' = norm" using n n' by simp
  from claim_free [OF free] obtain t where t: "claim_key_stmt ?sub (in_key norm) ?h (e_now e) (idem_keys s) = Some t" by blast
  then have cl: "claim_idempotency_key ?sub (in_key norm) ?h (e_now e) s = Inr (None, s\<lparr>idem_keys := t\<rparr>)"
    by (simp add: claim_idempotency_key_def)
  from C obtain s2 where tx: "create_order_tx e u ev norm (s\<lparr>idem_keys := t\<rparr>) = Inr (d, s2)"
    and s': "s' = save_idempotency_response ?sub (in_key norm) (to_api_order d) s2"
    unfolding nn cl by auto
  have "db_ok (s\<lparr>idem_keys := t\<rparr>)" using claim_idempotency_key_ok(1) [OF cl] ok by simp
  from create_order_tx_frame [OF this tx] have "idem_keys s2 = t" by simp
  with claim_key_stmt_row [OF t] s' show ?thesis by (auto simp: idem_row_saved)
qed

lemma create_order_replay:
  assumes ok: "db_ok s" and run: "create_order e digest u inp s = Inr (d, s')"
    and n: "normalize_create_input e inp = Inr norm" and free: "key_free u (in_key norm) (e_now e) s"
    and keep: "List.find (idem_match (subject_of u) (in_key norm)) (idem_keys s'')
        = List.find (idem_match (subject_of u) (in_key norm)) (idem_keys s')"
    and n2: "normalize_create_input e' inp' = Inr norm'" and key: "in_key norm' = in_key norm"
    and ev: "in_slug norm' \<in> ev_slug ` set (events s'')" and ttl: "e_now e' < e_now e + idempotency_ttl"
  shows "create_order e' digest u inp' s'' =
     (if digest (request_payload e' norm') = digest (request_payload e norm)
      then Inr (order_detail_from_api (to_api_order d), s'') else Inl (app 422 CodeIdempotencyKeyReused))"
proof -
  from create_order_row [OF ok run n free] keep obtain r where
    r: "List.find (idem_match (subject_of u) (in_key norm)) (idem_keys s'') = Some r"
    "ik_hash r = digest (request_payload e norm)" "ik_body r = Some (to_api_order d)" "ik_code r = Some 201"
    "ik_expires_at r = e_now e + idempotency_ttl" by auto
  obtain ev where f: "List.find (\<lambda>ev. ev_slug ev = in_slug norm') (events s'') = Some ev"
    using ev by (cases "List.find (\<lambda>ev. ev_slug ev = in_slug norm') (events s'')") (auto simp: find_None_all)
  show ?thesis
  proof (cases "digest (request_payload e' norm') = digest (request_payload e norm)")
    case True
    with claim_replay [OF r(1) _ _ r(4,3)] r(2,5) ttl show ?thesis
      by (simp add: create_order_def n2 f key)
  next
    case False
    with claim_reused [OF r(1)] r(2,5) ttl show ?thesis
      by (simp add: create_order_def n2 f key)
  qed
qed

section \<open>One live registration per event and identity number\<close>

definition live :: "int \<Rightarrow> string \<Rightarrow> registration_row \<Rightarrow> bool" where
  "live ev h r \<longleftrightarrow> rg_event r = ev \<and> rg_id_hash r = h \<and> rg_status r \<noteq> RegCancelled"

definition unique_live :: "db \<Rightarrow> bool" where
  "unique_live s \<longleftrightarrow> (\<forall>ev h. rows_where (live ev h) (registrations s) \<le> 1)"

lemma unique_live_cong: "registrations s' = registrations s \<Longrightarrow> unique_live s' = unique_live s"
  by (simp add: unique_live_def)

lemma unique_live_update:
  assumes "unique_live s" and "\<And>r. rg_event (g r) = rg_event r \<and> rg_id_hash (g r) = rg_id_hash r"
    and "\<And>r. P r \<Longrightarrow> rg_status r \<noteq> RegCancelled" and "registrations s' = update_where P g (registrations s)"
  shows "unique_live s'"
  unfolding unique_live_def
proof (intro allI)
  fix ev h
  have "rows_where (live ev h) (registrations s') \<le> rows_where (live ev h) (registrations s)"
    unfolding assms(4) rows_where_update_where
    by (rule rows_where_mono) (use assms(2,3) in \<open>auto simp: live_def split: if_splits\<close>)
  also have "\<dots> \<le> 1" using assms(1) by (simp add: unique_live_def)
  finally show "rows_where (live ev h) (registrations s') \<le> 1" .
qed

lemma confirm_paid_unique:
  assumes "db_ok s" and "unique_live s" and "confirm_paid e i at s = Inr s'"
  shows "unique_live s'"
proof -
  from assms(1,3) have "s' = paid_db e i at s" by (simp add: confirm_paid_eq split: if_splits)
  then have "registrations s' = update_where (\<lambda>x. reg_of_order s i x \<and> rg_status x = RegPending) (confirm_reg (e_now e)) (registrations s)"
    by (simp add: paid_db_def settled_def)
  from unique_live_update [OF assms(2) _ _ this] show ?thesis by (simp add: confirm_reg_def)
qed

lemma release_order_unique:
  assumes "db_ok s" and "unique_live s" and "release_order e i k s = Inr (b, s')"
  shows "unique_live s'"
proof -
  from assms(1,3) have "s' = released_db e i k s \<or> s' = s" by (auto simp: release_order_eq split: if_splits)
  then show ?thesis
  proof
    assume "s' = released_db e i k s"
    then have "registrations s' = update_where (\<lambda>x. reg_of_order s i x \<and> rg_status x = RegPending) (cancel_reg k) (registrations s)"
      by (simp add: released_db_def settled_def)
    from unique_live_update [OF assms(2) _ _ this] show ?thesis by (simp add: cancel_reg_def)
  qed (use assms(2) in simp)
qed

lemma resolve_step_distinct:
  assumes "resolve_step e u s x (its, seen, out) = Inr (its', seen', out')"
    and "seen = rev (map rv_hash out)" and "its = [] \<Longrightarrow> distinct (map rv_hash out)"
  shows "seen' = rev (map rv_hash out') \<and> (its' = [] \<longrightarrow> distinct (map rv_hash out'))"
  using assms
  by (cases x) (auto simp: resolve_step_def errE Let_def item_def split: option.splits sum.splits if_splits)

lemma resolve_participants_distinct:
  assumes "resolve_participants e u s inp = Inr parts"
  shows "distinct (map rv_hash parts)"
proof -
  from assms obtain its seen where
    f: "foldE (resolve_step e u s) (enumerate 0 (in_participants inp)) ([], [], []) = Inr (its, seen, parts)"
    and c: "collect its = Inr ()" by (auto simp: resolve_participants_def errE)
  let ?Q = "\<lambda>(its, seen, out). seen = rev (map rv_hash out) \<and> (its = [] \<longrightarrow> distinct (map rv_hash out))"
  have "?Q (its, seen, parts)"
  proof (rule foldE_inv [OF f])
    fix x st st' assume q: "?Q st" and step: "resolve_step e u s x st = Inr st'"
    obtain i sn o1 i' sn' o' where [simp]: "st = (i, sn, o1)" "st' = (i', sn', o')" by (cases st, cases st') auto
    from resolve_step_distinct [OF step [simplified]] q show "?Q st'" by simp
  qed simp
  with c show ?thesis by (simp add: collect_def split: if_splits)
qed

lemma live_le_1:
  assumes "distinct (map rg_id_hash rs)"
  shows "rows_where (live ev h) rs \<le> 1"
proof -
  have "rows_where (live ev h) rs \<le> rows_where (\<lambda>r. rg_id_hash r = h \<and> True) rs"
    by (rule rows_where_mono) (simp add: live_def)
  also have "\<dots> \<le> 1" by (rule rows_where_key_le_1 [OF assms])
  finally show ?thesis .
qed

lemma placed_unique:
  assumes "unique_live s" and "placed q row ps rs s s'" and "resolve_participants e u s inp = Inr parts"
    and "check_already_registered (ev_id ev) parts s = Inr ()"
    and "map rg_id_hash rs = take (length rs) (map rv_hash parts)" and "\<forall>r\<in>set rs. rg_event r = ev_id ev"
  shows "unique_live s'"
  unfolding unique_live_def
proof (intro allI)
  fix x h
  have d: "distinct (map rg_id_hash rs)"
    using resolve_participants_distinct [OF assms(3)] assms(5) by (simp add: distinct_take)
  have old: "rows_where (live x h) (registrations s) \<le> 1" using assms(1) by (simp add: unique_live_def)
  have app: "registrations s' = registrations s @ rs" using assms(2) by (simp add: placed_def)
  show "rows_where (live x h) (registrations s') \<le> 1"
  proof (cases "\<exists>r\<in>set rs. live x h r")
    case False
    then have "rows_where (live x h) rs = 0" by simp
    with old app show ?thesis by (simp del: rows_where_0_iff)
  next
    case True
    then obtain r where r: "r \<in> set rs" "live x h r" by blast
    have "h \<in> set (map rg_id_hash rs)" using r by (auto simp: live_def)
    then have "h \<in> set (map rv_hash parts)" unfolding assms(5) by (rule in_set_takeD)
    moreover have "x = ev_id ev" using r assms(6) by (auto simp: live_def)
    ultimately have "\<forall>y\<in>set (registrations s). \<not> live x h y"
      using assms(4) registration_status.exhaust
      by (auto simp: check_already_registered_def list_registered_hashes_def Let_def filter_empty_conv live_def split: if_splits)
    then have "rows_where (live x h) (registrations s) = 0" by simp
    with live_le_1 [OF d] app show ?thesis by (simp del: rows_where_0_iff)
  qed
qed

lemma create_order_tx_unique:
  assumes ok: "db_ok s" "unique_live s" and "create_order_tx e u ev inp s = Inr (d, s')"
  shows "unique_live s'"
proof -
  from assms(3) obtain q parts row ps rs s5 where
    P: "placed q row ps rs s s5" and R: "resolve_participants e u s inp = Inr parts"
      "check_already_registered (ev_id ev) parts s = Inr ()"
      "map rg_id_hash rs = take (length rs) (map rv_hash parts)" "\<forall>r\<in>set rs. rg_event r = ev_id ev"
    and "idem_keys s5 = idem_keys s" "events s5 = events s"
    and "proofs s5 = proofs s" "receipts s5 = receipts s" "exceptions s5 = exceptions s" "ro_status row = PendingPayment"
    and fin: "ro_amount row \<noteq> 0 \<and> (\<exists>a. s' = audit_record a s5)
      \<or> (\<exists>a b t. confirm_paid e (ro_id row) (e_now e) (audit_record a s5) = Inr t \<and> s' = audit_record b t)"
    by (rule create_order_tx_placed [OF ok(1)])
  have k: "db_ok (audit_record a s5)" "unique_live (audit_record a s5)" for a
    using placed_ok [OF ok(1) P] placed_unique [OF ok(2) P R] by simp_all (simp add: unique_live_def audit_record_def)
  from fin show ?thesis
  proof
    assume "\<exists>a b t. confirm_paid e (ro_id row) (e_now e) (audit_record a s5) = Inr t \<and> s' = audit_record b t"
    then obtain a b t where t: "confirm_paid e (ro_id row) (e_now e) (audit_record a s5) = Inr t" "s' = audit_record b t"
      by blast
    from confirm_paid_unique [OF k t(1)] t(2) show ?thesis by (simp add: unique_live_def audit_record_def)
  qed (use k(2) in auto)
qed

lemma create_order_unique:
  assumes ok: "db_ok s" "unique_live s" and "create_order e digest u inp s = Inr (d, s')"
  shows "unique_live s'"
proof -
  from assms(3) obtain norm ev where "normalize_create_input e inp = Inr norm"
    "List.find (\<lambda>ev. ev_slug ev = in_slug norm) (events s) = Some ev" and
    C: "claim_idempotency_key (subject_of u) (in_key norm) (digest (request_payload e norm)) (e_now e) s = Inr (Some d, s')
     \<or> (\<exists>s1 s2. claim_idempotency_key (subject_of u) (in_key norm) (digest (request_payload e norm)) (e_now e) s = Inr (None, s1)
          \<and> create_order_tx e u ev norm s1 = Inr (d, s2)
          \<and> s' = save_idempotency_response (subject_of u) (in_key norm) (to_api_order d) s2)" by (rule create_order_Inr)
  from C show ?thesis
  proof
    assume "claim_idempotency_key (subject_of u) (in_key norm) (digest (request_payload e norm)) (e_now e) s = Inr (Some d, s')"
    from claim_idempotency_key_ok(2) [OF this] ok show ?thesis by (simp add: unique_live_def)
  next
    assume "\<exists>s1 s2. claim_idempotency_key (subject_of u) (in_key norm) (digest (request_payload e norm)) (e_now e) s = Inr (None, s1)
          \<and> create_order_tx e u ev norm s1 = Inr (d, s2)
          \<and> s' = save_idempotency_response (subject_of u) (in_key norm) (to_api_order d) s2"
    then obtain s1 s2 where c: "claim_idempotency_key (subject_of u) (in_key norm) (digest (request_payload e norm)) (e_now e) s = Inr (None, s1)"
      and t: "create_order_tx e u ev norm s1 = Inr (d, s2)"
      and s': "s' = save_idempotency_response (subject_of u) (in_key norm) (to_api_order d) s2" by blast
    from claim_idempotency_key_ok(1,2) [OF c] ok have "db_ok s1" "unique_live s1" by (simp_all add: unique_live_def)
    from create_order_tx_unique [OF this t] show ?thesis
      by (simp add: s' unique_live_def save_idempotency_response_def)
  qed
qed

section \<open>Releasing what was placed\<close>

lemma placed_seats:
  assumes "db_ok s" and "placed q row ps rs s s'"
  shows "cat_seats s' (ro_id row) = quote_cat_seats q" "rule_seats s' (ro_id row) = quote_rule_seats q"
    "coupon_uses s' (ro_id row) = quote_coupon_uses q"
proof -
  let ?i = "ro_id row"
  note old = placed_old [OF assms]
  have P: "\<forall>p\<in>set ps. op_order p = ?i" "map op_category ps = map pq_category (q_participants q)"
    "map op_rule ps = map pq_rule (q_participants q)" and tabs: "participants s' = participants s @ ps"
    "redemptions s' = redemptions s @ new_redemptions q ?i"
    using assms(2) by (auto simp: placed_def)
  have none: "rows_where (\<lambda>p. op_order p = ?i \<and> Q p) (participants s) = 0" "rows_where (\<lambda>r. cr_order r = ?i \<and> R r) (redemptions s) = 0" for Q R
    using old unfolding rows_where_0_iff by blast+
  have new: "rows_where (\<lambda>p. op_order p = ?i \<and> Q p) ps = rows_where Q ps" for Q
    using P(1) by (intro rows_where_cong) auto
  show "cat_seats s' ?i = quote_cat_seats q" "rule_seats s' ?i = quote_rule_seats q"
    using P(2,3) unfolding fun_eq_iff cat_seats_def rule_seats_def tabs rows_where_append none new quote_cat_seats_def quote_rule_seats_def
      rows_where_map [of op_category] rows_where_map [of op_rule] rows_where_map [of pq_category] rows_where_map [of pq_rule]
    by simp_all
  show "coupon_uses s' ?i = quote_coupon_uses q"
    unfolding fun_eq_iff coupon_uses_def tabs rows_where_append none
    by (auto simp: quote_coupon_uses_def new_redemptions_def split: option.split)
qed

text \<open>Placing and then releasing is the identity on the counters.\<close>

lemma placed_released:
  assumes "db_ok s" and P: "placed q row ps rs s s1"
    and t: "categories t = categories s1" "price_rules t = price_rules s1" "coupons t = coupons s1"
      "participants t = participants s1" "redemptions t = redemptions s1"
  shows "categories (released_db e (ro_id row) kind t) = categories s" "price_rules (released_db e (ro_id row) kind t) = price_rules s"
    "coupons (released_db e (ro_id row) kind t) = coupons s"
proof -
  have seats: "cat_seats t (ro_id row) = quote_cat_seats q" "rule_seats t (ro_id row) = quote_rule_seats q"
    "coupon_uses t (ro_id row) = quote_coupon_uses q"
    using placed_seats [OF assms(1,2)] t(4,5) by (simp_all add: fun_eq_iff cat_seats_def rule_seats_def coupon_uses_def)
  have tabs: "categories s1 = cat_row.shift (\<lambda>_. 0) (quote_cat_seats q) (categories s)"
    "price_rules s1 = rule_row.shift (\<lambda>_. 0) (quote_rule_seats q) (price_rules s)"
    "coupons s1 = coupon_row.shift (\<lambda>_. 0) (quote_coupon_uses q) (coupons s)"
    using P by (auto simp: placed_def reserved_db_def)
  show "categories (released_db e (ro_id row) kind t) = categories s" "price_rules (released_db e (ro_id row) kind t) = price_rules s"
    "coupons (released_db e (ro_id row) kind t) = coupons s"
    by (simp_all add: released_db_def settled_def moved_def seats t tabs cat_row.shift_shift rule_row.shift_shift coupon_row.shift_shift)
qed

end
