(* ===== verification/Storage.thy ===== *)
theory Storage
  imports Store Samples "HOL-Library.AList" "HOL-Library.Sublist"
begin

text \<open>
  \<open>internal/platform/storage\<close> and \<open>internal/payment/files.go\<close>: the file store as an
  interface (\<open>Store\<close>), the disk that implements it, reading an uploaded image, the
  \<open>files\<close> table, and the pattern both upload services follow - store the file, run the
  transaction, discard the file when it fails.
\<close>

section \<open>The store interface\<close>

text \<open>
  \<open>loc\<close> is where a key is kept, \<open>None\<close> for a key the store refuses.  A failed \<open>Put\<close>
  changes nothing; \<open>Delete\<close> of a missing file succeeds.
\<close>

locale file_store =
  fixes loc :: "string \<Rightarrow> 'l option"
    and put :: "string \<Rightarrow> string \<Rightarrow> 'd \<Rightarrow> 'd res"
    and look :: "'l \<Rightarrow> 'd \<Rightarrow> string option"
    and del :: "string \<Rightarrow> 'd \<Rightarrow> 'd res"
  assumes put_loc: "put k v d = Inr d' \<Longrightarrow> loc k \<noteq> None"
    and put_look: "put k v d = Inr d' \<Longrightarrow> look l d' = (if loc k = Some l then Some v else look l d)"
    and del_look: "del k d = Inr d' \<Longrightarrow> look l d' = (if loc k = Some l then None else look l d)"
begin

text \<open>\<open>discardFile\<close>: best effort, a failure is only logged.\<close>

definition discard :: "string \<Rightarrow> 'd \<Rightarrow> 'd" where
  "discard k d = (case del k d of Inl _ \<Rightarrow> d | Inr d' \<Rightarrow> d')"

definition stored :: "string \<Rightarrow> string \<Rightarrow> 'a res \<Rightarrow> 'd \<Rightarrow> 'a res \<times> 'd" where
  "stored k v run d =
     (case put k v d of
        Inl err \<Rightarrow> (Inl err, d)
      | Inr d1 \<Rightarrow> (case run of Inl err \<Rightarrow> (Inl err, discard k d1) | Inr x \<Rightarrow> (Inr x, d1)))"

lemma stored_Inr:
  assumes "stored k v run d = (Inr x, d')"
  shows "run = Inr x" "\<exists>l. loc k = Some l \<and> look l d' = Some v"
    "\<And>l. loc k \<noteq> Some l \<Longrightarrow> look l d' = look l d"
proof -
  from assms obtain d1 where d1: "put k v d = Inr d1" "run = Inr x" "d' = d1"
    by (auto simp: stored_def split: sum.splits)
  then show "run = Inr x" by simp
  from put_loc [OF d1(1)] obtain l where "loc k = Some l" by auto
  with put_look [OF d1(1)] d1(3) show "\<exists>l. loc k = Some l \<and> look l d' = Some v" by auto
  show "look l d' = look l d" if "loc k \<noteq> Some l" for l using put_look [OF d1(1), of l] d1(3) that by simp
qed

text \<open>A failed transaction leaves no file behind, unless the discard itself failed.\<close>

lemma stored_Inl:
  assumes "stored k v run d = (Inl err, d')" and "\<And>l. loc k = Some l \<Longrightarrow> look l d = None"
    and "\<And>d1. put k v d = Inr d1 \<Longrightarrow> \<exists>d2. del k d1 = Inr d2"
  shows "look l d' = look l d"
proof (cases "put k v d")
  case (Inl err)
  with assms(1) show ?thesis by (simp add: stored_def)
next
  case (Inr d1)
  from assms(3) [OF Inr] obtain d2 where d2: "del k d1 = Inr d2" by blast
  with Inr assms(1) have "d' = d2" by (auto simp: stored_def discard_def split: sum.splits)
  with del_look [OF d2, of l] put_look [OF Inr, of l] assms(2) [of l] show ?thesis by auto
qed

end

section \<open>The disk\<close>

text \<open>
  The files below the root, by the names on their path.  A key is cleaned as
  \<open>filepath.Join\<close> does; \<open>filepath.IsLocal\<close> rejects absolute keys and those that
  climb above the root.
\<close>

type_synonym disk = "(string list \<times> string) list"

definition clean_step :: "string \<Rightarrow> string list \<Rightarrow> string list" where
  "clean_step part acc =
     (if part = [] \<or> part = ''.'' then acc
      else if part = ''..'' then (case acc of [] \<Rightarrow> [''..''] | p # ps \<Rightarrow> if p = ''..'' then ''..'' # acc else ps)
      else part # acc)"

definition clean :: "string \<Rightarrow> string list" where
  "clean key = rev (fold clean_step (split_on (CHR ''/'') key) [])"

definition is_local :: "string \<Rightarrow> bool" where
  "is_local key \<longleftrightarrow> key \<noteq> [] \<and> hd key \<noteq> CHR ''/'' \<and> (case clean key of [] \<Rightarrow> True | p # _ \<Rightarrow> p \<noteq> ''..'')"

definition disk_path :: "string \<Rightarrow> string list option" where
  "disk_path key = (if is_local key then Some (clean key) else None)"

definition invalid_key :: goerr where "invalid_key = OtherErr ''storage: invalid key''"

text \<open>A path that is a directory, or that runs through a file, cannot be written.\<close>

definition blocked :: "string list \<Rightarrow> disk \<Rightarrow> bool" where
  "blocked p d \<longleftrightarrow> p = [] \<or> (\<exists>q\<in>set (map fst d). strict_prefix p q \<or> strict_prefix q p)"

definition disk_put :: "env \<Rightarrow> string \<Rightarrow> string \<Rightarrow> disk \<Rightarrow> disk res" where
  "disk_put e key v d =
     (case disk_path key of
        None \<Rightarrow> Inl invalid_key
      | Some p \<Rightarrow>
          (case e_io e ''put'' key of
             Some err \<Rightarrow> Inl err
           | None \<Rightarrow> if blocked p d then Inl (OtherErr ''storage: rename'') else Inr (AList.update p v d)))"

definition disk_look :: "string list \<Rightarrow> disk \<Rightarrow> string option" where
  "disk_look p d = map_of d p"

definition disk_open :: "env \<Rightarrow> string \<Rightarrow> disk \<Rightarrow> string option res" where
  "disk_open e key d =
     (case disk_path key of
        None \<Rightarrow> Inl invalid_key
      | Some p \<Rightarrow> (case e_io e ''open'' key of Some err \<Rightarrow> Inl err | None \<Rightarrow> Inr (disk_look p d)))"

definition disk_delete :: "env \<Rightarrow> string \<Rightarrow> disk \<Rightarrow> disk res" where
  "disk_delete e key d =
     (case disk_path key of
        None \<Rightarrow> Inl invalid_key
      | Some p \<Rightarrow>
          (case e_io e ''delete'' key of
             Some err \<Rightarrow> Inl err
           | None \<Rightarrow> if \<exists>q\<in>set (map fst d). strict_prefix p q then Inl (OtherErr ''storage: delete'') else Inr (AList.delete p d)))"

interpretation disk_store: file_store disk_path "disk_put e" disk_look "disk_delete e" for e
  by unfold_locales (auto simp: disk_put_def disk_look_def disk_delete_def update_conv' delete_conv' split: option.splits if_splits)

text \<open>\<open>discardFile\<close> and the upload pattern on the disk.\<close>

definition discard_file :: "env \<Rightarrow> string \<Rightarrow> disk \<Rightarrow> disk" where
  "discard_file e key d = (case disk_delete e key d of Inl _ \<Rightarrow> d | Inr d' \<Rightarrow> d')"

definition with_stored_file :: "env \<Rightarrow> string \<Rightarrow> string \<Rightarrow> 'a res \<Rightarrow> disk \<Rightarrow> 'a res \<times> disk" where
  "with_stored_file e key v run d =
     (case disk_put e key v d of
        Inl err \<Rightarrow> (Inl err, d)
      | Inr d1 \<Rightarrow> (case run of Inl err \<Rightarrow> (Inl err, discard_file e key d1) | Inr x \<Rightarrow> (Inr x, d1)))"

lemma with_stored_file_eq: "with_stored_file e = disk_store.stored e"
  by (simp add: fun_eq_iff with_stored_file_def disk_store.stored_def discard_file_def disk_store.discard_def split: sum.splits)

section \<open>Images\<close>

datatype upload = UpBytes string | UpBodyTooLarge | UpReadError string

record image =
  im_data :: string
  im_mime :: string
  im_ext :: string
  im_sha :: string

definition max_proof_bytes :: int where "max_proof_bytes = 5242880"
definition max_qr_bytes :: int where "max_qr_bytes = 2097152"

definition ext_by_mime :: "(string \<times> string) list" where
  "ext_by_mime = [(''image/jpeg'', ''jpg''), (''image/png'', ''png''), (''image/webp'', ''webp'')]"

definition mime_by_format :: "(string \<times> string) list" where
  "mime_by_format = [(''jpeg'', ''image/jpeg''), (''png'', ''image/png''), (''webp'', ''image/webp'')]"

definition read_image :: "env \<Rightarrow> int \<Rightarrow> upload \<Rightarrow> image res" where
  "read_image e max_bytes up =
     (let too_large = AppErr (with_params [(''maxMB'', PInt (max_bytes div 1048576))] (new_err 413 CodeFileTooLarge));
          not_allowed = app 415 CodeFileTypeNotAllowed
      in case up of
           UpBodyTooLarge \<Rightarrow> Inl too_large
         | UpReadError m \<Rightarrow> Inl (OtherErr m)
         | UpBytes data \<Rightarrow>
             if max_bytes < int (length data) then Inl too_large
             else if data = [] then Inl not_allowed
             else let mime = e_detect e (take 512 data)
                  in case map_of ext_by_mime mime of
                       None \<Rightarrow> Inl not_allowed
                     | Some ext \<Rightarrow>
                         (case e_decode e data of
                            None \<Rightarrow> Inl not_allowed
                          | Some (format, w, h) \<Rightarrow>
                              if map_of mime_by_format format \<noteq> Some mime \<or> w \<le> 0 \<or> h \<le> 0 then Inl not_allowed
                              else Inr \<lparr>im_data = data, im_mime = mime, im_ext = ext, im_sha = e_sha256 e data\<rparr>))"

definition hex_lower :: "nat \<Rightarrow> char" where
  "hex_lower n = ''0123456789abcdef'' ! n"

definition hex_string :: "int list \<Rightarrow> string" where
  "hex_string bs = concat (map (\<lambda>b. [hex_lower (nat (b div 16 mod 16)), hex_lower (nat (b mod 16))]) bs)"

text \<open>\<open>storage.NewKey\<close>: year, month and sixteen random bytes.\<close>

definition new_key :: "env \<Rightarrow> nat list \<Rightarrow> string \<Rightarrow> string" where
  "new_key e path ext =
     (let (y, m, d) = civil_date (e_now e)
      in pad_zero 4 (int_str y) @ ''/'' @ pad_zero 2 (int_str m) @ ''/''
         @ hex_string (take 16 (e_rand e path)) @ ''.'' @ ext)"

section \<open>The table\<close>

definition insert_file :: "string \<Rightarrow> string \<Rightarrow> string \<Rightarrow> image \<Rightarrow> string \<Rightarrow> int \<Rightarrow> db \<Rightarrow> (int \<times> db) res" where
  "insert_file key vis purpose img utype uid s =
     (if \<exists>f\<in>set (files s). fl_key f = key then Inl (PgErr ''23505'' ''files_storage_key_key'')
      else let i = next_id fl_id (files s)
           in Inr (i, s\<lparr>files := files s @ [\<lparr>fl_id = i, fl_key = key, fl_visibility = vis, fl_purpose = purpose,
                fl_mime = im_mime img, fl_size = int (length (im_data img)), fl_sha = im_sha img,
                fl_uploader_type = utype, fl_uploader = uid\<rparr>]\<rparr>))"

definition count_other_files :: "string \<Rightarrow> string \<Rightarrow> int \<Rightarrow> db \<Rightarrow> nat" where
  "count_other_files sha purpose i s =
     rows_where (\<lambda>f. fl_sha f = sha \<and> fl_purpose f = purpose \<and> fl_id f \<noteq> i) (files s)"

definition get_file :: "int \<Rightarrow> db \<Rightarrow> file_row res" where
  "get_file i s = (case List.find (\<lambda>f. fl_id f = i) (files s) of None \<Rightarrow> Inl (app 404 CodeNotFound) | Some f \<Rightarrow> Inr f)"

text \<open>\<open>open\<close>: a file the store has lost is \<open>NOT_FOUND\<close> too.\<close>

definition open_stored :: "env \<Rightarrow> file_row \<Rightarrow> disk \<Rightarrow> (file_row \<times> string) res" where
  "open_stored e f d =
     bindE (disk_open e (fl_key f) d) (\<lambda>c. case c of None \<Rightarrow> Inl (app 404 CodeNotFound) | Some bs \<Rightarrow> Inr (f, bs))"

definition open_public_file :: "env \<Rightarrow> int \<Rightarrow> db \<Rightarrow> disk \<Rightarrow> (file_row \<times> string) res" where
  "open_public_file e i s d = bindE (get_file i s) (\<lambda>f.
     if fl_visibility f \<noteq> ''PUBLIC'' then Inl (app 404 CodeNotFound) else open_stored e f d)"

definition open_private_file :: "env \<Rightarrow> int \<Rightarrow> db \<Rightarrow> disk \<Rightarrow> (file_row \<times> string) res" where
  "open_private_file e i s d = bindE (get_file i s) (\<lambda>f. open_stored e f d)"

end
