(* ===== verification/Payments.thy ===== *)
theory Payments
  imports Notify AdminOrders Placement Storage
begin

text \<open>
  \<open>internal/payment/proofs.go\<close>, \<open>review.go\<close> and \<open>notifications.go\<close>: a runner
  uploads a payment proof, staff approves or rejects it.
\<close>

section \<open>Submitting a proof\<close>

record submit_input =
  sb_file :: "upload option"
  sb_ref :: string
  sb_declared :: int
  sb_paid_at :: "gotime option"
  sb_payer :: "string option"

definition normalize_txn_ref :: "string \<Rightarrow> string" where
  "normalize_txn_ref s = to_upper (filter (\<lambda>c. \<not> is_space c) s)"

definition trim_optional :: "string option \<Rightarrow> string option" where
  "trim_optional p = (case p of None \<Rightarrow> None | Some v \<Rightarrow> if trim_space v = [] then None else Some (trim_space v))"

definition submit_items :: "string \<Rightarrow> int \<Rightarrow> string option \<Rightarrow> field_item list" where
  "submit_items ref declared payer =
     (if ref = [] then [(''bankTxnRef'', ''field.required'', [])]
      else item (length ref < 4 \<or> 64 < length ref) ''bankTxnRef'' ''field.invalid'' [])
   @ item (declared \<le> 0) ''declaredAmountCents'' ''field.must_be_positive'' []
   @ item (case payer of None \<Rightarrow> False | Some p \<Rightarrow> 100 < length p) ''payerName'' ''field.too_long'' [(''max'', PInt 100)]"

definition validate_submit :: "string \<Rightarrow> int \<Rightarrow> string option \<Rightarrow> unit res" where
  "validate_submit ref declared payer = collect (submit_items ref declared payer)"

text \<open>
  \<open>InsertPaymentProof\<close> with the unique number, one pending proof per order, one
  live proof per account and transaction, and the reference to the account.
\<close>

definition live_proof :: "proof_row \<Rightarrow> bool" where
  "live_proof p \<longleftrightarrow> pf_status p = PfSubmitted \<or> pf_status p = PfApproved"

definition pending_for :: "int \<Rightarrow> proof_row \<Rightarrow> bool" where
  "pending_for i p \<longleftrightarrow> pf_order p = Some i \<and> pf_status p = PfSubmitted"

definition insert_payment_proof :: "proof_row \<Rightarrow> db \<Rightarrow> (proof_row \<times> db) res" where
  "insert_payment_proof row s =
     (if \<exists>p\<in>set (proofs s). pf_no p = pf_no row then Inl (PgErr ''23505'' ''payment_proofs_proof_no_key'')
      else if \<exists>p\<in>set (proofs s). pf_order p = pf_order row \<and> pf_status p = PfSubmitted
      then Inl (PgErr ''23505'' ''payment_proofs_one_pending_reg'')
      else if \<exists>p\<in>set (proofs s). live_proof p \<and> pf_account p = pf_account row \<and> pf_txn_ref p = pf_txn_ref row
      then Inl (PgErr ''23505'' ''payment_proofs_txn_ref_uniq'')
      else if \<not> (\<exists>a\<in>set (accounts s). pa_id a = pf_account row)
      then Inl (PgErr ''23503'' ''payment_proofs_payment_account_id_fkey'')
      else let row' = row\<lparr>pf_id := next_id pf_id (proofs s)\<rparr>
           in Inr (row', s\<lparr>proofs := proofs s @ [row']\<rparr>))"

text \<open>The proof with its order number, as the API returns it (\<open>proofFromRow\<close>).\<close>

record proof_view =
  pv_row :: proof_row
  pv_order_no :: string

definition proof_from_row :: "proof_row \<Rightarrow> string \<Rightarrow> proof_view" where
  "proof_from_row r no = \<lparr>pv_row = r, pv_order_no = no\<rparr>"

definition proof_audit :: "int \<Rightarrow> int \<Rightarrow> int \<Rightarrow> audit_row" where
  "proof_audit u i ev =
     \<lparr>au_actor_type = ''USER'', au_actor = Some u, au_role = None, au_action = ''payment_proof.submit'',
      au_entity_type = ''payment_proof'', au_entity = i, au_event = Some ev, au_financial = True\<rparr>"

definition new_proof :: "env \<Rightarrow> user_id \<Rightarrow> order_head \<Rightarrow> string \<Rightarrow> int \<Rightarrow> bool \<Rightarrow> submit_input \<Rightarrow> proof_row" where
  "new_proof e u o' ref file dup inp =
     \<lparr>pf_id = 0, pf_no = [], pf_order = Some (oh_id o'), pf_account = oh_account o', pf_file = file,
      pf_user = Some u, pf_declared = sb_declared inp, pf_txn_ref = ref, pf_declared_at = sb_paid_at inp,
      pf_payer = trim_optional (sb_payer inp), pf_dup_file = dup, pf_status = PfSubmitted,
      pf_reviewed_by = None, pf_reviewed_at = None, pf_reject_code = None, pf_reject_reason = None,
      pf_created_at = e_db_now e\<rparr>"

definition insert_proof :: "env \<Rightarrow> proof_row \<Rightarrow> db \<Rightarrow> (proof_row \<times> db) res" where
  "insert_proof e row s =
     map_err from_pg (retry ''payment_proofs_proof_no_key'' (\<lambda>i.
       insert_payment_proof (row\<lparr>pf_no := idgen_code prefix_proof (e_rand e [5, i])\<rparr>) s))"

definition submit_guard :: "user_id \<Rightarrow> order_head \<Rightarrow> gotime \<Rightarrow> unit res" where
  "submit_guard u o' now =
     bindE (failIf (oh_buyer o' \<noteq> u) order_not_found) (\<lambda>_.
     bindE (failIf (oh_status o' \<noteq> PendingPayment \<and> oh_status o' \<noteq> ProofRejected) state_conflict) (\<lambda>_.
     failIf (case oh_deadline o' of None \<Rightarrow> False | Some d \<Rightarrow> d \<le> now) (app 409 CodeOrderExpired)))"

definition submit_proof_tx ::
    "env \<Rightarrow> user_id \<Rightarrow> string \<Rightarrow> string \<Rightarrow> image \<Rightarrow> submit_input \<Rightarrow> db \<Rightarrow> (proof_view \<times> db) res" where
  "submit_proof_tx e u order_no key img inp s =
     bindE (lock_order_by_no order_no s) (\<lambda>o'.
     bindE (submit_guard u o' (e_now e)) (\<lambda>_.
     bindE (validate_submit (normalize_txn_ref (sb_ref inp)) (sb_declared inp) (trim_optional (sb_payer inp))) (\<lambda>_.
     bindE (insert_file key ''PRIVATE'' ''PAYMENT_PROOF'' img ''USER'' u s) (\<lambda>(file, s1).
     let dups = count_other_files (im_sha img) ''PAYMENT_PROOF'' file s1 in
     bindE (insert_proof e (new_proof e u o' (normalize_txn_ref (sb_ref inp)) file (0 < dups) inp) s1) (\<lambda>(row, s2).
     bindE (mark_proof_submitted (oh_id o') s2) (\<lambda>s3.
       Inr (proof_from_row row (oh_no o'), audit_record (proof_audit u (pf_id row) (oh_event o')) s3)))))))"

text \<open>
  \<open>SubmitProof\<close>: the image is read and stored outside the transaction and discarded when
  it fails; the result comes with the database and the disk afterwards.
\<close>

definition submit_proof ::
    "env \<Rightarrow> user_id \<Rightarrow> string \<Rightarrow> submit_input \<Rightarrow> db \<Rightarrow> disk \<Rightarrow> (proof_view \<times> db) res \<times> disk" where
  "submit_proof e u order_no inp s d =
     (case sb_file inp of
        None \<Rightarrow> (Inl (AppErr (with_field ''file'' ''field.required'' [] validation_error)), d)
      | Some up \<Rightarrow>
          (case read_image e max_proof_bytes up of
             Inl err \<Rightarrow> (Inl err, d)
           | Inr img \<Rightarrow>
               (let key = new_key e [6] (im_ext img)
                in with_stored_file e key (im_data img) (submit_proof_tx e u order_no key img inp s) d)))"

section \<open>Review\<close>

record approve_input =
  ap_received :: int
  ap_received_at :: gotime
  ap_note :: "string option"

record reject_input =
  rj_in_code :: string
  rj_in_reason :: "string option"

definition received_at_future_tolerance :: int where "received_at_future_tolerance = 5 * minute"
definition max_review_text_len :: nat where "max_review_text_len = 500"

definition approve_items :: "env \<Rightarrow> approve_input \<Rightarrow> string option \<Rightarrow> field_item list" where
  "approve_items e inp note =
     item (ap_received inp \<le> 0) ''receivedAmountCents'' ''field.must_be_positive'' []
   @ (if ap_received_at inp = zero_time then [(''receivedAt'', ''field.required'', [])]
      else item (e_now e + received_at_future_tolerance < ap_received_at inp) ''receivedAt'' ''field.invalid'' [])
   @ item (case note of None \<Rightarrow> False | Some n \<Rightarrow> max_review_text_len < length n) ''note'' ''field.too_long''
       [(''max'', PInt (int max_review_text_len))]"

definition validate_approve :: "env \<Rightarrow> approve_input \<Rightarrow> string option \<Rightarrow> unit res" where
  "validate_approve e inp note = collect (approve_items e inp note)"

definition reject_codes :: "string list" where
  "reject_codes = [''NOT_RECEIVED'', ''AMOUNT_MISMATCH'', ''DUPLICATE_TXN'', ''UNREADABLE'',
     ''WRONG_ACCOUNT'', ''FRAUD'', ''OTHER'']"

definition reject_items :: "string \<Rightarrow> string option \<Rightarrow> field_item list" where
  "reject_items code reason =
     item (code \<notin> set reject_codes) ''rejectCode'' ''field.invalid'' []
   @ (if code = ''OTHER'' \<and> reason = None then [(''rejectReason'', ''field.required'', [])]
      else item (case reason of None \<Rightarrow> False | Some r \<Rightarrow> max_review_text_len < length r) ''rejectReason'' ''field.too_long''
        [(''max'', PInt (int max_review_text_len))])"

definition validate_reject :: "string \<Rightarrow> string option \<Rightarrow> unit res" where
  "validate_reject code reason = collect (reject_items code reason)"

definition lock_for_review :: "int \<Rightarrow> db \<Rightarrow> (proof_row \<times> order_head) res" where
  "lock_for_review i s =
     (case List.find (\<lambda>p. pf_id p = i) (proofs s) of
        None \<Rightarrow> Inl (app 404 CodeNotFound)
      | Some p \<Rightarrow>
          (case pf_order p of
             None \<Rightarrow> Inl (app 404 CodeNotFound)
           | Some oid \<Rightarrow>
               bindE (lock_order_by_id oid s) (\<lambda>o'.
               bindE (failIf (pf_status p \<noteq> PfSubmitted \<or> oh_status o' \<noteq> ProofSubmitted) state_conflict) (\<lambda>_.
                 Inr (p, o')))))"

definition exec_proofs :: "(proof_row \<Rightarrow> bool) \<Rightarrow> (proof_row \<Rightarrow> proof_row) \<Rightarrow> db \<Rightarrow> nat \<times> db" where
  "exec_proofs P f s = (rows_where P (proofs s), s\<lparr>proofs := update_where P f (proofs s)\<rparr>)"

definition mark_payment_proof_approved :: "int \<Rightarrow> int \<Rightarrow> gotime \<Rightarrow> db \<Rightarrow> nat \<times> db" where
  "mark_payment_proof_approved i by_staff at = exec_proofs
     (\<lambda>p. pf_id p = i \<and> pf_status p = PfSubmitted)
     (\<lambda>p. p\<lparr>pf_status := PfApproved, pf_reviewed_by := Some by_staff, pf_reviewed_at := Some at\<rparr>)"

definition mark_payment_proof_rejected :: "int \<Rightarrow> int \<Rightarrow> gotime \<Rightarrow> string \<Rightarrow> string option \<Rightarrow> db \<Rightarrow> nat \<times> db" where
  "mark_payment_proof_rejected i by_staff at code reason = exec_proofs
     (\<lambda>p. pf_id p = i \<and> pf_status p = PfSubmitted)
     (\<lambda>p. p\<lparr>pf_status := PfRejected, pf_reviewed_by := Some by_staff, pf_reviewed_at := Some at,
            pf_reject_code := Some code, pf_reject_reason := reason\<rparr>)"

definition insert_payment_receipt :: "receipt_row \<Rightarrow> db \<Rightarrow> (int \<times> db) res" where
  "insert_payment_receipt row s =
     (if \<not> 0 < rc_amount row then Inl (check_violation ''payment_receipts_amount_cents_check'')
      else if \<exists>r\<in>set (receipts s). rc_proof r = rc_proof row \<and> rc_proof row \<noteq> None
      then Inl (PgErr ''23505'' ''payment_receipts_proof_id_key'')
      else if \<exists>r\<in>set (receipts s). rc_account r = rc_account row \<and> rc_txn_ref r = rc_txn_ref row
      then Inl (PgErr ''23505'' ''payment_receipts_payment_account_id_txn_ref_key'')
      else let i = next_id rc_id (receipts s)
           in Inr (i, s\<lparr>receipts := receipts s @ [row\<lparr>rc_id := i\<rparr>]\<rparr>))"

definition insert_payment_exception :: "exception_row \<Rightarrow> db \<Rightarrow> db res" where
  "insert_payment_exception row s =
     (if \<not> 0 < ex_amount row then Inl (check_violation ''payment_exceptions_amount_cents_check'')
      else if \<exists>x\<in>set (exceptions s). ex_no x = ex_no row then Inl (PgErr ''23505'' ''payment_exceptions_exception_no_key'')
      else if \<exists>x\<in>set (exceptions s). ex_receipt x = ex_receipt row
      then Inl (PgErr ''23505'' ''payment_exceptions_receipt_type'')
      else Inr (s\<lparr>exceptions := exceptions s @ [row\<lparr>ex_id := next_id ex_id (exceptions s)\<rparr>]\<rparr>))"

definition insert_exception :: "env \<Rightarrow> exception_row \<Rightarrow> db \<Rightarrow> db res" where
  "insert_exception e row s =
     map_err from_pg (retry ''payment_exceptions_exception_no_key'' (\<lambda>i.
       insert_payment_exception (row\<lparr>ex_no := idgen_code prefix_exception (e_rand e [7, i])\<rparr>) s))"

definition review_audit :: "staff \<Rightarrow> string \<Rightarrow> proof_row \<Rightarrow> order_head \<Rightarrow> audit_row" where
  "review_audit actor action p o' =
     staff_entry (st_id actor) (st_role actor) action ''payment_proof'' (pf_id p) (Some (oh_event o')) True"

section \<open>The review messages\<close>

definition load_proof_notice :: "int \<Rightarrow> db \<Rightarrow> (order_row \<times> event_row) res" where
  "load_proof_notice i s =
     (case get_order_detail i s of None \<Rightarrow> Inl (OtherErr ''load order for notification: no rows'') | Some x \<Rightarrow> Inr x)"

definition enqueue_proof_approved :: "env \<Rightarrow> int \<Rightarrow> int \<Rightarrow> db \<Rightarrow> db res" where
  "enqueue_proof_approved e oid pid s =
     bindE (load_proof_notice oid s) (\<lambda>(r, ev).
       case ro_buyer r of
         None \<Rightarrow> Inr s
       | Some u \<Rightarrow> enqueue e \<lparr>nt_template = ProofApproved, nt_user = u, nt_order = oid, nt_proof = Some pid, nt_dedupe = [],
             nt_params = [(''orderNo'', NpString (ro_no r)), (''eventName'', NpText (ev_name ev))]\<rparr> s)"

definition enqueue_proof_rejected :: "env \<Rightarrow> int \<Rightarrow> int \<Rightarrow> string \<Rightarrow> string option \<Rightarrow> db \<Rightarrow> db res" where
  "enqueue_proof_rejected e oid pid code reason s =
     bindE (load_proof_notice oid s) (\<lambda>(r, ev).
       case ro_buyer r of
         None \<Rightarrow> Inr s
       | Some u \<Rightarrow> enqueue e \<lparr>nt_template = ProofRejectedMsg, nt_user = u, nt_order = oid, nt_proof = Some pid, nt_dedupe = [],
             nt_params = [(''orderNo'', NpString (ro_no r)), (''eventName'', NpText (ev_name ev)),
               (''reason'', NpReason code reason),
               (''deadline'', NpString (case ro_deadline r of None \<Rightarrow> [] | Some d \<Rightarrow> format_time e d (ev_timezone ev)))]\<rparr> s)"

section \<open>Approve and reject\<close>

text \<open>Both amounts are \<open>int64\<close> values with \<open>0 \<le> due \<le> received\<close>, so their difference does not wrap.\<close>

definition new_receipt :: "staff \<Rightarrow> proof_row \<Rightarrow> order_head \<Rightarrow> approve_input \<Rightarrow> receipt_row" where
  "new_receipt actor p o' inp =
     \<lparr>rc_id = 0, rc_account = pf_account p, rc_txn_ref = pf_txn_ref p, rc_amount = ap_received inp,
      rc_received_at = ap_received_at inp, rc_proof = Some (pf_id p), rc_order = Some (oh_id o'),
      rc_match = (if oh_amount o' < ap_received inp then MatchException else MatchApplied),
      rc_recorded_by = Some (st_id actor)\<rparr>"

definition amount_too_low :: "int \<Rightarrow> goerr" where
  "amount_too_low cents =
     (let ps = [(''amountDue'', PStr (cents_str cents))]
      in AppErr (with_field ''receivedAmountCents'' (code_str CodeReceivedAmountTooLow) ps
           (with_params ps (new_err 422 CodeReceivedAmountTooLow))))"

definition record_overpaid :: "env \<Rightarrow> order_head \<Rightarrow> int \<Rightarrow> int \<Rightarrow> string option \<Rightarrow> db \<Rightarrow> db res" where
  "record_overpaid e o' receipt overpaid note s =
     (if 0 < overpaid
      then insert_exception e \<lparr>ex_id = 0, ex_no = [], ex_order = Some (oh_id o'), ex_receipt = receipt,
             ex_amount = overpaid, ex_note = note\<rparr> s
      else Inr s)"

definition approve_proof_tx :: "env \<Rightarrow> staff \<Rightarrow> int \<Rightarrow> approve_input \<Rightarrow> string option \<Rightarrow> db \<Rightarrow> db res" where
  "approve_proof_tx e actor i inp note s =
     bindE (lock_for_review i s) (\<lambda>(p, o').
     bindE (failIf (ap_received inp < oh_amount o') (amount_too_low (oh_amount o'))) (\<lambda>_.
     let (n, s1) = mark_payment_proof_approved (pf_id p) (st_id actor) (e_now e) s in
     bindE (failIf (n \<noteq> 1) state_conflict) (\<lambda>_.
     bindE (map_err from_pg (insert_payment_receipt (new_receipt actor p o' inp) s1)) (\<lambda>(receipt, s2).
     bindE (record_overpaid e o' receipt (ap_received inp - oh_amount o') note s2) (\<lambda>s3.
     bindE (confirm_paid e (oh_id o') (ap_received_at inp) s3) (\<lambda>s4.
       enqueue_proof_approved e (oh_id o') (pf_id p)
         (audit_record (review_audit actor ''payment_proof.approve'' p o') s4)))))))"

definition reject_proof_tx :: "env \<Rightarrow> staff \<Rightarrow> int \<Rightarrow> string \<Rightarrow> string option \<Rightarrow> db \<Rightarrow> db res" where
  "reject_proof_tx e actor i code reason s =
     bindE (lock_for_review i s) (\<lambda>(p, o').
     bindE (load_payment s) (\<lambda>cfg.
     let (n, s1) = mark_payment_proof_rejected (pf_id p) (st_id actor) (e_now e) code reason s in
     bindE (failIf (n \<noteq> 1) state_conflict) (\<lambda>_.
     bindE (mark_proof_rejected (oh_id o') (e_now e + ps_reupload cfg) s1) (\<lambda>s2.
       enqueue_proof_rejected e (oh_id o') (pf_id p) code reason
         (audit_record (review_audit actor ''payment_proof.reject'' p o') s2)))))"

record proof_detail =
  pd_view :: proof_view
  pd_order :: admin_order_detail

text \<open>\<open>GetProof\<close>.\<close>

definition get_proof :: "int \<Rightarrow> db \<Rightarrow> proof_detail res" where
  "get_proof i s =
     (case List.find (\<lambda>p. pf_id p = i) (proofs s) of
        None \<Rightarrow> Inl (app 404 CodeNotFound)
      | Some p \<Rightarrow>
          (case pf_order p of
             None \<Rightarrow> Inl (app 404 CodeNotFound)
           | Some oid \<Rightarrow>
               (case List.find (\<lambda>r. ro_id r = oid) (orders s) of
                  None \<Rightarrow> Inl (app 404 CodeNotFound)
                | Some r \<Rightarrow>
                    bindE (admin_get_order oid s) (\<lambda>d.
                      Inr \<lparr>pd_view = proof_from_row p (ro_no r), pd_order = d\<rparr>))))"

text \<open>The detail is read after the commit: its error does not undo the review.\<close>

definition approve_proof :: "env \<Rightarrow> staff \<Rightarrow> int \<Rightarrow> approve_input \<Rightarrow> db \<Rightarrow> (proof_detail res \<times> db) res" where
  "approve_proof e actor i inp s =
     (let note = trim_optional (ap_note inp) in
      bindE (validate_approve e inp note) (\<lambda>_.
      bindE (approve_proof_tx e actor i inp note s) (\<lambda>s'. Inr (get_proof i s', s'))))"

definition reject_proof :: "env \<Rightarrow> staff \<Rightarrow> int \<Rightarrow> reject_input \<Rightarrow> db \<Rightarrow> (proof_detail res \<times> db) res" where
  "reject_proof e actor i inp s =
     (let code = to_upper (trim_space (rj_in_code inp)); reason = trim_optional (rj_in_reason inp) in
      bindE (validate_reject code reason) (\<lambda>_.
      bindE (reject_proof_tx e actor i code reason s) (\<lambda>s'. Inr (get_proof i s', s'))))"

section \<open>The review queue\<close>

record queue_item =
  qu_view :: proof_view
  qu_amount :: int
  qu_event_name :: i18n_text
  qu_waiting_since :: gotime
  qu_over_sla :: bool

fun proof_status_str :: "proof_status \<Rightarrow> string" where
  "proof_status_str PfSubmitted = ''SUBMITTED''"
| "proof_status_str PfApproved = ''APPROVED''"
| "proof_status_str PfRejected = ''REJECTED''"
| "proof_status_str PfWithdrawn = ''WITHDRAWN''"

definition list_proof_queue :: "string \<Rightarrow> db \<Rightarrow> (proof_row \<times> order_row \<times> event_row) list" where
  "list_proof_queue status s =
     take 500 (concat (map (\<lambda>p. concat (map (\<lambda>r. map (\<lambda>ev. (p, r, ev))
         (filter (\<lambda>ev. ev_id ev = ro_event r) (events s)))
         (filter (\<lambda>r. pf_order p = Some (ro_id r)) (orders s))))
       (sort_key (\<lambda>p. (pf_created_at p, pf_id p))
         (filter (\<lambda>p. proof_status_str (pf_status p) = status) (proofs s)))))"

definition list_proofs :: "env \<Rightarrow> string \<Rightarrow> db \<Rightarrow> queue_item list res" where
  "list_proofs e status0 s =
     (let st = to_upper (trim_space status0); st = (if st = [] then ''SUBMITTED'' else st) in
      if st \<notin> {''SUBMITTED'', ''APPROVED'', ''REJECTED''}
      then Inl (AppErr (with_field ''status'' ''field.invalid'' [] validation_error))
      else bindE (load_payment s) (\<lambda>cfg.
        Inr (map (\<lambda>(p, r, ev). \<lparr>qu_view = proof_from_row p (ro_no r), qu_amount = ro_amount r,
               qu_event_name = ev_name ev, qu_waiting_since = pf_created_at p,
               qu_over_sla = (pf_status p = PfSubmitted \<and> ps_sla cfg < e_now e - pf_created_at p)\<rparr>)
             (list_proof_queue st s))))"

text \<open>\<open>IsProofFile\<close>: the only private files the proof endpoint opens.\<close>

definition is_proof_file :: "int \<Rightarrow> db \<Rightarrow> bool" where
  "is_proof_file i s \<longleftrightarrow> (\<exists>f\<in>set (files s). fl_id f = i \<and> fl_purpose f = ''PAYMENT_PROOF''
     \<and> fl_visibility f = ''PRIVATE'' \<and> (\<exists>p\<in>set (proofs s). pf_file p = fl_id f))"

definition open_proof_file :: "env \<Rightarrow> int \<Rightarrow> db \<Rightarrow> disk \<Rightarrow> (file_row \<times> string) res" where
  "open_proof_file e i s d = (if \<not> is_proof_file i s then Inl (app 404 CodeNotFound) else open_private_file e i s d)"

end
