(* ===== verification/Deadline.thy ===== *)
theory Deadline
  imports Notify Placement
begin

text \<open>
  \<open>internal/registration/deadline.go\<close>: the periodic job that releases the
  orders past their deadline batch by batch, registers payment reminders and
  purges expired idempotency keys.  The batch loop terminates because every
  further round has released an order, and an order released is no longer due.
\<close>

section \<open>Expiring due orders\<close>

definition deadline_batch_size :: nat where "deadline_batch_size = 100"
definition reminder_window :: int where "reminder_window = 10 * minute"
definition idempotency_purge_batch :: nat where "idempotency_purge_batch = 1000"

definition due :: "gotime \<Rightarrow> order_row \<Rightarrow> bool" where
  "due as_of r \<longleftrightarrow> (ro_status r = PendingPayment \<or> ro_status r = ProofRejected)
     \<and> (case ro_deadline r of None \<Rightarrow> False | Some d \<Rightarrow> d \<le> as_of)"

text \<open>
  \<open>ListDueOrderIDsForExpiry\<close>: \<open>FOR UPDATE SKIP LOCKED\<close> passes over the rows that other transactions hold locked,
  before the limit is counted.
\<close>

abbreviation free_due :: "int list \<Rightarrow> gotime \<Rightarrow> order_row \<Rightarrow> bool" where
  "free_due locked as_of r \<equiv> due as_of r \<and> ro_id r \<notin> set locked"

definition list_due_order_ids :: "gotime \<Rightarrow> nat \<Rightarrow> int list \<Rightarrow> db \<Rightarrow> int list" where
  "list_due_order_ids as_of limit locked s =
     map ro_id (take limit (sort_key (\<lambda>r. (case ro_deadline r of None \<Rightarrow> 0 | Some d \<Rightarrow> d, ro_id r))
       (filter (free_due locked as_of) (orders s))))"

definition system_entry :: "string \<Rightarrow> int \<Rightarrow> int \<Rightarrow> audit_row" where
  "system_entry action order_id event_id =
     \<lparr>au_actor_type = ''SYSTEM'', au_actor = None, au_role = None, au_action = action,
      au_entity_type = ''reg_order'', au_entity = order_id, au_event = Some event_id, au_financial = True\<rparr>"

text \<open>\<open>expireOrder\<close>; \<open>False\<close> when the conditional update did not match.\<close>

definition expire_order :: "env \<Rightarrow> int \<Rightarrow> db \<Rightarrow> (bool \<times> db) res" where
  "expire_order e i s =
     (case List.find (\<lambda>r. ro_id r = i) (orders s) of
        None \<Rightarrow> Inl (OtherErr ''load order: no rows'')
      | Some before \<Rightarrow>
          bindE (release_order e i ReleaseExpired s) (\<lambda>(released, s1).
          if \<not> released then Inr (False, s1)
          else let s2 = audit_record (system_entry ''reg_order.expire'' i (ro_event before)) s1
               in case ro_buyer before of
                    None \<Rightarrow> Inr (True, s2)
                  | Some u \<Rightarrow>
                      bindE (enqueue e \<lparr>nt_template = OrderExpiredMsg, nt_user = u, nt_order = i, nt_proof = None,
                               nt_dedupe = [], nt_params = [(''orderNo'', NpString (ro_no before))]\<rparr> s2)
                        (\<lambda>s3. Inr (True, s3))))"

definition expire_step :: "env \<Rightarrow> int \<Rightarrow> nat \<times> db \<Rightarrow> (nat \<times> db) res" where
  "expire_step e i = (\<lambda>(n, s). bindE (expire_order e i s) (\<lambda>(ok, s'). Inr (if ok then Suc n else n, s')))"

text \<open>\<open>expireDueBatch\<close>: rows selected, orders released.  \<open>locked\<close> are the orders locked by others when the query runs;
  the locks the batch takes itself have no effect on one transaction.\<close>

definition expire_due_batch :: "env \<Rightarrow> int list \<Rightarrow> gotime \<Rightarrow> db \<Rightarrow> (nat \<times> nat \<times> db) res" where
  "expire_due_batch e locked as_of s =
     (let ids = list_due_order_ids as_of deadline_batch_size locked s
      in if ids = [] then Inr (0, 0, s)
         else bindE (foldE (expire_step e) ids (0, s)) (\<lambda>(released, s'). Inr (length ids, released, s')))"

section \<open>A released order is no longer due\<close>

definition due_count :: "gotime \<Rightarrow> db \<Rightarrow> nat" where
  "due_count as_of s = rows_where (due as_of) (orders s)"

lemma move_counters_orders:
  assumes "move_counters c i s = Inr s'"
  shows "orders s' = orders s"
proof -
  from assms [unfolded move_counters_def] obtain cats where
    "bindE (stmt_loop (if c then consume_price_rule_seats else release_price_rule_seats)
              (\<lambda>_. counter_err ''price rule'') (list_order_price_rule_seats i s) (price_rules s)) (\<lambda>rules.
     let s1 = s\<lparr>categories := cats, price_rules := rules\<rparr>
     in case mark_coupon_redemption (if c then Consumed else Released) i (redemptions s1) of
          None \<Rightarrow> Inr s1
        | Some (i, reds) \<Rightarrow>
            (case (if c then consume_coupon_use else release_coupon_use) i (coupons s1) of
               None \<Rightarrow> Inl (counter_err ''coupon'')
             | Some cps \<Rightarrow> Inr (s1\<lparr>redemptions := reds, coupons := cps\<rparr>))) = Inr s'"
    by (rule bindE_InrE)
  then obtain rules where
    "(let s1 = s\<lparr>categories := cats, price_rules := rules\<rparr>
     in case mark_coupon_redemption (if c then Consumed else Released) i (redemptions s1) of
          None \<Rightarrow> Inr s1
        | Some (i, reds) \<Rightarrow>
            (case (if c then consume_coupon_use else release_coupon_use) i (coupons s1) of
               None \<Rightarrow> Inl (counter_err ''coupon'')
             | Some cps \<Rightarrow> Inr (s1\<lparr>redemptions := reds, coupons := cps\<rparr>))) = Inr s'"
    by (rule bindE_InrE)
  then show ?thesis
    by (simp add: Let_def split: option.splits prod.splits) (hypsubst; simp)+
qed

lemma release_order_orders:
  assumes "release_order e i ReleaseExpired s = Inr (b, s')"
  shows "orders s' = update_where (\<lambda>r. ro_id r = i \<and> releasable ReleaseExpired r) (release_row ReleaseExpired (e_now e)) (orders s)"
    "b \<longleftrightarrow> (\<exists>r\<in>set (orders s). ro_id r = i \<and> releasable ReleaseExpired r)"
proof -
  let ?P = "\<lambda>r. ro_id r = i \<and> releasable ReleaseExpired r" and ?f = "release_row ReleaseExpired (e_now e)"
  have st: "release_order_expired (e_now e) i s = (rows_where ?P (orders s), with_orders ?P ?f s)"
    using release_stmt_eq [where kind = ReleaseExpired and at = "e_now e" and i = i and s = s] by simp
  have *: "orders s' = update_where ?P ?f (orders s) \<and> (b \<longleftrightarrow> rows_where ?P (orders s) \<noteq> 0)"
  proof (cases "rows_where ?P (orders s) = 0")
    case True
    with assms st show ?thesis by (auto simp: release_order_def simp del: rows_where_0_iff)
  next
    case False
    from assms have "bindE (release i (with_orders ?P ?f s)) (\<lambda>s2. Inr (True, cancel_order_registrations ReleaseExpired i s2)) = Inr (b, s')"
      using st False by (simp add: release_order_def del: rows_where_0_iff)
    then obtain s2 where s2: "release i (with_orders ?P ?f s) = Inr s2"
      "Inr (True, cancel_order_registrations ReleaseExpired i s2) = (Inr (b, s') :: (bool \<times> db) res)" by (rule bindE_InrE)
    from move_counters_orders s2(1) have "orders s2 = update_where ?P ?f (orders s)" by (fastforce simp: release_def)
    with s2(2) False show ?thesis by (auto simp: cancel_order_registrations_def simp del: rows_where_0_iff)
  qed
  then show "orders s' = update_where ?P ?f (orders s)" by blast
  from * show "b \<longleftrightarrow> (\<exists>r\<in>set (orders s). ?P r)" by auto
qed

lemma release_row_not_due [simp]: "\<not> due as_of (release_row ReleaseExpired at r)"
  by (simp add: due_def release_row_def)

lemma releasable_expired: "releasable ReleaseExpired r \<longleftrightarrow>
  ro_state r = Reserved \<and> (ro_status r = PendingPayment \<or> ro_status r = ProofRejected)"
  by (auto simp: releasable_def)

lemma expire_order_Inr:
  assumes "expire_order e i s = Inr (b, s')"
  obtains s1 where "release_order e i ReleaseExpired s = Inr (b, s1)"
    "core s' = core s1"
proof -
  from assms obtain before where bf: "List.find (\<lambda>r. ro_id r = i) (orders s) = Some before"
    by (cases "List.find (\<lambda>r. ro_id r = i) (orders s)") (simp_all add: expire_order_def)
  note A = assms [unfolded expire_order_def bf option.case]
  from A obtain y where "release_order e i ReleaseExpired s = Inr y" by (rule bindE_InrE)
  then obtain b1 s1 where r: "release_order e i ReleaseExpired s = Inr (b1, s1)" by (cases y) blast
  note B = A [unfolded r bindE_simps prod.case]
  show thesis
  proof (cases b1)
    case False
    with B have "b = b1" "s' = s1" by simp_all
    with r show thesis by (intro that) simp_all
  next
    case True
    let ?s2 = "audit_record (system_entry ''reg_order.expire'' i (ro_event before)) s1"
    show thesis
    proof (cases "ro_buyer before")
      case None
      with B True have "b" "s' = ?s2" by (simp_all add: Let_def)
      with r True show thesis by (intro that) simp_all
    next
      case (Some u)
      let ?n = "\<lparr>nt_template = OrderExpiredMsg, nt_user = u, nt_order = i, nt_proof = None,
         nt_dedupe = [], nt_params = [(''orderNo'', NpString (ro_no before))]\<rparr>"
      from B True Some have n: "bindE (enqueue e ?n ?s2) (\<lambda>s3. Inr (True, s3)) = Inr (b, s')"
        by (simp add: Let_def)
      then obtain s3 where s3: "enqueue e ?n ?s2 = Inr s3" "Inr (True, s3) = (Inr (b, s') :: (bool \<times> db) res)"
        by (rule bindE_InrE)
      from enqueue_core [OF s3(1)] s3(2) have "core s' = core s1" by simp
      with s3(2) r True show thesis by (intro that) simp_all
    qed
  qed
qed

abbreviation expired_row :: "env \<Rightarrow> order_row \<Rightarrow> order_row" where
  "expired_row e \<equiv> release_row ReleaseExpired (e_now e)"

lemma expire_order_orders:
  assumes "expire_order e i s = Inr (b, s')"
  shows "orders s' = update_where (\<lambda>r. ro_id r = i \<and> releasable ReleaseExpired r) (expired_row e) (orders s)"
    "b \<longleftrightarrow> (\<exists>r\<in>set (orders s). ro_id r = i \<and> releasable ReleaseExpired r)"
proof -
  from expire_order_Inr [OF assms] obtain s1 where
    s1: "release_order e i ReleaseExpired s = Inr (b, s1)" "core s' = core s1" .
  from release_order_orders [OF s1(1)] coreD(6) [OF s1(2)]
  show "orders s' = update_where (\<lambda>r. ro_id r = i \<and> releasable ReleaseExpired r) (expired_row e) (orders s)"
    "b \<longleftrightarrow> (\<exists>r\<in>set (orders s). ro_id r = i \<and> releasable ReleaseExpired r)" by simp_all
qed

lemma expired_row_simps [simp]: "ro_id (expired_row e r) = ro_id r" "\<not> releasable k (expired_row e r)"
  by (simp_all add: release_row_def releasable_def)

lemma update_where_twice:
  assumes "\<And>r. P (f r) = P r" and "\<And>r. Q (f r) = Q r" and "\<And>r. \<not> X (f r)"
  shows "update_where (\<lambda>r. Q r \<and> X r) f (update_where (\<lambda>r. P r \<and> X r) f t)
    = update_where (\<lambda>r. (P r \<or> Q r) \<and> X r) f t"
  using assms by (induction t) auto

lemma expire_step_Inr:
  assumes "expire_step e i (n, s) = Inr p"
  obtains b s1 where "expire_order e i s = Inr (b, s1)" "p = (if b then Suc n else n, s1)"
  using assms by (auto simp: expire_step_def bindE_Inr_iff)

text \<open>The whole batch: the rows released, and how many orders that were.\<close>

lemma expire_loop:
  assumes "foldE (expire_step e) ids (n, s) = Inr (m, s')"
  shows "orders s' = update_where (\<lambda>r. ro_id r \<in> set ids \<and> releasable ReleaseExpired r) (expired_row e) (orders s)
    \<and> n \<le> m \<and> (m = n \<longrightarrow> (\<forall>r\<in>set (orders s). ro_id r \<in> set ids \<longrightarrow> \<not> releasable ReleaseExpired r))"
  using assms
proof (induction ids arbitrary: n s)
  case Nil
  then show ?case by (simp add: update_where_none)
next
  case (Cons i ids)
  from Cons.prems obtain p where p: "expire_step e i (n, s) = Inr p" "foldE (expire_step e) ids p = Inr (m, s')"
    unfolding foldE.simps by (rule bindE_InrE)
  from p(1) obtain b s1 where st: "expire_order e i s = Inr (b, s1)" and "p = (if b then Suc n else n, s1)"
    by (rule expire_step_Inr)
  with p(2) have rest: "foldE (expire_step e) ids (if b then Suc n else n, s1) = Inr (m, s')" by simp
  note o1 = expire_order_orders [OF st] and IH = Cons.IH [OF rest]
  have "orders s' = update_where (\<lambda>r. (ro_id r = i \<or> ro_id r \<in> set ids) \<and> releasable ReleaseExpired r) (expired_row e) (orders s)"
    using IH o1(1) by (simp add: update_where_twice)
  moreover have "n \<le> m" using IH by (auto split: if_splits)
  moreover have "\<forall>r\<in>set (orders s). ro_id r \<in> set (i # ids) \<longrightarrow> \<not> releasable ReleaseExpired r" if "m = n"
  proof -
    have nb: "\<not> b" using IH that by (auto split: if_splits)
    with o1 have "orders s1 = orders s" by (auto intro!: update_where_none)
    with IH nb that o1(2) show ?thesis by auto
  qed
  ultimately show ?case by simp
qed

section \<open>The batch loop\<close>

definition open_count :: "db \<Rightarrow> nat" where
  "open_count s = rows_where (releasable ReleaseExpired) (orders s)"

lemma batch_orders:
  assumes "expire_due_batch e lk t s = Inr (sel, rel, s')"
  shows "sel = length (list_due_order_ids t deadline_batch_size lk s)"
    "orders s' = update_where (\<lambda>r. ro_id r \<in> set (list_due_order_ids t deadline_batch_size lk s) \<and> releasable ReleaseExpired r)
       (expired_row e) (orders s)"
    "rel = 0 \<longrightarrow> (\<forall>r\<in>set (orders s). ro_id r \<in> set (list_due_order_ids t deadline_batch_size lk s) \<longrightarrow> \<not> releasable ReleaseExpired r)"
proof -
  let ?ids = "list_due_order_ids t deadline_batch_size lk s"
  have "sel = length ?ids \<and> orders s' = update_where (\<lambda>r. ro_id r \<in> set ?ids \<and> releasable ReleaseExpired r) (expired_row e) (orders s)
    \<and> (rel = 0 \<longrightarrow> (\<forall>r\<in>set (orders s). ro_id r \<in> set ?ids \<longrightarrow> \<not> releasable ReleaseExpired r))"
  proof (cases "?ids = []")
    case True
    with assms show ?thesis by (simp add: expire_due_batch_def update_where_none)
  next
    case False
    with assms have "bindE (foldE (expire_step e) ?ids (0, s)) (\<lambda>(rel', s1). Inr (length ?ids, rel', s1)) = Inr (sel, rel, s')"
      by (simp add: expire_due_batch_def Let_def)
    then obtain y where y: "foldE (expire_step e) ?ids (0, s) = Inr y" "(case y of (rel', s1) \<Rightarrow> Inr (length ?ids, rel', s1))
        = (Inr (sel, rel, s') :: (nat \<times> nat \<times> db) res)"
      by (rule bindE_InrE)
    then have f: "foldE (expire_step e) ?ids (0, s) = Inr (rel, s')" and "sel = length ?ids" by (cases y; simp)+
    with expire_loop [OF f] show ?thesis by simp
  qed
  then show "sel = length ?ids"
    "orders s' = update_where (\<lambda>r. ro_id r \<in> set ?ids \<and> releasable ReleaseExpired r) (expired_row e) (orders s)"
    "rel = 0 \<longrightarrow> (\<forall>r\<in>set (orders s). ro_id r \<in> set ?ids \<longrightarrow> \<not> releasable ReleaseExpired r)" by blast+
qed

text \<open>A round that released an order leaves fewer orders that can be released.\<close>

lemma batch_progress:
  assumes "expire_due_batch e lk t s = Inr (sel, rel, s')" and "rel \<noteq> 0"
  shows "open_count s' < open_count s"
proof -
  let ?ids = "list_due_order_ids t deadline_batch_size lk s" and ?X = "releasable ReleaseExpired"
  let ?P = "\<lambda>r. ro_id r \<in> set ?ids \<and> ?X r"
  note b = batch_orders [OF assms(1)]
  have "\<exists>r\<in>set (orders s). ?P r"
  proof (rule ccontr)
    assume "\<not> ?thesis"
    then have none: "\<And>r. r \<in> set (orders s) \<Longrightarrow> \<not> ?P r" by blast
    have "m = n" if "foldE (expire_step e) ids (n, s0) = Inr (m, s1)" "set ids \<subseteq> set ?ids" "orders s0 = orders s" for ids n m s0 s1
      using that
    proof (induction ids arbitrary: n s0)
      case (Cons i ids)
      from Cons.prems(1) obtain p where p: "expire_step e i (n, s0) = Inr p" "foldE (expire_step e) ids p = Inr (m, s1)"
        unfolding foldE.simps by (rule bindE_InrE)
      from p(1) obtain b' s2 where st: "expire_order e i s0 = Inr (b', s2)" and pp: "p = (if b' then Suc n else n, s2)"
        by (rule expire_step_Inr)
      note o = expire_order_orders [OF st]
      have nb: "\<not> b'" using o(2) none Cons.prems(2,3) by auto
      with o Cons.prems(3) have "orders s2 = orders s" by (auto intro!: update_where_none)
      with Cons.IH [of n s2] p(2) pp nb Cons.prems(2) show ?case by simp
    qed simp
    moreover have "\<exists>s1. foldE (expire_step e) ?ids (0, s) = Inr (rel, s1)"
      using assms by (simp add: expire_due_batch_def Let_def bindE_Inr_iff split: if_splits)
    ultimately have "rel = 0" by blast
    with assms(2) show False by simp
  qed
  then obtain r where r: "r \<in> set (orders s)" "?P r" by blast
  have "open_count s' = rows_where (\<lambda>r. ?X r \<and> \<not> ?P r) (orders s)"
    unfolding open_count_def b(2) rows_where_update_where by (rule rows_where_cong) auto
  moreover have "open_count s = rows_where (\<lambda>r. ?X r \<and> ?P r) (orders s) + rows_where (\<lambda>r. ?X r \<and> \<not> ?P r) (orders s)"
    unfolding open_count_def by (rule rows_where_split)
  moreover have "rows_where (\<lambda>r. ?X r \<and> ?P r) (orders s) \<noteq> 0"
    using r by (simp only: rows_where_0_iff) blast
  ultimately show ?thesis by linarith
qed

text \<open>\<open>ProcessDeadlines\<close>, first half: batches until one is not full, releases nothing, or fails.\<close>

function expire_all :: "env \<Rightarrow> gotime \<Rightarrow> db \<Rightarrow> nat \<Rightarrow> nat \<times> goerr option \<times> db" where
  "expire_all e as_of s expired =
     (case expire_due_batch e (e_locked e expired) as_of s of
        Inl err \<Rightarrow> (expired, Some err, s)
      | Inr (selected, released, s') \<Rightarrow>
          if selected < deadline_batch_size \<or> released = 0 then (expired + released, None, s')
          else expire_all e as_of s' (expired + released))"
  by pat_completeness auto
termination
  by (relation "measure (\<lambda>(e, as_of, s, expired). open_count s)") (auto dest: batch_progress)

declare expire_all.simps [simp del]

section \<open>What the loop does\<close>

lemma core_ok:
  assumes "core s' = core s"
  shows "db_ok s' = db_ok s"
  by (rule db_ok_cong) (simp_all only: coreD [OF assms])

lemma expire_order_ok:
  assumes "db_ok s" and "expire_order e i s = Inr (b, s')"
  shows "db_ok s'"
proof -
  from expire_order_Inr [OF assms(2)] obtain s1 where
    s1: "release_order e i ReleaseExpired s = Inr (b, s1)" "core s' = core s1" .
  from release_order_ok [OF assms(1) s1(1)] core_ok [OF s1(2)] show ?thesis by simp
qed

lemma expire_order_unique:
  assumes "db_ok s" and "unique_live s" and "expire_order e i s = Inr (b, s')"
  shows "unique_live s'"
proof -
  from expire_order_Inr [OF assms(3)] obtain s1 where
    s1: "release_order e i ReleaseExpired s = Inr (b, s1)" "core s' = core s1" .
  from release_order_unique [OF assms(1,2) s1(1)] coreD(8) [OF s1(2)] show ?thesis by (simp add: unique_live_def)
qed

lemma foldE_pair_inv:
  assumes "foldE f xs (n, s) = Inr (m, s')" and "P s"
    and "\<And>x n s m s'. P s \<Longrightarrow> f x (n, s) = Inr (m, s') \<Longrightarrow> P s'"
  shows "P s'"
proof -
  have "P (snd (m, s'))"
    by (rule foldE_inv [OF assms(1), where P = "\<lambda>p. P (snd p)"]) (use assms(2,3) in \<open>auto simp: split_paired_all\<close>)
  then show ?thesis by simp
qed

text \<open>Whatever every expiry of one order keeps is kept by a batch, hence by the loop.\<close>

lemma expire_due_batch_inv:
  assumes "expire_due_batch e lk t s = Inr (sel, rel, s')" and "P s"
    and "\<And>i s b s'. P s \<Longrightarrow> expire_order e i s = Inr (b, s') \<Longrightarrow> P s'"
  shows "P s'"
proof (cases "list_due_order_ids t deadline_batch_size lk s = []")
  case True
  with assms(1,2) show ?thesis by (simp add: expire_due_batch_def)
next
  case False
  with assms(1) have f: "foldE (expire_step e) (list_due_order_ids t deadline_batch_size lk s) (0, s) = Inr (rel, s')"
    by (simp add: expire_due_batch_def Let_def bindE_Inr_iff)
  show ?thesis
    by (rule foldE_pair_inv [where P = P, OF f assms(2)]) (erule expire_step_Inr, auto intro: assms(3))
qed

lemma expire_all_inv:
  assumes "expire_all e t s k = (n, err, s')" and "P s"
    and "\<And>i s b s'. P s \<Longrightarrow> expire_order e i s = Inr (b, s') \<Longrightarrow> P s'"
  shows "P s'"
  using assms
proof (induction e t s k rule: expire_all.induct)
  case (1 e as_of s k)
  show ?case
  proof (cases "expire_due_batch e (e_locked e k) as_of s")
    case (Inl err)
    with "1.prems" show ?thesis by (simp add: expire_all.simps [of e as_of s k])
  next
    case (Inr r)
    obtain sel rel s1 where r: "r = (sel, rel, s1)" by (cases r)
    with Inr have b: "expire_due_batch e (e_locked e k) as_of s = Inr (sel, rel, s1)" by simp
    have P: "P s1" by (rule expire_due_batch_inv [where P = P, OF b "1.prems"(2,3)])
    show ?thesis
    proof (cases "sel < deadline_batch_size \<or> rel = 0")
      case True
      with "1.prems"(1) b have "s' = s1" by (simp add: expire_all.simps [of e as_of s k])
      with P show ?thesis by simp
    next
      case False
      with "1.prems"(1) b have "expire_all e as_of s1 (k + rel) = (n, err, s')"
        by (simp add: expire_all.simps [of e as_of s k])
      from "1.IH" [OF b refl refl False this P "1.prems"(3)] show ?thesis .
    qed
  qed
qed

lemma due_releasable:
  assumes "db_ok s" and "r \<in> set (orders s)" and "due t r"
  shows "releasable ReleaseExpired r"
  using order_row_of [OF assms(1,2)] assms(3)
  by (cases "ro_state r") (auto simp: order_ok_def due_def releasable_expired open_status_def)

lemma set_take_sort:
  assumes "length (filter P xs) \<le> n"
  shows "set (take n (sort_key f (filter P xs))) = {x \<in> set xs. P x}"
  using assms by simp

text \<open>The orders of a batch are due, and a batch that is not full has all that are not locked.\<close>

lemma batch_due:
  assumes ok: "db_ok s" and "r \<in> set (orders s)"
  shows "ro_id r \<in> set (list_due_order_ids t n lk s) \<Longrightarrow> free_due lk t r"
    "length (list_due_order_ids t n lk s) < n \<Longrightarrow> free_due lk t r \<Longrightarrow> ro_id r \<in> set (list_due_order_ids t n lk s)"
    "list_due_order_ids t n lk s = [] \<Longrightarrow> 0 < n \<Longrightarrow> \<not> free_due lk t r"
proof -
  have K: "distinct (map ro_id (orders s))" using ok by (simp add: db_ok_def keys_ok_def)
  let ?key = "\<lambda>r. (case ro_deadline r of None \<Rightarrow> 0 | Some d \<Rightarrow> d, ro_id r)"
  let ?L = "sort_key ?key (filter (free_due lk t) (orders s))"
  have L: "list_due_order_ids t n lk s = map ro_id (take n ?L)" by (simp add: list_due_order_ids_def)
  have sub: "set (take n ?L) \<subseteq> {x \<in> set (orders s). free_due lk t x}"
    using set_take_subset [of n ?L] by auto
  show "free_due lk t r" if h: "ro_id r \<in> set (list_due_order_ids t n lk s)"
  proof -
    from h L obtain x where "x \<in> set (take n ?L)" "ro_id x = ro_id r" by auto
    with sub distinct_key_eq [OF K _ assms(2)] show ?thesis by blast
  qed
  show "ro_id r \<in> set (list_due_order_ids t n lk s)" if h: "length (list_due_order_ids t n lk s) < n" "free_due lk t r"
  proof -
    from h(1) L have "take n ?L = ?L" by (simp add: min_def split: if_splits)
    with L h(2) assms(2) show ?thesis by simp
  qed
  show "\<not> free_due lk t r" if h: "list_due_order_ids t n lk s = []" "0 < n"
  proof -
    from h L have "take n ?L = []" by simp
    with h(2) have "?L = []" by simp
    then have "set ?L = {}" by simp
    with assms(2) show ?thesis by simp
  qed
qed

text \<open>
  When the loop ends without an error, only orders that were due have been released, and every one of
  them that the query of the last batch could see; every other row is as before.
\<close>

lemma batch_rows:
  assumes ok: "db_ok s" and b: "expire_due_batch e lk t s = Inr (sel, rel, s1)"
  shows "\<exists>Q. orders s1 = update_where Q (expired_row e) (orders s) \<and> (\<forall>r\<in>set (orders s). Q r \<longrightarrow> due t r)
    \<and> (sel < deadline_batch_size \<or> rel = 0 \<longrightarrow> (\<forall>r\<in>set (orders s). free_due lk t r \<longrightarrow> Q r))"
proof -
  let ?ids = "list_due_order_ids t deadline_batch_size lk s"
  let ?Q = "\<lambda>r. ro_id r \<in> set ?ids \<and> releasable ReleaseExpired r"
  note B = batch_orders [OF b]
  have pos: "0 < deadline_batch_size" by (simp add: deadline_batch_size_def)
  have "?Q r" if r: "r \<in> set (orders s)" "free_due lk t r" and c: "sel < deadline_batch_size \<or> rel = 0" for r
  proof (cases "rel = 0")
    case True
    have sub: "set ?ids \<subseteq> ro_id ` set (orders s)"
      using set_take_subset by (fastforce simp: list_due_order_ids_def)
    show ?thesis
    proof (cases "?ids = []")
      case True
      with batch_due(3) [OF ok r(1) True pos] r(2) show ?thesis by blast
    next
      case False
      then obtain i where "i \<in> set ?ids" by (meson last_in_set)
      with sub obtain x where x: "x \<in> set (orders s)" "ro_id x \<in> set ?ids" by auto
      from batch_due(1) [OF ok x] have "due t x" by blast
      from due_releasable [OF ok x(1) this] have "releasable ReleaseExpired x" .
      with B(3) True x show ?thesis by blast
    qed
  next
    case False
    with c B(1) batch_due(2) [OF ok r(1) _ r(2)] due_releasable [OF ok r(1)] r(2) show ?thesis by blast
  qed
  moreover have "\<forall>r\<in>set (orders s). ?Q r \<longrightarrow> due t r" using batch_due(1) [OF ok] by blast
  ultimately show ?thesis using B(2) by blast
qed

lemma expire_all_rows:
  assumes "db_ok s" and "expire_all e t s k = (n, None, s')"
  shows "\<exists>Q. orders s' = update_where Q (expired_row e) (orders s) \<and> (\<forall>r\<in>set (orders s). Q r \<longrightarrow> due t r)
    \<and> (\<exists>j. k \<le> j \<and> j \<le> n \<and> (\<forall>r\<in>set (orders s). free_due (e_locked e j) t r \<longrightarrow> Q r))"
  using assms
proof (induction e t s k rule: expire_all.induct)
  case (1 e t s k)
  from "1.prems"(2) obtain sel rel s1 where b: "expire_due_batch e (e_locked e k) t s = Inr (sel, rel, s1)"
    by (cases "expire_due_batch e (e_locked e k) t s") (auto simp: expire_all.simps [of e t s k])
  from batch_rows [OF "1.prems"(1) b] obtain Q where
    Q: "orders s1 = update_where Q (expired_row e) (orders s)" "\<forall>r\<in>set (orders s). Q r \<longrightarrow> due t r"
    "sel < deadline_batch_size \<or> rel = 0 \<longrightarrow> (\<forall>r\<in>set (orders s). free_due (e_locked e k) t r \<longrightarrow> Q r)" by blast
  show ?case
  proof (cases "sel < deadline_batch_size \<or> rel = 0")
    case True
    with "1.prems"(2) b have "s' = s1" "n = k + rel" by (simp_all add: expire_all.simps [of e t s k])
    with Q True show ?thesis by (intro exI [of _ Q] exI [of _ k] conjI) simp_all
  next
    case False
    with "1.prems"(2) b have r: "expire_all e t s1 (k + rel) = (n, None, s')"
      by (simp add: expire_all.simps [of e t s k])
    have "db_ok s1" by (rule expire_due_batch_inv [where P = db_ok, OF b "1.prems"(1)]) (rule expire_order_ok)
    from "1.IH" [OF b refl refl False this r] obtain R j where
      R: "orders s' = update_where R (expired_row e) (orders s1)" "\<forall>r\<in>set (orders s1). R r \<longrightarrow> due t r"
      and j: "k + rel \<le> j" "j \<le> n" "\<forall>r\<in>set (orders s1). free_due (e_locked e j) t r \<longrightarrow> R r" by blast
    let ?Q = "\<lambda>r. Q r \<or> R r"
    have old: "r \<in> set (orders s1)" if "r \<in> set (orders s)" "\<not> Q r" for r
      using that unfolding Q(1) set_update_where by force
    have new: "\<not> R (expired_row e r)" if "r \<in> set (orders s)" "Q r" for r
    proof -
      from that have "expired_row e r \<in> set (orders s1)" unfolding Q(1) set_update_where by force
      with R(2) show ?thesis by auto
    qed
    have "orders s' = update_where ?Q (expired_row e) (orders s)"
      unfolding R(1) Q(1) using new by (auto simp: update_where_def)
    moreover have "\<forall>r\<in>set (orders s). ?Q r \<longrightarrow> due t r" using old Q(2) R(2) by blast
    moreover have "\<forall>r\<in>set (orders s). free_due (e_locked e j) t r \<longrightarrow> ?Q r" using old j(3) by blast
    moreover have "k \<le> j" using j(1) by simp
    ultimately show ?thesis using j(2) by blast
  qed
qed

lemma expire_all_ok: "db_ok s \<Longrightarrow> expire_all e t s k = (n, err, s') \<Longrightarrow> db_ok s'"
  using expire_all_inv [where P = db_ok] expire_order_ok by blast

lemma expire_all_unique:
  assumes "db_ok s" and "unique_live s" and "expire_all e t s k = (n, err, s')"
  shows "unique_live s'"
proof -
  have "db_ok s' \<and> unique_live s'"
    by (rule expire_all_inv [where P = "\<lambda>s. db_ok s \<and> unique_live s", OF assms(3)])
      (use assms(1,2) expire_order_ok expire_order_unique in blast)+
  then show ?thesis ..
qed

section \<open>Reminders and purging\<close>

definition unix_seconds :: "gotime \<Rightarrow> int" where
  "unix_seconds t = t div second"

definition reminder_dedupe_key :: "int \<Rightarrow> gotime \<Rightarrow> string" where
  "reminder_dedupe_key i d = ''reminder:'' @ int_str i @ '':'' @ int_str (unix_seconds d)"

text \<open>\<open>ListOrdersDueForReminder\<close>: the order, its deadline and the event's zone.\<close>

definition list_orders_due_for_reminder :: "gotime \<Rightarrow> gotime \<Rightarrow> db \<Rightarrow> (order_row \<times> gotime \<times> string) list" where
  "list_orders_due_for_reminder as_of until s =
     sort_key (\<lambda>(r, d, z). (d, ro_id r))
       (concat (map (\<lambda>r. case ro_deadline r of
            None \<Rightarrow> []
          | Some d \<Rightarrow>
              if (ro_status r = PendingPayment \<or> ro_status r = ProofRejected) \<and> as_of < d \<and> d \<le> until
                 \<and> (\<exists>u\<in>set (users s). ro_buyer r = Some (us_id u) \<and> us_telegram u \<noteq> None)
                 \<and> (\<forall>l\<in>set (notify_logs s). nl_dedupe l \<noteq> reminder_dedupe_key (ro_id r) d)
              then map (\<lambda>ev. (r, d, ev_timezone ev)) (filter (\<lambda>ev. ev_id ev = ro_event r) (events s))
              else []) (orders s)))"

definition remind_step :: "env \<Rightarrow> order_row \<times> gotime \<times> string \<Rightarrow> nat \<times> db \<Rightarrow> (nat \<times> db) res" where
  "remind_step e = (\<lambda>(r, d, z) (n, s).
     case ro_buyer r of
       None \<Rightarrow> Inr (n, s)
     | Some u \<Rightarrow>
         bindE (enqueue e \<lparr>nt_template = DeadlineReminder, nt_user = u, nt_order = ro_id r, nt_proof = None,
                  nt_dedupe = reminder_dedupe_key (ro_id r) d,
                  nt_params = [(''orderNo'', NpString (ro_no r)), (''deadline'', NpString (format_time e d z))]\<rparr> s)
           (\<lambda>s'. Inr (Suc n, s')))"

definition enqueue_deadline_reminders :: "env \<Rightarrow> gotime \<Rightarrow> db \<Rightarrow> (nat \<times> db) res" where
  "enqueue_deadline_reminders e as_of s =
     foldE (remind_step e) (list_orders_due_for_reminder as_of (as_of + reminder_window) s) (0, s)"

record deadline_report =
  dr_expired :: nat
  dr_reminded :: nat
  dr_errors :: "goerr list"

text \<open>\<open>ProcessDeadlines\<close>: a failed batch stops the expiry but not the reminders; errors are joined.\<close>

definition process_deadlines :: "env \<Rightarrow> db \<Rightarrow> deadline_report \<times> db" where
  "process_deadlines e s =
     (let as_of = e_now e; (expired, err, s1) = expire_all e as_of s 0;
          errs = (case err of None \<Rightarrow> [] | Some x \<Rightarrow> [x])
      in case enqueue_deadline_reminders e as_of s1 of
           Inl err2 \<Rightarrow> (\<lparr>dr_expired = expired, dr_reminded = 0, dr_errors = errs @ [err2]\<rparr>, s1)
         | Inr (n, s2) \<Rightarrow> (\<lparr>dr_expired = expired, dr_reminded = n, dr_errors = errs\<rparr>, s2))"

text \<open>\<open>PurgeExpiredIdempotencyKeys\<close>; the statement does not order the rows it limits, the model takes the first.\<close>

fun purge_rows :: "nat \<Rightarrow> gotime \<Rightarrow> idem_row list \<Rightarrow> nat \<times> idem_row list" where
  "purge_rows limit now [] = (0, [])"
| "purge_rows limit now (r # t) =
     (if 0 < limit \<and> ik_expires_at r < now
      then (let (n, t') = purge_rows (limit - 1) now t in (Suc n, t'))
      else (let (n, t') = purge_rows limit now t in (n, r # t')))"

definition purge_expired_idempotency_keys :: "env \<Rightarrow> db \<Rightarrow> nat \<times> db" where
  "purge_expired_idempotency_keys e s =
     (let (n, t) = purge_rows idempotency_purge_batch (e_now e) (idem_keys s) in (n, s\<lparr>idem_keys := t\<rparr>))"

text \<open>\<open>DeadlineWorker.Work\<close>: both halves always run.\<close>

definition deadline_work :: "env \<Rightarrow> db \<Rightarrow> deadline_report \<times> nat \<times> db" where
  "deadline_work e s =
     (let (rep, s1) = process_deadlines e s; (n, s2) = purge_expired_idempotency_keys e s1 in (rep, n, s2))"

lemma purge_rows_kept:
  assumes "purge_rows limit now t = (n, t')"
  shows "set t' \<subseteq> set t" "\<forall>r\<in>set t. now \<le> ik_expires_at r \<longrightarrow> r \<in> set t'" "n \<le> limit" "length t' + n = length t"
proof -
  have "set t' \<subseteq> set t \<and> (\<forall>r\<in>set t. now \<le> ik_expires_at r \<longrightarrow> r \<in> set t') \<and> n \<le> limit \<and> length t' + n = length t"
    using assms
  proof (induction limit now t arbitrary: n t' rule: purge_rows.induct)
    case (2 limit now r t)
    show ?case
    proof (cases "0 < limit \<and> ik_expires_at r < now")
      case True
      obtain m u where u: "purge_rows (limit - 1) now t = (m, u)" by (cases "purge_rows (limit - 1) now t")
      with "2.prems" True have e: "n = Suc m" "t' = u" by auto
      from "2.IH"(1) [OF True u] True e show ?thesis by auto
    next
      case False
      obtain m u where u: "purge_rows limit now t = (m, u)" by (cases "purge_rows limit now t")
      have "(n, t') = (m, r # u)" using "2.prems" False u by (simp only: purge_rows.simps if_False Let_def prod.case)
      with "2.IH"(2) [OF False u] show ?thesis by auto
    qed
  qed simp
  then show "set t' \<subseteq> set t" "\<forall>r\<in>set t. now \<le> ik_expires_at r \<longrightarrow> r \<in> set t'" "n \<le> limit" "length t' + n = length t"
    by blast+
qed

lemma enqueue_deadline_reminders_core:
  assumes "enqueue_deadline_reminders e t s = Inr (n, s')"
  shows "core s' = core s"
proof (rule foldE_pair_inv [where P = "\<lambda>x. core x = core s", OF assms [unfolded enqueue_deadline_reminders_def]])
  fix x n0 s0 m0 s1 assume c: "core s0 = core s" and st: "remind_step e x (n0, s0) = Inr (m0, s1)"
  obtain r d z where x: "x = (r, d, z)" by (cases x)
  show "core s1 = core s"
  proof (cases "ro_buyer r")
    case None
    with st c show ?thesis by (simp add: remind_step_def x)
  next
    case (Some u)
    with st obtain n where "enqueue e n s0 = Inr s1" by (auto simp: remind_step_def x bindE_Inr_iff)
    from enqueue_core [OF this] c show ?thesis by simp
  qed
qed simp

lemma process_deadlines_core:
  assumes "process_deadlines e s = (rep, s')"
  shows "\<exists>n err s1. expire_all e (e_now e) s 0 = (n, err, s1) \<and> core s' = core s1
     \<and> (dr_errors rep = [] \<longrightarrow> err = None)"
proof -
  obtain n err s1 where x: "expire_all e (e_now e) s 0 = (n, err, s1)" by (cases "expire_all e (e_now e) s 0")
  show ?thesis
  proof (cases "enqueue_deadline_reminders e (e_now e) s1")
    case (Inl a)
    with assms x show ?thesis by (auto simp: process_deadlines_def)
  next
    case (Inr y)
    obtain m s2 where y: "y = (m, s2)" by (cases y)
    with enqueue_deadline_reminders_core Inr have "core s2 = core s1" by blast
    with assms x Inr y show ?thesis by (auto simp: process_deadlines_def split: option.splits)
  qed
qed

lemma deadline_work_ok:
  assumes "db_ok s" and "deadline_work e s = (rep, n, s')"
  shows "db_ok s'"
proof -
  obtain s1 where p: "process_deadlines e s = (rep, s1)" and s': "\<exists>t. s' = s1\<lparr>idem_keys := t\<rparr>"
    using assms(2) by (auto simp: deadline_work_def purge_expired_idempotency_keys_def split: prod.splits)
  from process_deadlines_core [OF p] obtain k err s2 where
    x: "expire_all e (e_now e) s 0 = (k, err, s2)" "core s1 = core s2" by blast
  from expire_all_ok [OF assms(1) x(1)] core_ok [OF x(2)] have "db_ok s1" by simp
  moreover have "db_ok (s1\<lparr>idem_keys := t\<rparr>) = db_ok s1" for t by (rule db_ok_cong) simp_all
  ultimately show ?thesis using s' by auto
qed

end
