(* ===== verification/FreeSignup.thy ===== *)
theory FreeSignup
  imports Notify Placement
begin

text \<open>
  \<open>internal/registration/free.go\<close>: signing up for a free activity.  A sign-up
  takes a used seat of the category directly, without an order.
\<close>

section \<open>Input\<close>

record free_input =
  fi_category :: int
  fi_name :: string
  fi_phone :: string
  fi_em_name :: string
  fi_em_phone :: string
  fi_gender :: "string option"
  fi_birth :: "gotime option"
  fi_consent :: consent_acceptance

record free_signup =
  sf_id :: int
  sf_no :: string
  sf_slug :: string
  sf_category :: int
  sf_name :: string
  sf_status :: string
  sf_created_at :: gotime

definition contact_of :: "free_input \<Rightarrow> contact_fields" where
  "contact_of i = \<lparr>cf_name = fi_name i, cf_phone = fi_phone i, cf_em_name = fi_em_name i,
     cf_em_phone = fi_em_phone i, cf_gender = fi_gender i, cf_birth = fi_birth i\<rparr>"

text \<open>\<open>freeSignupNormalize\<close>: the birth date is kept as given.\<close>

definition free_normalize :: "free_input \<Rightarrow> free_input" where
  "free_normalize i =
     (let c = normalize_contact_fields (contact_of i)
      in i\<lparr>fi_name := cf_name c, fi_phone := cf_phone c, fi_em_name := cf_em_name c,
           fi_em_phone := cf_em_phone c, fi_gender := cf_gender c\<rparr>)"

definition free_field_error :: "string \<Rightarrow> string \<Rightarrow> params \<Rightarrow> goerr" where
  "free_field_error f k ps = AppErr (with_field f k ps (new_err 422 CodeValidation))"

definition free_validate :: "env \<Rightarrow> free_input \<Rightarrow> unit res" where
  "free_validate e i =
     (let r = validate_contact_fields e (contact_of i) []
      in if 0 < fi_category i then r
         else case r of
           Inr _ \<Rightarrow> Inl (free_field_error ''categoryId'' ''field.required'' [])
         | Inl err \<Rightarrow>
             (case as_app err of
                Some ae \<Rightarrow> if ae_code ae = CodeValidation
                   then Inl (AppErr (with_field ''categoryId'' ''field.required'' [] ae)) else Inl err
              | None \<Rightarrow> Inl err))"

section \<open>The transaction\<close>

definition free_open :: "event_row \<Rightarrow> gotime \<Rightarrow> bool" where
  "free_open ev now \<longleftrightarrow>
     ev_status ev = ''PUBLISHED'' \<and> ev_type ev = ''FREE_ACTIVITY'' \<and> ev_open ev
   \<and> (case ev_opens_at ev of None \<Rightarrow> True | Some t \<Rightarrow> \<not> now < t)
   \<and> (case ev_closes_at ev of None \<Rightarrow> True | Some t \<Rightarrow> now < t)"

definition free_get_category :: "int \<Rightarrow> int \<Rightarrow> db \<Rightarrow> category_row option" where
  "free_get_category i ev s = List.find (\<lambda>c. ec_id c = i \<and> ec_event c = ev) (categories s)"

definition free_age_check :: "category_row \<Rightarrow> event_row \<Rightarrow> free_input \<Rightarrow> unit res" where
  "free_age_check c ev i =
     (if ec_min_age c > 0 then
        (case fi_birth i of
           None \<Rightarrow> Inl (free_field_error ''birthDate'' ''field.required'' [])
         | Some b \<Rightarrow> failIf (age_on b (ev_race_date ev) < ec_min_age c)
             (free_field_error ''birthDate'' ''field.too_young'' [(''minAge'', PInt (ec_min_age c))]))
      else Inr ())"

text \<open>\<open>FreeSignupTakeSeat\<close>, an \<open>:execrows\<close> statement.\<close>

definition free_take_seat :: "int \<Rightarrow> db \<Rightarrow> nat \<times> db" where
  "free_take_seat i s =
     (let P = (\<lambda>c. ec_id c = i \<and> ec_used c + ec_reserved c + 1 \<le> ec_capacity c)
      in (rows_where P (categories s),
          s\<lparr>categories := update_where P (\<lambda>c. c\<lparr>ec_used := ec_used c + 1\<rparr>) (categories s)\<rparr>))"

definition free_live :: "free_signup_row \<Rightarrow> bool" where
  "free_live f \<longleftrightarrow> fs_status f \<noteq> ''CANCELLED''"

definition free_key :: "free_signup_row \<Rightarrow> int \<times> string \<times> string" where
  "free_key f = (fs_category f, fs_phone f, to_lower (fs_name f))"

text \<open>\<open>InsertFreeSignup\<close> with \<open>free_signups_signup_no_key\<close> and \<open>free_signups_one_active\<close>.\<close>

definition insert_free_signup :: "free_signup_row \<Rightarrow> db \<Rightarrow> (free_signup_row \<times> db) res" where
  "insert_free_signup row s =
     (if \<exists>f\<in>set (free_signups s). fs_no f = fs_no row then Inl (PgErr ''23505'' ''free_signups_signup_no_key'')
      else if \<exists>f\<in>set (free_signups s). free_live f \<and> free_key f = free_key row
      then Inl (PgErr ''23505'' ''free_signups_one_active'')
      else let row' = row\<lparr>fs_id := next_id fs_id (free_signups s)\<rparr>
           in Inr (row', s\<lparr>free_signups := free_signups s @ [row']\<rparr>))"

definition free_signup_insert :: "env \<Rightarrow> free_signup_row \<Rightarrow> db \<Rightarrow> (free_signup_row \<times> db) res" where
  "free_signup_insert e row s =
     (case retry ''free_signups_signup_no_key''
             (\<lambda>i. insert_free_signup (row\<lparr>fs_no := idgen_code prefix_free_signup (e_rand e [4, i])\<rparr>) s) of
        Inr r \<Rightarrow> Inr r
      | Inl err \<Rightarrow> (case as_app (from_pg err) of
            Some ae \<Rightarrow> Inl (from_pg err) | None \<Rightarrow> Inl (OtherErr ''insert free signup'')))"

definition new_free_signup :: "env \<Rightarrow> user_id \<Rightarrow> event_row \<Rightarrow> int \<Rightarrow> free_input \<Rightarrow> free_signup_row" where
  "new_free_signup e u ev cat i =
     \<lparr>fs_id = 0, fs_no = [], fs_event = ev_id ev, fs_category = cat, fs_user = u, fs_name = fi_name i,
      fs_phone = fi_phone i, fs_gender = (case fi_gender i of None \<Rightarrow> None | Some g \<Rightarrow> opt_string g),
      fs_birth = map_option date_only (fi_birth i), fs_em_name = fi_em_name i, fs_em_phone = fi_em_phone i,
      fs_status = ''REGISTERED'', fs_created_at = e_db_now e\<rparr>"

definition free_entry :: "int \<Rightarrow> int \<Rightarrow> int \<Rightarrow> audit_row" where
  "free_entry u i ev =
     \<lparr>au_actor_type = ''USER'', au_actor = Some u, au_role = None, au_action = ''free_signup.create'',
      au_entity_type = ''free_signup'', au_entity = i, au_event = Some ev, au_financial = False\<rparr>"

definition create_free_signup :: "env \<Rightarrow> user_id \<Rightarrow> string \<Rightarrow> free_input \<Rightarrow> db \<Rightarrow> (free_signup \<times> db) res" where
  "create_free_signup e u slug0 inp0 s =
     (let slug = trim_space slug0; inp = free_normalize inp0 in
      bindE (free_validate e inp) (\<lambda>_.
      case List.find (\<lambda>ev. ev_slug ev = slug) (events s) of
        None \<Rightarrow> Inl (app 404 CodeEventNotFound)
      | Some ev \<Rightarrow>
          bindE (failIf (\<not> free_open ev (e_now e)) (app 409 CodeRegistrationClosed)) (\<lambda>_.
          case free_get_category (fi_category inp) (ev_id ev) s of
            None \<Rightarrow> Inl (free_field_error ''categoryId'' ''field.category_unavailable'' [])
          | Some c \<Rightarrow>
              bindE (free_age_check c ev inp) (\<lambda>_.
              let (taken, s1) = free_take_seat (ec_id c) s
              in bindE (failIf (taken = 0) (app 409 CodeCategorySoldOut)) (\<lambda>_.
                 bindE (free_signup_insert e (new_free_signup e u ev (ec_id c) inp) s1) (\<lambda>(row, s2).
                 bindE (sign_consent e u (fi_consent inp) \<lparr>ln_order = None, ln_free = Some (fs_id row)\<rparr> s2) (\<lambda>s3.
                   Inr (\<lparr>sf_id = fs_id row, sf_no = fs_no row, sf_slug = slug, sf_category = ec_id c,
                         sf_name = fi_name inp, sf_status = fs_status row, sf_created_at = fs_created_at row\<rparr>,
                        audit_record (free_entry u (fs_id row) (ev_id ev)) s3))))))))"

text \<open>\<open>ListMyFreeSignups\<close>: newest first, at most 100.\<close>

record free_summary =
  su_no :: string
  su_slug :: string
  su_event_name :: i18n_text
  su_race_date :: gotime
  su_category_name :: i18n_text
  su_name :: string
  su_status :: string
  su_created_at :: gotime

definition list_my_free_signups :: "user_id \<Rightarrow> db \<Rightarrow> free_summary list" where
  "list_my_free_signups u s =
     take 100 (concat (map (\<lambda>f. concat (map (\<lambda>ev. map (\<lambda>c.
         \<lparr>su_no = fs_no f, su_slug = ev_slug ev, su_event_name = ev_name ev, su_race_date = ev_race_date ev,
          su_category_name = ec_name c, su_name = fs_name f, su_status = fs_status f,
          su_created_at = fs_created_at f\<rparr>)
        (filter (\<lambda>c. ec_id c = fs_category f) (categories s)))
        (filter (\<lambda>ev. ev_id ev = fs_event f) (events s))))
      (sort_key (\<lambda>f. (- fs_created_at f, - fs_id f)) (filter (\<lambda>f. fs_user f = u) (free_signups s)))))"

section \<open>Errors\<close>

lemma free_validate_iff:
  assumes "date_time 1990 1 1 \<le> platform_today (e_wall_now e)"
  shows "free_validate e i = Inr () \<longleftrightarrow> 0 < fi_category i \<and> contact_valid e (contact_of i)"
  using validate_contact_iff [OF assms, of "contact_of i" "[]"]
  by (auto simp: free_validate_def Let_def split: sum.splits option.splits if_splits)

section \<open>What a sign-up does\<close>

definition free_unique :: "db \<Rightarrow> bool" where
  "free_unique s \<longleftrightarrow> distinct (map free_key (filter free_live (free_signups s)))"

lemma free_signup_insert_Inr:
  assumes "free_signup_insert e row s = Inr (r, s')"
  shows "s' = s\<lparr>free_signups := free_signups s @ [r]\<rparr>" "fs_category r = fs_category row"
    "free_key r = free_key row" "\<forall>f\<in>set (free_signups s). free_live f \<longrightarrow> free_key f \<noteq> free_key row"
    "\<exists>no i. r = row\<lparr>fs_no := no, fs_id := i\<rparr>"
proof -
  have "retry ''free_signups_signup_no_key''
      (\<lambda>i. insert_free_signup (row\<lparr>fs_no := idgen_code prefix_free_signup (e_rand e [4, i])\<rparr>) s) = Inr (r, s')"
    using assms by (simp add: free_signup_insert_def split: sum.splits option.splits)
  from retry_Inr [OF this] obtain no where "insert_free_signup (row\<lparr>fs_no := no\<rparr>) s = Inr (r, s')" by blast
  then have i: "\<not> (\<exists>f\<in>set (free_signups s). free_live f \<and> free_key f = free_key (row\<lparr>fs_no := no\<rparr>))"
    "r = row\<lparr>fs_no := no, fs_id := next_id fs_id (free_signups s)\<rparr>" "s\<lparr>free_signups := free_signups s @ [r]\<rparr> = s'"
    by (simp_all add: insert_free_signup_def Let_def split: if_splits) blast+
  show "s' = s\<lparr>free_signups := free_signups s @ [r]\<rparr>" by (rule i(3) [symmetric])
  show "fs_category r = fs_category row" "free_key r = free_key row"
    "\<forall>f\<in>set (free_signups s). free_live f \<longrightarrow> free_key f \<noteq> free_key row"
    using i(1,2) by (auto simp: free_key_def)
  show "\<exists>no i. r = row\<lparr>fs_no := no, fs_id := i\<rparr>" using i(2) by blast
qed

text \<open>A successful sign-up: the seat is taken, one row is added and the consent signed.\<close>

lemma create_free_signup_Inr:
  assumes "create_free_signup e u slug inp s = Inr (out, s')"
  obtains ev c r where
    "free_validate e (free_normalize inp) = Inr ()" "ev \<in> set (events s)" "ev_slug ev = trim_space slug"
    "free_open ev (e_now e)" "c \<in> set (categories s)" "ec_id c = fi_category (free_normalize inp)"
    "free_age_check c ev (free_normalize inp) = Inr ()"
    "\<exists>x\<in>set (categories s). ec_id x = ec_id c \<and> ec_used x + ec_reserved x + 1 \<le> ec_capacity x"
    "fs_category r = ec_id c" "\<forall>f\<in>set (free_signups s). free_live f \<longrightarrow> free_key f \<noteq> free_key r"
    "\<exists>a b l. s' = s\<lparr>categories := update_where (\<lambda>x. ec_id x = ec_id c \<and> ec_used x + ec_reserved x + 1 \<le> ec_capacity x)
        (\<lambda>x. x\<lparr>ec_used := ec_used x + 1\<rparr>) (categories s), free_signups := free_signups s @ [r],
        signatures := a, reg_consents := b, audit_logs := l\<rparr>"
proof -
  let ?inp = "free_normalize inp"
  note A0 = assms [unfolded create_free_signup_def Let_def]
  from A0 have 1: "free_validate e ?inp = Inr ()" by (rule bindE_InrE) simp
  note A1 = A0 [unfolded 1 bindE_simps]
  from A1 obtain ev where 2: "List.find (\<lambda>ev. ev_slug ev = trim_space slug) (events s) = Some ev"
    by (cases "List.find (\<lambda>ev. ev_slug ev = trim_space slug) (events s)") simp_all
  note A2 = A1 [unfolded 2 option.case]
  from A2 have 3: "free_open ev (e_now e)" by (rule bindE_InrE) simp
  note A3 = A2 [unfolded eqTrueI [OF 3] not_True_eq_False failIf_simps bindE_simps]
  from A3 obtain c where 4: "free_get_category (fi_category ?inp) (ev_id ev) s = Some c"
    by (cases "free_get_category (fi_category ?inp) (ev_id ev) s") simp_all
  note A4 = A3 [unfolded 4 option.case]
  from A4 have 5: "free_age_check c ev ?inp = Inr ()" by (rule bindE_InrE) simp
  let ?P = "\<lambda>x. ec_id x = ec_id c \<and> ec_used x + ec_reserved x + 1 \<le> ec_capacity x"
  let ?s1 = "s\<lparr>categories := update_where ?P (\<lambda>x. x\<lparr>ec_used := ec_used x + 1\<rparr>) (categories s)\<rparr>"
  have seat: "free_take_seat (ec_id c) s = (rows_where ?P (categories s), ?s1)" by (simp add: free_take_seat_def Let_def)
  note A5 = A4 [unfolded 5 bindE_simps seat prod.case]
  from A5 have "rows_where ?P (categories s) \<noteq> 0" by (rule bindE_InrE) (simp del: rows_where_0_iff)
  then have 6: "\<exists>x\<in>set (categories s). ?P x" by (simp only: rows_where_0_iff) blast
  from A5 have "bindE (free_signup_insert e (new_free_signup e u ev (ec_id c) ?inp) ?s1) (\<lambda>(row, s2).
       bindE (sign_consent e u (fi_consent ?inp) \<lparr>ln_order = None, ln_free = Some (fs_id row)\<rparr> s2) (\<lambda>s3.
       Inr (\<lparr>sf_id = fs_id row, sf_no = fs_no row, sf_slug = trim_space slug, sf_category = ec_id c,
             sf_name = fi_name ?inp, sf_status = fs_status row, sf_created_at = fs_created_at row\<rparr>,
            audit_record (free_entry u (fs_id row) (ev_id ev)) s3))) = Inr (out, s')"
    by (rule bindE_InrE)
  then obtain y where y: "free_signup_insert e (new_free_signup e u ev (ec_id c) ?inp) ?s1 = Inr y"
    "(case y of (row, s2) \<Rightarrow>
       bindE (sign_consent e u (fi_consent ?inp) \<lparr>ln_order = None, ln_free = Some (fs_id row)\<rparr> s2) (\<lambda>s3.
       Inr (\<lparr>sf_id = fs_id row, sf_no = fs_no row, sf_slug = trim_space slug, sf_category = ec_id c,
             sf_name = fi_name ?inp, sf_status = fs_status row, sf_created_at = fs_created_at row\<rparr>,
            audit_record (free_entry u (fs_id row) (ev_id ev)) s3))) = Inr (out, s')" by (rule bindE_InrE)
  obtain r s2 where yy: "y = (r, s2)" by (cases y)
  note ins = free_signup_insert_Inr [OF y(1) [unfolded yy]]
  from y(2) [unfolded yy prod.case] obtain s3 where
    s3: "sign_consent e u (fi_consent ?inp) \<lparr>ln_order = None, ln_free = Some (fs_id r)\<rparr> s2 = Inr s3"
    and out: "Inr (\<lparr>sf_id = fs_id r, sf_no = fs_no r, sf_slug = trim_space slug, sf_category = ec_id c,
             sf_name = fi_name ?inp, sf_status = fs_status r, sf_created_at = fs_created_at r\<rparr>,
            audit_record (free_entry u (fs_id r) (ev_id ev)) s3) = (Inr (out, s') :: (free_signup \<times> db) res)"
    by (rule bindE_InrE)
  from sign_consent_frame [OF s3] obtain a b where ab: "s3 = s2\<lparr>signatures := a, reg_consents := b\<rparr>" by blast
  from out have "audit_record (free_entry u (fs_id r) (ev_id ev)) s3 = s'" by simp
  then have fin: "s' = s\<lparr>categories := update_where ?P (\<lambda>x. x\<lparr>ec_used := ec_used x + 1\<rparr>) (categories s),
      free_signups := free_signups s @ [r], signatures := a, reg_consents := b,
      audit_logs := audit_logs s @ [free_entry u (fs_id r) (ev_id ev)]\<rparr>"
    unfolding ab ins(1) audit_record_def by (rule trans [OF sym]) simp
  have cat: "fs_category r = ec_id c" using ins(2) by (simp add: new_free_signup_def)
  have live: "\<forall>f\<in>set (free_signups s). free_live f \<longrightarrow> free_key f \<noteq> free_key r" using ins(3,4) by simp
  from find_Some_key [OF 2] find_Some_key [OF 4 [unfolded free_get_category_def]] show thesis
    by (intro that [OF 1 _ _ 3 _ _ 5 6 cat live] exI) (use fin in auto)
qed

text \<open>Whom it admits: a runner of sufficient age, to a category of the open activity; and the row it adds.\<close>

definition old_enough :: "category_row \<Rightarrow> event_row \<Rightarrow> gotime option \<Rightarrow> bool" where
  "old_enough c ev birth \<longleftrightarrow> ec_min_age c \<le> 0 \<or> (\<exists>b. birth = Some b \<and> ec_min_age c \<le> age_on b (ev_race_date ev))"

lemma free_age_check_iff: "free_age_check c ev i = Inr () \<longleftrightarrow> old_enough c ev (fi_birth i)"
  by (auto simp: free_age_check_def old_enough_def errE split: option.splits)

lemma create_free_signup_admits:
  assumes "create_free_signup e u slug inp s = Inr (out, s')"
  shows "\<exists>ev\<in>set (events s). \<exists>c\<in>set (categories s). \<exists>no i.
      ev_slug ev = trim_space slug \<and> free_open ev (e_now e)
    \<and> ec_id c = fi_category (free_normalize inp) \<and> ec_event c = ev_id ev \<and> old_enough c ev (fi_birth (free_normalize inp))
    \<and> free_signups s' = free_signups s @ [(new_free_signup e u ev (ec_id c) (free_normalize inp))\<lparr>fs_no := no, fs_id := i\<rparr>]"
proof -
  let ?inp = "free_normalize inp"
  note A = assms [unfolded create_free_signup_def Let_def]
  then obtain ev where f: "List.find (\<lambda>ev. ev_slug ev = trim_space slug) (events s) = Some ev"
    by (cases "List.find (\<lambda>ev. ev_slug ev = trim_space slug) (events s)") (simp_all add: errE)
  with A have o': "free_open ev (e_now e)" by (simp add: errE)
  from A f obtain c where g: "free_get_category (fi_category ?inp) (ev_id ev) s = Some c"
    by (cases "free_get_category (fi_category ?inp) (ev_id ev) s") (simp_all add: errE)
  with A f have a: "free_age_check c ev ?inp = Inr ()" by (auto simp: errE)
  from A f g obtain r s2 s3 where
    i: "free_signup_insert e (new_free_signup e u ev (ec_id c) ?inp) (snd (free_take_seat (ec_id c) s)) = Inr (r, s2)"
    and g3: "sign_consent e u (fi_consent ?inp) \<lparr>ln_order = None, ln_free = Some (fs_id r)\<rparr> s2 = Inr s3"
    and s': "s' = audit_record (free_entry u (fs_id r) (ev_id ev)) s3"
    by (auto simp: errE split: prod.splits)
  from sign_consent_frame [OF g3] have "free_signups s3 = free_signups s2" by auto
  with s' free_signup_insert_Inr(1) [OF i] have "free_signups s' = free_signups s @ [r]"
    by (simp add: audit_record_def free_take_seat_def Let_def)
  with free_signup_insert_Inr(5) [OF i] obtain no j where
    "free_signups s' = free_signups s @ [(new_free_signup e u ev (ec_id c) ?inp)\<lparr>fs_no := no, fs_id := j\<rparr>]" by blast
  moreover from g have "List.find (\<lambda>x. ec_id x = fi_category ?inp \<and> ec_event x = ev_id ev) (categories s) = Some c"
    by (simp add: free_get_category_def)
  from find_Some_key [OF this] have "c \<in> set (categories s)" "ec_id c = fi_category ?inp" "ec_event c = ev_id ev" by simp_all
  ultimately show ?thesis using find_Some_key [OF f] o' a [unfolded free_age_check_iff] by blast
qed

text \<open>Taking a seat adds one used seat to the category of the sign-up: the ledger still agrees.\<close>

lemma free_seat_ok:
  assumes ok: "db_ok s" and x: "x \<in> set (categories s)" "ec_id x = i" "ec_used x + ec_reserved x + 1 \<le> ec_capacity x"
    and r: "fs_category r = i"
    and cats: "categories s' = update_where (\<lambda>x. ec_id x = i \<and> ec_used x + ec_reserved x + 1 \<le> ec_capacity x)
        (\<lambda>x. x\<lparr>ec_used := ec_used x + 1\<rparr>) (categories s)"
    and fs: "free_signups s' = free_signups s @ [r]"
    and same: "orders s' = orders s" "participants s' = participants s" "registrations s' = registrations s"
      "price_rules s' = price_rules s" "coupons s' = coupons s" "redemptions s' = redemptions s"
  shows "db_ok s'"
proof -
  let ?P = "\<lambda>x. ec_used x + ec_reserved x + 1 \<le> ec_capacity x" and ?du = "\<lambda>k. if k = i then 1 else (0::int)"
  have keys: "distinct (map ec_id (categories s))" using ok by (simp add: db_ok_def keys_ok_def counter_keys_def)
  have "exec_rows (\<lambda>r. ec_id r = i \<and> ?P r) (\<lambda>r. ec_put (ec_used r + 1) (ec_reserved r + 0) r) (categories s) = Some (categories s')"
    using x unfolding exec_rows_Some_iff cats by (auto simp: ec_put_def)
  then have shift: "categories s' = cat_row.shift ?du (\<lambda>_. 0) (categories s)"
    using cat_row.exec_rows_shift [OF keys, of i ?P 1 0 "categories s'"] by (simp cong: if_cong)
  then have ids: "map ec_id (categories s') = map ec_id (categories s)" by simp
  then have ids': "ec_id ` set (categories s') = ec_id ` set (categories s)" by (metis set_map)
  have st: "order_state s' = order_state s" by (simp add: fun_eq_iff order_state_def same)
  have free: "free_seats s' = (\<lambda>k. free_seats s k + ?du k)"
    using r by (auto simp: fun_eq_iff free_seats_def fs)
  have L1: "cat_row.agree (categories s) op_order op_category (participants s) (order_state s) (free_seats s)"
    using ok by (simp add: db_ok_def ledger_ok_def)
  have lim: "cat.fits y" if y: "y \<in> set (categories s')" for y
  proof -
    from y cats obtain z where z: "z \<in> set (categories s)"
      "y = (if ec_id z = i \<and> ?P z then z\<lparr>ec_used := ec_used z + 1\<rparr> else z)" by (auto simp: set_update_where)
    with ok have "cat.fits z" by (simp add: db_ok_def limits_ok_def)
    with z(2) show ?thesis by (auto simp: cat.fits_def)
  qed
  have "cat_row.agree (categories s') op_order op_category (participants s') (order_state s') (free_seats s')"
    unfolding shift st free same by (rule cat_row.agree_extra [OF L1])
  moreover have "i \<in> ec_id ` set (categories s)" using x by auto
  ultimately show ?thesis
    using ok lim r ids ids' st
    by (simp add: db_ok_def keys_ok_def counter_keys_def refs_ok_def regs_ok_def ledger_ok_def limits_ok_def same fs)
qed

lemma create_free_signup_ok:
  assumes ok: "db_ok s" and "create_free_signup e u slug inp s = Inr (out, s')"
  shows "db_ok s' \<and> (unique_live s \<longrightarrow> unique_live s')"
proof -
  from assms(2) obtain ev c r where
    "free_validate e (free_normalize inp) = Inr ()" "ev \<in> set (events s)" "ev_slug ev = trim_space slug"
    "free_open ev (e_now e)" "c \<in> set (categories s)" "ec_id c = fi_category (free_normalize inp)"
    "free_age_check c ev (free_normalize inp) = Inr ()"
    and x: "\<exists>x\<in>set (categories s). ec_id x = ec_id c \<and> ec_used x + ec_reserved x + 1 \<le> ec_capacity x"
    and r: "fs_category r = ec_id c" and "\<forall>f\<in>set (free_signups s). free_live f \<longrightarrow> free_key f \<noteq> free_key r" and
    "\<exists>a b l. s' = s\<lparr>categories := update_where (\<lambda>x. ec_id x = ec_id c \<and> ec_used x + ec_reserved x + 1 \<le> ec_capacity x)
        (\<lambda>x. x\<lparr>ec_used := ec_used x + 1\<rparr>) (categories s), free_signups := free_signups s @ [r],
        signatures := a, reg_consents := b, audit_logs := l\<rparr>"
    by (rule create_free_signup_Inr)
  then obtain a b l where s': "s' = s\<lparr>categories := update_where (\<lambda>x. ec_id x = ec_id c \<and> ec_used x + ec_reserved x + 1 \<le> ec_capacity x)
        (\<lambda>x. x\<lparr>ec_used := ec_used x + 1\<rparr>) (categories s), free_signups := free_signups s @ [r],
        signatures := a, reg_consents := b, audit_logs := l\<rparr>" by blast
  from x obtain x where "x \<in> set (categories s)" "ec_id x = ec_id c" "ec_used x + ec_reserved x + 1 \<le> ec_capacity x" by blast
  from free_seat_ok [OF ok this r] have "db_ok s'" by (simp add: s')
  moreover have "registrations s' = registrations s" by (simp add: s')
  ultimately show ?thesis by (simp add: unique_live_def)
qed

lemma create_free_signup_unique:
  assumes "free_unique s" and "create_free_signup e u slug inp s = Inr (out, s')"
  shows "free_unique s'"
proof -
  from assms(2) obtain r where new: "\<forall>f\<in>set (free_signups s). free_live f \<longrightarrow> free_key f \<noteq> free_key r"
    and "free_signups s' = free_signups s @ [r]"
    by (rule create_free_signup_Inr) (elim exE, simp)
  with assms(1) show ?thesis by (auto simp: free_unique_def)
qed

end
