(* ===== verification/Funds.thy ===== *)
theory Funds
  imports Payments Deadline FreeSignup
begin

text \<open>
  The money invariant across registration and payment: an order waits for review
  exactly while it has one submitted proof, and a paid order with an amount due
  has exactly one receipt, of at least that amount.
\<close>

section \<open>The invariant\<close>

definition receipt_for :: "order_row \<Rightarrow> receipt_row \<Rightarrow> bool" where
  "receipt_for r c \<longleftrightarrow> rc_order c = Some (ro_id r)"

definition receipt_ok :: "order_row \<Rightarrow> receipt_row \<Rightarrow> bool" where
  "receipt_ok r c \<longleftrightarrow> ro_amount r \<le> rc_amount c \<and> (rc_match c = MatchException \<longleftrightarrow> ro_amount r < rc_amount c)"

definition funded :: "proof_row list \<Rightarrow> receipt_row list \<Rightarrow> order_row \<Rightarrow> bool" where
  "funded ps cs r \<longleftrightarrow>
     (open_status (ro_status r) \<longrightarrow> 0 < ro_amount r)
   \<and> rows_where (pending_for (ro_id r)) ps = (if ro_status r = ProofSubmitted then 1 else 0)
   \<and> rows_where (receipt_for r) cs = (if ro_status r = Paid \<and> 0 < ro_amount r then 1 else 0)
   \<and> (\<forall>c\<in>set cs. receipt_for r c \<longrightarrow> receipt_ok r c)"

definition funds_ok :: "db \<Rightarrow> bool" where
  "funds_ok s \<longleftrightarrow>
     distinct (map pf_id (proofs s)) \<and> distinct (map rc_id (receipts s))
   \<and> distinct (map (\<lambda>c. (rc_account c, rc_txn_ref c)) (receipts s))
   \<and> (\<forall>p\<in>set (proofs s). \<forall>i. pf_order p = Some i \<longrightarrow> i \<in> ro_id ` set (orders s))
   \<and> (\<forall>c\<in>set (receipts s). \<forall>i. rc_order c = Some i \<longrightarrow> i \<in> ro_id ` set (orders s))
   \<and> (\<forall>r\<in>set (orders s). funded (proofs s) (receipts s) r)
   \<and> (\<forall>c\<in>set (receipts s). rc_match c = MatchException \<longrightarrow>
        (\<exists>x\<in>set (exceptions s). ex_receipt x = rc_id c \<and> ex_order x = rc_order c))"

lemma funds_ok_empty: "funds_ok empty_db"
  by (simp add: funds_ok_def empty_db_def)

lemma funds_ok_cong:
  assumes "orders s' = orders s" "proofs s' = proofs s" "receipts s' = receipts s" "exceptions s' = exceptions s"
  shows "funds_ok s' = funds_ok s"
  using assms by (simp add: funds_ok_def)

lemma core_funds:
  assumes "core s' = core s"
  shows "funds_ok s' = funds_ok s"
  by (rule funds_ok_cong) (simp_all only: coreD [OF assms])

lemma audit_funds [simp]: "funds_ok (audit_record a s) = funds_ok s"
  by (rule core_funds) simp

section \<open>Transitions of orders only\<close>

text \<open>A status change that enters or leaves neither review nor payment.\<close>

lemma funds_transition:
  assumes ok: "funds_ok s" and o': "orders s' = update_where P f (orders s)"
    and same: "proofs s' = proofs s" "receipts s' = receipts s" "exceptions s' = exceptions s"
    and f: "\<And>r. r \<in> set (orders s) \<Longrightarrow> P r \<Longrightarrow> ro_id (f r) = ro_id r \<and> ro_amount (f r) = ro_amount r
      \<and> ro_status r \<noteq> ProofSubmitted \<and> ro_status (f r) \<noteq> ProofSubmitted \<and> (ro_status (f r) = Paid \<longleftrightarrow> ro_status r = Paid)
      \<and> (open_status (ro_status (f r)) \<longrightarrow> open_status (ro_status r))"
  shows "funds_ok s'"
proof -
  have ids: "ro_id ` set (orders s') = ro_id ` set (orders s)"
    unfolding o' set_update_where image_image using f by (intro image_cong) auto
  have "funded (proofs s) (receipts s) r" if "r \<in> set (orders s')" for r
  proof -
    from that o' obtain x where x: "x \<in> set (orders s)" "r = (if P x then f x else x)" by (auto simp: set_update_where)
    with ok have "funded (proofs s) (receipts s) x" by (simp add: funds_ok_def)
    with x f [OF x(1)] show ?thesis by (auto simp: funded_def receipt_for_def [abs_def] receipt_ok_def)
  qed
  with ok ids same show ?thesis by (simp add: funds_ok_def)
qed

lemma release_order_funds:
  assumes "db_ok s" and "funds_ok s" and "release_order e i k s = Inr (b, s')"
  shows "funds_ok s'"
proof (cases "s' = s")
  case False
  with assms(1,3) have s': "s' = released_db e i k s" by (auto simp: release_order_eq split: if_splits)
  show ?thesis
    by (rule funds_transition [where P = "\<lambda>r. ro_id r = i \<and> releasable k r" and f = "release_row k (e_now e)", OF assms(2)])
      (auto simp: s' released_db_def settled_def releasable_def release_row_def open_status_def with_orders_def split: release_kind.splits)
qed (use assms(2) in simp)

lemma cancel_order_funds:
  assumes "db_ok s" and "funds_ok s" and "cancel_order e u no s = Inr (d, s')"
  shows "funds_ok s'"
  using assms(3) by (rule cancel_order_Inr) (use release_order_funds [OF assms(1,2)] in simp)

lemma expire_order_funds:
  assumes "db_ok s" and "funds_ok s" and "expire_order e i s = Inr (b, s')"
  shows "funds_ok s'"
proof -
  from expire_order_Inr [OF assms(3)] obtain s1 where
    s1: "release_order e i ReleaseExpired s = Inr (b, s1)" "core s' = core s1" .
  from release_order_funds [OF assms(1,2) s1(1)] core_funds [OF s1(2)] show ?thesis by simp
qed

lemma deadline_work_inv:
  assumes "deadline_work e s = (rep, n, s')" and "P s"
    and "\<And>i s b s'. P s \<Longrightarrow> expire_order e i s = Inr (b, s') \<Longrightarrow> P s'"
    and "\<And>s s'. core s' = core s \<Longrightarrow> P s \<Longrightarrow> P s'" and "\<And>s t. P s \<Longrightarrow> P (s\<lparr>idem_keys := t\<rparr>)"
  shows "P s'"
proof -
  obtain s1 where p: "process_deadlines e s = (rep, s1)" and s': "\<exists>t. s' = s1\<lparr>idem_keys := t\<rparr>"
    using assms(1) by (auto simp: deadline_work_def purge_expired_idempotency_keys_def split: prod.splits)
  from process_deadlines_core [OF p] obtain k err s2 where
    x: "expire_all e (e_now e) s 0 = (k, err, s2)" "core s1 = core s2" by blast
  have "P s2" by (rule expire_all_inv [where P = P, OF x(1) assms(2,3)])
  with assms(4) [OF x(2)] have "P s1" by simp
  with assms(5) s' show ?thesis by auto
qed

section \<open>Placing\<close>

lemma confirm_paid_orders:
  assumes "db_ok s" and "confirm_paid e i at s = Inr s'"
  shows "s' = paid_db e i at s" "\<exists>r\<in>set (orders s). ro_id r = i \<and> payable r"
    "orders s' = update_where (\<lambda>r. ro_id r = i \<and> payable r) (pay_row at) (orders s)"
    "proofs s' = proofs s" "receipts s' = receipts s" "exceptions s' = exceptions s"
proof -
  show s': "s' = paid_db e i at s" "\<exists>r\<in>set (orders s). ro_id r = i \<and> payable r"
    using assms by (auto simp: confirm_paid_eq split: if_splits)
  show "orders s' = update_where (\<lambda>r. ro_id r = i \<and> payable r) (pay_row at) (orders s)"
    "proofs s' = proofs s" "receipts s' = receipts s" "exceptions s' = exceptions s"
    unfolding s' by (simp_all add: paid_db_def settled_def with_orders_def)
qed

lemma rows_where_none: "\<forall>x\<in>set xs. \<not> P x \<Longrightarrow> rows_where P xs = 0"
  by simp

lemma new_order_funded:
  assumes ok: "funds_ok s" and new: "ro_id r \<notin> ro_id ` set (orders s)"
    and "ro_status r \<noteq> ProofSubmitted" and "open_status (ro_status r) \<longrightarrow> 0 < ro_amount r"
    and "ro_status r = Paid \<longrightarrow> ro_amount r = 0"
  shows "funded (proofs s) (receipts s) r"
proof -
  have none: "\<forall>p\<in>set (proofs s). \<not> pending_for (ro_id r) p" "\<forall>c\<in>set (receipts s). \<not> receipt_for r c"
    using ok new by (auto simp: funds_ok_def pending_for_def receipt_for_def)
  show ?thesis
    unfolding funded_def rows_where_none [OF none(1)] rows_where_none [OF none(2)] using none(2) assms(3-5) by auto
qed

lemma add_order_funds:
  assumes ok: "funds_ok s" and "ro_id r \<notin> ro_id ` set (orders s)" and "orders s' = orders s @ [r]"
    and "proofs s' = proofs s" "receipts s' = receipts s" "exceptions s' = exceptions s"
    and "ro_status r \<noteq> ProofSubmitted" and "open_status (ro_status r) \<longrightarrow> 0 < ro_amount r"
    and "ro_status r = Paid \<longrightarrow> ro_amount r = 0"
  shows "funds_ok s'"
  using ok new_order_funded [OF ok assms(2,7,8,9)] assms(3-6) by (auto simp: funds_ok_def)

lemma update_where_other:
  assumes "i \<notin> g ` set xs"
  shows "update_where (\<lambda>x. g x = i \<and> Q x) f xs = xs"
  unfolding update_where_def using assms by (intro map_idI) auto

lemma create_order_tx_funds:
  assumes ok: "db_ok s" "funds_ok s" and tx: "create_order_tx e u ev inp s = Inr (d, s')"
  shows "funds_ok s'"
proof -
  from tx obtain q parts row ps rs s5 where
    P: "placed q row ps rs s s5" and "resolve_participants e u s inp = Inr parts"
      "check_already_registered (ev_id ev) parts s = Inr ()"
      "map rg_id_hash rs = take (length rs) (map rv_hash parts)" "\<forall>r\<in>set rs. rg_event r = ev_id ev"
    and "idem_keys s5 = idem_keys s" "events s5 = events s"
    and F: "proofs s5 = proofs s" "receipts s5 = receipts s" "exceptions s5 = exceptions s" and st: "ro_status row = PendingPayment"
    and fin: "ro_amount row \<noteq> 0 \<and> (\<exists>a. s' = audit_record a s5)
      \<or> (\<exists>a b t. confirm_paid e (ro_id row) (e_now e) (audit_record a s5) = Inr t \<and> s' = audit_record b t)"
    by (rule create_order_tx_placed [OF ok(1)])
  have new: "ro_id row \<notin> ro_id ` set (orders s)" and os: "orders s5 = orders s @ [row]" and row: "order_ok row"
    using P by (simp_all add: placed_def)
  from fin show ?thesis
  proof (elim disjE exE conjE)
    fix a assume "ro_amount row \<noteq> 0" and s': "s' = audit_record a s5"
    with row have "0 < ro_amount row" by (simp add: order_ok_def)
    then have "funds_ok s5" by (intro add_order_funds [OF ok(2) new os F]) (simp_all add: st)
    then show ?thesis by (simp add: s')
  next
    fix a b t assume t: "confirm_paid e (ro_id row) (e_now e) (audit_record a s5) = Inr t" and s': "s' = audit_record b t"
    let ?s = "audit_record a s5"
    have k: "db_ok ?s" using placed_ok [OF ok(1) P] by simp
    note cp = confirm_paid_orders [OF k t]
    have o5: "orders ?s = orders s @ [row]" using os by (simp add: audit_record_def)
    from cp(2) obtain r where r: "r \<in> set (orders s @ [row])" "ro_id r = ro_id row" "payable r" unfolding o5 by blast
    then have "r = row" using new image_eqI [of "ro_id row" ro_id r "set (orders s)"] by (metis rotate1.simps(2) set_ConsD set_rotate1)
    with r have "payable row" by simp
    then have am: "ro_amount row = 0" by (simp add: payable_def st)
    have "orders t = orders s @ [pay_row (e_now e) row]"
      unfolding cp(3) o5 update_where_append using update_where_other [OF new] \<open>payable row\<close> by (simp add: update_where_def)
    moreover have "ro_id (pay_row (e_now e) row) = ro_id row" "ro_amount (pay_row (e_now e) row) = 0"
      "ro_status (pay_row (e_now e) row) = Paid" using am by (simp_all add: pay_row_def)
    ultimately have "funds_ok t"
      using new F cp(4-6) by (intro add_order_funds [OF ok(2), of "pay_row (e_now e) row"]) (simp_all add: audit_record_def open_status_def)
    then show ?thesis by (simp add: s')
  qed
qed

lemma create_order_funds:
  assumes ok: "db_ok s" "funds_ok s" and run: "create_order e digest u inp s = Inr (d, s')"
  shows "funds_ok s'"
proof -
  from run obtain norm ev where "normalize_create_input e inp = Inr norm"
    "List.find (\<lambda>ev. ev_slug ev = in_slug norm) (events s) = Some ev" and
    C: "claim_idempotency_key (subject_of u) (in_key norm) (digest (request_payload e norm)) (e_now e) s = Inr (Some d, s')
     \<or> (\<exists>s1 s2. claim_idempotency_key (subject_of u) (in_key norm) (digest (request_payload e norm)) (e_now e) s = Inr (None, s1)
          \<and> create_order_tx e u ev norm s1 = Inr (d, s2)
          \<and> s' = save_idempotency_response (subject_of u) (in_key norm) (to_api_order d) s2)" by (rule create_order_Inr)
  have claim: "funds_ok s1 = funds_ok s" if "claim_idempotency_key sub key h now s = Inr (x, s1)" for sub key h now x s1
  proof -
    from that have "s1 = s \<or> (\<exists>t. s1 = s\<lparr>idem_keys := t\<rparr>)"
      unfolding claim_idempotency_key_def by (simp split: option.splits if_splits) blast
    moreover have "funds_ok (s\<lparr>idem_keys := t\<rparr>) = funds_ok s" for t by (rule funds_ok_cong) simp_all
    ultimately show ?thesis by auto
  qed
  from C show ?thesis
  proof (elim disjE exE conjE)
    fix s1 s2 assume c: "claim_idempotency_key (subject_of u) (in_key norm) (digest (request_payload e norm)) (e_now e) s = Inr (None, s1)"
      and t: "create_order_tx e u ev norm s1 = Inr (d, s2)"
      and s': "s' = save_idempotency_response (subject_of u) (in_key norm) (to_api_order d) s2"
    from claim_idempotency_key_ok(1) [OF c] claim [OF c] ok have "db_ok s1" "funds_ok s1" by simp_all
    from create_order_tx_funds [OF this t] show ?thesis
      by (simp add: s' funds_ok_def save_idempotency_response_def)
  qed (use claim ok in blast)
qed

end
