(* ===== verification/Review.thy ===== *)
theory Review
  imports Funds
begin

text \<open>
  What the payment operations do to the tables, and that they keep the invariants
  of the registration state and of the money.
\<close>

section \<open>Moving one row of a table\<close>

lemma rows_where_update_one:
  assumes "distinct (map g t)" and "x \<in> set t" and "P x" and "Q x" and "\<And>y. P y \<Longrightarrow> \<not> Q (f y)"
  shows "Suc (rows_where Q (update_where (\<lambda>y. g y = g x \<and> P y) f t)) = rows_where Q t"
  using assms(1,2)
proof (induction t)
  case Nil
  then show ?case by simp
next
  case (Cons y t)
  show ?case
  proof (cases "y = x")
    case True
    with Cons.prems have "g x \<notin> g ` set t" by simp
    from update_where_other [OF this, of P f] True show ?thesis using assms(3-5) by simp
  next
    case False
    with Cons.prems have "g y \<noteq> g x" "x \<in> set t" by (auto simp: rev_image_eqI)
    with Cons show ?thesis by simp
  qed
qed

lemma rows_where_update_same:
  assumes "\<And>y. y \<in> set t \<Longrightarrow> P y \<Longrightarrow> Q (f y) = Q y"
  shows "rows_where Q (update_where P f t) = rows_where Q t"
  using assms unfolding rows_where_update_where by (intro rows_where_cong) simp

section \<open>What the steps do\<close>

definition submittable :: "order_row \<Rightarrow> bool" where
  "submittable r \<longleftrightarrow> ro_state r = Reserved \<and> (ro_status r = PendingPayment \<or> ro_status r = ProofRejected)"

definition submit_row :: "order_row \<Rightarrow> order_row" where
  "submit_row r = r\<lparr>ro_status := ProofSubmitted, ro_deadline := None, ro_version := ro_version r + 1\<rparr>"

definition under_review :: "order_row \<Rightarrow> bool" where
  "under_review r \<longleftrightarrow> ro_state r = Reserved \<and> ro_status r = ProofSubmitted"

definition reject_row :: "gotime \<Rightarrow> order_row \<Rightarrow> order_row" where
  "reject_row d r = r\<lparr>ro_status := ProofRejected, ro_deadline := Some d, ro_version := ro_version r + 1\<rparr>"

lemma mark_proof_submitted_Inr:
  assumes "mark_proof_submitted i s = Inr s'"
  shows "s' = with_orders (\<lambda>r. ro_id r = i \<and> submittable r) submit_row s"
    "\<exists>r\<in>set (orders s). ro_id r = i \<and> submittable r"
proof -
  have n: "rows_where (\<lambda>r. ro_id r = i \<and> submittable r) (orders s) = 1"
    and "s' = with_orders (\<lambda>r. ro_id r = i \<and> submittable r) submit_row s"
    using assms by (simp_all add: mark_proof_submitted_def set_order_proof_submitted_def exec_orders_def with_orders_def
        submittable_def submit_row_def [abs_def] split: if_splits)
  show "s' = with_orders (\<lambda>r. ro_id r = i \<and> submittable r) submit_row s" by fact
  have "rows_where (\<lambda>r. ro_id r = i \<and> submittable r) (orders s) \<noteq> 0" using n by simp
  then show "\<exists>r\<in>set (orders s). ro_id r = i \<and> submittable r" by (simp only: rows_where_0_iff) blast
qed

lemma mark_proof_rejected_Inr:
  assumes "mark_proof_rejected i d s = Inr s'"
  shows "s' = with_orders (\<lambda>r. ro_id r = i \<and> under_review r) (reject_row d) s"
    "\<exists>r\<in>set (orders s). ro_id r = i \<and> under_review r"
proof -
  have n: "rows_where (\<lambda>r. ro_id r = i \<and> under_review r) (orders s) = 1"
    and "s' = with_orders (\<lambda>r. ro_id r = i \<and> under_review r) (reject_row d) s"
    using assms by (simp_all add: mark_proof_rejected_def set_order_proof_rejected_def exec_orders_def with_orders_def
        under_review_def reject_row_def [abs_def] split: if_splits)
  show "s' = with_orders (\<lambda>r. ro_id r = i \<and> under_review r) (reject_row d) s" by fact
  have "rows_where (\<lambda>r. ro_id r = i \<and> under_review r) (orders s) \<noteq> 0" using n by simp
  then show "\<exists>r\<in>set (orders s). ro_id r = i \<and> under_review r" by (simp only: rows_where_0_iff) blast
qed

lemma insert_payment_proof_Inr:
  assumes "insert_payment_proof row s = Inr (p, s')"
  shows "p = row\<lparr>pf_id := next_id pf_id (proofs s)\<rparr>" "s' = s\<lparr>proofs := proofs s @ [p]\<rparr>"
    "\<forall>q\<in>set (proofs s). live_proof q \<longrightarrow> (pf_account q, pf_txn_ref q) \<noteq> (pf_account row, pf_txn_ref row)"
proof -
  note A = assms [unfolded insert_payment_proof_def Let_def]
  show "p = row\<lparr>pf_id := next_id pf_id (proofs s)\<rparr>" using A by (simp split: if_splits)
  show "s' = s\<lparr>proofs := proofs s @ [p]\<rparr>" using A \<open>p = _\<close> by (simp split: if_splits)
  show "\<forall>q\<in>set (proofs s). live_proof q \<longrightarrow> (pf_account q, pf_txn_ref q) \<noteq> (pf_account row, pf_txn_ref row)"
    using A by (simp split: if_splits)
qed

lemma insert_proof_Inr:
  assumes "insert_proof e row s = Inr (p, s')"
  obtains no where "p = row\<lparr>pf_no := no, pf_id := next_id pf_id (proofs s)\<rparr>" "s' = s\<lparr>proofs := proofs s @ [p]\<rparr>"
    "\<forall>q\<in>set (proofs s). live_proof q \<longrightarrow> (pf_account q, pf_txn_ref q) \<noteq> (pf_account row, pf_txn_ref row)"
proof -
  from retry_Inr [OF assms [unfolded insert_proof_def map_err_Inr]] obtain j where
    "insert_payment_proof (row\<lparr>pf_no := idgen_code prefix_proof (e_rand e [5, j])\<rparr>) s = Inr (p, s')"
    by (elim exE conjE)
  note x = insert_payment_proof_Inr [OF this]
  show thesis by (rule that [OF x(1,2)]) (use x(3) in simp)
qed

lemma lock_order_by_no_Inr:
  assumes "lock_order_by_no no s = Inr h"
  obtains r where "r \<in> set (orders s)" "ro_no r = to_upper (trim_space no)" "h = order_from_row r"
proof -
  from assms obtain r where r: "List.find (\<lambda>r. ro_no r = to_upper (trim_space no)) (orders s) = Some r" and h: "h = order_from_row r"
    unfolding lock_order_by_no_def by (simp split: option.splits)
  from find_Some_key [OF r] h show thesis by (intro that) simp_all
qed

lemma order_head_simps [simp]:
  "oh_id (order_from_row r) = ro_id r" "oh_event (order_from_row r) = ro_event r" "oh_status (order_from_row r) = ro_status r"
  "oh_buyer (order_from_row r) = deref_int (ro_buyer r)" "oh_no (order_from_row r) = ro_no r" "oh_amount (order_from_row r) = ro_amount r"
  "oh_account (order_from_row r) = deref_int (ro_account r)" "oh_deadline (order_from_row r) = ro_deadline r"
  by (simp_all add: order_from_row_def)

lemma insert_file_Inr:
  assumes "insert_file key vis purpose img utype uid s = Inr (i, s')"
  obtains f where "s' = s\<lparr>files := files s @ [f]\<rparr>" "fl_id f = i" "i = next_id fl_id (files s)" "fl_key f = key"
    "fl_visibility f = vis" "fl_purpose f = purpose"
proof -
  let ?f = "\<lparr>fl_id = next_id fl_id (files s), fl_key = key, fl_visibility = vis, fl_purpose = purpose, fl_mime = im_mime img,
    fl_size = int (length (im_data img)), fl_sha = im_sha img, fl_uploader_type = utype, fl_uploader = uid\<rparr>"
  have i: "i = next_id fl_id (files s)" and s': "s\<lparr>files := files s @ [?f]\<rparr> = s'"
    using assms [unfolded insert_file_def Let_def] by (auto split: if_splits)
  show thesis by (rule that [OF s' [symmetric]]) (simp_all add: i)
qed

lemma submit_guard_Inr:
  assumes "submit_guard u h now = Inr x"
  shows "oh_buyer h = u" "oh_status h = PendingPayment \<or> oh_status h = ProofRejected"
    "case oh_deadline h of None \<Rightarrow> True | Some d \<Rightarrow> now < d"
  using assms by (auto simp: submit_guard_def failIf_def not_le split: if_splits option.splits)

lemma submit_proof_tx_Inr:
  assumes "submit_proof_tx e u no key img inp s = Inr (v, s')"
  obtains r p fs f where "r \<in> set (orders s)" "ro_no r = to_upper (trim_space no)" "deref_int (ro_buyer r) = u"
    "case ro_deadline r of None \<Rightarrow> True | Some d \<Rightarrow> e_now e < d"
    "pf_order p = Some (ro_id r)" "pf_status p = PfSubmitted" "pf_id p = next_id pf_id (proofs s)"
    "\<forall>q\<in>set (proofs s). live_proof q \<longrightarrow> (pf_account q, pf_txn_ref q) \<noteq> (pf_account p, pf_txn_ref p)"
    "\<exists>a. s' = audit_record a (with_orders (\<lambda>x. ro_id x = ro_id r \<and> submittable x) submit_row (s\<lparr>files := fs, proofs := proofs s @ [p]\<rparr>))"
    "\<exists>x\<in>set (orders s). ro_id x = ro_id r \<and> submittable x"
    "pv_row v = p" "fs = files s @ [f]" "fl_id f = next_id fl_id (files s)" "fl_key f = key" "fl_visibility f = ''PRIVATE''"
    "fl_purpose f = ''PAYMENT_PROOF''" "pf_file p = fl_id f"
proof -
  obtain h where l: "lock_order_by_no no s = Inr h" and A: "bindE (submit_guard u h (e_now e)) (\<lambda>_.
     bindE (validate_submit (normalize_txn_ref (sb_ref inp)) (sb_declared inp) (trim_optional (sb_payer inp))) (\<lambda>_.
     bindE (insert_file key ''PRIVATE'' ''PAYMENT_PROOF'' img ''USER'' u s) (\<lambda>(fi, s1).
     bindE (insert_proof e (new_proof e u h (normalize_txn_ref (sb_ref inp)) fi (0 < count_other_files (im_sha img) ''PAYMENT_PROOF'' fi s1) inp) s1) (\<lambda>(row, s2).
     bindE (mark_proof_submitted (oh_id h) s2) (\<lambda>s3.
       Inr (proof_from_row row (oh_no h), audit_record (proof_audit u (pf_id row) (oh_event h)) s3)))))) = Inr (v, s')"
    using assms [unfolded submit_proof_tx_def Let_def] by (rule bindE_InrE)
  obtain r where r: "r \<in> set (orders s)" "ro_no r = to_upper (trim_space no)" "h = order_from_row r" by (rule lock_order_by_no_Inr [OF l])
  obtain x1 where g: "submit_guard u h (e_now e) = Inr x1" and B: "bindE (validate_submit (normalize_txn_ref (sb_ref inp)) (sb_declared inp) (trim_optional (sb_payer inp))) (\<lambda>_.
     bindE (insert_file key ''PRIVATE'' ''PAYMENT_PROOF'' img ''USER'' u s) (\<lambda>(fi, s1).
     bindE (insert_proof e (new_proof e u h (normalize_txn_ref (sb_ref inp)) fi (0 < count_other_files (im_sha img) ''PAYMENT_PROOF'' fi s1) inp) s1) (\<lambda>(row, s2).
     bindE (mark_proof_submitted (oh_id h) s2) (\<lambda>s3.
       Inr (proof_from_row row (oh_no h), audit_record (proof_audit u (pf_id row) (oh_event h)) s3))))) = Inr (v, s')"
    using A by (rule bindE_InrE)
  obtain x2 where C: "bindE (insert_file key ''PRIVATE'' ''PAYMENT_PROOF'' img ''USER'' u s) (\<lambda>(fi, s1).
     bindE (insert_proof e (new_proof e u h (normalize_txn_ref (sb_ref inp)) fi (0 < count_other_files (im_sha img) ''PAYMENT_PROOF'' fi s1) inp) s1) (\<lambda>(row, s2).
     bindE (mark_proof_submitted (oh_id h) s2) (\<lambda>s3.
       Inr (proof_from_row row (oh_no h), audit_record (proof_audit u (pf_id row) (oh_event h)) s3)))) = Inr (v, s')"
    using B by (rule bindE_InrE)
  obtain y where f: "insert_file key ''PRIVATE'' ''PAYMENT_PROOF'' img ''USER'' u s = Inr y" and D: "(case y of (fi, s1) \<Rightarrow>
     bindE (insert_proof e (new_proof e u h (normalize_txn_ref (sb_ref inp)) fi (0 < count_other_files (im_sha img) ''PAYMENT_PROOF'' fi s1) inp) s1) (\<lambda>(row, s2).
     bindE (mark_proof_submitted (oh_id h) s2) (\<lambda>s3.
       Inr (proof_from_row row (oh_no h), audit_record (proof_audit u (pf_id row) (oh_event h)) s3)))) = Inr (v, s')"
    using C by (rule bindE_InrE)
  obtain fi s1 where y: "y = (fi, s1)" by (cases y)
  let ?row = "new_proof e u h (normalize_txn_ref (sb_ref inp)) fi (0 < count_other_files (im_sha img) ''PAYMENT_PROOF'' fi s1) inp"
  obtain z where ip: "insert_proof e ?row s1 = Inr z" and E: "(case z of (row, s2) \<Rightarrow> bindE (mark_proof_submitted (oh_id h) s2) (\<lambda>s3.
       Inr (proof_from_row row (oh_no h), audit_record (proof_audit u (pf_id row) (oh_event h)) s3))) = Inr (v, s')"
    using D [unfolded y prod.case] by (rule bindE_InrE)
  obtain p s2 where z: "z = (p, s2)" by (cases z)
  obtain s3 where m: "mark_proof_submitted (oh_id h) s2 = Inr s3"
    and F: "(Inr (proof_from_row p (oh_no h), audit_record (proof_audit u (pf_id p) (oh_event h)) s3) :: (proof_view \<times> db) res) = Inr (v, s')"
    using E [unfolded z prod.case] by (rule bindE_InrE)
  obtain g where g': "s1 = s\<lparr>files := files s @ [g]\<rparr>" "fl_id g = fi" "fi = next_id fl_id (files s)" "fl_key g = key"
    "fl_visibility g = ''PRIVATE''" "fl_purpose g = ''PAYMENT_PROOF''" by (rule insert_file_Inr [OF f [unfolded y]])
  obtain fs where s1: "s1 = s\<lparr>files := fs\<rparr>" and fs: "fs = files s @ [g]" using g'(1) by blast
  obtain n where p: "p = ?row\<lparr>pf_no := n, pf_id := next_id pf_id (proofs s1)\<rparr>" "s2 = s1\<lparr>proofs := proofs s1 @ [p]\<rparr>"
    "\<forall>q\<in>set (proofs s1). live_proof q \<longrightarrow> (pf_account q, pf_txn_ref q) \<noteq> (pf_account ?row, pf_txn_ref ?row)"
    by (rule insert_proof_Inr [OF ip [unfolded z]])
  note M = mark_proof_submitted_Inr [OF m]
  show thesis
  proof (rule that [of r p fs g])
    show "\<exists>a. s' = audit_record a (with_orders (\<lambda>x. ro_id x = ro_id r \<and> submittable x) submit_row (s\<lparr>files := fs, proofs := proofs s @ [p]\<rparr>))"
      using F M(1) by (intro exI [of _ "proof_audit u (pf_id p) (oh_event h)"]) (simp add: p(2) s1 r(3))
    show "\<exists>x\<in>set (orders s). ro_id x = ro_id r \<and> submittable x" using M(2) by (simp add: p(2) s1 r(3))
    show "case ro_deadline r of None \<Rightarrow> True | Some d \<Rightarrow> e_now e < d" "deref_int (ro_buyer r) = u"
      using submit_guard_Inr [OF g] by (simp_all add: r(3))
    show "pf_order p = Some (ro_id r)" "pf_status p = PfSubmitted" "pf_id p = next_id pf_id (proofs s)"
      by (simp_all add: p(1) new_proof_def s1 r(3))
    show "\<forall>q\<in>set (proofs s). live_proof q \<longrightarrow> (pf_account q, pf_txn_ref q) \<noteq> (pf_account p, pf_txn_ref p)"
      using p(3) by (simp add: p(1) s1)
    show "pv_row v = p" using F by (auto simp: proof_from_row_def)
    show "pf_file p = fl_id g" by (simp add: p(1) new_proof_def g'(2))
  qed (use r g' fs in simp_all)
qed

lemma lock_for_review_Inr:
  assumes "lock_for_review i s = Inr (p, h)"
  obtains r where "p \<in> set (proofs s)" "pf_id p = i" "pf_order p = Some (ro_id r)" "pf_status p = PfSubmitted"
    "r \<in> set (orders s)" "ro_status r = ProofSubmitted" "h = order_from_row r"
proof -
  from assms obtain oid where p: "List.find (\<lambda>p. pf_id p = i) (proofs s) = Some p" and o': "pf_order p = Some oid"
    and l: "lock_order_by_id oid s = Inr h" and st: "pf_status p = PfSubmitted" "oh_status h = ProofSubmitted"
    by (auto simp: lock_for_review_def bindE_Inr_iff failIf_Inr_iff split: option.splits)
  from l obtain r where r: "List.find (\<lambda>r. ro_id r = oid) (orders s) = Some r" and h: "h = order_from_row r"
    unfolding lock_order_by_id_def by (simp split: option.splits)
  from find_Some_key [OF p] find_Some_key [OF r] show thesis
    using o' st h by (intro that [of r]) simp_all
qed

lemma insert_payment_receipt_Inr:
  assumes "insert_payment_receipt row s = Inr (i, s')"
  shows "i = next_id rc_id (receipts s)" "s' = s\<lparr>receipts := receipts s @ [row\<lparr>rc_id := i\<rparr>]\<rparr>" "0 < rc_amount row"
    "\<forall>c\<in>set (receipts s). (rc_account c, rc_txn_ref c) \<noteq> (rc_account row, rc_txn_ref row)"
    "\<forall>c\<in>set (receipts s). rc_proof c = rc_proof row \<longrightarrow> rc_proof row = None"
proof -
  note A = assms [unfolded insert_payment_receipt_def Let_def]
  show i: "i = next_id rc_id (receipts s)" using A by (simp split: if_splits)
  show "s' = s\<lparr>receipts := receipts s @ [row\<lparr>rc_id := i\<rparr>]\<rparr>" using A i by (simp split: if_splits)
  show "0 < rc_amount row" using A by (simp split: if_splits)
  show "\<forall>c\<in>set (receipts s). (rc_account c, rc_txn_ref c) \<noteq> (rc_account row, rc_txn_ref row)"
    "\<forall>c\<in>set (receipts s). rc_proof c = rc_proof row \<longrightarrow> rc_proof row = None"
    using A by (simp split: if_splits; blast)+
qed

lemma insert_payment_exception_Inr:
  assumes "insert_payment_exception row s = Inr s'"
  shows "s' = s\<lparr>exceptions := exceptions s @ [row\<lparr>ex_id := next_id ex_id (exceptions s)\<rparr>]\<rparr>"
  using assms [unfolded insert_payment_exception_def Let_def] by (simp split: if_splits)

lemma record_overpaid_Inr:
  assumes "record_overpaid e h rid over note s = Inr s'"
  obtains xs where "s' = s\<lparr>exceptions := exceptions s @ xs\<rparr>"
    "0 < over \<longrightarrow> (\<exists>x\<in>set xs. ex_receipt x = rid \<and> ex_order x = Some (oh_id h) \<and> ex_amount x = over)"
proof (cases "0 < over")
  case False
  with assms have "s' = s\<lparr>exceptions := exceptions s @ []\<rparr>" by (simp add: record_overpaid_def)
  with False show thesis by (intro that [of "[]"]) simp_all
next
  case True
  let ?row = "\<lparr>ex_id = 0, ex_no = [], ex_order = Some (oh_id h), ex_receipt = rid, ex_amount = over, ex_note = note\<rparr>"
  from True assms have "insert_exception e ?row s = Inr s'" by (simp add: record_overpaid_def)
  from retry_Inr [OF this [unfolded insert_exception_def map_err_Inr]] obtain j where
    "insert_payment_exception (?row\<lparr>ex_no := idgen_code prefix_exception (e_rand e [7, j])\<rparr>) s = Inr s'"
    by (elim exE conjE)
  from insert_payment_exception_Inr [OF this] show thesis by (rule that) simp
qed

lemma enqueue_proof_approved_core: "enqueue_proof_approved e oid pid s = Inr s' \<Longrightarrow> core s' = core s"
  unfolding enqueue_proof_approved_def by (simp only: Inr_chain, elim exE conjE) (auto split: option.splits intro: enqueue_core)

lemma enqueue_proof_rejected_core: "enqueue_proof_rejected e oid pid code reason s = Inr s' \<Longrightarrow> core s' = core s"
  unfolding enqueue_proof_rejected_def by (simp only: Inr_chain, elim exE conjE) (auto split: option.splits intro: enqueue_core)

lemma approve_proof_tx_Inr:
  assumes "approve_proof_tx e actor i inp note s = Inr s'"
  obtains p r xs s4 where "p \<in> set (proofs s)" "pf_id p = i" "pf_order p = Some (ro_id r)" "pf_status p = PfSubmitted"
    "r \<in> set (orders s)" "ro_status r = ProofSubmitted" "ro_amount r \<le> ap_received inp" "0 < ap_received inp"
    "\<forall>c\<in>set (receipts s). (rc_account c, rc_txn_ref c) \<noteq> (pf_account p, pf_txn_ref p)"
    "ro_amount r < ap_received inp \<longrightarrow> (\<exists>x\<in>set xs. ex_receipt x = next_id rc_id (receipts s) \<and> ex_order x = Some (ro_id r))"
    "confirm_paid e (ro_id r) (ap_received_at inp) (s\<lparr>
       proofs := update_where (\<lambda>p. pf_id p = i \<and> pf_status p = PfSubmitted)
         (\<lambda>p. p\<lparr>pf_status := PfApproved, pf_reviewed_by := Some (st_id actor), pf_reviewed_at := Some (e_now e)\<rparr>) (proofs s),
       receipts := receipts s @ [(new_receipt actor p (order_from_row r) inp)\<lparr>rc_id := next_id rc_id (receipts s)\<rparr>],
       exceptions := exceptions s @ xs\<rparr>) = Inr s4" "core s' = core s4"
proof -
  from assms obtain p h rid s2 s3 s4 where l: "lock_for_review i s = Inr (p, h)" and a: "\<not> ap_received inp < oh_amount h"
    and rc: "insert_payment_receipt (new_receipt actor p h inp) (snd (mark_payment_proof_approved (pf_id p) (st_id actor) (e_now e) s)) = Inr (rid, s2)"
    and ov: "record_overpaid e h rid (ap_received inp - oh_amount h) note s2 = Inr s3"
    and cp: "confirm_paid e (oh_id h) (ap_received_at inp) s3 = Inr s4"
    and en: "enqueue_proof_approved e (oh_id h) (pf_id p) (audit_record (review_audit actor ''payment_proof.approve'' p h) s4) = Inr s'"
    unfolding approve_proof_tx_def by (simp only: Inr_chain fst_conv snd_conv) (elim exE conjE, rule that)
  obtain r where r: "p \<in> set (proofs s)" "pf_id p = i" "pf_order p = Some (ro_id r)" "pf_status p = PfSubmitted"
    "r \<in> set (orders s)" "ro_status r = ProofSubmitted" "h = order_from_row r" by (rule lock_for_review_Inr [OF l])
  note R = insert_payment_receipt_Inr [OF rc]
  have rid: "rid = next_id rc_id (receipts s)"
    unfolding R(1) by (simp add: mark_payment_proof_approved_def exec_proofs_def)
  obtain xs where s3: "s3 = s2\<lparr>exceptions := exceptions s2 @ xs\<rparr>" and xs: "0 < ap_received inp - oh_amount h \<longrightarrow>
      (\<exists>x\<in>set xs. ex_receipt x = rid \<and> ex_order x = Some (oh_id h) \<and> ex_amount x = ap_received inp - oh_amount h)"
    by (rule record_overpaid_Inr [OF ov])
  have s2: "s2 = s\<lparr>
       proofs := update_where (\<lambda>p. pf_id p = i \<and> pf_status p = PfSubmitted)
         (\<lambda>p. p\<lparr>pf_status := PfApproved, pf_reviewed_by := Some (st_id actor), pf_reviewed_at := Some (e_now e)\<rparr>) (proofs s),
       receipts := receipts s @ [(new_receipt actor p h inp)\<lparr>rc_id := next_id rc_id (receipts s)\<rparr>]\<rparr>"
    unfolding R(2) rid using r(2) by (simp add: mark_payment_proof_approved_def exec_proofs_def)
  show thesis
  proof (rule that [of p r xs s4])
    show "ro_amount r < ap_received inp \<longrightarrow> (\<exists>x\<in>set xs. ex_receipt x = next_id rc_id (receipts s) \<and> ex_order x = Some (ro_id r))"
      using xs by (auto simp: r(7) rid)
    show "\<forall>c\<in>set (receipts s). (rc_account c, rc_txn_ref c) \<noteq> (pf_account p, pf_txn_ref p)"
      using R(4) by (simp add: mark_payment_proof_approved_def exec_proofs_def new_receipt_def)
    show "core s' = core s4" using enqueue_proof_approved_core [OF en] by simp
    show "0 < ap_received inp" using R(3) by (simp add: new_receipt_def)
  qed (use r a cp in \<open>simp_all add: s3 s2\<close>)
qed

lemma reject_proof_tx_Inr:
  assumes "reject_proof_tx e actor i code reason s = Inr s'"
  obtains p r d s2 where "p \<in> set (proofs s)" "pf_id p = i" "pf_order p = Some (ro_id r)" "pf_status p = PfSubmitted"
    "r \<in> set (orders s)" "ro_status r = ProofSubmitted"
    "s2 = with_orders (\<lambda>x. ro_id x = ro_id r \<and> under_review x) (reject_row d) (s\<lparr>
       proofs := update_where (\<lambda>p. pf_id p = i \<and> pf_status p = PfSubmitted)
         (\<lambda>p. p\<lparr>pf_status := PfRejected, pf_reviewed_by := Some (st_id actor), pf_reviewed_at := Some (e_now e),
            pf_reject_code := Some code, pf_reject_reason := reason\<rparr>) (proofs s)\<rparr>)"
    "\<exists>x\<in>set (orders s). ro_id x = ro_id r \<and> under_review x" "core s' = core s2"
proof -
  from assms obtain p h cfg s2 where l: "lock_for_review i s = Inr (p, h)" and cfg: "load_payment s = Inr cfg"
    and m: "mark_proof_rejected (oh_id h) (e_now e + ps_reupload cfg) (snd (mark_payment_proof_rejected (pf_id p) (st_id actor) (e_now e) code reason s)) = Inr s2"
    and en: "enqueue_proof_rejected e (oh_id h) (pf_id p) code reason (audit_record (review_audit actor ''payment_proof.reject'' p h) s2) = Inr s'"
    unfolding reject_proof_tx_def by (simp only: Inr_chain fst_conv snd_conv) (elim exE conjE, rule that)
  obtain r where r: "p \<in> set (proofs s)" "pf_id p = i" "pf_order p = Some (ro_id r)" "pf_status p = PfSubmitted"
    "r \<in> set (orders s)" "ro_status r = ProofSubmitted" "h = order_from_row r" by (rule lock_for_review_Inr [OF l])
  note M = mark_proof_rejected_Inr [OF m]
  show thesis
  proof (rule that [of p r s2 "e_now e + ps_reupload cfg"])
    show "core s' = core s2" using enqueue_proof_rejected_core [OF en] by simp
  qed (use r M in \<open>simp_all add: mark_payment_proof_rejected_def exec_proofs_def\<close>)
qed

section \<open>The registration state is kept\<close>

lemma submit_proof_tx_ok:
  assumes "db_ok s" and "submit_proof_tx e u no key img inp s = Inr (v, s')"
  shows "db_ok s'"
  using assms(2)
proof (rule submit_proof_tx_Inr, elim exE)
  fix r :: order_row and p :: proof_row and fs a
  let ?s = "s\<lparr>files := fs, proofs := proofs s @ [p]\<rparr>"
  assume s': "s' = audit_record a (with_orders (\<lambda>x. ro_id x = ro_id r \<and> submittable x) submit_row ?s)"
  have "db_ok ?s" using assms(1) by (subst db_ok_cong [of _ s]) simp_all
  then show ?thesis unfolding s' audit_record_ok
    by (rule open_transition_ok) (auto simp: submit_row_def submittable_def order_ok_def open_status_def)
qed

lemma approve_proof_tx_ok:
  assumes "db_ok s" and "approve_proof_tx e actor i inp note s = Inr s'"
  shows "db_ok s'"
proof -
  from assms(2) obtain t s4 oid at where "db_ok t = db_ok s" and c: "confirm_paid e oid at t = Inr s4" "core s' = core s4"
    by (rule approve_proof_tx_Inr) (rule that [OF db_ok_cong], auto)
  then have "db_ok s4" using assms(1) confirm_paid_ok [OF _ c(1)] by simp
  with core_ok [OF c(2)] show ?thesis by simp
qed

lemma reject_proof_tx_ok:
  assumes "db_ok s" and "reject_proof_tx e actor i code reason s = Inr s'"
  shows "db_ok s'"
  using assms(2)
proof (rule reject_proof_tx_Inr)
  fix r :: order_row and ps d s2
  assume s2: "s2 = with_orders (\<lambda>x. ro_id x = ro_id r \<and> under_review x) (reject_row d) (s\<lparr>proofs := update_where (\<lambda>p. pf_id p = i \<and> pf_status p = PfSubmitted)
         (\<lambda>p. p\<lparr>pf_status := PfRejected, pf_reviewed_by := Some (st_id actor), pf_reviewed_at := Some (e_now e),
            pf_reject_code := Some code, pf_reject_reason := reason\<rparr>) (proofs s)\<rparr>)"
    and c: "core s' = core s2"
  have "db_ok s2" unfolding s2
    by (rule open_transition_ok [OF db_ok_cong [THEN iffD2, OF _ _ _ _ _ _ _ _ assms(1)]])
      (auto simp: reject_row_def under_review_def order_ok_def open_status_def)
  with core_ok [OF c] show ?thesis by simp
qed

section \<open>The money is kept\<close>

lemma order_ids_update:
  assumes "\<And>x. ro_id (f x) = ro_id x"
  shows "ro_id ` set (update_where P f xs) = ro_id ` set xs"
  unfolding set_update_where image_image using assms by (intro image_cong) simp_all

lemma submit_proof_tx_funds:
  assumes ok: "db_ok s" "funds_ok s" and "submit_proof_tx e u no key img inp s = Inr (v, s')"
  shows "funds_ok s'"
  using assms(3)
proof (rule submit_proof_tx_Inr, elim exE bexE)
  fix r p fs a x
  assume r: "r \<in> set (orders s)" and p: "pf_order p = Some (ro_id r)" "pf_status p = PfSubmitted" "pf_id p = next_id pf_id (proofs s)"
    and s': "s' = audit_record a (with_orders (\<lambda>x. ro_id x = ro_id r \<and> submittable x) submit_row (s\<lparr>files := fs, proofs := proofs s @ [p]\<rparr>))"
    and x: "x \<in> set (orders s)" "ro_id x = ro_id r \<and> submittable x"
  let ?os = "update_where (\<lambda>x. ro_id x = ro_id r \<and> submittable x) submit_row (orders s)"
  let ?t = "s\<lparr>orders := ?os, proofs := proofs s @ [p]\<rparr>"
  have ids: "ro_id ` set ?os = ro_id ` set (orders s)" by (rule order_ids_update) (simp add: submit_row_def)
  have dist: "distinct (map ro_id (orders s))" using ok(1) by (simp add: db_ok_def keys_ok_def)
  have new: "pf_id p \<notin> pf_id ` set (proofs s)" unfolding p(3) by (rule next_id_fresh)
  have "funded (proofs s @ [p]) (receipts s) y" if y: "y \<in> set ?os" for y
  proof -
    from y obtain z where z: "z \<in> set (orders s)" "y = (if ro_id z = ro_id r \<and> submittable z then submit_row z else z)"
      unfolding set_update_where by (elim imageE)
    have f: "funded (proofs s) (receipts s) z" using ok(2) z(1) by (simp add: funds_ok_def)
    show ?thesis
    proof (cases "ro_id z = ro_id r")
      case True
      from distinct_key_eq [OF dist z(1) x(1)] True x(2) have "z = x" by simp
      with x(2) have zs: "submittable z" "y = submit_row z" using z(2) True by simp_all
      then have "ro_status z \<noteq> ProofSubmitted" "ro_status z \<noteq> Paid" "ro_status y = ProofSubmitted" "ro_id y = ro_id r" "ro_amount y = ro_amount z"
        using True by (auto simp: submittable_def submit_row_def)
      moreover have "0 < ro_amount z" using f zs(1) by (auto simp: funded_def submittable_def open_status_def)
      ultimately show ?thesis
        using f True p by (simp add: funded_def pending_for_def receipt_for_def [abs_def] receipt_ok_def open_status_def)
    next
      case False
      then have "y = z" "\<not> pending_for (ro_id z) p" using z(2) p by (simp_all add: pending_for_def)
      with f show ?thesis by (simp add: funded_def)
    qed
  qed
  then have "funds_ok ?t"
    using ok(2) new ids r p(1) by (auto simp: funds_ok_def)
  moreover have "funds_ok s' = funds_ok ?t" unfolding s' by (rule funds_ok_cong) (simp_all add: audit_record_def with_orders_def)
  ultimately show ?thesis by simp
qed

text \<open>Closing the review of proof \<open>p\<close> takes it, and nothing else, out of the pending ones.\<close>

lemma review_pending:
  assumes "distinct (map pf_id ps)" and "p \<in> set ps" and "pf_order p = Some k" and "pf_status p = PfSubmitted"
    and f: "\<And>q. pf_status (f q) \<noteq> PfSubmitted"
  shows "rows_where (pending_for j) (update_where (\<lambda>q. pf_id q = pf_id p \<and> pf_status q = PfSubmitted) f ps)
    = (if j = k then rows_where (pending_for j) ps - 1 else rows_where (pending_for j) ps)"
proof (cases "j = k")
  case True
  have "Suc (rows_where (pending_for k) (update_where (\<lambda>q. pf_id q = pf_id p \<and> pf_status q = PfSubmitted) f ps))
      = rows_where (pending_for k) ps"
    by (rule rows_where_update_one [OF assms(1,2)]) (use assms(3,4) f in \<open>simp_all add: pending_for_def\<close>)
  with True show ?thesis by simp
next
  case False
  have "rows_where (pending_for j) (update_where (\<lambda>q. pf_id q = pf_id p \<and> pf_status q = PfSubmitted) f ps)
      = rows_where (pending_for j) ps"
  proof (rule rows_where_update_same)
    fix q assume "q \<in> set ps" and q: "pf_id q = pf_id p \<and> pf_status q = PfSubmitted"
    with distinct_key_eq [OF assms(1) _ assms(2)] have "q = p" by simp
    then show "pending_for j (f q) = pending_for j q" using False assms(3) f by (simp add: pending_for_def)
  qed
  with False show ?thesis by simp
qed

lemma review_refs:
  assumes "\<And>q. pf_order (f q) = pf_order q"
  shows "(\<forall>q\<in>set (update_where P f ps). \<forall>i. pf_order q = Some i \<longrightarrow> i \<in> A) \<longleftrightarrow> (\<forall>q\<in>set ps. \<forall>i. pf_order q = Some i \<longrightarrow> i \<in> A)"
  unfolding set_update_where ball_simps by (rule ball_cong [OF refl]) (simp add: assms)

lemma reject_proof_tx_funds:
  assumes ok: "db_ok s" "funds_ok s" and "reject_proof_tx e actor i code reason s = Inr s'"
  shows "funds_ok s'"
  using assms(3)
proof (rule reject_proof_tx_Inr, elim bexE)
  fix p :: proof_row and r :: order_row and d s2 x
  let ?f = "\<lambda>p. p\<lparr>pf_status := PfRejected, pf_reviewed_by := Some (st_id actor), pf_reviewed_at := Some (e_now e),
            pf_reject_code := Some code, pf_reject_reason := reason\<rparr>"
  let ?ps = "update_where (\<lambda>p. pf_id p = i \<and> pf_status p = PfSubmitted) ?f (proofs s)"
  let ?os = "update_where (\<lambda>x. ro_id x = ro_id r \<and> under_review x) (reject_row d) (orders s)"
  assume p: "p \<in> set (proofs s)" "pf_id p = i" "pf_order p = Some (ro_id r)" "pf_status p = PfSubmitted" and r: "r \<in> set (orders s)"
    and s2: "s2 = with_orders (\<lambda>x. ro_id x = ro_id r \<and> under_review x) (reject_row d) (s\<lparr>proofs := ?ps\<rparr>)"
    and c: "core s' = core s2" and x: "x \<in> set (orders s)" "ro_id x = ro_id r \<and> under_review x"
  have ids: "ro_id ` set ?os = ro_id ` set (orders s)" by (rule order_ids_update) (simp add: reject_row_def)
  have dist: "distinct (map ro_id (orders s))" "distinct (map pf_id (proofs s))" using ok by (simp_all add: db_ok_def keys_ok_def funds_ok_def)
  have pend: "rows_where (pending_for j) ?ps = (if j = ro_id r then rows_where (pending_for j) (proofs s) - 1 else rows_where (pending_for j) (proofs s))" for j
    using review_pending [OF dist(2) p(1,3,4), of ?f j] by (simp add: p(2))
  have "funded ?ps (receipts s) y" if y: "y \<in> set ?os" for y
  proof -
    from y obtain z where z: "z \<in> set (orders s)" "y = (if ro_id z = ro_id r \<and> under_review z then reject_row d z else z)"
      unfolding set_update_where by (elim imageE)
    have f: "funded (proofs s) (receipts s) z" using ok(2) z(1) by (simp add: funds_ok_def)
    show ?thesis
    proof (cases "ro_id z = ro_id r")
      case True
      from distinct_key_eq [OF dist(1) z(1) x(1)] True x(2) have "z = x" by simp
      with x(2) have zs: "ro_status z = ProofSubmitted" "y = reject_row d z" using z(2) True by (simp_all add: under_review_def)
      then show ?thesis
        using f True pend by (simp add: funded_def receipt_for_def [abs_def] receipt_ok_def open_status_def reject_row_def)
    next
      case False
      then have "y = z" using z(2) by simp
      with f False show ?thesis by (simp add: funded_def pend)
    qed
  qed
  then have "funds_ok (s\<lparr>orders := ?os, proofs := ?ps\<rparr>)"
    using ok(2) ids by (simp add: funds_ok_def review_refs map_update_where)
  moreover have "funds_ok s2 = funds_ok (s\<lparr>orders := ?os, proofs := ?ps\<rparr>)" unfolding s2 by (rule funds_ok_cong) (simp_all add: with_orders_def)
  ultimately show ?thesis using core_funds [OF c] by simp
qed

lemma approve_proof_tx_funds:
  assumes ok: "db_ok s" "funds_ok s" and "approve_proof_tx e actor i inp note s = Inr s'"
  shows "funds_ok s'"
  using assms(3)
proof (rule approve_proof_tx_Inr)
  fix p :: proof_row and r :: order_row and xs :: "exception_row list" and s4
  let ?f = "\<lambda>p. p\<lparr>pf_status := PfApproved, pf_reviewed_by := Some (st_id actor), pf_reviewed_at := Some (e_now e)\<rparr>"
  let ?ps = "update_where (\<lambda>p. pf_id p = i \<and> pf_status p = PfSubmitted) ?f (proofs s)"
  let ?c = "(new_receipt actor p (order_from_row r) inp)\<lparr>rc_id := next_id rc_id (receipts s)\<rparr>"
  let ?t = "s\<lparr>proofs := ?ps, receipts := receipts s @ [?c], exceptions := exceptions s @ xs\<rparr>"
  let ?os = "update_where (\<lambda>x. ro_id x = ro_id r \<and> payable x) (pay_row (ap_received_at inp)) (orders s)"
  assume p: "p \<in> set (proofs s)" "pf_id p = i" "pf_order p = Some (ro_id r)" "pf_status p = PfSubmitted"
    and r: "r \<in> set (orders s)" "ro_status r = ProofSubmitted" and am: "ro_amount r \<le> ap_received inp"
    and un: "\<forall>c\<in>set (receipts s). (rc_account c, rc_txn_ref c) \<noteq> (pf_account p, pf_txn_ref p)"
    and xs: "ro_amount r < ap_received inp \<longrightarrow> (\<exists>x\<in>set xs. ex_receipt x = next_id rc_id (receipts s) \<and> ex_order x = Some (ro_id r))"
    and cp: "confirm_paid e (ro_id r) (ap_received_at inp) ?t = Inr s4" and c: "core s' = core s4"
  have kt: "db_ok ?t" using ok(1) by (subst db_ok_cong [of _ s]) simp_all
  note cp = confirm_paid_orders [OF kt cp, simplified]
  have ids: "ro_id ` set ?os = ro_id ` set (orders s)" by (rule order_ids_update) (simp add: pay_row_def)
  have dist: "distinct (map ro_id (orders s))" "distinct (map pf_id (proofs s))" using ok by (simp_all add: db_ok_def keys_ok_def funds_ok_def)
  have pend: "rows_where (pending_for j) ?ps = (if j = ro_id r then rows_where (pending_for j) (proofs s) - 1 else rows_where (pending_for j) (proofs s))" for j
    using review_pending [OF dist(2) p(1,3,4), of ?f j] by (simp add: p(2))
  have c_for: "receipt_for y ?c \<longleftrightarrow> ro_id y = ro_id r" for y by (auto simp: receipt_for_def new_receipt_def)
  have "funded ?ps (receipts s @ [?c]) y" if y: "y \<in> set ?os" for y
  proof -
    from y obtain z where z: "z \<in> set (orders s)" "y = (if ro_id z = ro_id r \<and> payable z then pay_row (ap_received_at inp) z else z)"
      unfolding set_update_where by (elim imageE)
    have f: "funded (proofs s) (receipts s) z" using ok(2) z(1) by (simp add: funds_ok_def)
    show ?thesis
    proof (cases "ro_id z = ro_id r")
      case True
      from distinct_key_eq [OF dist(1) z(1) r(1)] True have zr: "z = r" by simp
      from cp(2) obtain x where x: "x \<in> set (orders s)" "ro_id x = ro_id r" "payable x" by blast
      from distinct_key_eq [OF dist(1) x(1) r(1)] x(2,3) have "payable r" by simp
      then have y': "y = pay_row (ap_received_at inp) r" using z(2) zr by simp
      have pos: "0 < ro_amount r" using f r(2) zr by (simp add: funded_def open_status_def)
      have "receipt_ok r ?c" using am by (auto simp: receipt_ok_def new_receipt_def)
      moreover have "receipt_for y = receipt_for r" "receipt_ok y = receipt_ok r" "ro_id y = ro_id r" "ro_status y = Paid" "ro_amount y = ro_amount r"
        by (simp_all add: y' pay_row_def receipt_for_def [abs_def] receipt_ok_def [abs_def])
      ultimately show ?thesis
        using f [unfolded zr] r(2) pos c_for [of r] pend [of "ro_id r"] by (simp add: funded_def open_status_def)
    next
      case False
      then have "y = z" using z(2) by simp
      with f False show ?thesis by (simp add: funded_def pend c_for)
    qed
  qed
  note fd = this
  have new: "rc_id ?c \<notin> rc_id ` set (receipts s)" using next_id_fresh [of rc_id "receipts s"] by simp
  have key: "(rc_account ?c, rc_txn_ref ?c) \<notin> (\<lambda>c. (rc_account c, rc_txn_ref c)) ` set (receipts s)"
    using un by (auto simp: new_receipt_def)
  have exc: "rc_match ?c = MatchException \<longrightarrow> (\<exists>x\<in>set xs. ex_receipt x = rc_id ?c \<and> ex_order x = rc_order ?c)"
    using xs by (simp add: new_receipt_def)
  have rr: "rc_order ?c = Some (ro_id r)" by (simp add: new_receipt_def)
  have "funds_ok (s\<lparr>orders := ?os, proofs := ?ps, receipts := receipts s @ [?c], exceptions := exceptions s @ xs\<rparr>)"
    using ok(2) ids fd new key exc rr r(1) unfolding funds_ok_def by (simp add: review_refs map_update_where) blast
  moreover have "funds_ok s4 = funds_ok (s\<lparr>orders := ?os, proofs := ?ps, receipts := receipts s @ [?c], exceptions := exceptions s @ xs\<rparr>)"
    by (rule funds_ok_cong) (use cp in simp_all)
  ultimately show ?thesis using core_funds [OF c] by simp
qed

end
