(* ===== verification/PriceRules.thy ===== *)
theory PriceRules
  imports Pricing Invariant Samples
begin

text \<open>
  \<open>internal/pricing/rules.go\<close>: the price rules of an event as the back office
  keeps them.  A rule with taken seats keeps its price, audience and categories.
\<close>

section \<open>Shared by the pricing services\<close>

definition event_exists :: "int \<Rightarrow> db \<Rightarrow> bool" where
  "event_exists i s \<longleftrightarrow> (\<exists>ev\<in>set (events s). ev_id ev = i)"

definition require_event :: "int \<Rightarrow> db \<Rightarrow> unit res" where
  "require_event i s = failIf (\<not> event_exists i s) (app 404 CodeEventNotFound)"

definition normalize_ids :: "int list \<Rightarrow> int list" where
  "normalize_ids ids = compact (sort ids)"

section \<open>Input\<close>

record price_rule_input =
  ri_name :: i18n_text
  ri_audience :: string
  ri_price :: int
  ri_quota :: "int option"
  ri_starts :: "gotime option"
  ri_ends :: "gotime option"
  ri_sort :: int
  ri_categories :: "int list"

record price_rule =
  rule_id :: int
  rule_event :: int
  rule_input :: price_rule_input
  rule_used :: int
  rule_reserved :: int

definition price_rule_name_max_len :: nat where "price_rule_name_max_len = 60"

text \<open>\<open>!ends.After(*starts)\<close> when both are given.\<close>

definition ends_before :: "gotime option \<Rightarrow> gotime option \<Rightarrow> bool" where
  "ends_before starts ends = (case (starts, ends) of (Some a, Some b) \<Rightarrow> \<not> a < b | _ \<Rightarrow> False)"

definition rule_items :: "price_rule_input \<Rightarrow> field_item list" where
  "rule_items inp =
     concat (map (\<lambda>l. let name = trim_space (text_get (ri_name inp) l)
         in if name = [] then [(''name.'' @ lang_str l, ''field.required'', [])]
            else item (price_rule_name_max_len < length name) (''name.'' @ lang_str l) ''field.too_long''
                   [(''max'', PInt (int price_rule_name_max_len))]) required_langs)
   @ item (ri_audience inp \<noteq> ''ALL'' \<and> ri_audience inp \<noteq> ''LOCAL'') ''audience'' ''field.invalid'' []
   @ item (ri_price inp < 0) ''priceCents'' ''field.invalid'' []
   @ item (case ri_quota inp of None \<Rightarrow> False | Some q \<Rightarrow> q < 0) ''quota'' ''field.invalid'' []
   @ item (ends_before (ri_starts inp) (ri_ends inp)) ''saleEndsAt'' ''field.ends_before_starts'' []
   @ item (ri_sort inp < 0) ''sortOrder'' ''field.invalid'' []
   @ item (ri_categories inp = []) ''categoryIds'' ''field.required'' []"

definition validate_price_rule :: "price_rule_input \<Rightarrow> unit res" where
  "validate_price_rule inp = collect (rule_items inp)"

section \<open>Statements\<close>

definition list_category_ids_of_event :: "int \<Rightarrow> db \<Rightarrow> int list" where
  "list_category_ids_of_event ev s = sort (map ec_id (filter (\<lambda>c. ec_event c = ev) (categories s)))"

definition require_categories_of :: "int \<Rightarrow> int list \<Rightarrow> db \<Rightarrow> unit res" where
  "require_categories_of ev ids s =
     (let own = list_category_ids_of_event ev s
      in failIf (\<exists>i\<in>set ids. i \<notin> set own)
           (AppErr (with_field ''categoryIds'' ''field.invalid'' [] validation_error)))"

text \<open>\<open>ListCategoryLinksByRuleIDs\<close> grouped by rule: the categories of a rule in ascending order.\<close>

definition category_ids_by_rule :: "int \<Rightarrow> db \<Rightarrow> int list" where
  "category_ids_by_rule i s = sort (map cl_category (filter (\<lambda>l. cl_rule l = i) (links s)))"

definition insert_category_link :: "int \<Rightarrow> int \<Rightarrow> db \<Rightarrow> db res" where
  "insert_category_link rule cat s =
     (if \<exists>l\<in>set (links s). cl_category l = cat \<and> cl_rule l = rule
      then Inl (PgErr ''23505'' ''category_price_rules_pkey'')
      else Inr (s\<lparr>links := links s @ [\<lparr>cl_category = cat, cl_rule = rule\<rparr>]\<rparr>))"

definition insert_category_links :: "int \<Rightarrow> int list \<Rightarrow> db \<Rightarrow> db res" where
  "insert_category_links rule cats = foldE (insert_category_link rule) cats"

definition delete_category_links_by_rule :: "int \<Rightarrow> db \<Rightarrow> db" where
  "delete_category_links_by_rule i s = s\<lparr>links := filter (\<lambda>l. cl_rule l \<noteq> i) (links s)\<rparr>"

text \<open>The CHECK constraints of \<open>price_rules\<close>.\<close>

definition rule_check :: "price_rule_row \<Rightarrow> string option" where
  "rule_check r =
     (if pr_audience r \<noteq> ''ALL'' \<and> pr_audience r \<noteq> ''LOCAL'' then Some ''price_rules_audience_check''
      else if pr_price r < 0 then Some ''price_rules_price_cents_check''
      else case pr_quota r of
             None \<Rightarrow> None
           | Some q \<Rightarrow> if q < 0 then Some ''price_rules_quota_check''
               else if q < pr_used r + pr_reserved r then Some ''price_rules_no_oversell'' else None)"

definition rule_columns :: "price_rule_input \<Rightarrow> price_rule_row \<Rightarrow> price_rule_row" where
  "rule_columns inp r = r\<lparr>pr_name := ri_name inp, pr_audience := ri_audience inp, pr_price := ri_price inp,
     pr_quota := ri_quota inp, pr_starts_at := ri_starts inp, pr_ends_at := ri_ends inp, pr_sort := ri_sort inp\<rparr>"

definition insert_price_rule :: "int \<Rightarrow> price_rule_input \<Rightarrow> db \<Rightarrow> (price_rule_row \<times> db) res" where
  "insert_price_rule ev inp s =
     (let row = rule_columns inp \<lparr>pr_id = next_id pr_id (price_rules s), pr_event = ev, pr_name = [], pr_audience = [],
            pr_price = 0, pr_quota = None, pr_used = 0, pr_reserved = 0, pr_starts_at = None, pr_ends_at = None, pr_sort = 0\<rparr>
      in case rule_check row of
           Some c \<Rightarrow> Inl (check_violation c)
         | None \<Rightarrow> Inr (row, s\<lparr>price_rules := price_rules s @ [row]\<rparr>))"

definition update_price_rule_stmt :: "price_rule_row \<Rightarrow> price_rule_input \<Rightarrow> db \<Rightarrow> (price_rule_row \<times> db) res" where
  "update_price_rule_stmt old inp s =
     (let row = rule_columns inp old
      in case rule_check row of
           Some c \<Rightarrow> Inl (check_violation c)
         | None \<Rightarrow> Inr (row, s\<lparr>price_rules := update_where (\<lambda>r. pr_id r = pr_id old) (rule_columns inp) (price_rules s)\<rparr>))"

definition price_rule_from_row :: "price_rule_row \<Rightarrow> int list \<Rightarrow> price_rule" where
  "price_rule_from_row r cats =
     \<lparr>rule_id = pr_id r, rule_event = pr_event r,
      rule_input = \<lparr>ri_name = pr_name r, ri_audience = pr_audience r, ri_price = pr_price r, ri_quota = pr_quota r,
        ri_starts = pr_starts_at r, ri_ends = pr_ends_at r, ri_sort = pr_sort r, ri_categories = cats\<rparr>,
      rule_used = pr_used r, rule_reserved = pr_reserved r\<rparr>"

section \<open>The operations\<close>

definition list_price_rules :: "int \<Rightarrow> db \<Rightarrow> price_rule list res" where
  "list_price_rules ev s =
     bindE (require_event ev s) (\<lambda>_.
       Inr (map (\<lambda>r. price_rule_from_row r (category_ids_by_rule (pr_id r) s))
         (sort_key (\<lambda>r. (pr_sort r, pr_id r)) (filter (\<lambda>r. pr_event r = ev) (price_rules s)))))"

definition create_price_rule :: "staff \<Rightarrow> int \<Rightarrow> price_rule_input \<Rightarrow> db \<Rightarrow> (price_rule \<times> db) res" where
  "create_price_rule actor ev inp s =
     bindE (validate_price_rule inp) (\<lambda>_.
     let cats = normalize_ids (ri_categories inp) in
     bindE (require_event ev s) (\<lambda>_.
     bindE (require_categories_of ev cats s) (\<lambda>_.
     bindE (insert_price_rule ev inp s) (\<lambda>(row, s1).
     bindE (insert_category_links (pr_id row) cats s1) (\<lambda>s2.
     let rule = price_rule_from_row row cats
     in Inr (rule, audit_record (staff_entry (st_id actor) (st_role actor) ''price_rule.create'' ''price_rule''
          (rule_id rule) (Some (rule_event rule)) False) s2))))))"

definition taken_of :: "price_rule_row \<Rightarrow> int" where
  "taken_of r = int32 (pr_used r + pr_reserved r)"

definition update_price_rule_guard :: "price_rule_row \<Rightarrow> int list \<Rightarrow> price_rule_input \<Rightarrow> int list \<Rightarrow> unit res" where
  "update_price_rule_guard row old_cats inp cats =
     bindE (failIf (0 < taken_of row \<and> (ri_price inp \<noteq> pr_price row \<or> ri_audience inp \<noteq> pr_audience row \<or> old_cats \<noteq> cats))
       (app 409 CodePriceRuleLocked)) (\<lambda>_.
     failIf (case ri_quota inp of None \<Rightarrow> False | Some q \<Rightarrow> q < taken_of row)
       (AppErr (with_field ''quota'' ''field.quota_below_taken'' [(''min'', PInt (taken_of row))] validation_error)))"

definition update_price_rule :: "staff \<Rightarrow> int \<Rightarrow> price_rule_input \<Rightarrow> db \<Rightarrow> (price_rule \<times> db) res" where
  "update_price_rule actor i inp s =
     bindE (validate_price_rule inp) (\<lambda>_.
     let cats = normalize_ids (ri_categories inp) in
     case List.find (\<lambda>r. pr_id r = i) (price_rules s) of
       None \<Rightarrow> Inl (app 404 CodeNotFound)
     | Some row \<Rightarrow>
         (let old_cats = category_ids_by_rule i s in
          bindE (require_categories_of (pr_event row) cats s) (\<lambda>_.
          bindE (update_price_rule_guard row old_cats inp cats) (\<lambda>_.
          bindE (update_price_rule_stmt row inp s) (\<lambda>(row', s1).
          bindE (if old_cats \<noteq> cats then insert_category_links i cats (delete_category_links_by_rule i s1) else Inr s1) (\<lambda>s2.
          let rule = price_rule_from_row row' cats
          in Inr (rule, audit_record (staff_entry (st_id actor) (st_role actor) ''price_rule.update'' ''price_rule''
               (rule_id rule) (Some (rule_event rule)) False) s2)))))))"

section \<open>The links of a rule\<close>

lemma insert_category_links_eq:
  assumes "distinct cats" and "\<forall>l\<in>set (links s). cl_rule l = rule \<longrightarrow> cl_category l \<notin> set cats"
  shows "insert_category_links rule cats s
    = Inr (s\<lparr>links := links s @ map (\<lambda>c. \<lparr>cl_category = c, cl_rule = rule\<rparr>) cats\<rparr>)"
  using assms
proof (induction cats arbitrary: s)
  case Nil
  then show ?case by (simp add: insert_category_links_def)
next
  case (Cons c cats)
  let ?s = "s\<lparr>links := links s @ [\<lparr>cl_category = c, cl_rule = rule\<rparr>]\<rparr>"
  have "insert_category_link rule c s = Inr ?s" using Cons.prems by (auto simp: insert_category_link_def)
  moreover have "insert_category_links rule cats ?s
      = Inr (?s\<lparr>links := links ?s @ map (\<lambda>c. \<lparr>cl_category = c, cl_rule = rule\<rparr>) cats\<rparr>)"
    using Cons.prems by (intro Cons.IH) auto
  ultimately show ?case by (simp add: insert_category_links_def)
qed

lemma normalize_ids_sorted: "sorted (normalize_ids xs)" "distinct (normalize_ids xs)" "set (normalize_ids xs) = set xs"
  using sorted_distinct_compact [of "sort xs"] by (simp_all add: normalize_ids_def)

lemma sort_key_id_sorted: "sorted xs \<Longrightarrow> sort xs = xs"
  by (rule sorted_sort_id)

lemma category_ids_links:
  assumes "links s' = filter (\<lambda>l. cl_rule l \<noteq> i) ls @ map (\<lambda>c. \<lparr>cl_category = c, cl_rule = i\<rparr>) cats" and "sorted cats"
  shows "category_ids_by_rule i s' = cats"
proof -
  have "filter (\<lambda>l. cl_rule l = i) (links s') = map (\<lambda>c. \<lparr>cl_category = c, cl_rule = i\<rparr>) cats"
    unfolding assms(1) by (simp add: filter_map o_def)
  then show ?thesis using assms(2) by (simp add: category_ids_by_rule_def o_def sort_key_id_sorted)
qed

lemma update_price_rule_Inr:
  assumes "update_price_rule actor i inp s = Inr (rule, s')"
  obtains row ls a where "row \<in> set (price_rules s)" "pr_id row = i"
    "update_price_rule_guard row (category_ids_by_rule i s) inp (normalize_ids (ri_categories inp)) = Inr ()"
    "rule_check (rule_columns inp row) = None" "validate_price_rule inp = Inr ()"
    "s' = audit_record a (s\<lparr>price_rules := update_where (\<lambda>r. pr_id r = i) (rule_columns inp) (price_rules s), links := ls\<rparr>)"
    "ls = (if category_ids_by_rule i s = normalize_ids (ri_categories inp) then links s
       else filter (\<lambda>l. cl_rule l \<noteq> i) (links s) @ map (\<lambda>c. \<lparr>cl_category = c, cl_rule = i\<rparr>) (normalize_ids (ri_categories inp)))"
    "rule = price_rule_from_row (rule_columns inp row) (normalize_ids (ri_categories inp))"
proof -
  let ?cats = "normalize_ids (ri_categories inp)"
  obtain row where f: "List.find (\<lambda>r. pr_id r = i) (price_rules s) = Some row"
    using assms by (cases "List.find (\<lambda>r. pr_id r = i) (price_rules s)") (simp_all add: update_price_rule_def bindE_Inr_iff Let_def)
  from find_Some_key [OF f] have row: "row \<in> set (price_rules s)" "pr_id row = i" by simp_all
  note A = assms [unfolded update_price_rule_def f option.case Let_def]
  obtain x1 x2 row' s1 s2 where v: "validate_price_rule inp = Inr x1"
    and g: "update_price_rule_guard row (category_ids_by_rule i s) inp ?cats = Inr x2"
    and st: "update_price_rule_stmt row inp s = Inr (row', s1)"
    and ln: "(if category_ids_by_rule i s \<noteq> ?cats then insert_category_links i ?cats (delete_category_links_by_rule i s1) else Inr s1) = Inr s2"
    and out: "(Inr (price_rule_from_row row' ?cats, audit_record (staff_entry (st_id actor) (st_role actor) ''price_rule.update'' ''price_rule''
               (rule_id (price_rule_from_row row' ?cats)) (Some (rule_event (price_rule_from_row row' ?cats))) False) s2) :: (price_rule \<times> db) res) = Inr (rule, s')"
    using A by (simp only: Inr_chain fst_conv snd_conv) (elim exE conjE, rule that)
  have ck: "rule_check (rule_columns inp row) = None" and row': "row' = rule_columns inp row"
    and s1: "s1 = s\<lparr>price_rules := update_where (\<lambda>r. pr_id r = i) (rule_columns inp) (price_rules s)\<rparr>"
    using st row(2) by (simp_all add: update_price_rule_stmt_def Let_def split: option.splits)
  have d: "insert_category_links i ?cats (delete_category_links_by_rule i s1) = Inr (s1\<lparr>links :=
      filter (\<lambda>l. cl_rule l \<noteq> i) (links s) @ map (\<lambda>c. \<lparr>cl_category = c, cl_rule = i\<rparr>) ?cats\<rparr>)"
    by (subst insert_category_links_eq) (simp_all add: normalize_ids_sorted delete_category_links_by_rule_def s1)
  have s2: "s2 = s\<lparr>price_rules := update_where (\<lambda>r. pr_id r = i) (rule_columns inp) (price_rules s),
      links := (if category_ids_by_rule i s = ?cats then links s
        else filter (\<lambda>l. cl_rule l \<noteq> i) (links s) @ map (\<lambda>c. \<lparr>cl_category = c, cl_rule = i\<rparr>) ?cats)\<rparr>"
  proof (cases "category_ids_by_rule i s = ?cats")
    case True
    with ln have "s2 = s1" by simp
    with True show ?thesis by (simp add: s1)
  next
    case False
    with ln d have "s2 = s1\<lparr>links := filter (\<lambda>l. cl_rule l \<noteq> i) (links s) @ map (\<lambda>c. \<lparr>cl_category = c, cl_rule = i\<rparr>) ?cats\<rparr>" by simp
    with False show ?thesis by (simp add: s1)
  qed
  obtain a where s': "s' = audit_record a s2" and rl: "rule = price_rule_from_row row' ?cats"
    using out by (simp only: sum.inject prod.inject) (elim conjE, rule that, erule sym, erule sym)
  show thesis
    by (rule that [OF row _ ck _ s' [unfolded s2] refl rl [unfolded row']]) (use g v in simp_all)
qed

section \<open>The invariant\<close>

lemma rule_columns_simps [simp]:
  "pr_id (rule_columns inp r) = pr_id r" "pr_used (rule_columns inp r) = pr_used r" "pr_reserved (rule_columns inp r) = pr_reserved r"
  "pr_event (rule_columns inp r) = pr_event r" "pr_quota (rule_columns inp r) = ri_quota inp" "pr_price (rule_columns inp r) = ri_price inp"
  "pr_audience (rule_columns inp r) = ri_audience inp"
  by (simp_all add: rule_columns_def)

lemma rule_check_fits:
  assumes "rule_check r = None" and "0 \<le> pr_used r" and "0 \<le> pr_reserved r"
  shows "rule.fits r"
  using assms by (auto simp: rule_check_def rule.fits_def split: if_splits option.splits)

lemma db_ok_price_rules:
  assumes ok: "db_ok s" and s': "orders s' = orders s" "participants s' = participants s" "registrations s' = registrations s"
      "free_signups s' = free_signups s" "categories s' = categories s" "coupons s' = coupons s" "redemptions s' = redemptions s"
    and ids: "distinct (map pr_id (price_rules s'))" "set (map pr_id (price_rules s)) \<subseteq> set (map pr_id (price_rules s'))"
    and ag: "rule_row.agree (price_rules s') op_order op_rule (participants s) (order_state s) (\<lambda>_. 0)"
    and fit: "\<forall>r\<in>set (price_rules s'). rule.fits r"
  shows "db_ok s'"
proof -
  have st: "order_state s' = order_state s" by (simp add: fun_eq_iff order_state_def s')
  have fs: "free_seats s' = free_seats s" by (simp add: fun_eq_iff free_seats_def s')
  show ?thesis
    using ok ids ag fit by (auto simp: db_ok_def ok_defs counter_keys_def st fs s')
qed

lemma update_price_rule_ok:
  assumes ok: "db_ok s" and "update_price_rule actor i inp s = Inr (rule, s')"
  shows "db_ok s'"
  using assms(2)
proof (rule update_price_rule_Inr)
  fix row ls a
  assume row: "row \<in> set (price_rules s)" "pr_id row = i" and ck: "rule_check (rule_columns inp row) = None"
    and s': "s' = audit_record a (s\<lparr>price_rules := update_where (\<lambda>r. pr_id r = i) (rule_columns inp) (price_rules s), links := ls\<rparr>)"
  let ?t = "s\<lparr>price_rules := update_where (\<lambda>r. pr_id r = i) (rule_columns inp) (price_rules s), links := ls\<rparr>"
  have fits: "\<forall>r\<in>set (price_rules s). rule.fits r" and dist: "distinct (map pr_id (price_rules s))"
    and ag: "rule_row.agree (price_rules s) op_order op_rule (participants s) (order_state s) (\<lambda>_. 0)"
    using ok by (simp_all add: db_ok_def ok_defs counter_keys_def)
  have "rule.fits r" if "r \<in> set (update_where (\<lambda>r. pr_id r = i) (rule_columns inp) (price_rules s))" for r
  proof -
    from that obtain x where x: "x \<in> set (price_rules s)" "r = (if pr_id x = i then rule_columns inp x else x)"
      unfolding set_update_where by (elim imageE)
    show ?thesis
    proof (cases "pr_id x = i")
      case True
      with distinct_key_eq [OF dist x(1) row(1)] row(2) have "x = row" by simp
      moreover have "rule.fits (rule_columns inp row)"
        by (rule rule_check_fits [OF ck]) (use fits row(1) in \<open>auto simp: rule.fits_def\<close>)
      ultimately show ?thesis using x(2) row(2) by simp
    qed (use fits x in simp)
  qed
  then have "db_ok ?t"
    using rule_row.agree_update_where [OF ag] dist
    by (intro db_ok_price_rules [OF ok]) (simp_all add: map_update_where flip: set_map)
  with s' show ?thesis by simp
qed

section \<open>New rules\<close>

lemma insert_category_links_Inr:
  "insert_category_links rule cats s = Inr s' \<Longrightarrow> s' = s\<lparr>links := links s @ map (\<lambda>c. \<lparr>cl_category = c, cl_rule = rule\<rparr>) cats\<rparr>"
proof (induction cats arbitrary: s)
  case Nil
  then show ?case by (simp add: insert_category_links_def)
next
  case (Cons c cats)
  let ?s = "s\<lparr>links := links s @ [\<lparr>cl_category = c, cl_rule = rule\<rparr>]\<rparr>"
  from Cons.prems have "insert_category_links rule cats ?s = Inr s'"
    by (simp add: insert_category_links_def insert_category_link_def split: if_splits)
  from Cons.IH [OF this] show ?case by simp
qed

definition rule_row_for :: "int \<Rightarrow> price_rule_input \<Rightarrow> db \<Rightarrow> price_rule_row" where
  "rule_row_for ev inp s = rule_columns inp \<lparr>pr_id = next_id pr_id (price_rules s), pr_event = ev, pr_name = [], pr_audience = [],
     pr_price = 0, pr_quota = None, pr_used = 0, pr_reserved = 0, pr_starts_at = None, pr_ends_at = None, pr_sort = 0\<rparr>"

lemma rule_row_for_simps [simp]:
  "pr_id (rule_row_for ev inp s) = next_id pr_id (price_rules s)" "pr_used (rule_row_for ev inp s) = 0"
  "pr_reserved (rule_row_for ev inp s) = 0" "pr_event (rule_row_for ev inp s) = ev"
  by (simp_all add: rule_row_for_def)

lemma create_price_rule_Inr:
  assumes "create_price_rule actor ev inp s = Inr (rule, s')"
  obtains a where "event_exists ev s" "validate_price_rule inp = Inr ()" "rule_check (rule_row_for ev inp s) = None"
    "rule = price_rule_from_row (rule_row_for ev inp s) (normalize_ids (ri_categories inp))"
    "s' = audit_record a (s\<lparr>price_rules := price_rules s @ [rule_row_for ev inp s],
       links := links s @ map (\<lambda>c. \<lparr>cl_category = c, cl_rule = next_id pr_id (price_rules s)\<rparr>) (normalize_ids (ri_categories inp))\<rparr>)"
proof -
  let ?cats = "normalize_ids (ri_categories inp)"
  obtain x1 x2 row s1 s2 where v: "validate_price_rule inp = Inr x1" and ex: "require_event ev s = Inr x2"
    and st: "insert_price_rule ev inp s = Inr (row, s1)" and ln: "insert_category_links (pr_id row) ?cats s1 = Inr s2"
    and out: "(Inr (price_rule_from_row row ?cats, audit_record (staff_entry (st_id actor) (st_role actor) ''price_rule.create'' ''price_rule''
               (rule_id (price_rule_from_row row ?cats)) (Some (rule_event (price_rule_from_row row ?cats))) False) s2) :: (price_rule \<times> db) res) = Inr (rule, s')"
    using assms [unfolded create_price_rule_def] by (simp only: Inr_chain fst_conv snd_conv) (elim exE conjE, rule that)
  have row: "row = rule_row_for ev inp s" and ck: "rule_check (rule_row_for ev inp s) = None"
    and s1: "s1 = s\<lparr>price_rules := price_rules s @ [rule_row_for ev inp s]\<rparr>"
    using st [unfolded insert_price_rule_def Let_def, folded rule_row_for_def] by (cases "rule_check (rule_row_for ev inp s)"; simp)+
  have s2: "s2 = s\<lparr>price_rules := price_rules s @ [rule_row_for ev inp s],
       links := links s @ map (\<lambda>c. \<lparr>cl_category = c, cl_rule = next_id pr_id (price_rules s)\<rparr>) ?cats\<rparr>"
    using insert_category_links_Inr [OF ln] by (simp add: s1 row)
  obtain a where s': "s' = audit_record a s2" and rl: "rule = price_rule_from_row row ?cats"
    using out by (simp only: sum.inject prod.inject) (elim conjE, rule that, erule sym, erule sym)
  show thesis
    by (rule that [OF _ _ ck rl [unfolded row] s' [unfolded s2]]) (use ex v in \<open>simp_all add: require_event_def\<close>)
qed

lemma create_price_rule_ok:
  assumes ok: "db_ok s" and "create_price_rule actor ev inp s = Inr (rule, s')"
  shows "db_ok s'"
  using assms(2)
proof (rule create_price_rule_Inr)
  fix a
  let ?r = "rule_row_for ev inp s" and ?ls = "links s @ map (\<lambda>c. \<lparr>cl_category = c, cl_rule = next_id pr_id (price_rules s)\<rparr>) (normalize_ids (ri_categories inp))"
  assume ck: "rule_check ?r = None" and s': "s' = audit_record a (s\<lparr>price_rules := price_rules s @ [?r], links := ?ls\<rparr>)"
  have fits: "\<forall>r\<in>set (price_rules s). rule.fits r" and dist: "distinct (map pr_id (price_rules s))"
    and ag: "rule_row.agree (price_rules s) op_order op_rule (participants s) (order_state s) (\<lambda>_. 0)"
    and refs: "\<forall>p\<in>set (participants s). op_rule p \<in> pr_id ` set (price_rules s)"
    using ok by (simp_all add: db_ok_def ok_defs counter_keys_def)
  have new: "next_id pr_id (price_rules s) \<notin> pr_id ` set (price_rules s)" by (rule next_id_fresh)
  have "op_rule p \<noteq> next_id pr_id (price_rules s)" if "p \<in> set (participants s)" for p using refs new that by metis
  note ne = this
  have "rule.fits ?r" by (rule rule_check_fits [OF ck]) simp_all
  moreover have "rule_row.agree (price_rules s @ [?r]) op_order op_rule (participants s) (order_state s) (\<lambda>_. 0)"
    by (rule rule_row.agree_new_row [OF ag]) (use ne in auto)
  ultimately have "db_ok (s\<lparr>price_rules := price_rules s @ [?r], links := ?ls\<rparr>)"
    using fits dist new by (intro db_ok_price_rules [OF ok]) auto
  with s' show ?thesis by simp
qed

section \<open>What an update keeps\<close>

lemma update_where_keyed:
  assumes "distinct (map g t)" and "x \<in> set t" and "\<And>y. g (f y) = g y" and "y \<in> set (update_where (\<lambda>y. g y = g x) f t)" and "g y = g x"
  shows "y = f x"
proof -
  from assms(4) obtain z where z: "z \<in> set t" "y = (if g z = g x then f z else z)" unfolding set_update_where by (elim imageE)
  with assms(3,5) have "g z = g x" by (auto split: if_splits)
  with distinct_key_eq [OF assms(1) z(1) assms(2)] z(2) show ?thesis by simp
qed

lemma update_price_rule_locked:
  assumes dist: "distinct (map pr_id (price_rules s))" and "update_price_rule actor i inp s = Inr (rule, s')"
    and r: "r \<in> set (price_rules s)" "pr_id r = i" "0 < pr_used r + pr_reserved r" "pr_used r + pr_reserved r < 2 ^ 31"
    and r': "r' \<in> set (price_rules s')" "pr_id r' = i"
  shows "pr_price r' = pr_price r \<and> pr_audience r' = pr_audience r \<and> pr_used r' = pr_used r \<and> pr_reserved r' = pr_reserved r
    \<and> category_ids_by_rule i s' = category_ids_by_rule i s
    \<and> (\<forall>q. pr_quota r' = Some q \<longrightarrow> pr_used r + pr_reserved r \<le> q)"
  using assms(2)
proof (rule update_price_rule_Inr)
  fix row ls a
  let ?cats = "normalize_ids (ri_categories inp)"
  assume row: "row \<in> set (price_rules s)" "pr_id row = i" and g: "update_price_rule_guard row (category_ids_by_rule i s) inp ?cats = Inr ()"
    and s': "s' = audit_record a (s\<lparr>price_rules := update_where (\<lambda>r. pr_id r = i) (rule_columns inp) (price_rules s), links := ls\<rparr>)"
    and ls: "ls = (if category_ids_by_rule i s = ?cats then links s
       else filter (\<lambda>l. cl_rule l \<noteq> i) (links s) @ map (\<lambda>c. \<lparr>cl_category = c, cl_rule = i\<rparr>) ?cats)"
  have "row = r" using distinct_key_eq [OF dist row(1) r(1)] row(2) r(2) by simp
  moreover have "taken_of r = pr_used r + pr_reserved r" using r(3,4) by (simp add: taken_of_def int32_id)
  ultimately have same: "ri_price inp = pr_price r" "ri_audience inp = pr_audience r" "category_ids_by_rule i s = ?cats"
    and q: "\<forall>q. ri_quota inp = Some q \<longrightarrow> pr_used r + pr_reserved r \<le> q"
    using g r(3) by (auto simp: update_price_rule_guard_def bindE_Inr_iff not_less split: option.splits)
  have "price_rules s' = update_where (\<lambda>y. pr_id y = pr_id r) (rule_columns inp) (price_rules s)"
    using s' r(2) by (simp add: audit_record_def)
  then have "r' = rule_columns inp r"
    using r' r(2) by (intro update_where_keyed [OF dist r(1)]) simp_all
  moreover have "category_ids_by_rule i s' = category_ids_by_rule i s"
    using same(3) by (simp add: s' ls category_ids_by_rule_def audit_record_def)
  ultimately show ?thesis using same q by simp
qed

section \<open>Properties\<close>

text \<open>A created price rule is listed with exactly the given input, its categories sorted and without
  repetition (the foreign key of \<open>category_price_rules\<close> is the hypothesis).\<close>

theorem create_price_rule_listed:
  assumes "\<forall>l\<in>set (links s). cl_rule l \<in> pr_id ` set (price_rules s)"
    and "create_price_rule actor ev inp s = Inr (rule, s')"
  shows "\<exists>rules. list_price_rules ev s' = Inr rules \<and> rule \<in> set rules
    \<and> rule_input rule = inp\<lparr>ri_categories := normalize_ids (ri_categories inp)\<rparr> \<and> rule_used rule = 0 \<and> rule_reserved rule = 0"
  using assms(2)
proof (rule create_price_rule_Inr)
  fix a
  let ?cats = "normalize_ids (ri_categories inp)" and ?row = "rule_row_for ev inp s"
  assume ex: "event_exists ev s" and rl: "rule = price_rule_from_row ?row ?cats"
    and s': "s' = audit_record a (s\<lparr>price_rules := price_rules s @ [?row],
       links := links s @ map (\<lambda>c. \<lparr>cl_category = c, cl_rule = next_id pr_id (price_rules s)\<rparr>) ?cats\<rparr>)"
  have "next_id pr_id (price_rules s) \<notin> pr_id ` set (price_rules s)" by (rule next_id_fresh)
  with assms(1) have "\<forall>l\<in>set (links s). cl_rule l \<noteq> next_id pr_id (price_rules s)" by metis
  then have "filter (\<lambda>l. cl_rule l \<noteq> next_id pr_id (price_rules s)) (links s) = links s" by (intro filter_True)
  then have "category_ids_by_rule (next_id pr_id (price_rules s)) s' = ?cats"
    by (intro category_ids_links [of s' _ "links s"]) (simp_all add: s' audit_record_def normalize_ids_sorted)
  moreover have "require_event ev s' = Inr ()"
    using ex by (simp add: s' require_event_def event_exists_def audit_record_def)
  moreover have "?row \<in> set (price_rules s')" by (simp add: s' audit_record_def)
  ultimately show ?thesis
    by (auto simp: list_price_rules_def rl intro!: image_eqI [of _ _ ?row])
      (simp_all add: price_rule_from_row_def rule_row_for_def rule_columns_def)
qed

definition sample_rule_input :: price_rule_input where
  "sample_rule_input = \<lparr>ri_name = [(ZH, ''a''), (EN, ''Early''), (KM, ''b'')], ri_audience = ''ALL'', ri_price = 1800,
     ri_quota = Some 10, ri_starts = None, ri_ends = None, ri_sort = 1, ri_categories = [2, 1, 2]\<rparr>"

definition sample_new_rule :: "price_rule \<times> db" where
  "sample_new_rule = projr (create_price_rule sample_staff 1 sample_rule_input sample_db)"

lemma create_price_rule_listed_witness:
  "\<exists>rules. list_price_rules 1 (snd sample_new_rule) = Inr rules \<and> fst sample_new_rule \<in> set rules
    \<and> rule_input (fst sample_new_rule) = sample_rule_input\<lparr>ri_categories := normalize_ids (ri_categories sample_rule_input)\<rparr>
    \<and> rule_used (fst sample_new_rule) = 0 \<and> rule_reserved (fst sample_new_rule) = 0"
proof (rule create_price_rule_listed)
  show "\<forall>l\<in>set (links sample_db). cl_rule l \<in> pr_id ` set (price_rules sample_db)" by code_simp
  have "\<not> isl (create_price_rule sample_staff 1 sample_rule_input sample_db)" by code_simp
  then show "create_price_rule sample_staff 1 sample_rule_input sample_db = Inr (fst sample_new_rule, snd sample_new_rule)"
    by (simp add: sample_new_rule_def)
qed

text \<open>C21: Once seats of a price rule are taken, an update keeps its price, audience, categories and counters,
  and its quota still covers the taken seats.\<close>

theorem taken_price_rule_locked:
  assumes "distinct (map pr_id (price_rules s))" and "update_price_rule actor i inp s = Inr (rule, s')"
    and "r \<in> set (price_rules s)" "pr_id r = i" "0 < pr_used r + pr_reserved r" "pr_used r + pr_reserved r < 2 ^ 31"
    and "r' \<in> set (price_rules s')" "pr_id r' = i"
  shows "pr_price r' = pr_price r \<and> pr_audience r' = pr_audience r \<and> pr_used r' = pr_used r \<and> pr_reserved r' = pr_reserved r
    \<and> category_ids_by_rule i s' = category_ids_by_rule i s
    \<and> (\<forall>q. pr_quota r' = Some q \<longrightarrow> pr_used r + pr_reserved r \<le> q)"
  using assms by (rule update_price_rule_locked)

definition sample_taken_db :: db where
  "sample_taken_db = sample_db\<lparr>price_rules := [(sample_rule 1 ''ALL'' 2500 None)\<lparr>pr_used := 3, pr_reserved := 2\<rparr>]\<rparr>"

definition sample_taken_update :: "price_rule \<times> db" where
  "sample_taken_update = projr (update_price_rule sample_staff 1 (sample_rule_input\<lparr>ri_price := 2500\<rparr>) sample_taken_db)"

lemma taken_price_rule_locked_witness:
  "pr_price (hd (price_rules (snd sample_taken_update))) = 2500
    \<and> category_ids_by_rule 1 (snd sample_taken_update) = category_ids_by_rule 1 sample_taken_db"
proof -
  let ?r = "hd (price_rules sample_taken_db)" and ?r' = "hd (price_rules (snd sample_taken_update))"
  have "\<not> isl (update_price_rule sample_staff 1 (sample_rule_input\<lparr>ri_price := 2500\<rparr>) sample_taken_db)" by code_simp
  then have run: "update_price_rule sample_staff 1 (sample_rule_input\<lparr>ri_price := 2500\<rparr>) sample_taken_db
      = Inr (fst sample_taken_update, snd sample_taken_update)" by (simp add: sample_taken_update_def)
  have "pr_price ?r' = pr_price ?r \<and> pr_audience ?r' = pr_audience ?r \<and> pr_used ?r' = pr_used ?r \<and> pr_reserved ?r' = pr_reserved ?r
    \<and> category_ids_by_rule 1 (snd sample_taken_update) = category_ids_by_rule 1 sample_taken_db
    \<and> (\<forall>q. pr_quota ?r' = Some q \<longrightarrow> pr_used ?r + pr_reserved ?r \<le> q)"
    by (rule taken_price_rule_locked [OF _ run]) code_simp+
  moreover have "pr_price ?r = 2500" by code_simp
  ultimately show ?thesis by simp
qed

end
