(* ===== verification/Accounts.thy ===== *)
theory Accounts
  imports Payments PriceRules
begin

text \<open>
  \<open>internal/payment/accounts.go\<close>: the payment accounts and their QR images.
\<close>

section \<open>Input\<close>

record account_input =
  ac_name :: string
  ac_provider :: string
  ac_account_name :: string
  ac_no_masked :: string
  ac_scope :: string
  ac_event :: "int option"
  ac_active :: bool

record account_view =
  acc_id :: int
  acc_input :: account_input
  acc_currency :: string
  acc_qr_file :: int
  acc_created_at :: gotime

definition account_text_max_len :: nat where "account_text_max_len = 80"
definition account_no_masked_max_len :: nat where "account_no_masked_max_len = 32"

definition providers :: "string list" where "providers = [''ABA'', ''ACLEDA'', ''WING'', ''BAKONG'', ''OTHER'']"
definition scopes :: "string list" where "scopes = [''REGISTRATION'', ''MERCH'', ''ALL'']"

definition text_items :: "string \<Rightarrow> string \<Rightarrow> nat \<Rightarrow> field_item list" where
  "text_items field v n =
     (if trim_space v = [] then [(field, ''field.required'', [])]
      else item (n < length v) field ''field.too_long'' [(''max'', PInt (int n))])"

definition account_items :: "account_input \<Rightarrow> bool \<Rightarrow> field_item list" where
  "account_items inp qr_missing =
     text_items ''name'' (ac_name inp) account_text_max_len
   @ text_items ''accountName'' (ac_account_name inp) account_text_max_len
   @ text_items ''accountNoMasked'' (ac_no_masked inp) account_no_masked_max_len
   @ item (ac_provider inp \<notin> set providers) ''provider'' ''field.invalid'' []
   @ item (ac_scope inp \<notin> set scopes) ''scope'' ''field.invalid'' []
   @ item qr_missing ''qr'' ''field.required'' []"

definition validate_account :: "account_input \<Rightarrow> bool \<Rightarrow> unit res" where
  "validate_account inp qr_missing = collect (account_items inp qr_missing)"

definition normalize_account :: "account_input \<Rightarrow> account_input" where
  "normalize_account inp = inp\<lparr>ac_name := trim_space (ac_name inp), ac_provider := trim_space (ac_provider inp),
     ac_account_name := trim_space (ac_account_name inp), ac_no_masked := trim_space (ac_no_masked inp),
     ac_scope := trim_space (ac_scope inp)\<rparr>"

definition require_account_event :: "int option \<Rightarrow> db \<Rightarrow> unit res" where
  "require_account_event ev s =
     (case ev of
        None \<Rightarrow> Inr ()
      | Some i \<Rightarrow> failIf (\<not> event_exists i s) (AppErr (with_field ''eventId'' ''field.invalid'' [] validation_error)))"

section \<open>Statements\<close>

definition account_columns :: "account_input \<Rightarrow> int \<Rightarrow> account_row \<Rightarrow> account_row" where
  "account_columns inp file r = r\<lparr>pa_name := ac_name inp, pa_provider := ac_provider inp, pa_account_name := ac_account_name inp,
     pa_no_masked := ac_no_masked inp, pa_currency := ''USD'', pa_qr_file := file, pa_scope := ac_scope inp, pa_event := ac_event inp, pa_active := ac_active inp\<rparr>"

definition account_check :: "account_input \<Rightarrow> unit res" where
  "account_check inp =
     bindE (failIf (ac_provider inp \<notin> set providers) (check_violation ''payment_accounts_provider_check'')) (\<lambda>_.
       failIf (ac_scope inp \<notin> set scopes) (check_violation ''payment_accounts_scope_check''))"

definition insert_payment_account :: "env \<Rightarrow> account_input \<Rightarrow> int \<Rightarrow> db \<Rightarrow> (account_row \<times> db) res" where
  "insert_payment_account e inp file s =
     bindE (account_check inp) (\<lambda>_.
     let row = account_columns inp file \<lparr>pa_id = next_id pa_id (accounts s), pa_name = [], pa_provider = [], pa_account_name = [],
           pa_no_masked = [], pa_currency = [], pa_qr_file = 0, pa_scope = [], pa_event = None, pa_active = False,
           pa_created_at = e_db_now e\<rparr>
     in Inr (row, s\<lparr>accounts := accounts s @ [row]\<rparr>))"

definition update_payment_account :: "account_row \<Rightarrow> account_input \<Rightarrow> int \<Rightarrow> db \<Rightarrow> (account_row \<times> db) res" where
  "update_payment_account old inp file s =
     bindE (account_check inp) (\<lambda>_.
       Inr (account_columns inp file old,
            s\<lparr>accounts := update_where (\<lambda>a. pa_id a = pa_id old) (account_columns inp file) (accounts s)\<rparr>))"

definition account_from_row :: "account_row \<Rightarrow> account_view" where
  "account_from_row r =
     \<lparr>acc_id = pa_id r,
      acc_input = \<lparr>ac_name = pa_name r, ac_provider = pa_provider r, ac_account_name = pa_account_name r,
        ac_no_masked = pa_no_masked r, ac_scope = pa_scope r, ac_event = pa_event r, ac_active = pa_active r\<rparr>,
      acc_currency = pa_currency r, acc_qr_file = pa_qr_file r, acc_created_at = pa_created_at r\<rparr>"

section \<open>The operations\<close>

definition list_accounts :: "db \<Rightarrow> account_view list" where
  "list_accounts s = map account_from_row (sort_key (\<lambda>a. (\<not> pa_active a, pa_id a)) (accounts s))"

definition account_entry :: "staff \<Rightarrow> string \<Rightarrow> account_row \<Rightarrow> audit_row" where
  "account_entry actor action r =
     staff_entry (st_id actor) (st_role actor) action ''payment_account'' (pa_id r) (pa_event r) True"

definition qr_record :: "string \<Rightarrow> image \<Rightarrow> staff \<Rightarrow> db \<Rightarrow> (int \<times> db) res" where
  "qr_record key img actor = insert_file key ''PUBLIC'' ''PAYMENT_QR'' img ''STAFF'' (st_id actor)"

definition create_account_tx :: "env \<Rightarrow> staff \<Rightarrow> account_input \<Rightarrow> string \<Rightarrow> image \<Rightarrow> db \<Rightarrow> (account_view \<times> db) res" where
  "create_account_tx e actor inp key img s =
     bindE (require_account_event (ac_event inp) s) (\<lambda>_.
     bindE (qr_record key img actor s) (\<lambda>(file, s1).
     bindE (insert_payment_account e inp file s1) (\<lambda>(row, s2).
       Inr (account_from_row row, audit_record (account_entry actor ''payment_account.create'' row) s2))))"

text \<open>\<open>storeQR\<close> reads and stores the image; a missing reader is \<open>None\<close>.\<close>

definition create_account ::
    "env \<Rightarrow> staff \<Rightarrow> account_input \<Rightarrow> upload option \<Rightarrow> db \<Rightarrow> disk \<Rightarrow> (account_view \<times> db) res \<times> disk" where
  "create_account e actor inp qr s d =
     (let inp = normalize_account inp in
      case validate_account inp (qr = None) of
        Inl err \<Rightarrow> (Inl err, d)
      | Inr _ \<Rightarrow>
          (case qr of
             None \<Rightarrow> (Inl (OtherErr ''panic: nil reader''), d)
           | Some up \<Rightarrow>
               (case read_image e max_qr_bytes up of
                  Inl err \<Rightarrow> (Inl err, d)
                | Inr img \<Rightarrow>
                    (let key = new_key e [8] (im_ext img)
                     in with_stored_file e key (im_data img) (create_account_tx e actor inp key img s) d))))"

definition update_account_tx ::
    "staff \<Rightarrow> int \<Rightarrow> account_input \<Rightarrow> (string \<times> image) option \<Rightarrow> db \<Rightarrow> (account_view \<times> db) res" where
  "update_account_tx actor i inp qr s =
     (case List.find (\<lambda>a. pa_id a = i) (accounts s) of
        None \<Rightarrow> Inl (app 404 CodeNotFound)
      | Some row \<Rightarrow>
          bindE (require_account_event (ac_event inp) s) (\<lambda>_.
          bindE (case qr of None \<Rightarrow> Inr (pa_qr_file row, s) | Some (key, img) \<Rightarrow> qr_record key img actor s) (\<lambda>(file, s1).
          bindE (update_payment_account row inp file s1) (\<lambda>(row', s2).
            Inr (account_from_row row', audit_record (account_entry actor ''payment_account.update'' row') s2)))))"

definition update_account ::
    "env \<Rightarrow> staff \<Rightarrow> int \<Rightarrow> account_input \<Rightarrow> upload option \<Rightarrow> db \<Rightarrow> disk \<Rightarrow> (account_view \<times> db) res \<times> disk" where
  "update_account e actor i inp qr s d =
     (let inp = normalize_account inp in
      case validate_account inp False of
        Inl err \<Rightarrow> (Inl err, d)
      | Inr _ \<Rightarrow>
          (case qr of
             None \<Rightarrow> (update_account_tx actor i inp None s, d)
           | Some up \<Rightarrow>
               (case read_image e max_qr_bytes up of
                  Inl err \<Rightarrow> (Inl err, d)
                | Inr img \<Rightarrow>
                    (let key = new_key e [8] (im_ext img)
                     in with_stored_file e key (im_data img) (update_account_tx actor i inp (Some (key, img)) s) d))))"

end
