(* ===== verification/SampleRuns.thy ===== *)
theory SampleRuns
  imports Placement Payments
begin

text \<open>
  A run of the model on the sample database: runner 1 places an order for two, submits a
  payment proof, and staff approve it.  The witnesses apply the properties at these states.
\<close>

definition sample_profile :: "string \<Rightarrow> profile_data" where
  "sample_profile name = \<lparr>pd_name = name, pd_gender = ''M'', pd_birth = date_time 1990 5 1, pd_nationality = ''KH'',
     pd_id_type = ''NATIONAL_ID'', pd_id_no = name @ ''0001'', pd_phone = ''+85512345678'', pd_email = '''', pd_em_name = ''Sok'',
     pd_em_phone = ''+85512345679'', pd_tshirt = ''M''\<rparr>"

definition sample_create :: create_input where
  "sample_create = \<lparr>in_slug = ''run'', in_coupon = ''run10'', in_consent = \<lparr>ca_version = ''v1'', ca_lang = ''en'', ca_checked = [''a'']\<rparr>,
     in_participants = [\<lparr>oi_category = 1, oi_profile_id = None, oi_profile = Some (sample_profile ''Dara''), oi_save = False\<rparr>,
                        \<lparr>oi_category = 1, oi_profile_id = None, oi_profile = Some (sample_profile ''Sophea''), oi_save = False\<rparr>],
     in_key = ''key-0001''\<rparr>"

definition sample_placing :: "order_detail \<times> db" where
  "sample_placing =
   (\<lparr>od_head = \<lparr>oh_id = 1, oh_event = 1, oh_buyer = 1, oh_no = ''WR0000E1R7'', oh_status =
      PendingPayment, oh_state = Some Reserved, oh_list = 4000, oh_discount = 401, oh_ident = 1, oh_amount = 3599,
      oh_currency = ''USD'', oh_account = 1, oh_deadline = Some 1782876600000000000, oh_paid_at = None, oh_created_at
      = 1782874800000000000\<rparr>, od_slug = ''run'', od_event_name = [(EN, ''Run'')], od_timezone =
      ''Asia/Phnom_Penh'', od_participants = [\<lparr>dp_reg_id = 1, dp_reg_no = ''RG08000000'', dp_category = 1,
      dp_category_name = [(EN, ''21K'')], dp_full_name = ''Dara'', dp_rule = 2, dp_list = 1500, dp_paid = 1350,
      dp_status = RegPending, dp_ticket = None\<rparr>, \<lparr>dp_reg_id = 2, dp_reg_no = ''RG080G0000'', dp_category
      = 1, dp_category_name = [(EN, ''21K'')], dp_full_name = ''Sophea'', dp_rule = 1, dp_list = 2500, dp_paid = 2249,
      dp_status = RegPending, dp_ticket = None\<rparr>], od_account = \<lparr>aa_id = 1, aa_name = ''KHQR'',
      aa_provider = ''ABA'', aa_account_name = ''WeRun'', aa_no_masked = ''***123'', aa_qr_file = 1\<rparr>,
      od_rejection = None\<rparr>,
   sample_db\<lparr>
     categories := [\<lparr>ec_id = 1, ec_event = 1, ec_code = ''21K'', ec_name = [(EN, ''21K'')], ec_distance =
       10000, ec_capacity = 3, ec_used = 0, ec_reserved = 2, ec_start_at = None, ec_cutoff_at = None, ec_min_age = 16,
       ec_sort = 1\<rparr>, \<lparr>ec_id = 2, ec_event = 1, ec_code = ''10K'', ec_name = [(EN, ''10K'')], ec_distance
       = 10000, ec_capacity = 1, ec_used = 0, ec_reserved = 0, ec_start_at = None, ec_cutoff_at = None, ec_min_age =
       16, ec_sort = 2\<rparr>],
     price_rules := [\<lparr>pr_id = 1, pr_event = 1, pr_name = [], pr_audience = ''ALL'', pr_price = 2500, pr_quota =
       None, pr_used = 0, pr_reserved = 1, pr_starts_at = None, pr_ends_at = None, pr_sort = 0\<rparr>, \<lparr>pr_id
       = 2, pr_event = 1, pr_name = [], pr_audience = ''LOCAL'', pr_price = 1500, pr_quota = Some 1, pr_used = 0,
       pr_reserved = 1, pr_starts_at = None, pr_ends_at = None, pr_sort = 0\<rparr>],
     coupons := [\<lparr>cp_id = 1, cp_code = ''RUN10'', cp_event = Some 1, cp_type = ''PERCENT'', cp_value = 10,
       cp_quota = 5, cp_used = 0, cp_reserved = 1, cp_min_runners = None, cp_from = None, cp_until = None,
       cp_description = None, cp_status = ''ACTIVE'', cp_created_at = 0\<rparr>],
     redemptions := [\<lparr>cr_order = 1, cr_coupon = 1, cr_state = Reserved, cr_discount = 400\<rparr>],
     orders := [\<lparr>ro_id = 1, ro_no = ''WR0000E1R7'', ro_event = 1, ro_buyer = Some 1, ro_buyer_name = ''Dara'',
       ro_buyer_phone = ''+85512345678'', ro_buyer_email = None, ro_status = PendingPayment, ro_state = Reserved,
       ro_release_kind = None, ro_list = 4000, ro_discount = 401, ro_ident = 1, ro_amount = 3599, ro_currency =
       ''USD'', ro_coupon = Some 1, ro_account = Some 1, ro_deadline = Some 1782876600000000000, ro_paid_at = None,
       ro_expired_at = None, ro_cancelled_at = None, ro_version = 1, ro_created_at = 1782874800000000000\<rparr>],
     participants := [\<lparr>op_id = 1, op_order = 1, op_category = 1, op_rule = 2, op_audience = ''LOCAL'', op_list
       = 1500, op_paid = 1350, op_name = ''Dara''\<rparr>, \<lparr>op_id = 2, op_order = 1, op_category = 1, op_rule =
       1, op_audience = ''ALL'', op_list = 2500, op_paid = 2249, op_name = ''Sophea''\<rparr>],
     registrations := [\<lparr>rg_id = 1, rg_no = ''RG08000000'', rg_participant = 1, rg_event = 1, rg_category = 1,
       rg_status = RegPending, rg_cancel_reason = None, rg_ticket = ''080000010W3GE1R70W3GE1R70W3GE1R7'', rg_user =
       Some 1, rg_name = ''Dara'', rg_gender = ''M'', rg_birth = 641520000000000000, rg_nationality = ''KH'',
       rg_id_type = Some ''NATIONAL_ID'', rg_id_enc = ''cDARA0001'', rg_id_hash = ''hDARA0001'', rg_phone = Some
       ''+85512345678'', rg_email = None, rg_em_name = Some ''Sok'', rg_em_phone = Some ''+85512345679'', rg_tshirt =
       Some ''M'', rg_confirmed_at = None, rg_version = 1\<rparr>, \<lparr>rg_id = 2, rg_no = ''RG080G0000'',
       rg_participant = 2, rg_event = 1, rg_category = 1, rg_status = RegPending, rg_cancel_reason = None, rg_ticket =
       ''080G00010W3GE1R70W3GE1R70W3GE1R7'', rg_user = Some 1, rg_name = ''Sophea'', rg_gender = ''M'', rg_birth =
       641520000000000000, rg_nationality = ''KH'', rg_id_type = Some ''NATIONAL_ID'', rg_id_enc = ''cSOPHEA0001'',
       rg_id_hash = ''hSOPHEA0001'', rg_phone = Some ''+85512345678'', rg_email = None, rg_em_name = Some ''Sok'',
       rg_em_phone = Some ''+85512345679'', rg_tshirt = Some ''M'', rg_confirmed_at = None, rg_version = 1\<rparr>],
     idem_keys := [\<lparr>ik_key = ''key-0001'', ik_scope = ''reg_order.create'', ik_subject = ''user:1'', ik_hash =
       [], ik_code = Some 201, ik_body = Some \<lparr>ao_no = ''WR0000E1R7'', ao_status = PendingPayment, ao_slug =
       ''run'', ao_event_name = [(EN, ''Run'')], ao_timezone = ''Asia/Phnom_Penh'', ao_list = 4000, ao_discount = 401,
       ao_ident = 1, ao_amount = 3599, ao_currency = ''USD'', ao_deadline = Some 1782876600000000000, ao_paid_at =
       None, ao_created_at = 1782874800000000000, ao_participants = [\<lparr>ap_reg_no = ''RG08000000'', ap_category =
       1, ap_category_name = [(EN, ''21K'')], ap_full_name = ''Dara'', ap_rule = 2, ap_list = 1500, ap_paid = 1350,
       ap_status = RegPending, ap_ticket = None\<rparr>, \<lparr>ap_reg_no = ''RG080G0000'', ap_category = 1,
       ap_category_name = [(EN, ''21K'')], ap_full_name = ''Sophea'', ap_rule = 1, ap_list = 2500, ap_paid = 2249,
       ap_status = RegPending, ap_ticket = None\<rparr>], ao_account = \<lparr>aa_id = 1, aa_name = ''KHQR'',
       aa_provider = ''ABA'', aa_account_name = ''WeRun'', aa_no_masked = ''***123'', aa_qr_file = 1\<rparr>,
       ao_rejection = None\<rparr>, ik_created_at = 1782874800000000000, ik_expires_at = 1782961200000000000\<rparr>],
     signatures := [\<lparr>sg_id = 1, sg_version = ''v1'', sg_lang = ''en'', sg_sha = ''h'', sg_user = 1, sg_checked
       = [''a''], sg_signed_at = 1782874800000000000\<rparr>],
     reg_consents := [\<lparr>rx_signature = 1, rx_order = Some 1, rx_free = None\<rparr>],
     audit_logs := [\<lparr>au_actor_type = ''USER'', au_actor = Some 1, au_role = None, au_action =
       ''reg_order.create'', au_entity_type = ''reg_order'', au_entity = 1, au_event = Some 1, au_financial =
       True\<rparr>]\<rparr>)"

abbreviation sample_placed :: db where "sample_placed \<equiv> snd sample_placing"

lemma sample_placing_runs: "create_order sample_env in_key 1 sample_create sample_db = Inr (fst sample_placing, sample_placed)"
  by code_simp

definition sample_submit :: submit_input where
  "sample_submit = \<lparr>sb_file = Some (UpBytes ''PNG...''), sb_ref = '' tx 001 '', sb_declared = 3599, sb_paid_at = None, sb_payer = None\<rparr>"

definition sample_submission :: "(proof_view \<times> db) res \<times> disk" where
  "sample_submission =
   (Inr (\<lparr>pv_row = \<lparr>pf_id = 1, pf_no = ''PF0M00E1R7'', pf_order = Some 1, pf_account = 1, pf_file = 1,
      pf_user = Some 1, pf_declared = 3599, pf_txn_ref = ''TX001'', pf_declared_at = None, pf_payer = None,
      pf_dup_file = False, pf_status = PfSubmitted, pf_reviewed_by = None, pf_reviewed_at = None, pf_reject_code =
      None, pf_reject_reason = None, pf_created_at = 1782874800000000000\<rparr>, pv_order_no = ''WR0000E1R7''\<rparr>,
   sample_placed\<lparr>
     orders := [\<lparr>ro_id = 1, ro_no = ''WR0000E1R7'', ro_event = 1, ro_buyer = Some 1, ro_buyer_name = ''Dara'',
       ro_buyer_phone = ''+85512345678'', ro_buyer_email = None, ro_status = ProofSubmitted, ro_state = Reserved,
       ro_release_kind = None, ro_list = 4000, ro_discount = 401, ro_ident = 1, ro_amount = 3599, ro_currency =
       ''USD'', ro_coupon = Some 1, ro_account = Some 1, ro_deadline = None, ro_paid_at = None, ro_expired_at = None,
       ro_cancelled_at = None, ro_version = 2, ro_created_at = 1782874800000000000\<rparr>],
     proofs := [\<lparr>pf_id = 1, pf_no = ''PF0M00E1R7'', pf_order = Some 1, pf_account = 1, pf_file = 1, pf_user =
       Some 1, pf_declared = 3599, pf_txn_ref = ''TX001'', pf_declared_at = None, pf_payer = None, pf_dup_file =
       False, pf_status = PfSubmitted, pf_reviewed_by = None, pf_reviewed_at = None, pf_reject_code = None,
       pf_reject_reason = None, pf_created_at = 1782874800000000000\<rparr>],
     files := [\<lparr>fl_id = 1, fl_key = ''2026/07/06070707070707070707070707070707.png'', fl_visibility =
       ''PRIVATE'', fl_purpose = ''PAYMENT_PROOF'', fl_mime = ''image/png'', fl_size = 6, fl_sha = ''PNG...'',
       fl_uploader_type = ''USER'', fl_uploader = 1\<rparr>],
     audit_logs := [\<lparr>au_actor_type = ''USER'', au_actor = Some 1, au_role = None, au_action =
       ''reg_order.create'', au_entity_type = ''reg_order'', au_entity = 1, au_event = Some 1, au_financial =
       True\<rparr>, \<lparr>au_actor_type = ''USER'', au_actor = Some 1, au_role = None, au_action =
       ''payment_proof.submit'', au_entity_type = ''payment_proof'', au_entity = 1, au_event = Some 1, au_financial =
       True\<rparr>]\<rparr>),
   [([''2026'', ''07'', ''06070707070707070707070707070707.png''], ''PNG...'')])"

abbreviation sample_submitted :: db where "sample_submitted \<equiv> snd (projr (fst sample_submission))"

lemma sample_submission_runs:
  "submit_proof sample_env 1 '' wr0000e1r7'' sample_submit sample_placed []
     = (Inr (fst (projr (fst sample_submission)), sample_submitted), snd sample_submission)"
  by code_simp

definition sample_approve :: approve_input where
  "sample_approve = \<lparr>ap_received = 4000, ap_received_at = sample_now, ap_note = None\<rparr>"

definition sample_approval :: "proof_detail res \<times> db" where
  "sample_approval =
   (Inr \<lparr>pd_view = \<lparr>pv_row = \<lparr>pf_id = 1, pf_no = ''PF0M00E1R7'', pf_order = Some 1, pf_account =
      1, pf_file = 1, pf_user = Some 1, pf_declared = 3599, pf_txn_ref = ''TX001'', pf_declared_at = None, pf_payer =
      None, pf_dup_file = False, pf_status = PfApproved, pf_reviewed_by = Some 1, pf_reviewed_at = Some
      1782874800000000000, pf_reject_code = None, pf_reject_reason = None, pf_created_at =
      1782874800000000000\<rparr>, pv_order_no = ''WR0000E1R7''\<rparr>, pd_order = \<lparr>ad_detail =
      \<lparr>od_head = \<lparr>oh_id = 1, oh_event = 1, oh_buyer = 1, oh_no = ''WR0000E1R7'', oh_status = Paid,
      oh_state = Some Consumed, oh_list = 4000, oh_discount = 401, oh_ident = 1, oh_amount = 3599, oh_currency =
      ''USD'', oh_account = 1, oh_deadline = None, oh_paid_at = Some 1782874800000000000, oh_created_at =
      1782874800000000000\<rparr>, od_slug = ''run'', od_event_name = [(EN, ''Run'')], od_timezone =
      ''Asia/Phnom_Penh'', od_participants = [\<lparr>dp_reg_id = 1, dp_reg_no = ''RG08000000'', dp_category = 1,
      dp_category_name = [(EN, ''21K'')], dp_full_name = ''Dara'', dp_rule = 2, dp_list = 1500, dp_paid = 1350,
      dp_status = RegConfirmed, dp_ticket = Some ''080000010W3GE1R70W3GE1R70W3GE1R7''\<rparr>, \<lparr>dp_reg_id = 2,
      dp_reg_no = ''RG080G0000'', dp_category = 1, dp_category_name = [(EN, ''21K'')], dp_full_name = ''Sophea'',
      dp_rule = 1, dp_list = 2500, dp_paid = 2249, dp_status = RegConfirmed, dp_ticket = Some
      ''080G00010W3GE1R70W3GE1R70W3GE1R7''\<rparr>], od_account = \<lparr>aa_id = 1, aa_name = ''KHQR'', aa_provider =
      ''ABA'', aa_account_name = ''WeRun'', aa_no_masked = ''***123'', aa_qr_file = 1\<rparr>, od_rejection =
      None\<rparr>, ad_buyer_name = ''Dara'', ad_buyer_phone = ''+85512345678'', ad_proofs = [\<lparr>ph_id = 1, ph_no
      = ''PF0M00E1R7'', ph_status = PfApproved, ph_ref = ''TX001'', ph_declared = 3599, ph_reject_code = None,
      ph_created_at = 1782874800000000000, ph_reviewed_at = Some 1782874800000000000\<rparr>], ad_receipts =
      [\<lparr>ri_id = 1, ri_ref = ''TX001'', ri_amount = 4000, ri_received_at = 1782874800000000000, ri_match =
      MatchException\<rparr>], ad_coupon = Some (''RUN10'', 400, Consumed)\<rparr>\<rparr>,
   sample_submitted\<lparr>
     categories := [\<lparr>ec_id = 1, ec_event = 1, ec_code = ''21K'', ec_name = [(EN, ''21K'')], ec_distance =
       10000, ec_capacity = 3, ec_used = 2, ec_reserved = 0, ec_start_at = None, ec_cutoff_at = None, ec_min_age = 16,
       ec_sort = 1\<rparr>, \<lparr>ec_id = 2, ec_event = 1, ec_code = ''10K'', ec_name = [(EN, ''10K'')], ec_distance
       = 10000, ec_capacity = 1, ec_used = 0, ec_reserved = 0, ec_start_at = None, ec_cutoff_at = None, ec_min_age =
       16, ec_sort = 2\<rparr>],
     price_rules := [\<lparr>pr_id = 1, pr_event = 1, pr_name = [], pr_audience = ''ALL'', pr_price = 2500, pr_quota =
       None, pr_used = 1, pr_reserved = 0, pr_starts_at = None, pr_ends_at = None, pr_sort = 0\<rparr>, \<lparr>pr_id
       = 2, pr_event = 1, pr_name = [], pr_audience = ''LOCAL'', pr_price = 1500, pr_quota = Some 1, pr_used = 1,
       pr_reserved = 0, pr_starts_at = None, pr_ends_at = None, pr_sort = 0\<rparr>],
     coupons := [\<lparr>cp_id = 1, cp_code = ''RUN10'', cp_event = Some 1, cp_type = ''PERCENT'', cp_value = 10,
       cp_quota = 5, cp_used = 1, cp_reserved = 0, cp_min_runners = None, cp_from = None, cp_until = None,
       cp_description = None, cp_status = ''ACTIVE'', cp_created_at = 0\<rparr>],
     redemptions := [\<lparr>cr_order = 1, cr_coupon = 1, cr_state = Consumed, cr_discount = 400\<rparr>],
     orders := [\<lparr>ro_id = 1, ro_no = ''WR0000E1R7'', ro_event = 1, ro_buyer = Some 1, ro_buyer_name = ''Dara'',
       ro_buyer_phone = ''+85512345678'', ro_buyer_email = None, ro_status = Paid, ro_state = Consumed,
       ro_release_kind = None, ro_list = 4000, ro_discount = 401, ro_ident = 1, ro_amount = 3599, ro_currency =
       ''USD'', ro_coupon = Some 1, ro_account = Some 1, ro_deadline = None, ro_paid_at = Some 1782874800000000000,
       ro_expired_at = None, ro_cancelled_at = None, ro_version = 3, ro_created_at = 1782874800000000000\<rparr>],
     registrations := [\<lparr>rg_id = 1, rg_no = ''RG08000000'', rg_participant = 1, rg_event = 1, rg_category = 1,
       rg_status = RegConfirmed, rg_cancel_reason = None, rg_ticket = ''080000010W3GE1R70W3GE1R70W3GE1R7'', rg_user =
       Some 1, rg_name = ''Dara'', rg_gender = ''M'', rg_birth = 641520000000000000, rg_nationality = ''KH'',
       rg_id_type = Some ''NATIONAL_ID'', rg_id_enc = ''cDARA0001'', rg_id_hash = ''hDARA0001'', rg_phone = Some
       ''+85512345678'', rg_email = None, rg_em_name = Some ''Sok'', rg_em_phone = Some ''+85512345679'', rg_tshirt =
       Some ''M'', rg_confirmed_at = Some 1782874800000000000, rg_version = 2\<rparr>, \<lparr>rg_id = 2, rg_no =
       ''RG080G0000'', rg_participant = 2, rg_event = 1, rg_category = 1, rg_status = RegConfirmed, rg_cancel_reason =
       None, rg_ticket = ''080G00010W3GE1R70W3GE1R70W3GE1R7'', rg_user = Some 1, rg_name = ''Sophea'', rg_gender =
       ''M'', rg_birth = 641520000000000000, rg_nationality = ''KH'', rg_id_type = Some ''NATIONAL_ID'', rg_id_enc =
       ''cSOPHEA0001'', rg_id_hash = ''hSOPHEA0001'', rg_phone = Some ''+85512345678'', rg_email = None, rg_em_name =
       Some ''Sok'', rg_em_phone = Some ''+85512345679'', rg_tshirt = Some ''M'', rg_confirmed_at = Some
       1782874800000000000, rg_version = 2\<rparr>],
     proofs := [\<lparr>pf_id = 1, pf_no = ''PF0M00E1R7'', pf_order = Some 1, pf_account = 1, pf_file = 1, pf_user =
       Some 1, pf_declared = 3599, pf_txn_ref = ''TX001'', pf_declared_at = None, pf_payer = None, pf_dup_file =
       False, pf_status = PfApproved, pf_reviewed_by = Some 1, pf_reviewed_at = Some 1782874800000000000,
       pf_reject_code = None, pf_reject_reason = None, pf_created_at = 1782874800000000000\<rparr>],
     receipts := [\<lparr>rc_id = 1, rc_account = 1, rc_txn_ref = ''TX001'', rc_amount = 4000, rc_received_at =
       1782874800000000000, rc_proof = Some 1, rc_order = Some 1, rc_match = MatchException, rc_recorded_by = Some
       1\<rparr>],
     exceptions := [\<lparr>ex_id = 1, ex_no = ''EX0W00E1R7'', ex_order = Some 1, ex_receipt = 1, ex_amount = 401,
       ex_note = None\<rparr>],
     notify_logs := [\<lparr>nl_id = 1, nl_recipient = ''1001'', nl_template = ''proof_approved'', nl_locale = EN,
       nl_entity = 1, nl_dedupe = ''proof_approved:1:1'', nl_status = NtPending, nl_attempts = 0, nl_last_error =
       None, nl_sent_at = None\<rparr>],
     jobs := [\<lparr>jb_log = 1, jb_chat = 1001, jb_text = ''notify.proof_approved'', jb_button_text =
       ''notify.open_order'', jb_button_url = ''https://run.example/orders/WR0000E1R7'', jb_max_attempts = 5\<rparr>],
     audit_logs := [\<lparr>au_actor_type = ''USER'', au_actor = Some 1, au_role = None, au_action =
       ''reg_order.create'', au_entity_type = ''reg_order'', au_entity = 1, au_event = Some 1, au_financial =
       True\<rparr>, \<lparr>au_actor_type = ''USER'', au_actor = Some 1, au_role = None, au_action =
       ''payment_proof.submit'', au_entity_type = ''payment_proof'', au_entity = 1, au_event = Some 1, au_financial =
       True\<rparr>, \<lparr>au_actor_type = ''STAFF'', au_actor = Some 1, au_role = Some ''ADMIN'', au_action =
       ''payment_proof.approve'', au_entity_type = ''payment_proof'', au_entity = 1, au_event = Some 1, au_financial =
       True\<rparr>]\<rparr>)"

abbreviation sample_approved :: db where "sample_approved \<equiv> snd sample_approval"

lemma sample_approval_runs:
  "approve_proof sample_env sample_staff 1 sample_approve sample_submitted = Inr (fst sample_approval, sample_approved)"
  by code_simp

text \<open>What the witnesses read of these states, evaluated once.\<close>

definition summary :: "db \<Rightarrow> (int \<times> string \<times> order_status \<times> int) list \<times> (int \<times> int \<times> int) list
    \<times> (int \<times> string \<times> registration_status) list \<times> (int \<times> int option) list" where
  "summary s = (map (\<lambda>r. (ro_id r, ro_no r, ro_status r, ro_amount r)) (orders s),
     map (\<lambda>c. (ec_id c, ec_reserved c, ec_used c)) (categories s),
     map (\<lambda>r. (rg_event r, rg_id_hash r, rg_status r)) (registrations s),
     map (\<lambda>r. (rc_id r, rc_order r)) (receipts s))"

lemma summary_tables:
  assumes "summary s = ([(i, no, st, a)], (ec, res, used) # cs, (ev, h, rs) # rgs, rcs)"
  obtains o' c g where "o' \<in> set (orders s)" "ro_id o' = i" "ro_no o' = no" "ro_status o' = st" "ro_amount o' = a"
    "c \<in> set (categories s)" "ec_id c = ec" "ec_reserved c = res" "ec_used c = used"
    "g \<in> set (registrations s)" "rg_event g = ev" "rg_id_hash g = h" "rg_status g = rs"
proof -
  from assms have m: "map (\<lambda>r. (ro_id r, ro_no r, ro_status r, ro_amount r)) (orders s) = [(i, no, st, a)]"
    "map (\<lambda>c. (ec_id c, ec_reserved c, ec_used c)) (categories s) = (ec, res, used) # cs"
    "map (\<lambda>r. (rg_event r, rg_id_hash r, rg_status r)) (registrations s) = (ev, h, rs) # rgs"
    unfolding summary_def by simp_all
  from m(1) obtain o' where 1: "o' \<in> set (orders s)" "ro_id o' = i" "ro_no o' = no" "ro_status o' = st" "ro_amount o' = a"
    by (cases "orders s") auto
  from m(2) obtain c where 2: "c \<in> set (categories s)" "ec_id c = ec" "ec_reserved c = res" "ec_used c = used"
    by (cases "categories s") auto
  from m(3) obtain g where 3: "g \<in> set (registrations s)" "rg_event g = ev" "rg_id_hash g = h" "rg_status g = rs"
    by (cases "registrations s") auto
  from 1 2 3 show ?thesis by (rule that)
qed

lemma placed_summary:
  "summary sample_placed = ([(1, ''WR0000E1R7'', PendingPayment, 3599)], [(1, 2, 0), (2, 0, 0)],
     [(1, ''hDARA0001'', RegPending), (1, ''hSOPHEA0001'', RegPending)], [])"
  by code_simp

lemma approved_summary:
  "summary sample_approved = ([(1, ''WR0000E1R7'', Paid, 3599)], [(1, 0, 2), (2, 0, 0)],
     [(1, ''hDARA0001'', RegConfirmed), (1, ''hSOPHEA0001'', RegConfirmed)], [(1, Some 1)])"
  by code_simp

lemmas placed_tables = summary_tables [OF placed_summary]
lemmas approved_tables = summary_tables [OF approved_summary]

end
