(* ===== verification/Uploads.thy ===== *)
theory Uploads
  imports Review Accounts SampleRuns
begin

text \<open>
  Uploaded files: where they are kept, what is accepted, and that an upload leaves a
  readable file when its transaction commits and none when it fails.
\<close>

section \<open>Keys stay below the root\<close>

lemma dots_prefix:
  assumes "\<exists>n us. acc = us @ replicate n ''..'' \<and> ''..'' \<notin> set us"
  shows "\<exists>n us. clean_step part acc = us @ replicate n ''..'' \<and> ''..'' \<notin> set us"
proof -
  from assms obtain n us where a: "acc = us @ replicate n ''..''" and us: "''..'' \<notin> set us" by blast
  show ?thesis
  proof (cases "part = [] \<or> part = ''.''")
    case True
    with assms show ?thesis by (simp add: clean_step_def)
  next
    case False
    show ?thesis
    proof (cases "part = ''..''")
      case True
      show ?thesis
      proof (cases us)
        case Nil
        then have "clean_step part acc = [] @ replicate (Suc n) ''..''"
          using True a by (cases n) (simp_all add: clean_step_def)
        then show ?thesis by (intro exI [of _ "Suc n"] exI [of _ "[]"]) simp
      next
        case (Cons u vs)
        then have "clean_step part acc = vs @ replicate n ''..''" using True a us by (auto simp: clean_step_def)
        moreover have "''..'' \<notin> set vs" using us Cons by simp
        ultimately show ?thesis by blast
      qed
    next
      case False2: False
      then have "clean_step part acc = (part # us) @ replicate n ''..''" using False a by (simp add: clean_step_def)
      moreover have "''..'' \<notin> set (part # us)" using us False2 by simp
      ultimately show ?thesis by blast
    qed
  qed
qed

lemma clean_steps_shape:
  "\<exists>n us. acc = us @ replicate n ''..'' \<and> ''..'' \<notin> set us \<Longrightarrow>
   \<exists>n us. fold clean_step ws acc = us @ replicate n ''..'' \<and> ''..'' \<notin> set us"
  by (induction ws arbitrary: acc) (simp_all add: dots_prefix)

lemma set_clean_step: "set (clean_step part acc) \<subseteq> insert part (set acc) \<and> (w \<in> set (clean_step part acc) \<longrightarrow> w \<notin> set acc \<longrightarrow> w \<noteq> [] \<and> w \<noteq> ''.'')"
  by (auto simp: clean_step_def split: list.splits)

lemma set_clean_steps:
  "set (fold clean_step ws acc) \<subseteq> set ws \<union> set acc \<and> (w \<in> set (fold clean_step ws acc) \<longrightarrow> w \<notin> set acc \<longrightarrow> w \<noteq> [] \<and> w \<noteq> ''.'')"
proof (induction ws arbitrary: acc)
  case Nil
  then show ?case by simp
next
  case (Cons v ws)
  from Cons [of "clean_step v acc"] set_clean_step [of v acc w] show ?case by auto
qed

lemma split_on_words: "w \<in> set (split_on d s) \<Longrightarrow> d \<notin> set w"
  by (induction s arbitrary: w) (auto split: list.splits if_splits)

text \<open>C19: Wherever a key of the file store leads, it is a chain of proper names below the root: no empty, dot or
  dot-dot component and no slash inside a name.\<close>

theorem disk_path_below_root:
  assumes "disk_path key = Some p" and "w \<in> set p"
  shows "w \<noteq> [] \<and> w \<noteq> ''.'' \<and> w \<noteq> ''..'' \<and> CHR ''/'' \<notin> set w"
proof -
  from assms(1) have p: "p = clean key" and loc: "is_local key" by (simp_all add: disk_path_def split: if_splits)
  let ?ws = "split_on (CHR ''/'') key"
  have "\<exists>n us. fold clean_step ?ws [] = us @ replicate n ''..'' \<and> ''..'' \<notin> set us"
    by (rule clean_steps_shape) simp
  then obtain n us where f: "fold clean_step ?ws [] = us @ replicate n ''..''" "''..'' \<notin> set us" by blast
  then have c: "clean key = replicate n ''..'' @ rev us" by (simp add: clean_def)
  have "n = 0" using loc c by (cases n) (auto simp: is_local_def)
  then have "w \<in> set us" using assms(2) p c by simp
  moreover have "w \<in> set (fold clean_step ?ws [])" using \<open>w \<in> set us\<close> f(1) by simp
  ultimately show ?thesis
    using f(2) set_clean_steps [of ?ws "[]" w] split_on_words [of w "CHR ''/''" key] by auto
qed

lemma disk_path_below_root_witness:
  "disk_path ''a/./b/../c'' = Some [''a'', ''c''] \<and> disk_path ''a/../../etc'' = None \<and> CHR ''/'' \<notin> set ''c''"
proof -
  have p: "disk_path ''a/./b/../c'' = Some [''a'', ''c'']" "disk_path ''a/../../etc'' = None" by code_simp+
  with disk_path_below_root [OF p(1), of "''c''"] show ?thesis by simp
qed

section \<open>Submissions\<close>

lemma read_image_Inr:
  assumes "read_image e n up = Inr img"
  obtains bs where "up = UpBytes bs" "im_data img = bs" "bs \<noteq> []" "int (length bs) \<le> n" "im_ext img \<in> snd ` set ext_by_mime"
  using assms by (cases up) (force simp: read_image_def Let_def dest: map_of_SomeD split: if_splits option.splits prod.splits)+

lemma submit_proof_split:
  assumes "submit_proof e u no inp s d = (res, d')"
  obtains (rejected) err where "res = Inl err" "d' = d"
  | (run) up img where "sb_file inp = Some up" "read_image e max_proof_bytes up = Inr img"
      "disk_store.stored e (new_key e [6] (im_ext img)) (im_data img)
         (submit_proof_tx e u no (new_key e [6] (im_ext img)) img inp s) d = (res, d')"
proof (cases "sb_file inp")
  case None
  with assms show thesis by (intro rejected) (auto simp: submit_proof_def)
next
  case (Some up)
  show thesis
  proof (cases "read_image e max_proof_bytes up")
    case (Inl err)
    with Some assms show thesis by (intro rejected) (auto simp: submit_proof_def)
  next
    case (Inr img)
    with Some assms show thesis by (intro run) (simp_all add: submit_proof_def Let_def with_stored_file_eq)
  qed
qed

lemma put_then_delete:
  assumes "disk_put e key v d = Inr d1" and "e_io e ''delete'' key = None"
  shows "\<exists>d2. disk_delete e key d1 = Inr d2"
proof -
  from assms(1) obtain p where p: "disk_path key = Some p" "\<not> blocked p d" "d1 = AList.update p v d"
    by (auto simp: disk_put_def split: option.splits if_splits)
  have "\<not> strict_prefix p q" if "q \<in> set (map fst d1)" for q
  proof -
    have "q = p \<or> q \<in> set (map fst d)" using that AList.dom_update [of p v d] by (simp add: p(3))
    then show ?thesis using p(2) by (auto simp: blocked_def)
  qed
  then have "\<not> (\<exists>q\<in>set (map fst d1). strict_prefix p q)" by blast
  with p(1) assms(2) show ?thesis by (simp only: disk_delete_def option.case if_False) blast
qed

text \<open>C17: A submission that fails, at whatever point, leaves every file of the store as it was, provided the random key
  was not in use and the store could delete it.\<close>

theorem failed_submit_leaves_no_file:
  assumes "submit_proof e u no inp s d = (Inl err, d')"
    and "\<forall>ext\<in>snd ` set ext_by_mime. \<forall>l. disk_path (new_key e [6] ext) = Some l \<longrightarrow> disk_look l d = None"
    and "\<forall>key. e_io e ''delete'' key = None"
  shows "disk_look l d' = disk_look l d"
  using assms(1)
proof (cases rule: submit_proof_split)
  case rejected
  then show ?thesis by simp
next
  case (run up img)
  from read_image_Inr [OF run(2)] have "im_ext img \<in> snd ` set ext_by_mime" .
  with assms(2,3) show ?thesis
    by (intro disk_store.stored_Inl [OF run(3)]) (auto intro: put_then_delete)
qed

definition sample_late_submit :: "(proof_view \<times> db) res \<times> disk" where
  "sample_late_submit = submit_proof sample_env 2 ''WR0000E1R7'' sample_submit sample_placed [([''a''], ''x'')]"

lemma failed_submit_leaves_no_file_witness:
  "isl (fst sample_late_submit) \<and> (\<forall>l. disk_look l (snd sample_late_submit) = disk_look l [([''a''], ''x'')])"
proof -
  have f: "isl (fst sample_late_submit)" by code_simp
  then obtain err where "submit_proof sample_env 2 ''WR0000E1R7'' sample_submit sample_placed [([''a''], ''x'')] = (Inl err, snd sample_late_submit)"
    unfolding sample_late_submit_def by (metis isl_def prod.collapse)
  moreover have "\<forall>ext\<in>snd ` set ext_by_mime. disk_path (new_key sample_env [6] ext) \<noteq> Some [''a'']" by code_simp
  then have "\<forall>ext\<in>snd ` set ext_by_mime. \<forall>l. disk_path (new_key sample_env [6] ext) = Some l \<longrightarrow> disk_look l [([''a''], ''x'')] = None"
    by (auto simp: disk_look_def)
  ultimately have "disk_look l (snd sample_late_submit) = disk_look l [([''a''], ''x'')]" for l
    by (rule failed_submit_leaves_no_file) (simp add: sample_env_def)
  with f show ?thesis by blast
qed

text \<open>C18: What the runner uploaded is what the reviewer opens: the stored proof is private, served to the reviewer
  with the very bytes, and never by the public endpoint.\<close>

theorem submitted_proof_readable:
  assumes "submit_proof e u no inp s d = (Inr (v, s'), d')" and "\<forall>key. e_io e ''open'' key = None"
  shows "\<exists>f bs. sb_file inp = Some (UpBytes bs) \<and> open_proof_file e (pf_file (pv_row v)) s' d' = Inr (f, bs)
    \<and> open_public_file e (pf_file (pv_row v)) s' d' = Inl (app 404 CodeNotFound)"
  using assms(1)
proof (cases rule: submit_proof_split)
  case rejected
  then show ?thesis by simp
next
  case (run up img)
  let ?key = "new_key e [6] (im_ext img)"
  from read_image_Inr [OF run(2)] obtain bs where bs: "up = UpBytes bs" "im_data img = bs" .
  note st = disk_store.stored_Inr [OF run(3)]
  from st(2) bs obtain l where l: "disk_path ?key = Some l" "disk_look l d' = Some bs" by blast
  from st(1) show ?thesis
  proof (rule submit_proof_tx_Inr, elim exE)
    fix r p fs f a
    assume p: "pv_row v = p" "fs = files s @ [f]" "fl_id f = next_id fl_id (files s)" "fl_key f = ?key" "fl_visibility f = ''PRIVATE''"
      "fl_purpose f = ''PAYMENT_PROOF''" "pf_file p = fl_id f"
      and s': "s' = audit_record a (with_orders (\<lambda>x. ro_id x = ro_id r \<and> submittable x) submit_row (s\<lparr>files := fs, proofs := proofs s @ [p]\<rparr>))"
    have t: "files s' = files s @ [f]" "proofs s' = proofs s @ [p]" unfolding s' p(2) by (simp_all add: audit_record_def with_orders_def)
    have "fl_id f \<notin> fl_id ` set (files s)" unfolding p(3) by (rule next_id_fresh)
    then have "List.find (\<lambda>x. fl_id x = fl_id f) (files s) = None" unfolding find_None_iff image_iff by metis
    then have g: "get_file (fl_id f) s' = Inr f" unfolding get_file_def t by (simp add: find_append)
    have ip: "is_proof_file (fl_id f) s'" unfolding is_proof_file_def t using p by force
    have "open_proof_file e (fl_id f) s' d' = Inr (f, bs)"
      using g ip l assms(2) p(4) by (simp add: open_proof_file_def open_private_file_def open_stored_def disk_open_def)
    moreover have "open_public_file e (fl_id f) s' d' = Inl (app 404 CodeNotFound)"
      using g p(5) by (simp add: open_public_file_def)
    ultimately show ?thesis using run(1) bs(1) p(1,7) by auto
  qed
qed

lemma submitted_proof_readable_witness:
  "\<exists>f. open_proof_file sample_env (pf_file (pv_row (fst (projr (fst sample_submission))))) sample_submitted (snd sample_submission) = Inr (f, ''PNG...'')"
  using submitted_proof_readable [OF sample_submission_runs] by (auto simp: sample_submit_def sample_env_def)

end
