(* ===== verification/Coupons.thy ===== *)
theory Coupons
  imports PriceRules Quote
begin

text \<open>
  \<open>internal/pricing/coupons.go\<close>: the coupons as the back office keeps them.  Codes
  are stored normalised, so a quote finds a coupon however the runner typed its code.
\<close>

section \<open>Input\<close>

record coupon_input =
  ci_code :: string
  ci_event :: "int option"
  ci_type :: string
  ci_value :: int
  ci_quota :: int
  ci_min_runners :: "int option"
  ci_from :: "gotime option"
  ci_until :: "gotime option"
  ci_description :: "i18n_text option"
  ci_status :: string

record coupon_view =
  coupon_id :: int
  coupon_input :: coupon_input
  coupon_used :: int
  coupon_reserved :: int

definition coupon_description_max_len :: nat where "coupon_description_max_len = 200"
definition coupon_max_runners :: int where "coupon_max_runners = 10"

definition normalize_coupon_code :: "string \<Rightarrow> string" where
  "normalize_coupon_code s = to_upper (trim_space s)"

text \<open>\<open>^[A-Z0-9_-]{3,32}$\<close>.\<close>

definition coupon_code_pattern :: "string \<Rightarrow> bool" where
  "coupon_code_pattern s \<longleftrightarrow> 3 \<le> length s \<and> length s \<le> 32
     \<and> list_all (\<lambda>c. is_upper c \<or> is_digit c \<or> c = CHR ''_'' \<or> c = CHR ''-'') s"

definition value_items :: "coupon_input \<Rightarrow> field_item list" where
  "value_items inp =
     (if ci_type inp = ''PERCENT'' then item (ci_value inp < 1 \<or> 100 < ci_value inp) ''discountValue'' ''field.percent_range'' []
      else if ci_type inp = ''AMOUNT'' then item (ci_value inp \<le> 0) ''discountValue'' ''field.must_be_positive'' []
      else if ci_type inp = ''WAIVER'' then item (ci_value inp \<noteq> 0) ''discountValue'' ''field.invalid'' []
      else [(''discountType'', ''field.invalid'', [])])"

definition coupon_items :: "bool \<Rightarrow> coupon_input \<Rightarrow> field_item list" where
  "coupon_items with_code inp =
     item (with_code \<and> \<not> coupon_code_pattern (ci_code inp)) ''code'' ''field.coupon_code_format'' []
   @ value_items inp
   @ item (ci_quota inp < 1) ''quota'' ''field.must_be_positive'' []
   @ item (case ci_min_runners inp of None \<Rightarrow> False | Some n \<Rightarrow> n < 1 \<or> coupon_max_runners < n) ''minRunners'' ''field.invalid'' []
   @ item (ends_before (ci_from inp) (ci_until inp)) ''validUntil'' ''field.ends_before_starts'' []
   @ item (ci_status inp \<noteq> ''ACTIVE'' \<and> ci_status inp \<noteq> ''DISABLED'') ''status'' ''field.invalid'' []
   @ concat (map (\<lambda>l. item (coupon_description_max_len < length (text_get (case ci_description inp of None \<Rightarrow> [] | Some t \<Rightarrow> t) l))
         (''description.'' @ lang_str l) ''field.too_long'' [(''max'', PInt (int coupon_description_max_len))]) required_langs)"

definition validate_coupon_with :: "bool \<Rightarrow> coupon_input \<Rightarrow> unit res" where
  "validate_coupon_with with_code inp = collect (coupon_items with_code inp)"

definition validate_coupon :: "coupon_input \<Rightarrow> unit res" where
  "validate_coupon inp = validate_coupon_with True inp"

definition require_coupon_event :: "int option \<Rightarrow> db \<Rightarrow> unit res" where
  "require_coupon_event ev s =
     (case ev of
        None \<Rightarrow> Inr ()
      | Some i \<Rightarrow> failIf (\<not> event_exists i s) (AppErr (with_field ''eventId'' ''field.invalid'' [] validation_error)))"

section \<open>Statements\<close>

text \<open>The CHECK constraints of \<open>coupons\<close>.\<close>

definition coupon_check :: "coupon_row \<Rightarrow> string option" where
  "coupon_check r =
     (if cp_type r \<noteq> ''PERCENT'' \<and> cp_type r \<noteq> ''AMOUNT'' \<and> cp_type r \<noteq> ''WAIVER'' then Some ''coupons_discount_type_check''
      else if cp_value r < 0 then Some ''coupons_discount_value_check''
      else if cp_quota r < 0 then Some ''coupons_quota_check''
      else if cp_status r \<noteq> ''ACTIVE'' \<and> cp_status r \<noteq> ''DISABLED'' then Some ''coupons_status_check''
      else if cp_quota r < cp_used r + cp_reserved r then Some ''coupons_no_overuse''
      else if cp_type r = ''PERCENT'' \<and> \<not> (1 \<le> cp_value r \<and> cp_value r \<le> 100) then Some ''coupons_check''
      else None)"

definition coupon_columns :: "coupon_input \<Rightarrow> coupon_row \<Rightarrow> coupon_row" where
  "coupon_columns inp r = r\<lparr>cp_event := ci_event inp, cp_type := ci_type inp, cp_value := ci_value inp, cp_quota := ci_quota inp,
     cp_min_runners := ci_min_runners inp, cp_from := ci_from inp, cp_until := ci_until inp,
     cp_description := ci_description inp, cp_status := ci_status inp\<rparr>"

definition coupon_row_for :: "env \<Rightarrow> coupon_input \<Rightarrow> db \<Rightarrow> coupon_row" where
  "coupon_row_for e inp s = coupon_columns inp \<lparr>cp_id = next_id cp_id (coupons s), cp_code = ci_code inp, cp_event = None,
     cp_type = [], cp_value = 0, cp_quota = 0, cp_used = 0, cp_reserved = 0, cp_min_runners = None, cp_from = None,
     cp_until = None, cp_description = None, cp_status = [], cp_created_at = e_db_now e\<rparr>"

definition insert_coupon :: "env \<Rightarrow> coupon_input \<Rightarrow> db \<Rightarrow> (coupon_row \<times> db) res" where
  "insert_coupon e inp s =
     (let row = coupon_row_for e inp s
      in case coupon_check row of
           Some c \<Rightarrow> Inl (check_violation c)
         | None \<Rightarrow>
             if \<exists>c\<in>set (coupons s). cp_code c = cp_code row then Inl (PgErr ''23505'' ''coupons_code_key'')
             else Inr (row, s\<lparr>coupons := coupons s @ [row]\<rparr>))"

definition update_coupon_stmt :: "coupon_row \<Rightarrow> coupon_input \<Rightarrow> db \<Rightarrow> (coupon_row \<times> db) res" where
  "update_coupon_stmt old inp s =
     (let row = coupon_columns inp old
      in case coupon_check row of
           Some c \<Rightarrow> Inl (check_violation c)
         | None \<Rightarrow> Inr (row, s\<lparr>coupons := update_where (\<lambda>r. cp_id r = cp_id old) (coupon_columns inp) (coupons s)\<rparr>))"

definition coupon_from_row :: "coupon_row \<Rightarrow> coupon_view" where
  "coupon_from_row r =
     \<lparr>coupon_id = cp_id r,
      coupon_input = \<lparr>ci_code = cp_code r, ci_event = cp_event r, ci_type = cp_type r, ci_value = cp_value r, ci_quota = cp_quota r,
        ci_min_runners = cp_min_runners r, ci_from = cp_from r, ci_until = cp_until r, ci_description = cp_description r,
        ci_status = cp_status r\<rparr>,
      coupon_used = cp_used r, coupon_reserved = cp_reserved r\<rparr>"

section \<open>The operations\<close>

definition list_coupons :: "int option \<Rightarrow> db \<Rightarrow> coupon_view list" where
  "list_coupons ev s = map coupon_from_row (sort_key (\<lambda>c. (- cp_created_at c, - cp_id c))
     (filter (\<lambda>c. ev = None \<or> cp_event c = ev) (coupons s)))"

definition coupon_entry :: "staff \<Rightarrow> string \<Rightarrow> coupon_row \<Rightarrow> audit_row" where
  "coupon_entry actor action r = staff_entry (st_id actor) (st_role actor) action ''coupon'' (cp_id r) (cp_event r) False"

definition create_coupon :: "env \<Rightarrow> staff \<Rightarrow> coupon_input \<Rightarrow> db \<Rightarrow> (coupon_view \<times> db) res" where
  "create_coupon e actor inp s =
     (let inp = inp\<lparr>ci_code := normalize_coupon_code (ci_code inp)\<rparr> in
      bindE (validate_coupon inp) (\<lambda>_.
      bindE (require_coupon_event (ci_event inp) s) (\<lambda>_.
      bindE (map_err from_pg (insert_coupon e inp s)) (\<lambda>(row, s1).
        Inr (coupon_from_row row, audit_record (coupon_entry actor ''coupon.create'' row) s1)))))"

definition update_coupon :: "staff \<Rightarrow> int \<Rightarrow> coupon_input \<Rightarrow> db \<Rightarrow> (coupon_view \<times> db) res" where
  "update_coupon actor i inp s =
     bindE (validate_coupon_with False inp) (\<lambda>_.
     case List.find (\<lambda>c. cp_id c = i) (coupons s) of
       None \<Rightarrow> Inl (app 404 CodeNotFound)
     | Some row \<Rightarrow>
         bindE (require_coupon_event (ci_event inp) s) (\<lambda>_.
         let taken = int32 (cp_used row + cp_reserved row) in
         bindE (failIf (ci_quota inp < taken)
           (AppErr (with_field ''quota'' ''field.quota_below_taken'' [(''min'', PInt taken)] validation_error))) (\<lambda>_.
         bindE (update_coupon_stmt row inp s) (\<lambda>(row', s1).
           Inr (coupon_from_row row', audit_record (coupon_entry actor ''coupon.update'' row') s1)))))"

section \<open>The invariant\<close>

lemma coupon_columns_simps [simp]:
  "cp_id (coupon_columns inp r) = cp_id r" "cp_used (coupon_columns inp r) = cp_used r" "cp_reserved (coupon_columns inp r) = cp_reserved r"
  "cp_code (coupon_columns inp r) = cp_code r" "cp_quota (coupon_columns inp r) = ci_quota inp"
  by (simp_all add: coupon_columns_def)

lemma coupon_row_for_simps [simp]:
  "cp_id (coupon_row_for e inp s) = next_id cp_id (coupons s)" "cp_used (coupon_row_for e inp s) = 0"
  "cp_reserved (coupon_row_for e inp s) = 0" "cp_code (coupon_row_for e inp s) = ci_code inp"
  by (simp_all add: coupon_row_for_def)

lemma coupon_check_fits:
  assumes "coupon_check r = None" and "0 \<le> cp_used r" and "0 \<le> cp_reserved r"
  shows "coupon.fits r"
  using assms by (auto simp: coupon_check_def coupon.fits_def split: if_splits)

lemma db_ok_coupons:
  assumes ok: "db_ok s" and s': "orders s' = orders s" "participants s' = participants s" "registrations s' = registrations s"
      "free_signups s' = free_signups s" "categories s' = categories s" "price_rules s' = price_rules s" "redemptions s' = redemptions s"
    and ids: "distinct (map cp_id (coupons s'))" "set (map cp_id (coupons s)) \<subseteq> set (map cp_id (coupons s'))"
    and ag: "coupon_row.agree (coupons s') cr_order cr_coupon (redemptions s) (order_state s) (\<lambda>_. 0)"
    and fit: "\<forall>r\<in>set (coupons s'). coupon.fits r"
  shows "db_ok s'"
proof -
  have st: "order_state s' = order_state s" by (simp add: fun_eq_iff order_state_def s')
  have fs: "free_seats s' = free_seats s" by (simp add: fun_eq_iff free_seats_def s')
  show ?thesis
    using ok ids ag fit by (auto simp: db_ok_def ok_defs counter_keys_def st fs s')
qed

lemma create_coupon_Inr:
  assumes "create_coupon e actor inp s = Inr (c, s')"
  obtains a row where "validate_coupon (inp\<lparr>ci_code := normalize_coupon_code (ci_code inp)\<rparr>) = Inr ()" "coupon_check row = None"
    "row = coupon_row_for e (inp\<lparr>ci_code := normalize_coupon_code (ci_code inp)\<rparr>) s"
    "\<forall>x\<in>set (coupons s). cp_code x \<noteq> normalize_coupon_code (ci_code inp)" "c = coupon_from_row row"
    "s' = audit_record a (s\<lparr>coupons := coupons s @ [row]\<rparr>)"
proof -
  let ?inp = "inp\<lparr>ci_code := normalize_coupon_code (ci_code inp)\<rparr>"
  let ?r = "coupon_row_for e ?inp s"
  obtain x1 row s1 where v: "validate_coupon ?inp = Inr x1" and st: "insert_coupon e ?inp s = Inr (row, s1)"
    and out: "(Inr (coupon_from_row row, audit_record (coupon_entry actor ''coupon.create'' row) s1) :: (coupon_view \<times> db) res) = Inr (c, s')"
    using assms [unfolded create_coupon_def] by (simp only: Inr_chain fst_conv snd_conv) (elim exE conjE, rule that)
  have ck: "coupon_check ?r = None" and row: "row = ?r" and s1: "s1 = s\<lparr>coupons := coupons s @ [?r]\<rparr>"
    and new: "\<forall>x\<in>set (coupons s). cp_code x \<noteq> normalize_coupon_code (ci_code inp)"
    using st [unfolded insert_coupon_def Let_def] by (cases "coupon_check ?r"; simp split: if_splits)+
  obtain a where s': "s' = audit_record a s1" and c: "c = coupon_from_row row"
    using out by (simp only: sum.inject prod.inject) (elim conjE, rule that, erule sym, erule sym)
  show thesis by (rule that [OF _ ck refl new c [unfolded row] s' [unfolded s1]]) (use v in simp)
qed

lemma create_coupon_ok:
  assumes ok: "db_ok s" and "create_coupon e actor inp s = Inr (c, s')"
  shows "db_ok s'"
  using assms(2)
proof (rule create_coupon_Inr)
  fix a row
  assume ck: "coupon_check row = None" and row: "row = coupon_row_for e (inp\<lparr>ci_code := normalize_coupon_code (ci_code inp)\<rparr>) s"
    and s': "s' = audit_record a (s\<lparr>coupons := coupons s @ [row]\<rparr>)"
  have fits: "\<forall>r\<in>set (coupons s). coupon.fits r" and dist: "distinct (map cp_id (coupons s))"
    and ag: "coupon_row.agree (coupons s) cr_order cr_coupon (redemptions s) (order_state s) (\<lambda>_. 0)"
    and refs: "\<forall>p\<in>set (redemptions s). cr_coupon p \<in> cp_id ` set (coupons s)"
    using ok by (simp_all add: db_ok_def ok_defs counter_keys_def)
  have new: "next_id cp_id (coupons s) \<notin> cp_id ` set (coupons s)" by (rule next_id_fresh)
  have ne: "cr_coupon p \<noteq> next_id cp_id (coupons s)" if "p \<in> set (redemptions s)" for p using refs new that by metis
  have "coupon.fits row" by (rule coupon_check_fits [OF ck]) (simp_all add: row)
  moreover have "coupon_row.agree (coupons s @ [row]) cr_order cr_coupon (redemptions s) (order_state s) (\<lambda>_. 0)"
    by (rule coupon_row.agree_new_row [OF ag]) (use ne in \<open>auto simp: row\<close>)
  ultimately have "db_ok (s\<lparr>coupons := coupons s @ [row]\<rparr>)"
    using fits dist new by (intro db_ok_coupons [OF ok]) (auto simp: row)
  with s' show ?thesis by simp
qed

lemma update_coupon_Inr:
  assumes "update_coupon actor i inp s = Inr (c, s')"
  obtains row a where "row \<in> set (coupons s)" "cp_id row = i" "coupon_check (coupon_columns inp row) = None"
    "\<not> ci_quota inp < int32 (cp_used row + cp_reserved row)" "c = coupon_from_row (coupon_columns inp row)"
    "s' = audit_record a (s\<lparr>coupons := update_where (\<lambda>r. cp_id r = i) (coupon_columns inp) (coupons s)\<rparr>)"
proof -
  obtain row where f: "List.find (\<lambda>r. cp_id r = i) (coupons s) = Some row"
    using assms by (cases "List.find (\<lambda>r. cp_id r = i) (coupons s)") (simp_all add: update_coupon_def bindE_Inr_iff Let_def)
  from find_Some_key [OF f] have row: "row \<in> set (coupons s)" "cp_id row = i" by simp_all
  note A = assms [unfolded update_coupon_def f option.case Let_def]
  obtain row' s1 where q: "\<not> ci_quota inp < int32 (cp_used row + cp_reserved row)" and st: "update_coupon_stmt row inp s = Inr (row', s1)"
    and out: "(Inr (coupon_from_row row', audit_record (coupon_entry actor ''coupon.update'' row') s1) :: (coupon_view \<times> db) res) = Inr (c, s')"
    using A by (simp only: Inr_chain fst_conv snd_conv) (elim exE conjE, rule that)
  have ck: "coupon_check (coupon_columns inp row) = None" and row': "row' = coupon_columns inp row"
    and s1: "s1 = s\<lparr>coupons := update_where (\<lambda>r. cp_id r = i) (coupon_columns inp) (coupons s)\<rparr>"
    using st [unfolded update_coupon_stmt_def Let_def] row(2) by (cases "coupon_check (coupon_columns inp row)"; simp)+
  obtain a where s': "s' = audit_record a s1" and c: "c = coupon_from_row row'"
    using out by (simp only: sum.inject prod.inject) (elim conjE, rule that, erule sym, erule sym)
  show thesis by (rule that [OF row ck q c [unfolded row'] s' [unfolded s1]])
qed

lemma update_coupon_ok:
  assumes ok: "db_ok s" and "update_coupon actor i inp s = Inr (c, s')"
  shows "db_ok s'"
  using assms(2)
proof (rule update_coupon_Inr)
  fix row a
  assume row: "row \<in> set (coupons s)" "cp_id row = i" and ck: "coupon_check (coupon_columns inp row) = None"
    and s': "s' = audit_record a (s\<lparr>coupons := update_where (\<lambda>r. cp_id r = i) (coupon_columns inp) (coupons s)\<rparr>)"
  have fits: "\<forall>r\<in>set (coupons s). coupon.fits r" and dist: "distinct (map cp_id (coupons s))"
    and ag: "coupon_row.agree (coupons s) cr_order cr_coupon (redemptions s) (order_state s) (\<lambda>_. 0)"
    using ok by (simp_all add: db_ok_def ok_defs counter_keys_def)
  have "coupon.fits r" if "r \<in> set (update_where (\<lambda>r. cp_id r = i) (coupon_columns inp) (coupons s))" for r
  proof -
    from that obtain x where x: "x \<in> set (coupons s)" "r = (if cp_id x = i then coupon_columns inp x else x)"
      unfolding set_update_where by (elim imageE)
    show ?thesis
    proof (cases "cp_id x = i")
      case True
      with distinct_key_eq [OF dist x(1) row(1)] row(2) have "x = row" by simp
      moreover have "coupon.fits (coupon_columns inp row)"
        by (rule coupon_check_fits [OF ck]) (use fits row(1) in \<open>auto simp: coupon.fits_def\<close>)
      ultimately show ?thesis using x(2) row(2) by simp
    qed (use fits x in simp)
  qed
  then have "db_ok (s\<lparr>coupons := update_where (\<lambda>r. cp_id r = i) (coupon_columns inp) (coupons s)\<rparr>)"
    using coupon_row.agree_update_where [OF ag] dist
    by (intro db_ok_coupons [OF ok]) (simp_all add: map_update_where flip: set_map)
  with s' show ?thesis by simp
qed

section \<open>Properties\<close>

text \<open>C22: However a code is spelled, a runner's spelling and the back office's that normalise alike meet: the
  created coupon is the one a quote finds, and a second coupon under any such spelling is refused with
  \<open>COUPON_CODE_TAKEN\<close>.\<close>

theorem coupon_code_round_trip:
  assumes "create_coupon e actor inp s = Inr (c, s')"
    and "normalize_coupon_code raw = normalize_coupon_code (ci_code inp)"
  shows "(\<exists>row. quote_get_coupon_by_code (normalize_coupon_code raw) s' = Some row \<and> coupon_from_row row = c
      \<and> ci_code (coupon_input c) = normalize_coupon_code raw \<and> coupon_used c = 0 \<and> coupon_reserved c = 0)
    \<and> (\<forall>e2 actor2 inp2. validate_coupon (inp2\<lparr>ci_code := normalize_coupon_code raw\<rparr>) = Inr () \<longrightarrow> ci_code inp2 = raw \<longrightarrow>
         require_coupon_event (ci_event inp2) s' = Inr () \<longrightarrow>
         coupon_check (coupon_row_for e2 (inp2\<lparr>ci_code := normalize_coupon_code raw\<rparr>) s') = None \<longrightarrow>
         create_coupon e2 actor2 inp2 s'
           = Inl (AppErr (with_field ''code'' (code_str CodeCouponCodeTaken) [] (new_err 409 CodeCouponCodeTaken))))"
  using assms(1)
proof (rule create_coupon_Inr)
  fix a row
  assume row: "row = coupon_row_for e (inp\<lparr>ci_code := normalize_coupon_code (ci_code inp)\<rparr>) s"
    and new: "\<forall>x\<in>set (coupons s). cp_code x \<noteq> normalize_coupon_code (ci_code inp)" and c: "c = coupon_from_row row"
    and s': "s' = audit_record a (s\<lparr>coupons := coupons s @ [row]\<rparr>)"
  have cs: "coupons s' = coupons s @ [row]" by (simp add: s' audit_record_def)
  have code: "cp_code row = normalize_coupon_code raw" by (simp add: row assms(2))
  have "List.find (\<lambda>x. cp_code x = normalize_coupon_code raw) (coupons s) = None"
    using new by (simp add: find_None_all assms(2))
  then have "quote_get_coupon_by_code (normalize_coupon_code raw) s' = Some row"
    by (simp add: quote_get_coupon_by_code_def cs find_append code)
  moreover have "create_coupon e2 actor2 inp2 s' = Inl (AppErr (with_field ''code'' (code_str CodeCouponCodeTaken) [] (new_err 409 CodeCouponCodeTaken)))"
    if "validate_coupon (inp2\<lparr>ci_code := normalize_coupon_code raw\<rparr>) = Inr ()" "ci_code inp2 = raw"
      "require_coupon_event (ci_event inp2) s' = Inr ()"
      "coupon_check (coupon_row_for e2 (inp2\<lparr>ci_code := normalize_coupon_code raw\<rparr>) s') = None" for e2 actor2 inp2
  proof -
    have "\<exists>x\<in>set (coupons s'). cp_code x = normalize_coupon_code raw" using code by (auto simp: cs)
    then have "insert_coupon e2 (inp2\<lparr>ci_code := normalize_coupon_code raw\<rparr>) s' = Inl (PgErr ''23505'' ''coupons_code_key'')"
      using that(4) by (simp add: insert_coupon_def)
    moreover have "from_pg (PgErr ''23505'' ''coupons_code_key'')
        = AppErr (with_field ''code'' (code_str CodeCouponCodeTaken) [] (new_err 409 CodeCouponCodeTaken))" by code_simp
    ultimately show ?thesis using that by (simp add: create_coupon_def map_err_def)
  qed
  ultimately show ?thesis
    by (auto simp: c coupon_from_row_def row assms(2))
qed

definition sample_coupon_input :: coupon_input where
  "sample_coupon_input = \<lparr>ci_code = '' early-26 '', ci_event = Some 1, ci_type = ''AMOUNT'', ci_value = 500, ci_quota = 20,
     ci_min_runners = Some 2, ci_from = None, ci_until = None, ci_description = None, ci_status = ''ACTIVE''\<rparr>"

definition sample_new_coupon :: "coupon_view \<times> db" where
  "sample_new_coupon = projr (create_coupon sample_env sample_staff sample_coupon_input sample_db)"

lemma coupon_code_round_trip_witness:
  "\<exists>row. quote_get_coupon_by_code (normalize_coupon_code ''Early-26'') (snd sample_new_coupon) = Some row
     \<and> coupon_from_row row = fst sample_new_coupon"
proof -
  have "\<not> isl (create_coupon sample_env sample_staff sample_coupon_input sample_db)" by code_simp
  then have run: "create_coupon sample_env sample_staff sample_coupon_input sample_db = Inr (fst sample_new_coupon, snd sample_new_coupon)"
    by (simp add: sample_new_coupon_def)
  have code: "normalize_coupon_code ''Early-26'' = normalize_coupon_code (ci_code sample_coupon_input)" by code_simp
  from coupon_code_round_trip [OF run code] show ?thesis by blast
qed

end
