(* ===== verification/EventAdmin.thy ===== *)
theory EventAdmin
  imports Coupons
begin

text \<open>
  \<open>internal/event\<close>: creating, publishing and opening an event, and the public
  views of it.  The clock of this service is \<open>time.Now\<close>.
\<close>

section \<open>Input\<close>

record category_input =
  ki_code :: string
  ki_name :: i18n_text
  ki_distance :: int
  ki_capacity :: int
  ki_start :: "gotime option"
  ki_cutoff :: "gotime option"

record event_input =
  ei_slug :: string
  ei_type :: string
  ei_organizer :: string
  ei_name :: i18n_text
  ei_city :: string
  ei_race_date :: gotime
  ei_categories :: "category_input list"

record registration_input =
  wi_open :: bool
  wi_opens :: "gotime option"
  wi_closes :: "gotime option"

text \<open>\<open>Event\<close>: the row with its categories and, on public pages, the lowest open price.\<close>

record event_view =
  vw_row :: event_row
  vw_categories :: "category_row list"
  vw_from_price :: "int option"

definition slug_max_len :: nat where "slug_max_len = 60"

text \<open>\<open>^[a-z0-9]+(-[a-z0-9]+)*$\<close>: the parts between hyphens are non-empty words.\<close>

definition slug_pattern :: "string \<Rightarrow> bool" where
  "slug_pattern s \<longleftrightarrow> list_all (\<lambda>w. w \<noteq> [] \<and> list_all (\<lambda>c. is_lower c \<or> is_digit c) w) (split_on (CHR ''-'') s)"

text \<open>\<open>^[0-9A-Z]{1,10}$\<close>.\<close>

definition category_code_pattern :: "string \<Rightarrow> bool" where
  "category_code_pattern s \<longleftrightarrow> 1 \<le> length s \<and> length s \<le> 10 \<and> list_all (\<lambda>c. is_upper c \<or> is_digit c) s"

definition name_items :: "string \<Rightarrow> i18n_text \<Rightarrow> field_item list" where
  "name_items prefix t = concat (map (\<lambda>l. item (trim_space (text_get t l) = []) (prefix @ ''name.'' @ lang_str l) ''field.required'' []) required_langs)"

definition category_items :: "string \<Rightarrow> bool \<Rightarrow> category_input \<Rightarrow> field_item list" where
  "category_items prefix seen c =
     (if \<not> category_code_pattern (ki_code c) then [(prefix @ ''code'', ''field.category_code_format'', [])]
      else item seen (prefix @ ''code'') (code_str CodeEventCategoryCodeTaken) [])
   @ name_items prefix (ki_name c)
   @ item (ki_distance c \<le> 0) (prefix @ ''distanceM'') ''field.must_be_positive'' []
   @ item (ki_capacity c < 1) (prefix @ ''capacity'') ''field.must_be_positive'' []
   @ item (ends_before (ki_start c) (ki_cutoff c)) (prefix @ ''cutoffAt'') ''field.cutoff_before_start'' []"

fun categories_items :: "nat \<Rightarrow> string list \<Rightarrow> category_input list \<Rightarrow> field_item list" where
  "categories_items i seen [] = []"
| "categories_items i seen (c # cs) =
     category_items (''categories['' @ int_str (int i) @ ''].'') (ki_code c \<in> set seen) c
     @ categories_items (Suc i) (ki_code c # seen) cs"

definition event_items :: "event_input \<Rightarrow> field_item list" where
  "event_items inp =
     (if ei_slug inp = [] then [(''slug'', ''field.required'', [])]
      else if slug_max_len < byte_len (ei_slug inp) then [(''slug'', ''field.too_long'', [(''max'', PInt (int slug_max_len))])]
      else item (\<not> slug_pattern (ei_slug inp)) ''slug'' ''field.slug_format'' [])
   @ item (ei_type inp \<noteq> ''RACE'' \<and> ei_type inp \<noteq> ''FREE_ACTIVITY'') ''eventType'' ''field.invalid'' []
   @ item (ei_organizer inp \<noteq> ''OFFICIAL'' \<and> ei_organizer inp \<noteq> ''PARTNER'') ''organizerType'' ''field.invalid'' []
   @ name_items [] (ei_name inp)
   @ item (trim_space (ei_city inp) = []) ''city'' ''field.required'' []
   @ item (ei_race_date inp = zero_time) ''raceDate'' ''field.required'' []
   @ categories_items 0 [] (ei_categories inp)"

definition validate_create :: "event_input \<Rightarrow> unit res" where
  "validate_create inp = collect (event_items inp)"

section \<open>Ready to publish, ready to open\<close>

definition category_missing :: "category_row \<Rightarrow> string list" where
  "category_missing c =
     (if ec_capacity c \<le> 0 then [''capacity''] else [])
   @ (if ec_start_at c = None then [''start_at''] else [])
   @ (if ec_cutoff_at c = None then [''cutoff_at''] else [])
   @ (if ends_before (ec_start_at c) (ec_cutoff_at c) then [''cutoff_before_start''] else [])"

definition category_problems :: "category_row list \<Rightarrow> string list" where
  "category_problems cs = map (\<lambda>c. ec_code c @ '': '' @ join '', '' (category_missing c)) (filter (\<lambda>c. category_missing c \<noteq> []) cs)"

definition validate_for_publish :: "event_row \<Rightarrow> category_row list \<Rightarrow> unit res" where
  "validate_for_publish ev cs =
     (if ev_status ev = ''PUBLISHED'' then Inl (app 409 CodeEventAlreadyPublished)
      else if cs = [] then Inl (AppErr (with_field ''categories'' (code_str CodeEventNoCategory) [] (new_err 422 CodeEventNoCategory)))
      else if category_problems cs \<noteq> [] then
        (let ps = [(''missing'', PStr (join ''; '' (category_problems cs)))]
         in Inl (AppErr (with_field ''categories'' ''field.category_incomplete'' ps (with_params ps (new_err 422 CodeEventCategoryIncomplete)))))
      else Inr ())"

definition validate_registration :: "registration_input \<Rightarrow> unit res" where
  "validate_registration inp = failIf (ends_before (wi_opens inp) (wi_closes inp))
     (AppErr (with_field ''closesAt'' ''field.ends_before_starts'' [] validation_error))"

text \<open>The missing items, each with its field error.\<close>

definition ready_missing :: "event_row \<Rightarrow> string list \<Rightarrow> nat \<Rightarrow> (string \<times> field_item) list" where
  "ready_missing ev no_price n =
     (if ev_status ev \<noteq> ''PUBLISHED'' then [(''PUBLISHED'', (''status'', ''field.event_not_published'', []))] else [])
   @ (if ev_type ev = ''RACE'' then
        (if no_price \<noteq> [] then [(''PRICE_RULE'', (''priceRules'', ''field.missing_price_rule'', [(''categories'', PStr (join '', '' no_price))]))] else [])
      @ (if n = 0 then [(''PAYMENT_ACCOUNT'', (''paymentAccounts'', ''field.missing_payment_account'', []))] else [])
      else [])"

definition check_registration_ready :: "event_row \<Rightarrow> string list \<Rightarrow> nat \<Rightarrow> unit res" where
  "check_registration_ready ev no_price n =
     (let missing = ready_missing ev no_price n
      in if missing = [] then Inr ()
         else Inl (AppErr (with_params
           [(''missing'', PList (map fst missing)), (''categories'', PList (if ev_type ev = ''RACE'' then no_price else []))]
           (add_items (map snd missing) (new_err 422 CodeRegistrationNotReady)))))"

section \<open>Statements\<close>

definition insert_event :: "event_input \<Rightarrow> db \<Rightarrow> (event_row \<times> db) res" where
  "insert_event inp s =
     (if ei_type inp \<noteq> ''RACE'' \<and> ei_type inp \<noteq> ''FREE_ACTIVITY'' then Inl (check_violation ''events_event_type_check'')
      else if ei_organizer inp \<noteq> ''OFFICIAL'' \<and> ei_organizer inp \<noteq> ''PARTNER'' then Inl (check_violation ''events_organizer_type_check'')
      else if \<exists>ev\<in>set (events s). ev_slug ev = ei_slug inp then Inl (PgErr ''23505'' ''events_slug_key'')
      else let row = \<lparr>ev_id = next_id ev_id (events s), ev_slug = ei_slug inp, ev_type = ei_type inp, ev_organizer = ei_organizer inp,
                 ev_name = ei_name inp, ev_city = ei_city inp, ev_race_date = date_only (ei_race_date inp),
                 ev_timezone = ''Asia/Phnom_Penh'', ev_status = ''DRAFT'', ev_open = False, ev_visible = False,
                 ev_opens_at = None, ev_closes_at = None, ev_published_at = None\<rparr>
           in Inr (row, s\<lparr>events := events s @ [row]\<rparr>))"

definition insert_category :: "int \<Rightarrow> nat \<times> category_input \<Rightarrow> db \<Rightarrow> (category_row \<times> db) res" where
  "insert_category ev = (\<lambda>(i, c) s.
     if ki_distance c \<le> 0 then Inl (check_violation ''event_categories_distance_m_check'')
     else if ki_capacity c < 0 then Inl (check_violation ''event_categories_capacity_check'')
     else if \<exists>x\<in>set (categories s). ec_event x = ev \<and> ec_code x = ki_code c
     then Inl (PgErr ''23505'' ''event_categories_event_id_code_key'')
     else let row = \<lparr>ec_id = next_id ec_id (categories s), ec_event = ev, ec_code = ki_code c, ec_name = ki_name c,
                ec_distance = ki_distance c, ec_capacity = ki_capacity c, ec_used = 0, ec_reserved = 0,
                ec_start_at = ki_start c, ec_cutoff_at = ki_cutoff c, ec_min_age = 0, ec_sort = int16 (int i)\<rparr>
          in Inr (row, s\<lparr>categories := categories s @ [row]\<rparr>))"

definition insert_category_step :: "int \<Rightarrow> nat \<times> category_input \<Rightarrow> category_row list \<times> db \<Rightarrow> (category_row list \<times> db) res" where
  "insert_category_step ev ic = (\<lambda>(rows, s). bindE (map_err from_pg (insert_category ev ic s)) (\<lambda>(row, s'). Inr (rows @ [row], s')))"

definition list_categories_of :: "int \<Rightarrow> db \<Rightarrow> category_row list" where
  "list_categories_of ev s = sort_key (\<lambda>c. (ec_sort c, ec_id c)) (filter (\<lambda>c. ec_event c = ev) (categories s))"

definition list_category_codes_without_price_rule :: "int \<Rightarrow> db \<Rightarrow> string list" where
  "list_category_codes_without_price_rule ev s =
     map ec_code (filter (\<lambda>c. \<not> (\<exists>l\<in>set (links s). cl_category l = ec_id c)) (list_categories_of ev s))"

definition count_registration_payment_accounts :: "int \<Rightarrow> db \<Rightarrow> nat" where
  "count_registration_payment_accounts ev s =
     rows_where (\<lambda>a. pa_active a \<and> pa_currency a = ''USD'' \<and> (pa_scope a = ''REGISTRATION'' \<or> pa_scope a = ''ALL'')
        \<and> (pa_event a = Some ev \<or> pa_event a = None)) (accounts s)"

definition publish_event_stmt :: "gotime \<Rightarrow> event_row \<Rightarrow> event_row" where
  "publish_event_stmt at ev = ev\<lparr>ev_status := ''PUBLISHED'', ev_visible := True, ev_published_at := Some at\<rparr>"

definition update_event_registration :: "registration_input \<Rightarrow> event_row \<Rightarrow> event_row" where
  "update_event_registration inp ev = ev\<lparr>ev_open := wi_open inp, ev_opens_at := wi_opens inp, ev_closes_at := wi_closes inp\<rparr>"

text \<open>\<open>MinAvailablePriceCentsByEvents\<close>, the row of one event.\<close>

definition price_available :: "gotime \<Rightarrow> price_rule_row \<Rightarrow> bool" where
  "price_available now r \<longleftrightarrow>
     (case pr_starts_at r of None \<Rightarrow> True | Some a \<Rightarrow> a \<le> now)
   \<and> (case pr_ends_at r of None \<Rightarrow> True | Some b \<Rightarrow> now < b)
   \<and> (case pr_quota r of None \<Rightarrow> True | Some q \<Rightarrow> pr_used r + pr_reserved r < q)"

definition min_available_price :: "gotime \<Rightarrow> int \<Rightarrow> db \<Rightarrow> int option" where
  "min_available_price now ev s =
     (case map pr_price (filter (\<lambda>r. pr_event r = ev \<and> price_available now r) (price_rules s)) of
        [] \<Rightarrow> None | p # ps \<Rightarrow> Some (fold min ps p))"

section \<open>The operations\<close>

definition event_entry :: "staff \<Rightarrow> string \<Rightarrow> int \<Rightarrow> audit_row" where
  "event_entry actor action i = staff_entry (st_id actor) (st_role actor) action ''event'' i (Some i) False"

definition create_event :: "staff \<Rightarrow> event_input \<Rightarrow> db \<Rightarrow> (event_view \<times> db) res" where
  "create_event actor inp s =
     bindE (validate_create inp) (\<lambda>_.
     bindE (map_err from_pg (insert_event inp s)) (\<lambda>(row, s1).
     bindE (foldE (insert_category_step (ev_id row)) (enumerate 0 (ei_categories inp)) ([], s1)) (\<lambda>(cats, s2).
       Inr (\<lparr>vw_row = row, vw_categories = cats, vw_from_price = None\<rparr>,
            audit_record (event_entry actor ''event.create'' (ev_id row)) s2))))"

definition find_event :: "int \<Rightarrow> db \<Rightarrow> event_row res" where
  "find_event i s = (case List.find (\<lambda>ev. ev_id ev = i) (events s) of None \<Rightarrow> Inl (app 404 CodeEventNotFound) | Some ev \<Rightarrow> Inr ev)"

definition publish_event :: "env \<Rightarrow> staff \<Rightarrow> int \<Rightarrow> db \<Rightarrow> (event_view \<times> db) res" where
  "publish_event e actor i s =
     bindE (find_event i s) (\<lambda>row.
     let cats = list_categories_of i s in
     bindE (validate_for_publish row cats) (\<lambda>_.
     let f = publish_event_stmt (e_wall_now e)
     in Inr (\<lparr>vw_row = f row, vw_categories = cats, vw_from_price = None\<rparr>,
             audit_record (event_entry actor ''event.publish'' i)
               (s\<lparr>events := update_where (\<lambda>ev. ev_id ev = i) f (events s)\<rparr>))))"

definition registration_ready :: "event_row \<Rightarrow> db \<Rightarrow> unit res" where
  "registration_ready row s =
     (if ev_type row = ''RACE''
      then check_registration_ready row (list_category_codes_without_price_rule (ev_id row) s) (count_registration_payment_accounts (ev_id row) s)
      else check_registration_ready row [] 0)"

definition update_registration :: "staff \<Rightarrow> int \<Rightarrow> registration_input \<Rightarrow> db \<Rightarrow> (event_view \<times> db) res" where
  "update_registration actor i inp s =
     bindE (validate_registration inp) (\<lambda>_.
     bindE (find_event i s) (\<lambda>row.
     bindE (if wi_open inp then registration_ready row s else Inr ()) (\<lambda>_.
     let f = update_event_registration inp;
         s1 = s\<lparr>events := update_where (\<lambda>ev. ev_id ev = i) f (events s)\<rparr>
     in Inr (\<lparr>vw_row = f row, vw_categories = list_categories_of i s1, vw_from_price = None\<rparr>,
             audit_record (event_entry actor ''event.registration_update'' i) s1))))"

definition with_categories :: "db \<Rightarrow> event_row \<Rightarrow> event_view" where
  "with_categories s ev = \<lparr>vw_row = ev, vw_categories = list_categories_of (ev_id ev) s, vw_from_price = None\<rparr>"

definition get_admin :: "int \<Rightarrow> db \<Rightarrow> event_view res" where
  "get_admin i s = bindE (find_event i s) (\<lambda>ev. Inr (with_categories s ev))"

definition list_all_events :: "db \<Rightarrow> event_view list" where
  "list_all_events s = map (with_categories s) (sort_key (\<lambda>ev. (- ev_race_date ev, - ev_id ev)) (events s))"

definition public_event :: "event_row \<Rightarrow> bool" where
  "public_event ev \<longleftrightarrow> ev_status ev = ''PUBLISHED'' \<and> ev_visible ev"

definition load_from_price :: "env \<Rightarrow> db \<Rightarrow> event_view \<Rightarrow> event_view" where
  "load_from_price e s v = v\<lparr>vw_from_price := min_available_price (e_wall_now e) (ev_id (vw_row v)) s\<rparr>"

definition list_public :: "env \<Rightarrow> db \<Rightarrow> event_view list" where
  "list_public e s = map (load_from_price e s \<circ> with_categories s) (sort_key (\<lambda>ev. (ev_race_date ev, ev_id ev)) (filter public_event (events s)))"

definition get_public :: "env \<Rightarrow> string \<Rightarrow> db \<Rightarrow> event_view res" where
  "get_public e slug s =
     (case List.find (\<lambda>ev. ev_slug ev = slug \<and> public_event ev) (events s) of
        None \<Rightarrow> Inl (app 404 CodeEventNotFound) | Some ev \<Rightarrow> Inr (load_from_price e s (with_categories s ev)))"

section \<open>The invariant\<close>

lemma events_only_ok [simp]: "db_ok (s\<lparr>events := evs\<rparr>) = db_ok s"
  by (rule db_ok_cong) simp_all

lemma new_category_ok:
  assumes ok: "db_ok s" and r: "ec_id r = next_id ec_id (categories s)" "ec_used r = 0" "ec_reserved r = 0" "0 \<le> ec_capacity r"
    and s': "s' = s\<lparr>categories := categories s @ [r]\<rparr>"
  shows "db_ok s'"
proof -
  have fits: "\<forall>r\<in>set (categories s). cat.fits r" and dist: "distinct (map ec_id (categories s))"
    and ag: "cat_row.agree (categories s) op_order op_category (participants s) (order_state s) (free_seats s)"
    and refs: "\<forall>p\<in>set (participants s). op_category p \<in> ec_id ` set (categories s)"
    and free: "\<forall>f\<in>set (free_signups s). fs_category f \<in> ec_id ` set (categories s)"
    using ok by (simp_all add: db_ok_def ok_defs counter_keys_def)
  have new: "ec_id r \<notin> ec_id ` set (categories s)" unfolding r(1) by (rule next_id_fresh)
  have ne: "op_category p \<noteq> ec_id r" if "p \<in> set (participants s)" for p using refs new that by metis
  have "fs_category f \<noteq> ec_id r" if "f \<in> set (free_signups s)" for f using free new that by metis
  then have "rows_where (\<lambda>f. fs_category f = ec_id r) (free_signups s) = 0" by simp
  then have fr: "free_seats s (ec_id r) = 0" by (simp add: free_seats_def)
  have ag': "cat_row.agree (categories s @ [r]) op_order op_category (participants s) (order_state s) (free_seats s)"
    by (rule cat_row.agree_new_row [OF ag]) (use r fr ne in auto)
  have fit': "cat.fits r" using r by (simp add: cat.fits_def)
  have st: "order_state s' = order_state s" by (simp add: fun_eq_iff order_state_def s')
  have fs: "free_seats s' = free_seats s" by (simp add: fun_eq_iff free_seats_def s')
  show ?thesis
    using ok ag' fit' new unfolding db_ok_def ok_defs counter_keys_def st fs by (auto simp: s')
qed

lemma insert_category_Inr:
  assumes "insert_category ev ic s = Inr (row, s')"
  shows "s' = s\<lparr>categories := categories s @ [row]\<rparr>" "ec_id row = next_id ec_id (categories s)" "ec_event row = ev"
    "ec_used row = 0" "ec_reserved row = 0" "0 \<le> ec_capacity row" "ec_code row = ki_code (snd ic)" "ec_capacity row = ki_capacity (snd ic)"
  using assms unfolding insert_category_def case_prod_unfold Let_def
  by (simp_all split: if_splits) (elim conjE; hypsubst; simp)+

lemma insert_category_step_Inr:
  assumes "insert_category_step ev ic (rows, s) = Inr (rows', s')"
  obtains row where "insert_category ev ic s = Inr (row, s')" "rows' = rows @ [row]"
  using assms unfolding insert_category_step_def by (simp only: Inr_chain fst_conv snd_conv) (elim exE conjE, simp)

lemma insert_categories_ok:
  "foldE (insert_category_step ev) cs (rows, s) = Inr (rows', s') \<Longrightarrow> db_ok s \<Longrightarrow> db_ok s'"
proof (induction cs arbitrary: rows s)
  case Nil
  then show ?case by simp
next
  case (Cons c cs)
  from Cons.prems(1) obtain y where st: "insert_category_step ev c (rows, s) = Inr y" and rest: "foldE (insert_category_step ev) cs y = Inr (rows', s')"
    unfolding foldE.simps by (rule bindE_InrE)
  obtain rows1 s1 where y: "y = (rows1, s1)" by (cases y)
  obtain row where "insert_category ev c s = Inr (row, s1)" by (rule insert_category_step_Inr [OF st [unfolded y]])
  note I = insert_category_Inr [OF this]
  from new_category_ok [OF Cons.prems(2) I(2,4,5,6,1)] have "db_ok s1" .
  with Cons.IH rest y show ?case by simp
qed

lemma create_event_Inr:
  assumes "create_event actor inp s = Inr (v, s')"
  obtains row s2 a where "validate_create inp = Inr ()" "insert_event inp s = Inr (row, s\<lparr>events := events s @ [row]\<rparr>)"
    "foldE (insert_category_step (ev_id row)) (enumerate 0 (ei_categories inp)) ([], s\<lparr>events := events s @ [row]\<rparr>) = Inr (vw_categories v, s2)"
    "vw_row v = row" "s' = audit_record a s2"
proof -
  obtain x1 row s1 cats s2 where v: "validate_create inp = Inr x1" and ie: "insert_event inp s = Inr (row, s1)"
    and f: "foldE (insert_category_step (ev_id row)) (enumerate 0 (ei_categories inp)) ([], s1) = Inr (cats, s2)"
    and out: "(Inr (\<lparr>vw_row = row, vw_categories = cats, vw_from_price = None\<rparr>, audit_record (event_entry actor ''event.create'' (ev_id row)) s2)
      :: (event_view \<times> db) res) = Inr (v, s')"
    using assms [unfolded create_event_def] by (simp only: Inr_chain fst_conv snd_conv) (elim exE conjE, rule that)
  have "s1 = s\<lparr>events := events s @ [row]\<rparr>"
    using ie by (simp add: insert_event_def Let_def split: if_splits) (elim conjE; hypsubst; simp)
  with ie f have I: "insert_event inp s = Inr (row, s\<lparr>events := events s @ [row]\<rparr>)"
    "foldE (insert_category_step (ev_id row)) (enumerate 0 (ei_categories inp)) ([], s\<lparr>events := events s @ [row]\<rparr>) = Inr (cats, s2)" by simp_all
  obtain a where s': "s' = audit_record a s2" and vv: "v = \<lparr>vw_row = row, vw_categories = cats, vw_from_price = None\<rparr>"
    using out by (simp only: sum.inject prod.inject) (elim conjE, rule that, erule sym, erule sym)
  show thesis by (rule that [OF _ I(1) _ _ s']) (use v I(2) in \<open>simp_all add: vv\<close>)
qed

lemma create_event_ok:
  assumes "db_ok s" and "create_event actor inp s = Inr (v, s')"
  shows "db_ok s'"
  using assms(2)
proof (rule create_event_Inr)
  fix row s2 a
  assume f: "foldE (insert_category_step (ev_id row)) (enumerate 0 (ei_categories inp)) ([], s\<lparr>events := events s @ [row]\<rparr>) = Inr (vw_categories v, s2)"
    and s': "s' = audit_record a s2"
  have "db_ok (s\<lparr>events := events s @ [row]\<rparr>)" using assms(1) by simp
  from insert_categories_ok [OF f this] s' show ?thesis by simp
qed

lemma publish_event_Inr:
  assumes "publish_event e actor i s = Inr (v, s')"
  obtains row a where "row \<in> set (events s)" "ev_id row = i" "validate_for_publish row (list_categories_of i s) = Inr ()"
    "s' = audit_record a (s\<lparr>events := update_where (\<lambda>ev. ev_id ev = i) (publish_event_stmt (e_wall_now e)) (events s)\<rparr>)"
    "v = \<lparr>vw_row = publish_event_stmt (e_wall_now e) row, vw_categories = list_categories_of i s, vw_from_price = None\<rparr>"
proof -
  obtain row x where f: "find_event i s = Inr row" and v: "validate_for_publish row (list_categories_of i s) = Inr x"
    and out: "(Inr (\<lparr>vw_row = publish_event_stmt (e_wall_now e) row, vw_categories = list_categories_of i s, vw_from_price = None\<rparr>,
       audit_record (event_entry actor ''event.publish'' i) (s\<lparr>events := update_where (\<lambda>ev. ev_id ev = i) (publish_event_stmt (e_wall_now e)) (events s)\<rparr>))
       :: (event_view \<times> db) res) = Inr (v, s')"
    using assms [unfolded publish_event_def] by (simp only: Inr_chain fst_conv snd_conv) (elim exE conjE, rule that)
  have F: "List.find (\<lambda>ev. ev_id ev = i) (events s) = Some row"
    using f by (simp add: find_event_def split: option.splits)
  from find_Some_key [OF F] have row: "row \<in> set (events s)" "ev_id row = i" by simp_all
  obtain a where s': "s' = audit_record a (s\<lparr>events := update_where (\<lambda>ev. ev_id ev = i) (publish_event_stmt (e_wall_now e)) (events s)\<rparr>)"
    and vv: "v = \<lparr>vw_row = publish_event_stmt (e_wall_now e) row, vw_categories = list_categories_of i s, vw_from_price = None\<rparr>"
    using out by (simp only: sum.inject prod.inject) (elim conjE, rule that, erule sym, erule sym)
  show thesis by (rule that [OF row _ s' vv]) (use v in simp)
qed

lemma update_registration_Inr:
  assumes "update_registration actor i inp s = Inr (v, s')"
  obtains row a where "row \<in> set (events s)" "ev_id row = i" "\<not> ends_before (wi_opens inp) (wi_closes inp)"
    "wi_open inp \<longrightarrow> registration_ready row s = Inr ()"
    "s' = audit_record a (s\<lparr>events := update_where (\<lambda>ev. ev_id ev = i) (update_event_registration inp) (events s)\<rparr>)"
    "vw_row v = update_event_registration inp row"
proof -
  let ?s1 = "s\<lparr>events := update_where (\<lambda>ev. ev_id ev = i) (update_event_registration inp) (events s)\<rparr>"
  obtain x1 row x2 where vr: "validate_registration inp = Inr x1" and f: "find_event i s = Inr row"
    and rd: "(if wi_open inp then registration_ready row s else Inr ()) = Inr x2"
    and out: "(Inr (\<lparr>vw_row = update_event_registration inp row, vw_categories = list_categories_of i ?s1, vw_from_price = None\<rparr>,
       audit_record (event_entry actor ''event.registration_update'' i) ?s1) :: (event_view \<times> db) res) = Inr (v, s')"
    using assms [unfolded update_registration_def] by (simp only: Inr_chain fst_conv snd_conv) (elim exE conjE, rule that)
  have F: "List.find (\<lambda>ev. ev_id ev = i) (events s) = Some row"
    using f by (simp add: find_event_def split: option.splits)
  from find_Some_key [OF F] have row: "row \<in> set (events s)" "ev_id row = i" by simp_all
  obtain a where s': "s' = audit_record a ?s1"
    and vv: "v = \<lparr>vw_row = update_event_registration inp row, vw_categories = list_categories_of i ?s1, vw_from_price = None\<rparr>"
    using out by (simp only: sum.inject prod.inject) (elim conjE, rule that, erule sym, erule sym)
  show thesis by (rule that [OF row _ _ s']) (use vr rd in \<open>simp_all add: validate_registration_def vv split: if_splits\<close>)
qed

lemma publish_event_ok:
  assumes "db_ok s" and "publish_event e actor i s = Inr (v, s')"
  shows "db_ok s'"
  using assms(2) by (rule publish_event_Inr) (simp add: assms(1))

lemma update_registration_ok:
  assumes "db_ok s" and "update_registration actor i inp s = Inr (v, s')"
  shows "db_ok s'"
  using assms(2) by (rule update_registration_Inr) (simp add: assms(1))

section \<open>What an event needs\<close>

lemma category_complete:
  "category_missing c = [] \<longleftrightarrow>
     0 < ec_capacity c \<and> (\<exists>a b. ec_start_at c = Some a \<and> ec_cutoff_at c = Some b \<and> a < b)"
  by (auto simp: category_missing_def ends_before_def)

lemma set_list_categories_of: "set (list_categories_of i s) = {c \<in> set (categories s). ec_event c = i}"
  by (simp add: list_categories_of_def)

lemma validate_for_publish_iff:
  "validate_for_publish row cs = Inr () \<longleftrightarrow> ev_status row \<noteq> ''PUBLISHED'' \<and> cs \<noteq> [] \<and> (\<forall>c\<in>set cs. category_missing c = [])"
  by (auto simp: validate_for_publish_def category_problems_def Let_def filter_empty_conv)

text \<open>An event is published exactly when it is not published yet and has categories, each with seats and a start
  before its cut-off; then its pages are public.\<close>

theorem publish_event_iff:
  assumes "find_event i s = Inr row"
  shows "((\<exists>v s'. publish_event e actor i s = Inr (v, s')) \<longleftrightarrow>
      ev_status row \<noteq> ''PUBLISHED'' \<and> (\<exists>c\<in>set (categories s). ec_event c = i)
      \<and> (\<forall>c\<in>set (categories s). ec_event c = i \<longrightarrow>
           0 < ec_capacity c \<and> (\<exists>a b. ec_start_at c = Some a \<and> ec_cutoff_at c = Some b \<and> a < b)))
    \<and> (\<forall>v s'. publish_event e actor i s = Inr (v, s') \<longrightarrow> (\<exists>row'\<in>set (events s'). ev_id row' = i \<and> public_event row'
      \<and> ev_published_at row' = Some (e_wall_now e) \<and> vw_row v = row'))" (is "?iff \<and> ?effect")
proof
  have nil: "list_categories_of i s \<noteq> [] \<longleftrightarrow> (\<exists>c\<in>set (categories s). ec_event c = i)"
    unfolding set_empty [symmetric] set_list_categories_of by blast
  have "(\<exists>v s'. publish_event e actor i s = Inr (v, s')) \<longleftrightarrow> validate_for_publish row (list_categories_of i s) = Inr ()"
    unfolding publish_event_def assms by (cases "validate_for_publish row (list_categories_of i s)") (simp_all add: Let_def)
  then show ?iff
    unfolding validate_for_publish_iff nil category_complete set_list_categories_of by blast
  have "\<exists>row'\<in>set (events s'). ev_id row' = i \<and> public_event row' \<and> ev_published_at row' = Some (e_wall_now e) \<and> vw_row v = row'"
    if "publish_event e actor i s = Inr (v, s')" for v s'
    using that
  proof (rule publish_event_Inr)
    fix r a
    let ?f = "publish_event_stmt (e_wall_now e)"
    assume r: "r \<in> set (events s)" "ev_id r = i"
      and s': "s' = audit_record a (s\<lparr>events := update_where (\<lambda>ev. ev_id ev = i) ?f (events s)\<rparr>)"
      and v: "v = \<lparr>vw_row = ?f r, vw_categories = list_categories_of i s, vw_from_price = None\<rparr>"
    have "?f r \<in> set (events s')" unfolding s' using r by (force simp: audit_record_def set_update_where)
    then show ?thesis using r(2) v
      by (intro bexI [of _ "?f r"]) (simp_all add: publish_event_stmt_def public_event_def)
  qed
  then show ?effect by blast
qed

definition sample_draft_db :: db where
  "sample_draft_db = sample_db\<lparr>events := [sample_event\<lparr>ev_status := ''DRAFT'', ev_open := False, ev_visible := False, ev_published_at := None\<rparr>],
     categories := [(sample_category 1 ''21K'' 3)\<lparr>ec_start_at := Some (date_time 2026 12 6), ec_cutoff_at := Some (date_time 2026 12 6 + hour)\<rparr>]\<rparr>"

lemma publish_event_iff_witness:
  "\<exists>v s'. publish_event sample_env sample_staff 1 sample_draft_db = Inr (v, s') \<and> (\<exists>row'\<in>set (events s'). public_event row')"
proof -
  have f: "find_event 1 sample_draft_db = Inr (hd (events sample_draft_db))"
    by (simp add: find_event_def sample_draft_db_def sample_event_def)
  have c: "categories sample_draft_db = [(sample_category 1 ''21K'' 3)\<lparr>ec_start_at := Some (date_time 2026 12 6), ec_cutoff_at := Some (date_time 2026 12 6 + hour)\<rparr>]"
    "ev_status (hd (events sample_draft_db)) = ''DRAFT''" by (simp_all add: sample_draft_db_def sample_event_def)
  have "\<exists>v s'. publish_event sample_env sample_staff 1 sample_draft_db = Inr (v, s')"
    unfolding conjunct1 [OF publish_event_iff [OF f]] c by (simp add: sample_category_def hour_def minute_def second_def)
  then obtain v s' where p: "publish_event sample_env sample_staff 1 sample_draft_db = Inr (v, s')" by blast
  from conjunct2 [OF publish_event_iff [OF f]] p have "\<exists>row'\<in>set (events s'). public_event row'" by blast
  with p show ?thesis by blast
qed

text \<open>C24: Registration is opened only for a published event, and its window never ends before it starts.  A race needs
  besides a price rule for every category and an active US dollar account that takes registrations; a free activity,
  which takes no payments, needs neither.\<close>

theorem open_registration_ready:
  assumes "update_registration actor i inp s = Inr (v, s')" and "wi_open inp"
  shows "\<exists>row\<in>set (events s). ev_id row = i \<and> ev_status row = ''PUBLISHED'' \<and> vw_row v = update_event_registration inp row
    \<and> (ev_type row = ''RACE'' \<longrightarrow>
         (\<forall>c\<in>set (categories s). ec_event c = i \<longrightarrow> (\<exists>l\<in>set (links s). cl_category l = ec_id c))
       \<and> (\<exists>a\<in>set (accounts s). pa_active a \<and> pa_currency a = ''USD'' \<and> pa_scope a \<in> {''REGISTRATION'', ''ALL''}
            \<and> (pa_event a = Some i \<or> pa_event a = None)))
    \<and> (\<forall>x y. wi_opens inp = Some x \<longrightarrow> wi_closes inp = Some y \<longrightarrow> x < y)"
  using assms(1)
proof (rule update_registration_Inr)
  fix r a
  assume r: "r \<in> set (events s)" "ev_id r = i" and w: "\<not> ends_before (wi_opens inp) (wi_closes inp)"
    and rd: "wi_open inp \<longrightarrow> registration_ready r s = Inr ()" and v: "vw_row v = update_event_registration inp r"
  have chk: "check_registration_ready r ps n = Inr () \<longleftrightarrow> ready_missing r ps n = []" for ps n
    by (simp add: check_registration_ready_def Let_def)
  have st: "ev_status r = ''PUBLISHED''" using rd assms(2)
    by (auto simp: registration_ready_def chk ready_missing_def split: if_splits)
  have race: "(\<forall>c\<in>set (categories s). ec_event c = i \<longrightarrow> (\<exists>l\<in>set (links s). cl_category l = ec_id c))
       \<and> (\<exists>a\<in>set (accounts s). pa_active a \<and> pa_currency a = ''USD'' \<and> pa_scope a \<in> {''REGISTRATION'', ''ALL''}
            \<and> (pa_event a = Some i \<or> pa_event a = None))" if ty: "ev_type r = ''RACE''"
  proof -
    have "list_category_codes_without_price_rule i s = []" "count_registration_payment_accounts i s \<noteq> 0"
      using rd assms(2) ty r(2) by (auto simp: registration_ready_def chk ready_missing_def split: if_splits)
    then show ?thesis
      by (auto simp: list_category_codes_without_price_rule_def count_registration_payment_accounts_def
          filter_empty_conv set_list_categories_of)
  qed
  have "\<forall>x y. wi_opens inp = Some x \<longrightarrow> wi_closes inp = Some y \<longrightarrow> x < y" using w by (auto simp: ends_before_def)
  with r st v race show ?thesis by (intro bexI [of _ r]) simp_all
qed

definition sample_opening :: "event_view \<times> db" where
  "sample_opening = projr (update_registration sample_staff 1 \<lparr>wi_open = True, wi_opens = None, wi_closes = Some sample_now\<rparr> sample_db)"

lemma open_registration_ready_witness: "\<exists>a\<in>set (accounts sample_db). pa_active a \<and> pa_currency a = ''USD''"
proof -
  have "\<not> isl (update_registration sample_staff 1 \<lparr>wi_open = True, wi_opens = None, wi_closes = Some sample_now\<rparr> sample_db)" by code_simp
  then have u: "update_registration sample_staff 1 \<lparr>wi_open = True, wi_opens = None, wi_closes = Some sample_now\<rparr> sample_db
      = Inr (fst sample_opening, snd sample_opening)" by (simp add: sample_opening_def)
  have e: "events sample_db = [sample_event]" "ev_type sample_event = ''RACE''" by (simp_all add: sample_db_def sample_event_def)
  from open_registration_ready [OF u] show ?thesis unfolding e by (auto simp: e)
qed

text \<open>The price an event is advertised from is the least price of the rules on sale, and there is none exactly when
  no rule is.\<close>

theorem from_price_is_cheapest_tier:
  assumes "vw_from_price (load_from_price e s v) = p"
  shows "case p of
      None \<Rightarrow> \<not> (\<exists>r\<in>set (price_rules s). pr_event r = ev_id (vw_row v) \<and> price_available (e_wall_now e) r)
    | Some c \<Rightarrow> (\<exists>r\<in>set (price_rules s). pr_event r = ev_id (vw_row v) \<and> price_available (e_wall_now e) r \<and> pr_price r = c)
        \<and> (\<forall>r\<in>set (price_rules s). pr_event r = ev_id (vw_row v) \<and> price_available (e_wall_now e) r \<longrightarrow> c \<le> pr_price r)"
proof -
  let ?ok = "\<lambda>r. pr_event r = ev_id (vw_row v) \<and> price_available (e_wall_now e) r"
  have p: "p = min_available_price (e_wall_now e) (ev_id (vw_row v)) s" using assms by (simp add: load_from_price_def)
  let ?ps = "map pr_price (filter ?ok (price_rules s))"
  show ?thesis
  proof (cases ?ps)
    case Nil
    then show ?thesis unfolding p min_available_price_def by (auto simp: filter_empty_conv)
  next
    case (Cons q qs)
    let ?m = "Min (set (q # qs))"
    have m: "fold min qs q = ?m" by (simp only: Min.set_eq_fold)
    have "?m \<in> set ?ps" unfolding Cons by (rule Min_in) simp_all
    then have "\<exists>r\<in>set (price_rules s). ?ok r \<and> pr_price r = ?m" by auto
    moreover have "?m \<le> pr_price r" if "r \<in> set (price_rules s)" "?ok r" for r
    proof -
      have "pr_price r \<in> set ?ps" using that by auto
      then show ?thesis unfolding Cons by (intro Min_le) simp_all
    qed
    moreover have "p = Some ?m" unfolding p min_available_price_def Cons list.case m ..
    ultimately show ?thesis by auto
  qed
qed

lemma from_price_is_cheapest_tier_witness:
  "vw_from_price (load_from_price sample_env sample_db (with_categories sample_db sample_event)) = Some 1500
   \<and> 1500 \<le> pr_price (hd (price_rules sample_db))"
proof -
  have f: "vw_from_price (load_from_price sample_env sample_db (with_categories sample_db sample_event)) = Some 1500" by code_simp
  have "ev_id (vw_row (with_categories sample_db sample_event)) = 1" "e_wall_now sample_env = sample_now"
    by (simp_all add: with_categories_def sample_event_def sample_env_def)
  with from_price_is_cheapest_tier [OF f]
  have "\<forall>r\<in>set (price_rules sample_db). pr_event r = 1 \<and> price_available sample_now r \<longrightarrow> 1500 \<le> pr_price r" by simp
  moreover have "hd (price_rules sample_db) \<in> set (price_rules sample_db)" "pr_event (hd (price_rules sample_db)) = 1"
    "price_available sample_now (hd (price_rules sample_db))" by code_simp+
  ultimately show ?thesis using f by blast
qed

end
