(* ===== verification/Lifecycle.thy ===== *)
theory Lifecycle
  imports Uploads EventAdmin FreeSignup
begin

text \<open>
  The life of an order across all operations: how an order may change, and that every
  operation changes orders only so.
\<close>

section \<open>How orders change\<close>

text \<open>The terms of an order: everything but its progress.\<close>

definition same_terms :: "order_row \<Rightarrow> order_row \<Rightarrow> bool" where
  "same_terms r r' \<longleftrightarrow> ro_id r' = ro_id r \<and> ro_no r' = ro_no r \<and> ro_event r' = ro_event r \<and> ro_buyer r' = ro_buyer r
     \<and> ro_list r' = ro_list r \<and> ro_discount r' = ro_discount r \<and> ro_ident r' = ro_ident r \<and> ro_amount r' = ro_amount r
     \<and> ro_coupon r' = ro_coupon r \<and> ro_account r' = ro_account r \<and> ro_created_at r' = ro_created_at r"

text \<open>The statuses an order can still reach.\<close>

definition can_become :: "order_status \<Rightarrow> order_status \<Rightarrow> bool" where
  "can_become a b \<longleftrightarrow> b = a \<or>
     (case a of
        PendingPayment \<Rightarrow> b \<in> {ProofSubmitted, ProofRejected, Paid, Expired, Cancelled}
      | ProofSubmitted \<Rightarrow> b \<in> {ProofRejected, Paid, Expired}
      | ProofRejected \<Rightarrow> b \<in> {ProofSubmitted, Paid, Expired}
      | _ \<Rightarrow> False)"

definition evolves :: "db \<Rightarrow> db \<Rightarrow> bool" where
  "evolves s s' \<longleftrightarrow> (\<forall>r\<in>set (orders s). \<exists>r'\<in>set (orders s').
     same_terms r r' \<and> can_become (ro_status r) (ro_status r') \<and> (\<not> open_status (ro_status r) \<longrightarrow> r' = r))"

lemma can_become_refl [simp]: "can_become a a"
  by (simp add: can_become_def)

lemma can_become_trans: "can_become a b \<Longrightarrow> can_become b c \<Longrightarrow> can_become a c"
  by (cases a; cases b; cases c) (simp_all add: can_become_def)

lemma can_become_final: "\<not> open_status a \<Longrightarrow> can_become a b \<Longrightarrow> b = a"
  by (cases a) (auto simp: can_become_def open_status_def)

lemma same_terms_refl [simp]: "same_terms r r"
  by (simp add: same_terms_def)

lemma same_terms_trans: "same_terms r r' \<Longrightarrow> same_terms r' r'' \<Longrightarrow> same_terms r r''"
  by (simp add: same_terms_def)

lemma evolves_refl: "orders s' = orders s \<Longrightarrow> evolves s s'"
  by (force simp: evolves_def)

lemma evolves_trans:
  assumes "evolves s t" and "evolves t u"
  shows "evolves s u"
  unfolding evolves_def
proof
  fix r assume r: "r \<in> set (orders s)"
  from assms(1) r obtain r1 where r1: "r1 \<in> set (orders t)" "same_terms r r1" "can_become (ro_status r) (ro_status r1)"
    "\<not> open_status (ro_status r) \<longrightarrow> r1 = r" unfolding evolves_def by blast
  from assms(2) r1(1) obtain r2 where r2: "r2 \<in> set (orders u)" "same_terms r1 r2" "can_become (ro_status r1) (ro_status r2)"
    "\<not> open_status (ro_status r1) \<longrightarrow> r2 = r1" unfolding evolves_def by blast
  have "same_terms r r2" "can_become (ro_status r) (ro_status r2)"
    using r1(2,3) r2(2,3) same_terms_trans can_become_trans by blast+
  moreover have "\<not> open_status (ro_status r) \<longrightarrow> r2 = r" using r1(4) r2(4) by auto
  ultimately show "\<exists>r'\<in>set (orders u). same_terms r r' \<and> can_become (ro_status r) (ro_status r') \<and> (\<not> open_status (ro_status r) \<longrightarrow> r' = r)"
    using r2(1) by blast
qed

lemma evolves_update:
  assumes "orders s' = update_where P f (orders s)"
    and "\<And>r. r \<in> set (orders s) \<Longrightarrow> P r \<Longrightarrow> same_terms r (f r) \<and> can_become (ro_status r) (ro_status (f r)) \<and> open_status (ro_status r)"
  shows "evolves s s'"
  unfolding evolves_def
proof
  fix r assume r: "r \<in> set (orders s)"
  then have "(if P r then f r else r) \<in> set (orders s')" unfolding assms(1) set_update_where by (rule imageI)
  then show "\<exists>r'\<in>set (orders s'). same_terms r r' \<and> can_become (ro_status r) (ro_status r') \<and> (\<not> open_status (ro_status r) \<longrightarrow> r' = r)"
    using assms(2) [OF r] by (intro bexI) (auto split: if_splits)
qed

lemma evolves_append: "orders s' = orders s @ rs \<Longrightarrow> evolves s s'"
  unfolding evolves_def by (metis Un_iff can_become_refl same_terms_refl set_append)

section \<open>The whole invariant\<close>

text \<open>Seats, amounts and keys; money; one live registration and one live sign-up per person.\<close>

definition sys_ok :: "db \<Rightarrow> bool" where
  "sys_ok s \<longleftrightarrow> db_ok s \<and> funds_ok s \<and> unique_live s \<and> free_unique s"

text \<open>The tables the invariant speaks of.\<close>

definition books :: "db \<Rightarrow> db" where
  "books s = s\<lparr>events := [], links := [], idem_keys := [], accounts := [], files := [], notify_logs := [], jobs := [], users := [],
     profiles := [], consents := [], signatures := [], reg_consents := [], audit_logs := [], settings := []\<rparr>"

lemma booksD:
  assumes "books s' = books s"
  shows "orders s' = orders s" "participants s' = participants s" "registrations s' = registrations s"
    "free_signups s' = free_signups s" "categories s' = categories s" "price_rules s' = price_rules s" "coupons s' = coupons s"
    "redemptions s' = redemptions s" "proofs s' = proofs s" "receipts s' = receipts s" "exceptions s' = exceptions s"
  using arg_cong [OF assms, of orders] arg_cong [OF assms, of participants] arg_cong [OF assms, of registrations]
    arg_cong [OF assms, of free_signups] arg_cong [OF assms, of categories] arg_cong [OF assms, of price_rules]
    arg_cong [OF assms, of coupons] arg_cong [OF assms, of redemptions] arg_cong [OF assms, of proofs]
    arg_cong [OF assms, of receipts] arg_cong [OF assms, of exceptions] by (simp_all add: books_def)

lemma books_ok:
  assumes "books s' = books s" and "sys_ok s"
  shows "sys_ok s' \<and> evolves s s'"
proof -
  note b = booksD [OF assms(1)]
  have "db_ok s' = db_ok s" by (rule db_ok_cong) (simp_all only: b)
  moreover have "funds_ok s' = funds_ok s" by (rule funds_ok_cong) (simp_all only: b)
  moreover have "unique_live s' = unique_live s" by (rule unique_live_cong) (simp only: b)
  moreover have "free_unique s' = free_unique s" by (simp only: free_unique_def b)
  ultimately show ?thesis using assms(2) evolves_refl [OF b(1)] by (simp add: sys_ok_def)
qed

lemma books_core: "books (core s) = books s"
  by (simp add: core_def books_def)

lemma core_books: "core s' = core s \<Longrightarrow> books s' = books s"
  by (metis books_core)

lemma sys_ok_cong_core:
  assumes "core s' = core s"
  shows "sys_ok s' \<longleftrightarrow> sys_ok s" "evolves s s'"
  using books_ok [OF core_books [OF assms]] books_ok [OF core_books [OF assms [symmetric]]] evolves_refl [OF coreD(6) [OF assms]] by auto


section \<open>Every operation\<close>

lemma confirm_paid_sys:
  assumes "sys_ok s" and "confirm_paid e i at s = Inr s'"
  shows "free_signups s' = free_signups s" "evolves s s'"
proof -
  have ok: "db_ok s" using assms(1) by (simp add: sys_ok_def)
  note cp = confirm_paid_orders [OF ok assms(2)]
  show "free_signups s' = free_signups s" unfolding cp(1) by (simp add: paid_db_def settled_def with_orders_def)
  show "evolves s s'"
    by (rule evolves_update [OF cp(3)]) (auto simp: payable_def pay_row_def same_terms_def can_become_def open_status_def)
qed

lemma release_order_sys:
  assumes "sys_ok s" and rel: "release_order e i k s = Inr (b, s')"
  shows "sys_ok s' \<and> evolves s s'"
proof -
  have ok: "db_ok s" "funds_ok s" "unique_live s" "free_unique s" using assms(1) by (simp_all add: sys_ok_def)
  have fs: "free_signups s' = free_signups s" and ev: "evolves s s'"
  proof -
    show "free_signups s' = free_signups s"
      using rel by (auto simp: release_order_eq [OF ok(1)] released_db_def settled_def with_orders_def split: if_splits)
    show "evolves s s'"
    proof (cases "s' = s")
      case False
      with rel have s': "s' = released_db e i k s" by (auto simp: release_order_eq [OF ok(1)] split: if_splits)
      show ?thesis
        by (rule evolves_update [where P = "\<lambda>r. ro_id r = i \<and> releasable k r" and f = "release_row k (e_now e)"])
          (auto simp: s' released_db_def settled_def with_orders_def releasable_def release_row_def same_terms_def can_become_def open_status_def
            split: release_kind.splits)
    qed (simp add: evolves_refl)
  qed
  show ?thesis
    using release_order_ok [OF ok(1) rel] release_order_funds [OF ok(1,2) rel] release_order_unique [OF ok(1,3) rel] fs ok(4) ev
    by (simp add: sys_ok_def free_unique_def)
qed

lemma cancel_order_sys:
  assumes "sys_ok s" and "cancel_order e u no s = Inr (d, s')"
  shows "sys_ok s' \<and> evolves s s'"
  using assms(2)
proof (rule cancel_order_Inr)
  fix r s1 assume rel: "release_order e (ro_id r) ReleaseCancelled s = Inr (True, s1)"
    and s': "s' = audit_record (runner_entry u ''reg_order.cancel'' (ro_id r) (ro_event r)) s1"
  have "core s' = core s1" by (simp add: s')
  from sys_ok_cong_core [OF this] release_order_sys [OF assms(1) rel] show ?thesis using evolves_trans by blast
qed

lemma expire_order_sys:
  assumes "sys_ok s" and "expire_order e i s = Inr (b, s')"
  shows "sys_ok s' \<and> evolves s s'"
proof -
  from expire_order_Inr [OF assms(2)] obtain s1 where
    s1: "release_order e i ReleaseExpired s = Inr (b, s1)" "core s' = core s1" .
  from release_order_sys [OF assms(1) s1(1)] sys_ok_cong_core [OF s1(2)] show ?thesis using evolves_trans by blast
qed

lemma deadline_work_sys:
  assumes "sys_ok s" and "deadline_work e s = (rep, n, s')"
  shows "sys_ok s' \<and> evolves s s'"
proof (rule deadline_work_inv [where P = "\<lambda>t. sys_ok t \<and> evolves s t", OF assms(2)])
  show "sys_ok s \<and> evolves s s" using assms(1) by (simp add: evolves_refl)
  show "sys_ok t' \<and> evolves s t'" if "sys_ok t \<and> evolves s t" "expire_order e i t = Inr (b, t')" for i t b t'
    using that expire_order_sys [of t e i b t'] evolves_trans by blast
  show "sys_ok t' \<and> evolves s t'" if "core t' = core t" "sys_ok t \<and> evolves s t" for t t'
    using that sys_ok_cong_core [OF that(1)] evolves_trans by blast
  show "sys_ok (t\<lparr>idem_keys := ks\<rparr>) \<and> evolves s (t\<lparr>idem_keys := ks\<rparr>)" if "sys_ok t \<and> evolves s t" for t ks
  proof -
    have "books (t\<lparr>idem_keys := ks\<rparr>) = books t" by (simp add: books_def)
    from books_ok [OF this] that show ?thesis using evolves_trans by blast
  qed
qed

lemma submit_proof_tx_sys:
  assumes "sys_ok s" and run: "submit_proof_tx e u no key img inp s = Inr (v, s')"
  shows "sys_ok s' \<and> evolves s s'"
proof -
  have ok: "db_ok s" "funds_ok s" "unique_live s" "free_unique s" using assms(1) by (simp_all add: sys_ok_def)
  obtain r :: order_row and p fs where s': "\<exists>a. s' = audit_record a (with_orders (\<lambda>x. ro_id x = ro_id r \<and> submittable x) submit_row (s\<lparr>files := fs, proofs := proofs s @ [p]\<rparr>))"
    by (rule submit_proof_tx_Inr [OF run])
  then have t: "registrations s' = registrations s" "free_signups s' = free_signups s"
    "orders s' = update_where (\<lambda>x. ro_id x = ro_id r \<and> submittable x) submit_row (orders s)"
    by (auto simp: audit_record_def with_orders_def)
  have "evolves s s'"
    by (rule evolves_update [OF t(3)]) (auto simp: submittable_def submit_row_def same_terms_def can_become_def open_status_def)
  then show ?thesis
    using submit_proof_tx_ok [OF ok(1) run] submit_proof_tx_funds [OF ok(1,2) run] ok(3,4) unique_live_cong [OF t(1)] t(2)
    by (simp add: sys_ok_def free_unique_def)
qed

lemma reject_proof_tx_sys:
  assumes "sys_ok s" and run: "reject_proof_tx e actor i code reason s = Inr s'"
  shows "sys_ok s' \<and> evolves s s'"
proof -
  have ok: "db_ok s" "funds_ok s" "unique_live s" "free_unique s" using assms(1) by (simp_all add: sys_ok_def)
  obtain r :: order_row and d s2 ps where s2: "s2 = with_orders (\<lambda>x. ro_id x = ro_id r \<and> under_review x) (reject_row d) (s\<lparr>proofs := ps\<rparr>)"
    and c: "core s' = core s2" by (rule reject_proof_tx_Inr [OF run])
  have t: "registrations s' = registrations s" "free_signups s' = free_signups s"
    "orders s' = update_where (\<lambda>x. ro_id x = ro_id r \<and> under_review x) (reject_row d) (orders s)"
    using coreD [OF c] by (simp_all add: s2 with_orders_def)
  have "evolves s s'"
    by (rule evolves_update [OF t(3)]) (auto simp: under_review_def reject_row_def same_terms_def can_become_def open_status_def)
  then show ?thesis
    using reject_proof_tx_ok [OF ok(1) run] reject_proof_tx_funds [OF ok(1,2) run] ok(3,4) unique_live_cong [OF t(1)] t(2)
    by (simp add: sys_ok_def free_unique_def)
qed

lemma approve_proof_tx_sys:
  assumes "sys_ok s" and run: "approve_proof_tx e actor i inp note s = Inr s'"
  shows "sys_ok s' \<and> evolves s s'"
proof -
  have ok: "db_ok s" "funds_ok s" "unique_live s" "free_unique s" using assms(1) by (simp_all add: sys_ok_def)
  obtain t s4 oid where t: "registrations t = registrations s" "free_signups t = free_signups s" "orders t = orders s" "db_ok t"
    and cp: "confirm_paid e oid (ap_received_at inp) t = Inr s4" "core s' = core s4"
  proof (rule approve_proof_tx_Inr [OF run])
    fix p r ps rs xs s4
    let ?t = "s\<lparr>proofs := ps, receipts := rs, exceptions := xs\<rparr>"
    assume cp: "confirm_paid e (ro_id r) (ap_received_at inp) ?t = Inr s4" "core s' = core s4"
    have "db_ok ?t" using ok(1) by (subst db_ok_cong [of _ s]) simp_all
    then show thesis by (intro that [OF _ _ _ _ cp]) simp_all
  qed
  note c = confirm_paid_orders [OF t(4) cp(1)]
  have "evolves t s4"
    by (rule evolves_update [OF c(3)]) (auto simp: payable_def pay_row_def same_terms_def can_become_def open_status_def)
  then have "evolves s s'" using t(3) coreD(6) [OF cp(2)] by (simp add: evolves_def)
  moreover have "unique_live s4" using confirm_paid_unique [OF t(4) _ cp(1)] ok(3) unique_live_cong [OF t(1)] by simp
  then have "unique_live s'" using unique_live_cong [OF coreD(8) [OF cp(2)]] by simp
  moreover have "free_signups s' = free_signups s"
    using coreD(9) [OF cp(2)] c(1) t(2) by (simp add: paid_db_def settled_def with_orders_def)
  ultimately show ?thesis
    using approve_proof_tx_ok [OF ok(1) run] approve_proof_tx_funds [OF ok(1,2) run] ok(4) by (simp add: sys_ok_def free_unique_def)
qed

lemma create_order_tx_sys:
  assumes ok: "db_ok s" and "create_order_tx e u ev inp s = Inr (d, s')"
  shows "free_signups s' = free_signups s \<and> evolves s s'"
proof -
  from assms(2) obtain q parts row ps rs s5 where
    P: "placed q row ps rs s s5" and "resolve_participants e u s inp = Inr parts"
      "check_already_registered (ev_id ev) parts s = Inr ()"
      "map rg_id_hash rs = take (length rs) (map rv_hash parts)" "\<forall>r\<in>set rs. rg_event r = ev_id ev"
    and "idem_keys s5 = idem_keys s" "events s5 = events s"
    and "proofs s5 = proofs s" "receipts s5 = receipts s" "exceptions s5 = exceptions s" and st: "ro_status row = PendingPayment"
    and fin: "ro_amount row \<noteq> 0 \<and> (\<exists>a. s' = audit_record a s5)
      \<or> (\<exists>a b t. confirm_paid e (ro_id row) (e_now e) (audit_record a s5) = Inr t \<and> s' = audit_record b t)"
    by (rule create_order_tx_placed [OF ok])
  have os: "orders s5 = orders s @ [row]" and fs: "free_signups s5 = free_signups s" using P by (simp_all add: placed_def)
  from fin show ?thesis
  proof (elim disjE exE conjE)
    fix a assume "s' = audit_record a s5"
    then show ?thesis using fs evolves_append [of s' s "[row]"] os by (simp add: audit_record_def)
  next
    fix a b t assume t: "confirm_paid e (ro_id row) (e_now e) (audit_record a s5) = Inr t" and s': "s' = audit_record b t"
    have k: "db_ok (audit_record a s5)" using placed_ok [OF ok P] by simp
    note cp = confirm_paid_orders [OF k t]
    have "evolves (audit_record a s5) t"
      by (rule evolves_update [OF cp(3)]) (auto simp: payable_def pay_row_def same_terms_def can_become_def open_status_def)
    moreover have "evolves s (audit_record a s5)" using os by (intro evolves_append [of _ _ "[row]"]) (simp add: audit_record_def)
    moreover have "evolves t s'" unfolding s' by (rule evolves_refl) (simp add: audit_record_def)
    ultimately have "evolves s s'" using evolves_trans by blast
    moreover have "free_signups s' = free_signups s"
      using fs unfolding s' cp(1) by (simp add: paid_db_def settled_def with_orders_def audit_record_def)
    ultimately show ?thesis by simp
  qed
qed


lemma create_order_sys:
  assumes "sys_ok s" and run: "create_order e digest u inp s = Inr (d, s')"
  shows "sys_ok s' \<and> evolves s s'"
proof -
  have ok: "db_ok s" "funds_ok s" "unique_live s" "free_unique s" using assms(1) by (simp_all add: sys_ok_def)
  from run obtain norm ev where "normalize_create_input e inp = Inr norm"
    "List.find (\<lambda>ev. ev_slug ev = in_slug norm) (events s) = Some ev" and
    C: "claim_idempotency_key (subject_of u) (in_key norm) (digest (request_payload e norm)) (e_now e) s = Inr (Some d, s')
     \<or> (\<exists>s1 s2. claim_idempotency_key (subject_of u) (in_key norm) (digest (request_payload e norm)) (e_now e) s = Inr (None, s1)
          \<and> create_order_tx e u ev norm s1 = Inr (d, s2)
          \<and> s' = save_idempotency_response (subject_of u) (in_key norm) (to_api_order d) s2)" by (rule create_order_Inr)
  have claim: "free_signups s1 = free_signups s \<and> orders s1 = orders s" if "claim_idempotency_key sub key h now s = Inr (x, s1)" for sub key h now x s1
    using that unfolding claim_idempotency_key_def by (auto split: option.splits if_splits)
  from C have "free_signups s' = free_signups s \<and> evolves s s'"
  proof (elim disjE exE conjE)
    assume "claim_idempotency_key (subject_of u) (in_key norm) (digest (request_payload e norm)) (e_now e) s = Inr (Some d, s')"
    from claim [OF this] show ?thesis by (simp add: evolves_refl)
  next
    fix s1 s2 assume c: "claim_idempotency_key (subject_of u) (in_key norm) (digest (request_payload e norm)) (e_now e) s = Inr (None, s1)"
      and t: "create_order_tx e u ev norm s1 = Inr (d, s2)"
      and s': "s' = save_idempotency_response (subject_of u) (in_key norm) (to_api_order d) s2"
    have "db_ok s1" using claim_idempotency_key_ok(1) [OF c] ok(1) by simp
    from create_order_tx_sys [OF this t] claim [OF c] have "free_signups s2 = free_signups s" "evolves s1 s2" by simp_all
    moreover have "evolves s s1" by (rule evolves_refl) (simp add: claim [OF c])
    moreover have "evolves s2 s'" "free_signups s' = free_signups s2"
      by (simp_all add: s' save_idempotency_response_def evolves_refl)
    ultimately show ?thesis using evolves_trans by metis
  qed
  then show ?thesis
    using create_order_ok [OF ok(1) run] create_order_funds [OF ok(1,2) run] create_order_unique [OF ok(1,3) run] ok(4)
    by (simp add: sys_ok_def free_unique_def)
qed

lemma create_free_signup_sys:
  assumes "sys_ok s" and run: "create_free_signup e u slug inp s = Inr (out, s')"
  shows "sys_ok s' \<and> evolves s s'"
proof -
  have ok: "db_ok s" "funds_ok s" "unique_live s" "free_unique s" using assms(1) by (simp_all add: sys_ok_def)
  have t: "orders s' = orders s" "proofs s' = proofs s" "receipts s' = receipts s" "exceptions s' = exceptions s"
    by (rule create_free_signup_Inr [OF run]; elim exE; simp)+
  have "funds_ok s' = funds_ok s" by (rule funds_ok_cong) (simp_all only: t)
  then show ?thesis
    using create_free_signup_ok [OF ok(1) run] create_free_signup_unique [OF ok(4) run] ok evolves_refl [OF t(1)]
    by (simp add: sys_ok_def)
qed

text \<open>The back office: price rules, coupons and categories change, orders do not.\<close>

lemma office_sys:
  assumes "sys_ok s" and "db_ok s'" and t: "orders s' = orders s" "proofs s' = proofs s" "receipts s' = receipts s"
    "exceptions s' = exceptions s" "registrations s' = registrations s" "free_signups s' = free_signups s"
  shows "sys_ok s' \<and> evolves s s'"
proof -
  have "funds_ok s' = funds_ok s" by (rule funds_ok_cong) (simp_all only: t)
  moreover have "unique_live s' = unique_live s" by (rule unique_live_cong) (simp only: t)
  ultimately show ?thesis using assms(1,2) evolves_refl [OF t(1)] by (simp add: sys_ok_def free_unique_def t(6))
qed

lemma create_price_rule_sys:
  assumes "sys_ok s" and run: "create_price_rule actor ev inp s = Inr (rule, s')"
  shows "sys_ok s' \<and> evolves s s'"
proof -
  have "db_ok s'" using create_price_rule_ok [OF _ run] assms(1) by (simp add: sys_ok_def)
  with assms(1) show ?thesis by (rule office_sys) (rule create_price_rule_Inr [OF run], simp add: audit_record_def)+
qed

lemma update_price_rule_sys:
  assumes "sys_ok s" and run: "update_price_rule actor i inp s = Inr (rule, s')"
  shows "sys_ok s' \<and> evolves s s'"
proof -
  have "db_ok s'" using update_price_rule_ok [OF _ run] assms(1) by (simp add: sys_ok_def)
  with assms(1) show ?thesis by (rule office_sys) (rule update_price_rule_Inr [OF run], simp add: audit_record_def)+
qed

lemma create_coupon_sys:
  assumes "sys_ok s" and run: "create_coupon e actor inp s = Inr (c, s')"
  shows "sys_ok s' \<and> evolves s s'"
proof -
  have "db_ok s'" using create_coupon_ok [OF _ run] assms(1) by (simp add: sys_ok_def)
  with assms(1) show ?thesis by (rule office_sys) (rule create_coupon_Inr [OF run], simp add: audit_record_def)+
qed

lemma update_coupon_sys:
  assumes "sys_ok s" and run: "update_coupon actor i inp s = Inr (c, s')"
  shows "sys_ok s' \<and> evolves s s'"
proof -
  have "db_ok s'" using update_coupon_ok [OF _ run] assms(1) by (simp add: sys_ok_def)
  with assms(1) show ?thesis by (rule office_sys) (rule update_coupon_Inr [OF run], simp add: audit_record_def)+
qed

lemma insert_categories_frame:
  "foldE (insert_category_step ev) cs (rows, s) = Inr (rows', s') \<Longrightarrow> \<exists>t. s' = s\<lparr>categories := t\<rparr>"
proof (induction cs arbitrary: rows s)
  case Nil
  then have "s' = s\<lparr>categories := categories s\<rparr>" by simp
  then show ?case by blast
next
  case (Cons c cs)
  from Cons.prems(1) obtain y where st: "insert_category_step ev c (rows, s) = Inr y" and rest: "foldE (insert_category_step ev) cs y = Inr (rows', s')"
    unfolding foldE.simps by (rule bindE_InrE)
  obtain rows1 s1 where y: "y = (rows1, s1)" by (cases y)
  obtain row where "insert_category ev c s = Inr (row, s1)" by (rule insert_category_step_Inr [OF st [unfolded y]])
  note I = insert_category_Inr(1) [OF this]
  from Cons.IH [OF rest [unfolded y]] obtain t where "s' = s1\<lparr>categories := t\<rparr>" by blast
  with I have "s' = s\<lparr>categories := t\<rparr>" by simp
  then show ?case by blast
qed

lemma create_event_sys:
  assumes "sys_ok s" and run: "create_event actor inp s = Inr (v, s')"
  shows "sys_ok s' \<and> evolves s s'"
proof -
  have ok': "db_ok s'" using create_event_ok [OF _ run] assms(1) by (simp add: sys_ok_def)
  obtain row s2 a where f: "foldE (insert_category_step (ev_id row)) (enumerate 0 (ei_categories inp)) ([], s\<lparr>events := events s @ [row]\<rparr>) = Inr (vw_categories v, s2)"
    and s': "s' = audit_record a s2" by (rule create_event_Inr [OF run])
  from insert_categories_frame [OF f] obtain t where s2: "s2 = s\<lparr>events := events s @ [row], categories := t\<rparr>" by blast
  from assms(1) ok' show ?thesis by (rule office_sys) (simp_all add: s' s2 audit_record_def)
qed

lemma publish_event_books: "publish_event e actor i s = Inr (v, s') \<Longrightarrow> books s' = books s"
  by (erule publish_event_Inr) (simp add: books_def audit_record_def)

lemma update_registration_books: "update_registration actor i inp s = Inr (v, s') \<Longrightarrow> books s' = books s"
  by (erule update_registration_Inr) (simp add: books_def audit_record_def)

lemma qr_record_books: "qr_record key img actor s = Inr (i, s') \<Longrightarrow> books s' = books s"
  unfolding qr_record_def by (erule insert_file_Inr) (simp add: books_def)

lemma create_account_tx_books:
  assumes run: "create_account_tx e actor inp key img s = Inr (v, s')"
  shows "books s' = books s"
proof -
  obtain fid s1 row s2 where q: "qr_record key img actor s = Inr (fid, s1)" and i: "insert_payment_account e inp fid s1 = Inr (row, s2)"
    and s': "s' = audit_record (account_entry actor ''payment_account.create'' row) s2"
    using run unfolding create_account_tx_def by (simp only: Inr_chain fst_conv snd_conv sum.inject prod.inject) (elim exE conjE, rule that, assumption+, simp)
  have "books s2 = books s1"
    using i unfolding insert_payment_account_def Let_def by (auto simp: bindE_Inr_iff books_def)
  with qr_record_books [OF q] show ?thesis by (simp add: s' books_def audit_record_def)
qed

lemma update_account_tx_books:
  assumes run: "update_account_tx actor i inp qr s = Inr (v, s')"
  shows "books s' = books s"
proof -
  obtain row where f: "List.find (\<lambda>a. pa_id a = i) (accounts s) = Some row"
    using run by (cases "List.find (\<lambda>a. pa_id a = i) (accounts s)") (simp_all add: update_account_tx_def)
  obtain fid s1 row' s2 where q: "(case qr of None \<Rightarrow> Inr (pa_qr_file row, s) | Some a \<Rightarrow> qr_record (fst a) (snd a) actor s) = Inr (fid, s1)"
    and i: "update_payment_account row inp fid s1 = Inr (row', s2)"
    and s': "s' = audit_record (account_entry actor ''payment_account.update'' row') s2"
    using run unfolding update_account_tx_def f option.case by (simp only: Inr_chain fst_conv snd_conv sum.inject prod.inject) (elim exE conjE, rule that, assumption+, simp)
  have "books s1 = books s" using q qr_record_books by (auto split: option.splits)
  moreover have "books s2 = books s1"
    using i unfolding update_payment_account_def by (auto simp: bindE_Inr_iff books_def)
  ultimately show ?thesis by (simp add: s' books_def audit_record_def)
qed

lemma create_profile_books:
  assumes "create_profile e u p is_self s = Inr (v, s')"
  shows "books s' = books s"
  using assms unfolding create_profile_def insert_profile_def Let_def by (auto simp: bindE_Inr_iff books_def)

lemma update_profile_books:
  assumes "update_profile e u i p is_self s = Inr (v, s')"
  shows "books s' = books s"
  using assms unfolding update_profile_def Let_def by (auto simp: bindE_Inr_iff books_def split: option.splits)

lemma delete_profile_books:
  assumes "delete_profile u i s = Inr s'"
  shows "books s' = books s"
  using assms unfolding delete_profile_def by (auto simp: bindE_Inr_iff books_def)

lemma publish_consent_books:
  assumes "publish_consent sha inp s = Inr s'"
  shows "books s' = books s"
  using assms unfolding publish_consent_def by (auto simp: bindE_Inr_iff books_def audit_record_def split: if_splits)

lemma send_work_books:
  assumes "send_work e i attempt max_tries result s = (out, s')"
  shows "books s' = books s"
  using assms unfolding send_work_def Let_def mark_notification_sent_def mark_attempt_failed_def
  by (auto simp: books_def split: option.splits send_result.splits if_splits)

section \<open>Steps of the service\<close>

text \<open>
  One transition per operation that commits.  An operation that fails rolls its
  transaction back, so it is no step.  Requests carry their own environment: the clock
  and the random bytes differ from one to the next.
\<close>

inductive step :: "db \<Rightarrow> db \<Rightarrow> bool" where
  placing: "create_order e digest u inp s = Inr (d, s') \<Longrightarrow> step s s'"
| cancelling: "cancel_order e u no s = Inr (d, s') \<Longrightarrow> step s s'"
| submitting: "submit_proof e u no sub s k = (Inr (v, s'), k') \<Longrightarrow> step s s'"
| approving: "approve_proof e actor i app_in s = Inr (x, s') \<Longrightarrow> step s s'"
| rejecting: "reject_proof e actor i rej_in s = Inr (x, s') \<Longrightarrow> step s s'"
| deadlines: "deadline_work e s = (report, n, s') \<Longrightarrow> step s s'"
| sending: "send_work e i attempt max_tries result s = (outcome, s') \<Longrightarrow> step s s'"
| signing_up: "create_free_signup e u slug free_in s = Inr (f, s') \<Longrightarrow> step s s'"
| new_rule: "create_price_rule actor ev rule_in s = Inr (rule, s') \<Longrightarrow> step s s'"
| edit_rule: "update_price_rule actor i rule_in s = Inr (rule, s') \<Longrightarrow> step s s'"
| new_coupon: "create_coupon e actor coupon_in s = Inr (c, s') \<Longrightarrow> step s s'"
| edit_coupon: "update_coupon actor i coupon_in s = Inr (c, s') \<Longrightarrow> step s s'"
| new_event: "create_event actor event_in s = Inr (view, s') \<Longrightarrow> step s s'"
| publishing: "publish_event e actor i s = Inr (view, s') \<Longrightarrow> step s s'"
| opening_up: "update_registration actor i reg_in s = Inr (view, s') \<Longrightarrow> step s s'"
| new_account: "create_account e actor acc_in qr s k = (Inr (acc, s'), k') \<Longrightarrow> step s s'"
| edit_account: "update_account e actor i acc_in qr s k = (Inr (acc, s'), k') \<Longrightarrow> step s s'"
| new_profile: "create_profile e u p is_self s = Inr (pv, s') \<Longrightarrow> step s s'"
| edit_profile: "update_profile e u i p is_self s = Inr (pv, s') \<Longrightarrow> step s s'"
| drop_profile: "delete_profile u i s = Inr s' \<Longrightarrow> step s s'"
| new_consent: "publish_consent sha con_in s = Inr s' \<Longrightarrow> step s s'"
| signing_in: "step s (s\<lparr>users := us, audit_logs := log\<rparr>)"

inductive_cases stepE: "step s s'"

lemma with_stored_file_Inr:
  assumes "with_stored_file e key v run d = (Inr x, d')"
  shows "run = Inr x"
  using assms unfolding with_stored_file_eq by (rule disk_store.stored_Inr)

lemma submit_proof_Inr:
  assumes "submit_proof e u no inp s d = (Inr (v, s'), d')"
  obtains key img where "submit_proof_tx e u no key img inp s = Inr (v, s')"
proof -
  from assms obtain up where up: "sb_file inp = Some up" by (cases "sb_file inp") (simp_all add: submit_proof_def)
  from assms obtain img where img: "read_image e max_proof_bytes up = Inr img"
    using up by (cases "read_image e max_proof_bytes up") (simp_all add: submit_proof_def)
  from assms have "with_stored_file e (new_key e [6] (im_ext img)) (im_data img)
      (submit_proof_tx e u no (new_key e [6] (im_ext img)) img inp s) d = (Inr (v, s'), d')"
    by (simp add: submit_proof_def up img Let_def)
  from with_stored_file_Inr [OF this] show thesis by (rule that)
qed

lemma approve_proof_Inr:
  assumes "approve_proof e actor i inp s = Inr (x, s')"
  shows "approve_proof_tx e actor i inp (trim_optional (ap_note inp)) s = Inr s'"
  using assms by (auto simp: approve_proof_def Let_def bindE_Inr_iff)

lemma reject_proof_Inr:
  assumes "reject_proof e actor i inp s = Inr (x, s')"
  obtains code reason where "reject_proof_tx e actor i code reason s = Inr s'"
  using assms by (auto simp: reject_proof_def Let_def bindE_Inr_iff)

lemma create_account_books:
  assumes run: "create_account e actor inp qr s k = (Inr (acc, s'), k')"
  shows "books s' = books s"
proof -
  let ?inp = "normalize_account inp"
  have "validate_account ?inp (qr = None) = Inr ()" using run by (cases "validate_account ?inp (qr = None)") (simp_all add: create_account_def Let_def)
  moreover from this run obtain up where up: "qr = Some up" by (cases qr) (simp_all add: create_account_def Let_def)
  moreover from calculation run obtain img where img: "read_image e max_qr_bytes up = Inr img"
    by (cases "read_image e max_qr_bytes up") (simp_all add: create_account_def Let_def)
  ultimately have "with_stored_file e (new_key e [8] (im_ext img)) (im_data img)
      (create_account_tx e actor ?inp (new_key e [8] (im_ext img)) img s) k = (Inr (acc, s'), k')"
    using run by (simp add: create_account_def Let_def)
  from with_stored_file_Inr [OF this] show ?thesis by (rule create_account_tx_books)
qed

lemma update_account_books:
  assumes run: "update_account e actor i inp qr s k = (Inr (acc, s'), k')"
  shows "books s' = books s"
proof -
  let ?inp = "normalize_account inp"
  have v: "validate_account ?inp False = Inr ()" using run by (cases "validate_account ?inp False") (simp_all add: update_account_def Let_def)
  show ?thesis
  proof (cases qr)
    case None
    with v run have "update_account_tx actor i ?inp None s = Inr (acc, s')" by (simp add: update_account_def Let_def)
    then show ?thesis by (rule update_account_tx_books)
  next
    case (Some up)
    with v run obtain img where img: "read_image e max_qr_bytes up = Inr img"
      by (cases "read_image e max_qr_bytes up") (simp_all add: update_account_def Let_def)
    with v run Some have "with_stored_file e (new_key e [8] (im_ext img)) (im_data img)
        (update_account_tx actor i ?inp (Some (new_key e [8] (im_ext img), img)) s) k = (Inr (acc, s'), k')"
      by (simp add: update_account_def Let_def)
    from with_stored_file_Inr [OF this] show ?thesis by (rule update_account_tx_books)
  qed
qed

lemmas op_books = publish_event_books update_registration_books create_account_books update_account_books create_profile_books
  update_profile_books delete_profile_books publish_consent_books send_work_books

lemmas op_sys = create_order_sys cancel_order_sys deadline_work_sys create_free_signup_sys create_price_rule_sys update_price_rule_sys
  create_coupon_sys update_coupon_sys create_event_sys op_books [THEN books_ok] approve_proof_tx_sys [OF _ approve_proof_Inr]

lemma step_sys:
  assumes "step s s'" and "sys_ok s"
  shows "sys_ok s' \<and> evolves s s'"
  using assms
proof (induction rule: step.induct)
  case (submitting e u no sub s k v s' k')
  then show ?case using submit_proof_Inr submit_proof_tx_sys by metis
next
  case (rejecting e actor i rej_in s x s')
  then show ?case using reject_proof_Inr reject_proof_tx_sys by metis
next
  case (signing_in s us log)
  then show ?case by (intro books_ok) (simp_all add: books_def)
qed (erule (1) op_sys)+

section \<open>Reachable states\<close>

text \<open>A service that has sold nothing yet: no orders or sign-ups, all counters at zero.\<close>

definition start :: "db \<Rightarrow> bool" where
  "start s \<longleftrightarrow> orders s = [] \<and> participants s = [] \<and> registrations s = [] \<and> free_signups s = [] \<and> redemptions s = []
     \<and> proofs s = [] \<and> receipts s = [] \<and> exceptions s = [] \<and> counter_keys s
     \<and> (\<forall>c\<in>set (categories s). ec_used c = 0 \<and> ec_reserved c = 0 \<and> 0 \<le> ec_capacity c)
     \<and> (\<forall>r\<in>set (price_rules s). pr_used r = 0 \<and> pr_reserved r = 0 \<and> (\<forall>q. pr_quota r = Some q \<longrightarrow> 0 \<le> q))
     \<and> (\<forall>c\<in>set (coupons s). cp_used c = 0 \<and> cp_reserved c = 0 \<and> 0 \<le> cp_quota c)"

inductive reachable :: "db \<Rightarrow> bool" where
  started: "start s \<Longrightarrow> reachable s"
| stepped: "reachable s \<Longrightarrow> step s s' \<Longrightarrow> reachable s'"

lemma start_ok: "start s \<Longrightarrow> sys_ok s"
  by (auto simp: start_def sys_ok_def db_ok_def ok_defs funds_ok_def unique_live_def free_unique_def free_seats_def
      cat_row.agree_def rule_row.agree_def coupon_row.agree_def cat.fits_def rule.fits_def coupon.fits_def split: option.splits)

lemma reachable_ok: "reachable s \<Longrightarrow> sys_ok s"
  by (induction rule: reachable.induct) (use start_ok step_sys in blast)+

lemma steps_evolve:
  assumes "step\<^sup>*\<^sup>* s s'" and "sys_ok s"
  shows "sys_ok s' \<and> evolves s s'"
  using assms
proof (induction rule: rtranclp_induct)
  case base
  then show ?case by (simp add: evolves_refl)
next
  case (step t u)
  then show ?case using step_sys evolves_trans by blast
qed

lemma sample_start: "start sample_db"
  by (simp add: start_def sample_defs empty_db_def counter_keys_def)

lemma sample_reachable: "reachable sample_placed" "reachable sample_submitted" "reachable sample_approved"
proof -
  show p: "reachable sample_placed"
    by (rule stepped [OF started [OF sample_start] placing [OF sample_placing_runs]])
  show s: "reachable sample_submitted" by (rule stepped [OF p submitting [OF sample_submission_runs]])
  show "reachable sample_approved" by (rule stepped [OF s approving [OF sample_approval_runs]])
qed

end
