(* ===== verification/Guarantees.thy ===== *)
theory Guarantees
  imports Lifecycle AdminOrders
begin

text \<open>
  What single components promise, stated over their operations: the counter
  statements against the abstract ledger, idempotent orders, profiles,
  consents, the order search, notifications, deadlines and free sign-ups.
\<close>

section \<open>The counter statements against their specification\<close>

text \<open>C10: \<open>Reserve\<close> is all or nothing, and exactly a debit on an abstract ledger: it succeeds if and only if every category,
  price rule and coupon of the quote has room for all its seats together, and then adds precisely these seats to the reserved counters.\<close>

theorem reserve_refines_ledger:
  assumes "counter_keys s"
  shows "reserve q s = Inr s' \<longleftrightarrow> has_room q s \<and> s' = reserved_db q s"
  using assms by (rule reserve_iff)

definition sample_quote :: quote where
  "sample_quote =
     (let line = \<lparr>pq_category = 1, pq_rule = 1, pq_audience = ''ALL'', pq_list = 2500, pq_paid = 2500\<rparr>
      in \<lparr>q_participants = [line, line], q_list = 5000, q_coupon = Some 1, q_coupon_discount = 0, q_ident = 0,
          q_discount = 0, q_amount = 5000, q_currency = ''USD''\<rparr>)"

lemma reserve_refines_ledger_witness:
  "map ec_reserved (categories (reserved_db sample_quote sample_db)) = [2, 0] \<and> has_room sample_quote sample_db"
proof -
  have k: "counter_keys sample_db" by code_simp
  have "\<not> isl (reserve sample_quote sample_db)" by code_simp
  then have "reserve sample_quote sample_db = Inr (projr (reserve sample_quote sample_db))" by simp
  moreover have "map ec_reserved (categories (projr (reserve sample_quote sample_db))) = [2, 0]" by code_simp
  ultimately show ?thesis using reserve_refines_ledger [OF k] by metis
qed

text \<open>C11: Consuming or releasing an order moves exactly the seats of its participants and its reserved coupon use, and
  fails, changing nothing, if and only if a counter would go below zero.\<close>

theorem move_counters_refines_ledger:
  assumes "counter_keys s"
  shows "move_counters c i s = Inr s' \<longleftrightarrow> enough i s \<and> s' = moved c i s"
  using assms by (rule move_counters_iff)

lemma move_counters_refines_ledger_witness:
  "enough 1 sample_placed"
proof -
  have k: "counter_keys sample_placed" by code_simp
  have "\<not> isl (move_counters True 1 sample_placed)" by code_simp
  then have "move_counters True 1 sample_placed = Inr (projr (move_counters True 1 sample_placed))" by simp
  with move_counters_refines_ledger [OF k] show ?thesis by blast
qed


section \<open>Retries of an order\<close>

text \<open>C8: An order request is executed once per idempotency key: within its lifetime a retry, whatever happened in
  between, returns the recorded response and changes nothing, and another request under the same key is refused.\<close>

theorem create_order_idempotent:
  assumes "reachable s" and "create_order e digest u inp s = Inr (d, s')"
    and "normalize_create_input e inp = Inr norm" and "key_free u (in_key norm) (e_now e) s"
    and "List.find (idem_match (subject_of u) (in_key norm)) (idem_keys s'')
        = List.find (idem_match (subject_of u) (in_key norm)) (idem_keys s')"
    and "normalize_create_input e' inp' = Inr norm'" and "in_key norm' = in_key norm"
    and "in_slug norm' \<in> ev_slug ` set (events s'')" and "e_now e' < e_now e + idempotency_ttl"
  shows "create_order e' digest u inp' s'' =
     (if digest (request_payload e' norm') = digest (request_payload e norm)
      then Inr (order_detail_from_api (to_api_order d), s'') else Inl (app 422 CodeIdempotencyKeyReused))"
  using reachable_ok [OF assms(1)] assms(2-) by (intro create_order_replay) (simp_all add: sys_ok_def)

lemma create_order_idempotent_witness:
  "create_order sample_env in_key 1 sample_create sample_placed
     = Inr (order_detail_from_api (to_api_order (fst sample_placing)), sample_placed)"
proof -
  have "\<not> isl (normalize_create_input sample_env sample_create)" by code_simp
  then obtain norm where n: "normalize_create_input sample_env sample_create = Inr norm" by (cases "normalize_create_input sample_env sample_create") auto
  have "in_slug (projr (normalize_create_input sample_env sample_create)) \<in> ev_slug ` set (events sample_placed)" by code_simp
  then have ev: "in_slug norm \<in> ev_slug ` set (events sample_placed)" by (simp add: n)
  have free: "key_free 1 (in_key norm) (e_now sample_env) sample_db" by (simp add: key_free_def sample_db_def empty_db_def)
  have ttl: "e_now sample_env < e_now sample_env + idempotency_ttl" by code_simp
  show ?thesis
    using create_order_idempotent [OF started [OF sample_start] sample_placing_runs n free refl n refl ev ttl] by simp
qed

section \<open>Profiles\<close>

definition profiles_ok :: "db \<Rightarrow> bool" where
  "profiles_ok s \<longleftrightarrow> one_self s \<and> distinct (map rp_id (profiles s)) \<and> (\<forall>r\<in>set (profiles s). 0 < rp_id r)"

lemma clear_self_ids [simp]: "map rp_id (clear_self_profiles u i t) = map rp_id t"
  by (simp add: clear_self_profiles_def map_update_where)

lemma ids_pos: "map rp_id t = map rp_id t' \<Longrightarrow> (\<forall>r\<in>set t. 0 < rp_id r) \<longleftrightarrow> (\<forall>r\<in>set t'. 0 < rp_id r)"
  unfolding list_all_iff [symmetric] by (metis (mono_tags, lifting) list.pred_map comp_def list.pred_cong list_all_iff)

lemma insert_profile_ok:
  assumes "insert_profile e path u p b s = Inr (row, s')" and "profiles_ok s"
  shows "profiles_ok s'"
proof -
  from assms(1) obtain t where t: "t = (if b then clear_self_profiles u 0 (profiles s) else profiles s)"
    and s': "s' = s\<lparr>profiles := t @ [row]\<rparr>" and row: "rp_id row = next_id rp_id t"
    by (auto simp: insert_profile_def Let_def errE blank_profile_def split: if_splits)
  have ids: "map rp_id t = map rp_id (profiles s)" unfolding t by simp
  have "rp_id row \<notin> rp_id ` set t" "0 < rp_id row" unfolding row by (rule next_id_fresh, rule next_id_pos)
  moreover have "one_self s'" using insert_profile_one_self [OF assms(1)] assms(2) by (simp add: profiles_ok_def)
  moreover have "distinct (map rp_id t)" "\<forall>r\<in>set t. 0 < rp_id r"
    using assms(2) ids_pos [OF ids] by (simp_all add: profiles_ok_def ids)
  ultimately show ?thesis by (auto simp: profiles_ok_def s')
qed

text \<open>C13: The profiles of the runners keep distinct ids and every runner has at most one profile that is their own,
  whichever profiles are created, edited or deleted.\<close>

theorem one_own_profile:
  assumes "profiles_ok s"
  shows "(create_profile e u p b s = Inr (v, s') \<longrightarrow> profiles_ok s')
    \<and> (update_profile e u i p b s = Inr (v, s') \<longrightarrow> profiles_ok s')
    \<and> (delete_profile u i s = Inr s' \<longrightarrow> profiles_ok s')"
proof (intro conjI impI)
  assume "create_profile e u p b s = Inr (v, s')"
  then obtain path q row where "insert_profile e path u q b s = Inr (row, s')"
    by (auto simp: create_profile_def Let_def bindE_Inr_iff)
  then show "profiles_ok s'" using assms by (rule insert_profile_ok)
next
  assume run: "update_profile e u i p b s = Inr (v, s')"
  from run obtain enc hash p' where s': "s' = s\<lparr>profiles :=
        update_where (\<lambda>r. rp_id r = i \<and> rp_user r = u) (fill_profile p' enc hash b)
          (if b then clear_self_profiles u i (profiles s) else profiles s)\<rparr>"
    by (auto simp: update_profile_def Let_def errE split: option.splits)
  have ids: "map rp_id (profiles s') = map rp_id (profiles s)" by (simp add: s' map_update_where)
  have "one_self s'" using update_profile_one_self [OF run] assms by (simp add: profiles_ok_def)
  with assms ids_pos [OF ids] ids show "profiles_ok s'" by (simp add: profiles_ok_def)
next
  assume run: "delete_profile u i s = Inr s'"
  then have s': "s' = s\<lparr>profiles := filter (\<lambda>r. \<not> (rp_id r = i \<and> rp_user r = u)) (profiles s)\<rparr>"
    by (auto simp: delete_profile_def errE)
  have "distinct (map rp_id (filter P t))" if "distinct (map rp_id t)" for P and t :: "profile_row list"
    using that by (rule distinct_map_filter)
  with assms delete_profile_one_self [OF run] show "profiles_ok s'" by (simp add: profiles_ok_def s')
qed

definition sample_own :: "(profile_view \<times> db) res" where
  "sample_own = bindE (create_profile sample_env 1 (sample_profile ''Dara'') True sample_db)
     (\<lambda>(_, s). create_profile sample_env 1 (sample_profile ''Sophea'') True s)"

lemma one_own_profile_witness: "profiles_ok (snd (projr sample_own)) \<and> map rp_self (profiles (snd (projr sample_own))) = [False, True]"
proof -
  let ?one = "create_profile sample_env 1 (sample_profile ''Dara'') True sample_db"
  have ok: "profiles_ok sample_db" by (simp add: profiles_ok_def one_self_def self_count_def sample_db_def empty_db_def)
  have "\<not> isl ?one" by code_simp
  then obtain v s where one: "?one = Inr (v, s)" by (cases ?one) auto
  have "\<not> isl sample_own" by code_simp
  then obtain v' s' where two: "create_profile sample_env 1 (sample_profile ''Sophea'') True s = Inr (v', s')"
    by (cases "create_profile sample_env 1 (sample_profile ''Sophea'') True s") (auto simp: sample_own_def one)
  from one_own_profile [OF ok] one have "profiles_ok s" by blast
  from one_own_profile [OF this] two have "profiles_ok s'" by blast
  moreover have "map rp_self (profiles (snd (projr sample_own))) = [False, True]" by code_simp
  ultimately show ?thesis by (simp add: sample_own_def one two)
qed

section \<open>Consents\<close>

text \<open>C14: A consent is signed only by ticking exactly the items of the accepted registration version, each once and in
  any order; the signature records them in the version's order, with its text hash, for one order or one sign-up.\<close>

theorem signature_is_complete:
  assumes "sign_consent e u acc link s = Inr s'" and "\<forall>c\<in>set (consents s). distinct (map ci_key (cv_items c))"
  shows "\<exists>c\<in>set (consents s). cv_version c = ca_version acc \<and> cv_lang c = ca_lang acc \<and> cv_purpose c = ''REGISTRATION''
    \<and> mset (ca_checked acc) = mset (map ci_key (cv_items c)) \<and> (ln_order link = None) \<noteq> (ln_free link = None)
    \<and> (\<exists>g. signatures s' = signatures s @ [g] \<and> sg_user g = u \<and> sg_sha g = cv_sha c \<and> sg_checked g = map ci_key (cv_items c)
         \<and> reg_consents s' = reg_consents s @ [\<lparr>rx_signature = sg_id g, rx_order = ln_order link, rx_free = ln_free link\<rparr>])"
proof -
  from sign_consent_Inr [OF assms(1)] obtain c checked where
    c: "c \<in> set (consents s)" "cv_version c = ca_version acc" "cv_lang c = ca_lang acc" "cv_purpose c = ''REGISTRATION''"
    and o': "ordered_checked_items (cv_items c) (ca_checked acc) = Some checked" and l: "(ln_order link = None) \<noteq> (ln_free link = None)"
    and s': "s' = s\<lparr>signatures := signatures s @
                 [\<lparr>sg_id = next_id sg_id (signatures s), sg_version = cv_version c, sg_lang = cv_lang c,
                   sg_sha = cv_sha c, sg_user = u, sg_checked = checked, sg_signed_at = e_now e\<rparr>],
               reg_consents := reg_consents s @
                 [\<lparr>rx_signature = next_id sg_id (signatures s), rx_order = ln_order link,
                   rx_free = ln_free link\<rparr>]\<rparr>" by blast
  from ordered_checked_perm o' c(1) assms(2)
  have "checked = map ci_key (cv_items c)" "mset (ca_checked acc) = mset checked" by blast+
  moreover define g where "g = \<lparr>sg_id = next_id sg_id (signatures s), sg_version = cv_version c, sg_lang = cv_lang c,
      sg_sha = cv_sha c, sg_user = u, sg_checked = checked, sg_signed_at = e_now e\<rparr>"
  then have "signatures s' = signatures s @ [g]" "sg_user g = u" "sg_sha g = cv_sha c" "sg_checked g = checked"
    "reg_consents s' = reg_consents s @ [\<lparr>rx_signature = sg_id g, rx_order = ln_order link, rx_free = ln_free link\<rparr>]"
    by (simp_all add: s')
  ultimately show ?thesis using c l by (intro bexI [of _ c]) auto
qed

definition sample_signing :: db where
  "sample_signing = projr (sign_consent sample_env 1 \<lparr>ca_version = ''v1'', ca_lang = ''en'', ca_checked = [''a'']\<rparr> \<lparr>ln_order = Some 1, ln_free = None\<rparr> sample_db)"

lemma signature_is_complete_witness: "\<exists>g. signatures sample_signing = [g] \<and> sg_user g = 1"
proof -
  have "\<not> isl (sign_consent sample_env 1 \<lparr>ca_version = ''v1'', ca_lang = ''en'', ca_checked = [''a'']\<rparr> \<lparr>ln_order = Some 1, ln_free = None\<rparr> sample_db)"
    by code_simp
  then have "sign_consent sample_env 1 \<lparr>ca_version = ''v1'', ca_lang = ''en'', ca_checked = [''a'']\<rparr> \<lparr>ln_order = Some 1, ln_free = None\<rparr> sample_db
      = Inr sample_signing" by (simp add: sample_signing_def)
  moreover have "\<forall>c\<in>set (consents sample_db). distinct (map ci_key (cv_items c))" by (simp add: sample_db_def sample_consent_def)
  ultimately have "\<exists>g. signatures sample_signing = signatures sample_db @ [g] \<and> sg_user g = 1"
    using signature_is_complete by blast
  then show ?thesis by (simp add: sample_db_def empty_db_def)
qed

section \<open>The back office search\<close>

text \<open>What a search asks for, in plain terms.\<close>

definition found_by :: "admin_filter \<Rightarrow> order_row \<Rightarrow> bool" where
  "found_by f r \<longleftrightarrow>
     (case af_event f of None \<Rightarrow> True | Some i \<Rightarrow> ro_event r = i)
   \<and> (let st = to_upper (trim_space (af_status f)) in st = [] \<or> status_str (ro_status r) = st)
   \<and> (let q = trim_space (af_query f) in q = [] \<or> ro_no r = to_upper q \<or> sublist q (ro_buyer_phone r)
        \<or> sublist (to_lower q) (to_lower (ro_buyer_name r)))"

text \<open>The foreign key of an order to its event, whose id is a primary key.\<close>

definition order_events :: "db \<Rightarrow> bool" where
  "order_events s \<longleftrightarrow> (\<forall>r\<in>set (orders s). length (filter (\<lambda>ev. ev_id ev = ro_event r) (events s)) = 1)"

definition summarises :: "db \<Rightarrow> order_summary \<Rightarrow> order_row \<Rightarrow> bool" where
  "summarises s o' r \<longleftrightarrow> os_head o' = order_from_row r
     \<and> (\<exists>ev\<in>set (events s). ev_id ev = ro_event r \<and> os_slug o' = ev_slug ev \<and> os_event_name o' = ev_name ev)
     \<and> os_count o' = int (rows_where (\<lambda>p. op_order p = ro_id r) (participants s))"

lemma admin_page:
  assumes "order_events s" and "set rows \<subseteq> set (orders s)"
  shows "list_all2 (summarises s) (concat (map (\<lambda>r. map (\<lambda>e.
         \<lparr>os_head = order_from_row r, os_slug = ev_slug e, os_event_name = ev_name e,
          os_count = int (rows_where (\<lambda>p. op_order p = ro_id r) (participants s))\<rparr>)
        (filter (\<lambda>e. ev_id e = ro_event r) (events s))) rows)) rows"
  using assms(2)
proof (induction rows)
  case (Cons r rows)
  with assms(1) obtain ev where ev: "filter (\<lambda>e. ev_id e = ro_event r) (events s) = [ev]"
    by (auto simp: order_events_def length_Suc_conv)
  then have "ev \<in> set (filter (\<lambda>e. ev_id e = ro_event r) (events s))" by simp
  then have "ev \<in> set (events s)" "ev_id ev = ro_event r" by simp_all
  then have "summarises s \<lparr>os_head = order_from_row r, os_slug = ev_slug ev, os_event_name = ev_name ev,
      os_count = int (rows_where (\<lambda>p. op_order p = ro_id r) (participants s))\<rparr> r" by (auto simp: summarises_def)
  with ev Cons show ?case by simp
qed simp

text \<open>C15: The back office search means what it says: a query finds the orders whose number it is, in any case, or whose
  buyer's phone contains it or buyer's name contains it in any case, with \<open>%\<close>, \<open>_\<close> and backslash as plain characters;
  the total counts the orders found, and the page is the asked part of all of them, newest first, each with its event
  and the number of its participants, twenty when no limit is given and never more than a hundred.\<close>

theorem admin_search_exact:
  assumes "admin_list_orders f s = Inr (page, n)" and "order_events s"
  shows "\<exists>rows. mset rows = mset (filter (found_by f) (orders s)) \<and> n = int (length rows)
    \<and> sorted_wrt (\<lambda>a b. ro_created_at b < ro_created_at a \<or> ro_created_at b = ro_created_at a \<and> ro_id b \<le> ro_id a) rows
    \<and> list_all2 (summarises s) page
        (take (nat (min (if af_limit f \<le> 0 then 20 else af_limit f) 100)) (drop (nat (max (af_offset f) 0)) rows))"
proof -
  let ?st = "to_upper (trim_space (af_status f))" and ?q = "trim_space (af_query f)"
  let ?M = "admin_match (af_event f) ?st ?q (escape_like ?q)" and ?k = "\<lambda>r. (- ro_created_at r, - ro_id r)"
  let ?rows = "sort_key ?k (filter ?M (orders s))"
  have n: "n = admin_count_reg_orders (af_event f) ?st ?q (escape_like ?q) s"
    and p: "page = admin_list_reg_orders (af_event f) ?st ?q (escape_like ?q) (min (if af_limit f \<le> 0 then 20 else af_limit f) 100) (max (af_offset f) 0) s"
    using assms(1) by (simp_all add: admin_list_orders_def Let_def split: if_splits)
  have M: "?M = found_by f" by (simp only: fun_eq_iff found_by_def admin_list_query Let_def simp_thms)
  have "sorted (map ?k ?rows)" by (rule sorted_sort_key)
  then have "sorted_wrt (\<lambda>a b. ?k a \<le> ?k b) ?rows" by (simp only: sorted_wrt_map)
  then have "sorted_wrt (\<lambda>a b. ro_created_at b < ro_created_at a \<or> ro_created_at b = ro_created_at a \<and> ro_id b \<le> ro_id a) ?rows"
    by (rule sorted_wrt_mono_rel [rotated]) (auto simp: less_eq_prod_simp)
  moreover have "list_all2 (summarises s) page
      (take (nat (min (if af_limit f \<le> 0 then 20 else af_limit f) 100)) (drop (nat (max (af_offset f) 0)) ?rows))"
    unfolding p admin_list_reg_orders_def
    by (intro list_all2_takeI list_all2_dropI admin_page [OF assms(2)]) simp
  moreover have "mset ?rows = mset (filter (found_by f) (orders s))" by (simp only: mset_sort M)
  moreover have "n = int (length ?rows)" by (simp add: n admin_count_reg_orders_def rows_where_def)
  ultimately show ?thesis by blast
qed

lemma admin_search_exact_witness:
  "\<exists>o'. admin_list_orders \<lparr>af_event = None, af_status = [], af_query = ''wr0000e1r7'', af_limit = 0, af_offset = 0\<rparr> sample_placed = Inr ([o'], 1)
     \<and> (\<exists>r\<in>set (orders sample_placed). ro_no r = ''WR0000E1R7'' \<and> summarises sample_placed o' r)"
proof -
  obtain q where q: "q = ''wr0000e1r7''" "q \<noteq> []" "trim_space q = q" "to_upper q = ''WR0000E1R7''" and t: "to_upper (trim_space []) = []"
    by (rule that [of "''wr0000e1r7''"]) code_simp+
  let ?f = "\<lparr>af_event = None, af_status = [], af_query = q, af_limit = 0, af_offset = 0\<rparr>"
  obtain page n where run: "admin_list_orders ?f sample_placed = Inr (page, n)"
    by (rule that) (simp add: admin_list_orders_def t Let_def)
  from placed_summary have "map ro_no (orders sample_placed) = [''WR0000E1R7'']"
    by (auto simp: summary_def map_eq_Cons_conv)
  then obtain r where r: "orders sample_placed = [r]" "ro_no r = ''WR0000E1R7''" by (auto simp: map_eq_Cons_conv)
  have "list_all (\<lambda>r. length (filter (\<lambda>ev. ev_id ev = ro_event r) (events sample_placed)) = 1) (orders sample_placed)" by code_simp
  then have fk: "order_events sample_placed" by (simp add: order_events_def list_all_iff)
  have "found_by ?f r" by (simp add: found_by_def t q(2,3,4) r Let_def)
  then have "filter (found_by ?f) (orders sample_placed) = [r]" by (simp add: r(1))
  with admin_search_exact [OF run fk] have n: "n = 1" and "list_all2 (summarises sample_placed) page [r]" by auto
  then obtain o' where "page = [o']" "summarises sample_placed o' r" by (auto simp: list_all2_Cons2)
  with run n r show ?thesis unfolding q(1) by auto
qed

section \<open>Sending notifications\<close>

text \<open>C16: One attempt to send a notification: a message already sent is left alone, a success is recorded as sent, a
  failure counts the attempt, keeps at most the first bytes of the error and ends as failed when the recipient has
  blocked the bot or the attempts are used up, and as pending otherwise; no other message changes.\<close>

theorem send_attempt_recorded:
  assumes "distinct (map nl_id (notify_logs s))" and "l \<in> set (notify_logs s)"
  shows "\<exists>l'\<in>set (notify_logs (snd (send_work e i attempt max_tries r s))). nl_id l' = nl_id l
    \<and> (if nl_id l \<noteq> i \<or> nl_status l = NtSent then l' = l
       else nl_attempts l' = nl_attempts l + 1 \<and>
         (case r of
            SendOk \<Rightarrow> nl_status l' = NtSent \<and> nl_sent_at l' = Some (e_wall_now e) \<and> nl_last_error l' = None
          | SendErr gone msg \<Rightarrow> nl_status l' = (if gone \<or> max_tries \<le> attempt then NtFailed else NtPending)
              \<and> (\<exists>m. nl_last_error l' = Some m \<and> prefix m msg \<and> byte_len m \<le> max_last_error_bytes)))"
proof -
  let ?l' = "if nl_id l = i then attempted e attempt max_tries r l else l"
  have one: "List.find (\<lambda>x. nl_id x = i) (notify_logs s) = Some l" if "nl_id l = i"
    using find_key_unique [OF assms(1,2)] that by simp
  have "?l' \<in> set (notify_logs (snd (send_work e i attempt max_tries r s)))"
  proof (cases "nl_id l = i")
    case True
    with send_work_row [OF assms(1), of i e attempt max_tries r] one
    have "List.find (\<lambda>x. nl_id x = i) (notify_logs (snd (send_work e i attempt max_tries r s))) = Some ?l'" by simp
    from find_Some_key [OF this] show ?thesis by simp
  next
    case False
    have keep: "l \<in> set (update_where (\<lambda>x. nl_id x = i) f (notify_logs s))" for f
      using False assms(2) by (force simp: set_update_where)
    then show ?thesis using False assms(2)
      by (auto simp: send_work_def Let_def mark_notification_sent_def mark_attempt_failed_def split: option.split send_result.split)
  qed
  moreover have "prefix (take_bytes n m) m" for n m
    by (induction n m rule: take_bytes.induct) (auto simp: Let_def)
  ultimately show ?thesis
    by (intro bexI [of _ ?l']) (auto simp: attempted_def byte_len_take_bytes split: send_result.split)
qed

definition sample_log :: log_row where
  "sample_log = \<lparr>nl_id = 1, nl_recipient = ''1001'', nl_template = ''ORDER_PAID'', nl_locale = EN, nl_entity = 1, nl_dedupe = ''paid:1'',
     nl_status = NtPending, nl_attempts = 4, nl_last_error = None, nl_sent_at = None\<rparr>"

lemma send_attempt_recorded_witness:
  "\<exists>l\<in>set (notify_logs (snd (send_work sample_env 1 5 5 (SendErr False ''timeout'') (sample_db\<lparr>notify_logs := [sample_log]\<rparr>)))).
     nl_status l = NtFailed \<and> nl_attempts l = 5"
proof -
  have "distinct (map nl_id (notify_logs (sample_db\<lparr>notify_logs := [sample_log]\<rparr>)))"
    "sample_log \<in> set (notify_logs (sample_db\<lparr>notify_logs := [sample_log]\<rparr>))" by simp_all
  from send_attempt_recorded [OF this, of sample_env 1 5 5 "SendErr False ''timeout''"] show ?thesis
    by (fastforce simp: sample_log_def)
qed

section \<open>Deadlines\<close>

lemma expire_all_keys:
  assumes "db_ok s" and "expire_all e t s k = (n, err, s')"
  shows "idem_keys s' = idem_keys s"
proof -
  have "db_ok s' \<and> idem_keys s' = idem_keys s"
  proof (rule expire_all_inv [where P = "\<lambda>x. db_ok x \<and> idem_keys x = idem_keys s", OF assms(2)])
    show "db_ok s \<and> idem_keys s = idem_keys s" using assms(1) by simp
    fix i x b x' assume P: "db_ok x \<and> idem_keys x = idem_keys s" and run: "expire_order e i x = Inr (b, x')"
    from expire_order_Inr [OF run] obtain x1 where
      rel: "release_order e i ReleaseExpired x = Inr (b, x1)" and c: "core x' = core x1" .
    have "idem_keys x1 = idem_keys x"
      using rel P by (auto simp: release_order_eq released_db_def settled_def with_orders_def split: if_splits)
    moreover have "idem_keys x' = idem_keys x1" using arg_cong [OF c, of idem_keys] by (simp add: core_def)
    ultimately show "db_ok x' \<and> idem_keys x' = idem_keys s" using P expire_order_ok [OF _ run] by simp
  qed
  then show ?thesis ..
qed

lemma dr_expired_all: "process_deadlines e s = (rep, s1) \<Longrightarrow> dr_expired rep = fst (expire_all e (e_now e) s 0)"
  by (auto simp: process_deadlines_def Let_def split: prod.splits sum.splits)

lemma deadline_work_rows:
  assumes "db_ok s" and "deadline_work e s = (rep, n, s')" and "dr_errors rep = []"
  obtains Q j where "orders s' = update_where Q (expired_row e) (orders s)" "\<forall>r\<in>set (orders s). Q r \<longrightarrow> due (e_now e) r"
    "j \<le> dr_expired rep" "\<forall>r\<in>set (orders s). free_due (e_locked e j) (e_now e) r \<longrightarrow> Q r"
    "\<forall>k\<in>set (idem_keys s). e_now e \<le> ik_expires_at k \<longrightarrow> k \<in> set (idem_keys s')"
proof -
  obtain s1 where p: "process_deadlines e s = (rep, s1)"
    and pu: "\<exists>m t. purge_rows idempotency_purge_batch (e_now e) (idem_keys s1) = (m, t) \<and> s' = s1\<lparr>idem_keys := t\<rparr>"
    using assms(2) by (auto simp: deadline_work_def purge_expired_idempotency_keys_def split: prod.splits)
  from process_deadlines_core [OF p] assms(3) obtain k s2 where
    x: "expire_all e (e_now e) s 0 = (k, None, s2)" and c: "core s1 = core s2" by blast
  have k: "dr_expired rep = k" using dr_expired_all [OF p] x by simp
  have "orders s1 = orders s2" "idem_keys s1 = idem_keys s2"
    using arg_cong [OF c, of orders] arg_cong [OF c, of idem_keys] by (simp_all add: core_def)
  with expire_all_keys [OF assms(1) x] have o': "orders s1 = orders s2" and i: "idem_keys s1 = idem_keys s" by simp_all
  from pu obtain m t where t: "purge_rows idempotency_purge_batch (e_now e) (idem_keys s) = (m, t)" "s' = s1\<lparr>idem_keys := t\<rparr>"
    unfolding i by blast
  from t(2) o' have os: "orders s' = orders s2" by simp
  have keys: "\<forall>k\<in>set (idem_keys s). e_now e \<le> ik_expires_at k \<longrightarrow> k \<in> set (idem_keys s')"
    using purge_rows_kept(2) [OF t(1)] t(2) by simp
  from expire_all_rows [OF assms(1) x] obtain Q j where
    Q: "orders s2 = update_where Q (expired_row e) (orders s)" "\<forall>r\<in>set (orders s). Q r \<longrightarrow> due (e_now e) r"
    "j \<le> k" "\<forall>r\<in>set (orders s). free_due (e_locked e j) (e_now e) r \<longrightarrow> Q r" by blast
  show thesis by (rule that [OF Q(1) [folded os] Q(2) Q(3) [folded k] Q(4) keys])
qed

text \<open>C9: The deadline job misses nothing it can see: a run without errors, however many batches of a hundred it takes,
  expires every due order except those whose rows another transaction holds locked when the query of its last batch runs
  (\<open>SKIP LOCKED\<close>); these it leaves due or, when an earlier batch saw them, expires too.  It leaves every other order as it
  is, and purges no idempotency key that is still valid.\<close>

theorem deadlines_are_enforced:
  assumes "reachable s" and "deadline_work e s = (rep, n, s')" and "dr_errors rep = []"
  shows "\<exists>j \<le> dr_expired rep.
      (\<forall>r\<in>set (orders s). due (e_now e) r \<and> ro_id r \<notin> set (e_locked e j) \<longrightarrow> release_row ReleaseExpired (e_now e) r \<in> set (orders s'))
    \<and> (\<forall>r\<in>set (orders s). due (e_now e) r \<longrightarrow> r \<in> set (orders s') \<or> release_row ReleaseExpired (e_now e) r \<in> set (orders s'))
    \<and> (\<forall>r\<in>set (orders s). \<not> due (e_now e) r \<longrightarrow> r \<in> set (orders s'))
    \<and> (\<forall>r\<in>set (orders s'). due (e_now e) r \<longrightarrow> ro_id r \<in> set (e_locked e j)) \<and> length (orders s') = length (orders s)
    \<and> (\<forall>k\<in>set (idem_keys s). e_now e \<le> ik_expires_at k \<longrightarrow> k \<in> set (idem_keys s'))"
proof -
  have ok: "db_ok s" using reachable_ok [OF assms(1)] by (simp add: sys_ok_def)
  from deadline_work_rows [OF ok assms(2,3)] obtain Q j where
    Q: "orders s' = update_where Q (expired_row e) (orders s)" "\<forall>r\<in>set (orders s). Q r \<longrightarrow> due (e_now e) r"
    and j: "j \<le> dr_expired rep" "\<forall>r\<in>set (orders s). free_due (e_locked e j) (e_now e) r \<longrightarrow> Q r"
    and keys: "\<forall>k\<in>set (idem_keys s). e_now e \<le> ik_expires_at k \<longrightarrow> k \<in> set (idem_keys s')" .
  have "expired_row e r \<in> set (orders s')" if "r \<in> set (orders s)" "Q r" for r
    using that unfolding Q(1) set_update_where by force
  moreover have "r \<in> set (orders s')" if "r \<in> set (orders s)" "\<not> Q r" for r
    using that unfolding Q(1) set_update_where by force
  moreover have "ro_id r \<in> set (e_locked e j)" if "r \<in> set (orders s')" "due (e_now e) r" for r
    using that j(2) unfolding Q(1) set_update_where by (auto split: if_splits)
  moreover have "length (orders s') = length (orders s)" by (simp add: Q(1))
  ultimately show ?thesis using Q(2) j keys by (intro exI [of _ j] conjI) blast+
qed

definition sample_late_env :: env where
  "sample_late_env = sample_env\<lparr>e_now := sample_now + 25 * hour\<rparr>"

definition sample_deadline :: "deadline_report \<times> nat \<times> db" where
  "sample_deadline = deadline_work sample_late_env sample_placed"

text \<open>The same run while another transaction holds the order locked: it is passed over, without an error.\<close>

definition sample_locked_env :: env where
  "sample_locked_env = sample_late_env\<lparr>e_locked := (\<lambda>_. [1])\<rparr>"

lemma locked_order_is_skipped:
  "dr_errors (fst (deadline_work sample_locked_env sample_placed)) = [] \<and> dr_expired (fst (deadline_work sample_locked_env sample_placed)) = 0
   \<and> list_ex (due (e_now sample_locked_env)) (orders (snd (snd (deadline_work sample_locked_env sample_placed))))"
  by code_simp

lemma deadlines_are_enforced_witness:
  "(\<exists>r\<in>set (orders sample_placed). due (e_now sample_late_env) r)
   \<and> \<not> (\<exists>r\<in>set (orders (snd (snd sample_deadline))). due (e_now sample_late_env) r)"
proof -
  have d: "\<exists>r\<in>set (orders sample_placed). due (e_now sample_late_env) r" by code_simp
  have e: "dr_errors (fst sample_deadline) = []" by code_simp
  have l: "e_locked sample_late_env j = []" for j by (simp add: sample_late_env_def sample_env_def)
  have "deadline_work sample_late_env sample_placed = (fst sample_deadline, fst (snd sample_deadline), snd (snd sample_deadline))"
    by (simp add: sample_deadline_def)
  from deadlines_are_enforced [OF sample_reachable(1) this e] d show ?thesis unfolding l by auto
qed

section \<open>Free sign-ups\<close>

text \<open>C12: A free sign-up succeeds only for a valid contact, an open activity, a category of that activity with a free seat,
  and a birth date that reaches the minimum age of the category on the day of the activity, when there is one; it adds one
  row for this runner and category, takes exactly one seat of that category and none of another, and never leaves two live
  sign-ups of one phone and name in a category.\<close>

theorem free_signup_takes_one_seat:
  assumes "reachable s" and "date_time 1990 1 1 \<le> platform_today (e_wall_now e)"
    and "create_free_signup e u slug inp s = Inr (out, s')"
  shows "contact_valid e (contact_of (free_normalize inp))
    \<and> (\<exists>ev\<in>set (events s). \<exists>c\<in>set (categories s). ev_slug ev = trim_space slug \<and> free_open ev (e_now e)
         \<and> ec_id c = fi_category inp \<and> ec_event c = ev_id ev
         \<and> (0 < ec_min_age c \<longrightarrow> (\<exists>b. fi_birth inp = Some b \<and> ec_min_age c \<le> age_on b (ev_race_date ev)))
         \<and> ec_used c + ec_reserved c < ec_capacity c
         \<and> c\<lparr>ec_used := ec_used c + 1\<rparr> \<in> set (categories s')
         \<and> (\<forall>x\<in>set (categories s). ec_id x \<noteq> ec_id c \<longrightarrow> x \<in> set (categories s'))
         \<and> (\<exists>r. free_signups s' = free_signups s @ [r] \<and> fs_event r = ev_id ev \<and> fs_category r = ec_id c \<and> fs_user r = u
              \<and> fs_status r = ''REGISTERED''))
    \<and> distinct (map free_key (filter free_live (free_signups s')))"
proof -
  have ok: "db_ok s" "free_unique s" using reachable_ok [OF assms(1)] by (simp_all add: sys_ok_def)
  have u: "distinct (map free_key (filter free_live (free_signups s')))"
    using create_free_signup_unique [OF ok(2) assms(3)] by (simp add: free_unique_def)
  have keys: "distinct (map ec_id (categories s))" using ok(1) by (simp add: db_ok_def keys_ok_def counter_keys_def)
  have inp: "fi_category (free_normalize inp) = fi_category inp" "fi_birth (free_normalize inp) = fi_birth inp"
    by (simp_all add: free_normalize_def Let_def)
  from create_free_signup_admits [OF assms(3)] obtain ev c no i where
    ev: "ev \<in> set (events s)" "ev_slug ev = trim_space slug" "free_open ev (e_now e)"
    and c: "c \<in> set (categories s)" "ec_id c = fi_category inp" "ec_event c = ev_id ev" "old_enough c ev (fi_birth inp)"
    and row: "free_signups s' = free_signups s @ [(new_free_signup e u ev (ec_id c) (free_normalize inp))\<lparr>fs_no := no, fs_id := i\<rparr>]"
    unfolding inp by blast
  from assms(3) show ?thesis
  proof (rule create_free_signup_Inr, elim exE bexE conjE)
    fix ev' d r x a b l
    assume v: "free_validate e (free_normalize inp) = Inr ()" and d: "ec_id d = fi_category (free_normalize inp)"
      and x: "x \<in> set (categories s)" "ec_id x = ec_id d" "ec_used x + ec_reserved x + 1 \<le> ec_capacity x"
      and s': "s' = s\<lparr>categories := update_where (\<lambda>x. ec_id x = ec_id d \<and> ec_used x + ec_reserved x + 1 \<le> ec_capacity x)
        (\<lambda>x. x\<lparr>ec_used := ec_used x + 1\<rparr>) (categories s), free_signups := free_signups s @ [r],
        signatures := a, reg_consents := b, audit_logs := l\<rparr>"
    have xc: "x = c" using distinct_key_eq [OF keys x(1) c(1)] x(2) d c(2) inp by simp
    have cats: "categories s' = update_where (\<lambda>x. ec_id x = ec_id d \<and> ec_used x + ec_reserved x + 1 \<le> ec_capacity x)
        (\<lambda>x. x\<lparr>ec_used := ec_used x + 1\<rparr>) (categories s)" by (simp add: s')
    have "contact_valid e (contact_of (free_normalize inp))" using v free_validate_iff [OF assms(2)] by blast
    moreover have "c\<lparr>ec_used := ec_used c + 1\<rparr> \<in> set (categories s')" unfolding cats set_update_where
      using x by (intro image_eqI [of _ _ c]) (simp_all add: xc)
    moreover have "\<forall>y\<in>set (categories s). ec_id y \<noteq> ec_id c \<longrightarrow> y \<in> set (categories s')"
      unfolding cats set_update_where using x(2) by (force intro: image_eqI simp: xc)
    moreover have "ec_used c + ec_reserved c < ec_capacity c" using x(3) xc by simp
    moreover have "0 < ec_min_age c \<longrightarrow> (\<exists>b. fi_birth inp = Some b \<and> ec_min_age c \<le> age_on b (ev_race_date ev))"
      using c(4) by (auto simp: old_enough_def)
    moreover have "\<exists>r. free_signups s' = free_signups s @ [r] \<and> fs_event r = ev_id ev \<and> fs_category r = ec_id c \<and> fs_user r = u
        \<and> fs_status r = ''REGISTERED''"
      by (rule exI, rule conjI, rule row) (simp add: new_free_signup_def)
    ultimately show ?thesis using u ev c(1-3) by blast
  qed
qed


definition sample_free_db :: db where
  "sample_free_db = sample_db\<lparr>events := [sample_event\<lparr>ev_type := ''FREE_ACTIVITY''\<rparr>]\<rparr>"

definition sample_signup :: free_input where
  "sample_signup = \<lparr>fi_category = 2, fi_name = '' Dara '', fi_phone = ''+85512345678'', fi_em_name = ''Sok'', fi_em_phone = ''+85512345679'',
     fi_gender = None, fi_birth = Some (date_time 1990 5 1), fi_consent = \<lparr>ca_version = ''v1'', ca_lang = ''en'', ca_checked = [''a'']\<rparr>\<rparr>"

definition sample_signed_up :: "free_signup \<times> db" where
  "sample_signed_up = projr (create_free_signup sample_env 1 ''run'' sample_signup sample_free_db)"

lemma free_signup_takes_one_seat_witness: "length (free_signups (snd sample_signed_up)) = 1"
proof -
  have "start sample_free_db" by (simp add: start_def sample_free_db_def sample_defs empty_db_def counter_keys_def)
  then have r: "reachable sample_free_db" by (rule started)
  have d: "date_time 1990 1 1 \<le> platform_today (e_wall_now sample_env)" by code_simp
  have "\<not> isl (create_free_signup sample_env 1 ''run'' sample_signup sample_free_db)" by code_simp
  then have "create_free_signup sample_env 1 ''run'' sample_signup sample_free_db = Inr (fst sample_signed_up, snd sample_signed_up)"
    by (simp add: sample_signed_up_def)
  from free_signup_takes_one_seat [OF r d this] obtain x where
    "free_signups (snd sample_signed_up) = free_signups sample_free_db @ [x]" by blast
  then show ?thesis by (simp add: sample_free_db_def sample_db_def empty_db_def)
qed

section \<open>The loop of the deadline job\<close>

text \<open>The loop of \<open>ProcessDeadlines\<close> as it is written, with the number of batches it may run.\<close>

fun batches :: "nat \<Rightarrow> env \<Rightarrow> gotime \<Rightarrow> db \<Rightarrow> nat \<Rightarrow> (nat \<times> goerr option \<times> db) option" where
  "batches 0 e as_of s expired = None"
| "batches (Suc n) e as_of s expired =
     (case expire_due_batch e (e_locked e expired) as_of s of
        Inl err \<Rightarrow> Some (expired, Some err, s)
      | Inr (selected, released, s') \<Rightarrow>
          if selected < deadline_batch_size \<or> released = 0 then Some (expired + released, None, s')
          else batches n e as_of s' (expired + released))"

lemma expire_loop_count:
  assumes "foldE (expire_step e) ids (n, s) = Inr (m, s')" and "distinct ids" and "distinct (map ro_id (orders s))"
    and "\<forall>i\<in>set ids. \<exists>r\<in>set (orders s). ro_id r = i \<and> releasable ReleaseExpired r"
  shows "m = n + length ids"
  using assms
proof (induction ids arbitrary: n s)
  case (Cons i ids)
  from Cons.prems(1) obtain p where p: "expire_step e i (n, s) = Inr p" "foldE (expire_step e) ids p = Inr (m, s')"
    unfolding foldE.simps by (rule bindE_InrE)
  from p(1) obtain b s1 where st: "expire_order e i s = Inr (b, s1)" and pp: "p = (if b then Suc n else n, s1)"
    by (rule expire_step_Inr)
  note o = expire_order_orders [OF st]
  have b using o(2) Cons.prems(4) by auto
  have "distinct (map ro_id (orders s1))" using Cons.prems(3) by (simp add: o(1) map_update_where)
  moreover have "\<exists>r\<in>set (orders s1). ro_id r = j \<and> releasable ReleaseExpired r" if "j \<in> set ids" for j
  proof -
    from that Cons.prems(2) have "j \<noteq> i" by auto
    moreover from that Cons.prems(4) obtain r where "r \<in> set (orders s)" "ro_id r = j" "releasable ReleaseExpired r"
      by (meson list.set_intros(2))
    ultimately have "r \<in> set (orders s)" "ro_id r = j" "releasable ReleaseExpired r" "ro_id r \<noteq> i" by simp_all
    then show ?thesis unfolding o(1) set_update_where by force
  qed
  ultimately have "m = Suc n + length ids"
    using Cons.IH [of "Suc n" s1] p(2) pp \<open>b\<close> Cons.prems(2) by simp
  then show ?case by simp
qed simp

lemma list_due_distinct: "distinct (map ro_id (orders s)) \<Longrightarrow> distinct (list_due_order_ids t n lk s)"
proof -
  assume d: "distinct (map ro_id (orders s))"
  let ?L = "sort_key (\<lambda>r. (case ro_deadline r of None \<Rightarrow> 0 | Some d \<Rightarrow> d, ro_id r)) (filter (free_due lk t) (orders s))"
  have "distinct (map ro_id (filter (free_due lk t) (orders s)))" using d by (rule distinct_map_filter)
  moreover have "mset (map ro_id ?L) = mset (map ro_id (filter (free_due lk t) (orders s)))" by simp
  ultimately have "distinct (map ro_id ?L)" using mset_eq_imp_distinct_iff by blast
  then show ?thesis unfolding list_due_order_ids_def take_map [symmetric] by (rule distinct_take)
qed

text \<open>A batch releases all it selects, and selects as many as it can.\<close>

lemma batch_count:
  assumes ok: "db_ok s" and b: "expire_due_batch e lk t s = Inr (sel, rel, s')"
  shows "rel = sel" "sel = min deadline_batch_size (rows_where (free_due lk t) (orders s))"
    "rows_where (due t) (orders s') + sel = rows_where (due t) (orders s)"
proof -
  let ?ids = "list_due_order_ids t deadline_batch_size lk s"
  note B = batch_orders [OF b]
  have d: "distinct (map ro_id (orders s))" using ok by (simp add: db_ok_def keys_ok_def)
  have sub: "i \<in> ro_id ` set (orders s)" if "i \<in> set ?ids" for i
    using that set_take_subset by (fastforce simp: list_due_order_ids_def)
  have rel: "\<exists>r\<in>set (orders s). ro_id r = i \<and> releasable ReleaseExpired r \<and> due t r" if "i \<in> set ?ids" for i
    using sub [OF that] that batch_due(1) [OF ok] due_releasable [OF ok] by blast
  show sel: "sel = min deadline_batch_size (rows_where (free_due lk t) (orders s))"
    by (simp add: B(1) list_due_order_ids_def rows_where_def min.commute)
  show rs: "rel = sel"
  proof (cases "?ids = []")
    case True
    with b show ?thesis by (simp add: expire_due_batch_def)
  next
    case False
    with b have "\<exists>s1. foldE (expire_step e) ?ids (0, s) = Inr (rel, s1)" by (simp add: expire_due_batch_def Let_def bindE_Inr_iff)
    then show ?thesis using expire_loop_count [OF _ list_due_distinct [OF d] d] rel B(1) by fastforce
  qed
  let ?P = "\<lambda>r. ro_id r \<in> set ?ids \<and> releasable ReleaseExpired r"
  have P: "?P r \<longleftrightarrow> ro_id r \<in> set ?ids \<and> due t r" if "r \<in> set (orders s)" for r
    using batch_due(1) [OF ok that] due_releasable [OF ok that] by blast
  have "rows_where (due t) (orders s') = rows_where (\<lambda>r. due t r \<and> \<not> ro_id r \<in> set ?ids) (orders s)"
    unfolding B(2) rows_where_update_where
    by (rule rows_where_cong) (use P in auto)
  moreover have "rows_where (\<lambda>r. due t r \<and> ro_id r \<in> set ?ids) (orders s) = length ?ids"
  proof -
    have "map ro_id (filter (\<lambda>r. due t r \<and> ro_id r \<in> set ?ids) (orders s)) = filter (\<lambda>i. i \<in> set ?ids) (map ro_id (orders s))"
      unfolding filter_map o_def using batch_due(1) [OF ok] by (intro arg_cong [where f = "map ro_id"] filter_cong) auto
    then have "rows_where (\<lambda>r. due t r \<and> ro_id r \<in> set ?ids) (orders s) = length (filter (\<lambda>i. i \<in> set ?ids) (map ro_id (orders s)))"
      unfolding rows_where_def by (metis length_map)
    also have "\<dots> = card (set (filter (\<lambda>i. i \<in> set ?ids) (map ro_id (orders s))))" using d by (intro distinct_card [symmetric] distinct_filter)
    also have "set (filter (\<lambda>i. i \<in> set ?ids) (map ro_id (orders s))) = set ?ids" using sub by auto
    also have "card (set ?ids) = length ?ids" by (rule distinct_card [OF list_due_distinct [OF d]])
    finally show ?thesis .
  qed
  ultimately show "rows_where (due t) (orders s') + sel = rows_where (due t) (orders s)"
    using rows_where_split [of "due t" "orders s" "\<lambda>r. ro_id r \<in> set ?ids"] B(1) by simp
qed

lemma batches_enough:
  assumes "db_ok s" and "rows_where (due t) (orders s) div deadline_batch_size < n"
  shows "\<exists>m err s'. batches n e t s k = Some (m, err, s') \<and> expire_all e t s k = (m, err, s')
     \<and> (err = None \<longrightarrow> m + rows_where (due t) (orders s') = k + rows_where (due t) (orders s))"
  using assms
proof (induction n arbitrary: s k)
  case (Suc n)
  show ?case
  proof (cases "expire_due_batch e (e_locked e k) t s")
    case (Inl err)
    then show ?thesis by (simp add: expire_all.simps [of e t s k])
  next
    case (Inr y)
    then obtain sel rel s1 where b: "expire_due_batch e (e_locked e k) t s = Inr (sel, rel, s1)" by (cases y) auto
    note c = batch_count [OF Suc.prems(1) b]
    show ?thesis
    proof (cases "sel < deadline_batch_size \<or> rel = 0")
      case True
      with b c(1,3) show ?thesis by (auto simp: expire_all.simps [of e t s k])
    next
      case False
      have ok: "db_ok s1" by (rule expire_due_batch_inv [where P = db_ok, OF b Suc.prems(1)]) (rule expire_order_ok)
      from False c(2) have "sel = deadline_batch_size" by linarith
      with c(3) have "rows_where (due t) (orders s) = rows_where (due t) (orders s1) + deadline_batch_size" by linarith
      with Suc.prems(2) have "rows_where (due t) (orders s1) div deadline_batch_size < n" by (simp add: deadline_batch_size_def)
      from Suc.IH [OF ok this, of "k + rel"] obtain m err s2 where
        i: "batches n e t s1 (k + rel) = Some (m, err, s2)" "expire_all e t s1 (k + rel) = (m, err, s2)"
           "err = None \<longrightarrow> m + rows_where (due t) (orders s2) = k + rel + rows_where (due t) (orders s1)" by blast
      have "batches (Suc n) e t s k = Some (m, err, s2)" using False b i(1) by simp
      moreover have "expire_all e t s k = (m, err, s2)" using False b i(2) by (simp add: expire_all.simps [of e t s k])
      moreover have "err = None \<longrightarrow> m + rows_where (due t) (orders s2) = k + rows_where (due t) (orders s)" using i(3) c(1,3) by linarith
      ultimately show ?thesis by blast
    qed
  qed
qed simp

lemma no_locks_no_due:
  assumes "db_ok s" and "expire_all e t s k = (n, None, s')" and "\<And>j. e_locked e j = []"
  shows "rows_where (due t) (orders s') = 0"
proof -
  from expire_all_rows [OF assms(1,2)] obtain Q j where
    Q: "orders s' = update_where Q (expired_row e) (orders s)" "\<forall>r\<in>set (orders s). free_due (e_locked e j) t r \<longrightarrow> Q r" by blast
  have "\<not> due t r" if "r \<in> set (orders s')" for r
    using that Q(2) assms(3) unfolding Q(1) set_update_where by (auto split: if_splits)
  then show ?thesis by simp
qed

text \<open>C30: The deadline job ends, whichever orders other transactions hold locked while its queries run: its loop runs at
  most one batch for every hundred due orders and one more.  When no batch fails it reports exactly the number of orders it
  took out of the due ones, and these are all of them when none is locked.\<close>

theorem deadline_loop_ends:
  assumes "reachable s"
  shows "\<exists>m err s'. batches (Suc (rows_where (due (e_now e)) (orders s) div 100)) e (e_now e) s 0 = Some (m, err, s')
    \<and> expire_all e (e_now e) s 0 = (m, err, s')
    \<and> (err = None \<longrightarrow> m + rows_where (due (e_now e)) (orders s') = rows_where (due (e_now e)) (orders s))
    \<and> (err = None \<and> (\<forall>j. e_locked e j = []) \<longrightarrow> m = rows_where (due (e_now e)) (orders s))"
proof -
  have ok: "db_ok s" using reachable_ok [OF assms] by (simp add: sys_ok_def)
  obtain m err s' where b: "batches (Suc (rows_where (due (e_now e)) (orders s) div 100)) e (e_now e) s 0 = Some (m, err, s')"
    "expire_all e (e_now e) s 0 = (m, err, s')"
    "err = None \<longrightarrow> m + rows_where (due (e_now e)) (orders s') = rows_where (due (e_now e)) (orders s)"
    using batches_enough [OF ok, of "e_now e" "Suc (rows_where (due (e_now e)) (orders s) div 100)" e 0]
    by (auto simp: deadline_batch_size_def simp del: batches.simps)
  moreover have "m = rows_where (due (e_now e)) (orders s)" if "err = None" "\<forall>j. e_locked e j = []"
  proof -
    from b(2) that have "expire_all e (e_now e) s 0 = (m, None, s')" "\<And>j. e_locked e j = []" by simp_all
    from no_locks_no_due [OF ok this] b(3) that(1) show ?thesis by linarith
  qed
  ultimately show ?thesis by blast
qed

lemma deadline_loop_ends_witness:
  "rows_where (due (e_now sample_late_env)) (orders sample_placed) = 1
   \<and> (\<exists>s'. batches 1 sample_late_env (e_now sample_late_env) sample_placed 0 = Some (1, None, s'))"
proof -
  have d: "rows_where (due (e_now sample_late_env)) (orders sample_placed) = 1" by code_simp
  have n: "fst (snd (expire_all sample_late_env (e_now sample_late_env) sample_placed 0)) = None" by code_simp
  have l: "\<forall>j. e_locked sample_late_env j = []" by (simp add: sample_late_env_def sample_env_def)
  from deadline_loop_ends [OF sample_reachable(1), of sample_late_env] d n l show ?thesis by auto
qed

end
