(* ===== verification/Tokens.thy ===== *)
theory Tokens
  imports Apperr
begin

text \<open>
  Session tokens and stored passwords: raw (unpadded) base64 of \<open>encoding/base64\<close>, the decoding of a bearer token
  (\<open>iam/service.go\<close> and \<open>runner/service.go\<close>), and the PHC strings of \<open>iam/password.go\<close>.  Byte strings are
  \<open>string\<close>s; the argon2 package and the bytes of \<open>crypto/rand\<close> are arguments.
\<close>

section \<open>Raw base64\<close>

definition base64_alnum :: string where
  "base64_alnum = ''ABCDEFGHIJKLMNOPQRSTUVWXYZabcdefghijklmnopqrstuvwxyz0123456789''"

definition raw_std :: string where "raw_std = base64_alnum @ ''+/''"
definition raw_url :: string where "raw_url = base64_alnum @ ''-_''"

fun base64_encode :: "string \<Rightarrow> string \<Rightarrow> string" where
  "base64_encode al [] = []"
| "base64_encode al [a] = (let x = code_of a in [al ! (x div 4), al ! (x mod 4 * 16)])"
| "base64_encode al [a, b] =
     (let x = code_of a; y = code_of b in [al ! (x div 4), al ! (x mod 4 * 16 + y div 16), al ! (y mod 16 * 4)])"
| "base64_encode al (a # b # c # r) =
     (let x = code_of a; y = code_of b; z = code_of c
      in al ! (x div 4) # al ! (x mod 4 * 16 + y div 16) # al ! (y mod 16 * 4 + z div 64) # al ! (z mod 64) # base64_encode al r)"

fun index_of :: "char \<Rightarrow> string \<Rightarrow> nat option" where
  "index_of c [] = None"
| "index_of c (x # xs) = (if x = c then Some 0 else map_option Suc (index_of c xs))"

fun sextets :: "string \<Rightarrow> string \<Rightarrow> nat list option" where
  "sextets al [] = Some []"
| "sextets al (c # s) =
     (case index_of c al of None \<Rightarrow> None
      | Some n \<Rightarrow> (case sextets al s of None \<Rightarrow> None | Some ns \<Rightarrow> Some (n # ns)))"

fun octets :: "nat list \<Rightarrow> string option" where
  "octets [] = Some []"
| "octets [p] = None"
| "octets [p, q] = Some [char_of (p * 4 + q div 16)]"
| "octets [p, q, r] = Some [char_of (p * 4 + q div 16), char_of (q mod 16 * 16 + r div 4)]"
| "octets (p # q # r # s # ns) =
     (case octets ns of None \<Rightarrow> None
      | Some cs \<Rightarrow> Some (char_of (p * 4 + q div 16) # char_of (q mod 16 * 16 + r div 4) # char_of (r mod 4 * 64 + s) # cs))"

text \<open>\<open>DecodeString\<close> skips line ends, refuses any other character outside the alphabet and a single left-over one, and
  ignores the unused bits of the last character.\<close>

definition base64_decode :: "string \<Rightarrow> string \<Rightarrow> string option" where
  "base64_decode al s =
     (case sextets al (filter (\<lambda>c. code_of c \<noteq> 10 \<and> code_of c \<noteq> 13) s) of None \<Rightarrow> None | Some ns \<Rightarrow> octets ns)"

lemma index_of_nth: "distinct al \<Longrightarrow> n < length al \<Longrightarrow> index_of (al ! n) al = Some n"
proof (induction al arbitrary: n)
  case (Cons x al)
  then show ?case by (cases n) auto
qed simp

lemma code_of_bound: "code_of c < 256"
  using nat_of_char_less_256 [of c] by (simp add: code_of_def)

lemma octet_parts:
  "code_of a div 4 < 64" "code_of a mod 4 * 16 < 64" "code_of a mod 4 * 16 + code_of b div 16 < 64"
  "code_of a mod 16 * 4 < 64" "code_of a mod 16 * 4 + code_of b div 64 < 64" "code_of a mod 64 < 64"
  using code_of_bound [of a] code_of_bound [of b] by auto

lemma octet_shift:
  "code_of b div 16 div 16 = 0" "code_of b div 16 mod 16 = code_of b div 16"
  "code_of c div 64 div 4 = 0" "code_of c div 64 mod 4 = code_of c div 64"
proof -
  have "code_of b < 256" "code_of c < 256" by (simp_all add: code_of_bound)
  then have "code_of b div 16 < 16" "code_of c div 64 < 4" by auto
  then show "code_of b div 16 div 16 = 0" "code_of b div 16 mod 16 = code_of b div 16"
    "code_of c div 64 div 4 = 0" "code_of c div 64 mod 4 = code_of c div 64" by simp_all
qed

lemma char_of_code_of [simp]: "char_of (code_of c) = c"
  by (simp add: code_of_def)

lemma sextets_encode:
  assumes "distinct al" and "length al = 64"
  shows "\<exists>ns. sextets al (base64_encode al bs) = Some ns \<and> octets ns = Some bs"
  using assms
proof (induction al bs rule: base64_encode.induct)
  case (4 al a b c r)
  then obtain ns where "sextets al (base64_encode al r) = Some ns" "octets ns = Some r" by blast
  with 4(2,3) show ?case by (simp add: Let_def index_of_nth octet_parts octet_shift code_of_bound)
qed (simp_all add: Let_def index_of_nth octet_parts octet_shift code_of_bound)

lemma set_base64_encode: "length al = 64 \<Longrightarrow> set (base64_encode al bs) \<subseteq> set al"
  by (induction al bs rule: base64_encode.induct) (simp_all add: Let_def octet_parts code_of_bound)

lemma alphabets: "distinct raw_std" "length raw_std = 64" "distinct raw_url" "length raw_url = 64"
  "\<forall>c\<in>set raw_std. code_of c \<noteq> 10 \<and> code_of c \<noteq> 13 \<and> c \<noteq> CHR ''$''"
  "\<forall>c\<in>set raw_url. code_of c \<noteq> 10 \<and> code_of c \<noteq> 13"
  by code_simp+

lemma base64_round_trip [simp]:
  "base64_decode raw_std (base64_encode raw_std bs) = Some bs" "base64_decode raw_url (base64_encode raw_url bs) = Some bs"
proof -
  have std: "filter (\<lambda>c. code_of c \<noteq> 10 \<and> code_of c \<noteq> 13) (base64_encode raw_std bs) = base64_encode raw_std bs"
    using set_base64_encode [OF alphabets(2), of bs] alphabets(5) by (intro filter_True) blast
  have url: "filter (\<lambda>c. code_of c \<noteq> 10 \<and> code_of c \<noteq> 13) (base64_encode raw_url bs) = base64_encode raw_url bs"
    using set_base64_encode [OF alphabets(4), of bs] alphabets(6) by (intro filter_True) blast
  show "base64_decode raw_std (base64_encode raw_std bs) = Some bs" "base64_decode raw_url (base64_encode raw_url bs) = Some bs"
    using sextets_encode [OF alphabets(1,2), of bs] sextets_encode [OF alphabets(3,4), of bs] std url
    by (auto simp: base64_decode_def)
qed

section \<open>Tokens\<close>

definition token_bytes :: nat where "token_bytes = 32"

definition encode_token :: "string \<Rightarrow> string" where
  "encode_token raw = base64_encode raw_url raw"

text \<open>The first lines of \<open>Authenticate\<close> and \<open>Logout\<close>: \<open>None\<close> for a token that is not 32 bytes of base64.\<close>

definition decode_token :: "string \<Rightarrow> string option" where
  "decode_token token =
     (case base64_decode raw_url token of
        None \<Rightarrow> None
      | Some raw \<Rightarrow> if length raw \<noteq> token_bytes then None else Some raw)"

lemma decode_encode_token [simp]: "length raw = token_bytes \<Longrightarrow> decode_token (encode_token raw) = Some raw"
  by (simp add: decode_token_def encode_token_def)

section \<open>Passwords\<close>

text \<open>The argon2 package: its version number and \<open>IDKey(password, salt, time, memory, threads, keyLen)\<close>.\<close>

record hasher =
  ha_version :: int
  ha_key :: "string \<Rightarrow> string \<Rightarrow> int \<Rightarrow> int \<Rightarrow> int \<Rightarrow> nat \<Rightarrow> string"

definition argon_time :: int where "argon_time = 3"
definition argon_memory :: int where "argon_memory = 65536"
definition argon_threads :: int where "argon_threads = 2"
definition argon_salt_len :: nat where "argon_salt_len = 16"
definition argon_key_len :: nat where "argon_key_len = 32"

text \<open>\<open>HashPassword\<close>, given the salt.\<close>

definition hash_password :: "hasher \<Rightarrow> string \<Rightarrow> string \<Rightarrow> string" where
  "hash_password h salt password =
     (let key = ha_key h password salt argon_time argon_memory argon_threads argon_key_len
      in ''$argon2id$v='' @ int_str (ha_version h) @ ''$m='' @ int_str argon_memory @ '',t='' @ int_str argon_time
         @ '',p='' @ int_str argon_threads @ ''$'' @ base64_encode raw_std salt @ ''$'' @ base64_encode raw_std key)"

text \<open>
  \<open>fmt.Sscanf\<close> with literals and \<open>%d\<close>: a literal must match; \<open>%d\<close> skips blanks but no line end, takes the longest run of
  digits (with a sign when the target is signed), and fails when the value does not fit the target.  What follows the
  last verb is not looked at.
\<close>

definition scan_lit :: "string \<Rightarrow> string \<Rightarrow> string option" where
  "scan_lit lit s = (if has_prefix s lit then Some (drop (length lit) s) else None)"

definition scan_blank :: "string \<Rightarrow> string option" where
  "scan_blank s =
     (case dropWhile (\<lambda>c. is_space c \<and> code_of c \<noteq> 10) s of
        [] \<Rightarrow> None
      | c # r \<Rightarrow> if code_of c = 10 then None else Some (c # r))"

definition scan_number :: "string \<Rightarrow> (int \<times> string) option" where
  "scan_number s =
     (let ds = takeWhile is_digit s
      in if ds = [] then None else Some (digits_val 0 ds, drop (length ds) s))"

definition scan_uint :: "nat \<Rightarrow> string \<Rightarrow> (int \<times> string) option" where
  "scan_uint bits s =
     (case scan_blank s of None \<Rightarrow> None
      | Some r \<Rightarrow> (case scan_number r of None \<Rightarrow> None
          | Some (n, rest) \<Rightarrow> if n < 2 ^ bits then Some (n, rest) else None))"

definition scan_int :: "nat \<Rightarrow> string \<Rightarrow> (int \<times> string) option" where
  "scan_int bits s =
     (case scan_blank s of None \<Rightarrow> None
      | Some [] \<Rightarrow> None
      | Some (c # r) \<Rightarrow>
          (case scan_number (if c = CHR ''-'' \<or> c = CHR ''+'' then r else c # r) of None \<Rightarrow> None
           | Some (n, rest) \<Rightarrow>
               (let v = if c = CHR ''-'' then - n else n
                in if - (2 ^ (bits - 1)) \<le> v \<and> v < 2 ^ (bits - 1) then Some (v, rest) else None)))"

definition scan_version :: "string \<Rightarrow> int option" where
  "scan_version s =
     (case scan_lit ''v='' s of None \<Rightarrow> None
      | Some r \<Rightarrow> (case scan_int 64 r of None \<Rightarrow> None | Some (v, _) \<Rightarrow> Some v))"

definition scan_params :: "string \<Rightarrow> (int \<times> int \<times> int) option" where
  "scan_params s =
     (case scan_lit ''m='' s of None \<Rightarrow> None
      | Some r1 \<Rightarrow> (case scan_uint 32 r1 of None \<Rightarrow> None
      | Some (memory, r2) \<Rightarrow> (case scan_lit '',t='' r2 of None \<Rightarrow> None
      | Some r3 \<Rightarrow> (case scan_uint 32 r3 of None \<Rightarrow> None
      | Some (iterations, r4) \<Rightarrow> (case scan_lit '',p='' r4 of None \<Rightarrow> None
      | Some r5 \<Rightarrow> (case scan_uint 8 r5 of None \<Rightarrow> None
      | Some (threads, _) \<Rightarrow> Some (memory, iterations, threads)))))))"

definition malformed_hash :: goerr where
  "malformed_hash = OtherErr ''iam: malformed password hash''"

definition verify_password :: "hasher \<Rightarrow> string \<Rightarrow> string \<Rightarrow> bool res" where
  "verify_password h encoded password =
     (case split_on (CHR ''$'') encoded of
        [p0, p1, p2, p3, p4, p5] \<Rightarrow>
          if p0 \<noteq> [] \<or> p1 \<noteq> ''argon2id'' then Inl malformed_hash
          else if scan_version p2 \<noteq> Some (ha_version h) then Inl malformed_hash
          else (case scan_params p3 of None \<Rightarrow> Inl malformed_hash
            | Some (memory, iterations, threads) \<Rightarrow>
                (case base64_decode raw_std p4 of None \<Rightarrow> Inl malformed_hash
                 | Some salt \<Rightarrow>
                     if salt = [] then Inl malformed_hash
                     else (case base64_decode raw_std p5 of None \<Rightarrow> Inl malformed_hash
                       | Some want \<Rightarrow>
                           if want = [] then Inl malformed_hash
                           else Inr (ha_key h password salt iterations memory threads (length want) = want))))
      | _ \<Rightarrow> Inl malformed_hash)"

lemma scan_number_int_str:
  assumes "0 \<le> n" and "rest = [] \<or> \<not> is_digit (hd rest)"
  shows "scan_number (int_str n @ rest) = Some (n, rest)"
proof -
  have ds: "takeWhile is_digit (digits n @ rest) = digits n"
    using digits_digits [OF assms(1)] assms(2) by (cases rest) (simp_all add: takeWhile_append takeWhile_eq_all_conv)
  have "digits n \<noteq> []" by (subst digits.simps) simp
  with assms(1) ds show ?thesis by (simp add: scan_number_def int_str_def Let_def digits_val_digits)
qed

lemma is_digit_graph: "is_digit c \<Longrightarrow> \<not> is_space c \<and> code_of c \<noteq> 10 \<and> c \<noteq> CHR ''-'' \<and> c \<noteq> CHR ''+''"
  by (auto simp: is_digit_def is_space_def code_of_def Let_def)

lemma int_str_head:
  assumes "0 \<le> n"
  obtains c r where "int_str n = c # r" "is_digit c"
proof (cases "int_str n")
  case Nil
  with assms show ?thesis by (simp add: int_str_def digits.simps [of n] split: if_splits)
next
  case (Cons c r)
  with assms digits_digits [OF assms, of c] show ?thesis by (intro that) (simp_all add: int_str_def)
qed

lemma scan_blank_int_str: "0 \<le> n \<Longrightarrow> scan_blank (int_str n @ rest) = Some (int_str n @ rest)"
  by (erule int_str_head) (drule is_digit_graph, simp add: scan_blank_def)

lemma scan_uint_int_str:
  "0 \<le> n \<Longrightarrow> n < 2 ^ bits \<Longrightarrow> rest = [] \<or> \<not> is_digit (hd rest) \<Longrightarrow> scan_uint bits (int_str n @ rest) = Some (n, rest)"
  by (simp add: scan_uint_def scan_blank_int_str scan_number_int_str)

lemma scan_int_int_str:
  assumes "0 \<le> n" and "n < 2 ^ (bits - 1)"
  shows "scan_int bits (int_str n) = Some (n, [])"
proof -
  obtain c r where c: "int_str n = c # r" "is_digit c" using assms(1) by (rule int_str_head)
  with is_digit_graph [OF c(2)] scan_blank_int_str [OF assms(1), of "[]"] scan_number_int_str [OF assms(1), of "[]"] assms
  show ?thesis by (simp add: scan_int_def Let_def)
qed

lemma scan_lit_append [simp]: "scan_lit lit (lit @ s) = Some s"
  by (simp add: scan_lit_def has_prefix_def)

lemma scan_version_str: "0 \<le> v \<Longrightarrow> v < 2 ^ 63 \<Longrightarrow> scan_version (''v='' @ int_str v) = Some v"
  using scan_int_int_str [of v 64] by (simp add: scan_version_def scan_lit_def has_prefix_def)

lemma scan_params_str: "scan_params (''m='' @ int_str argon_memory @ '',t='' @ int_str argon_time @ '',p='' @ int_str argon_threads)
    = Some (argon_memory, argon_time, argon_threads)"
  by code_simp

text \<open>C31: A stored password hash verifies exactly the passwords that derive the same key: the right one always, another one
  only in a collision of argon2, and a hash this program wrote is never malformed.\<close>

theorem password_round_trip:
  assumes "0 \<le> ha_version h" "ha_version h < 2 ^ 63"
    and "\<And>pw s t m p k. length (ha_key h pw s t m p k) = k"
    and "length salt = argon_salt_len"
  shows "verify_password h (hash_password h salt password) password'
    = Inr (ha_key h password' salt argon_time argon_memory argon_threads argon_key_len
         = ha_key h password salt argon_time argon_memory argon_threads argon_key_len)"
proof -
  let ?key = "ha_key h password salt argon_time argon_memory argon_threads argon_key_len"
  let ?v = "''v='' @ int_str (ha_version h)" and ?s = "base64_encode raw_std salt" and ?k = "base64_encode raw_std ?key"
  let ?m = "''m='' @ int_str argon_memory @ '',t='' @ int_str argon_time @ '',p='' @ int_str argon_threads"
  have d: "CHR ''$'' \<notin> set (int_str n)" for n using int_str_chars [of _ n] by (fastforce simp: is_digit_def code_of_def Let_def)
  have b: "CHR ''$'' \<notin> set (base64_encode raw_std bs)" for bs
    using set_base64_encode [OF alphabets(2), of bs] alphabets(5) by blast
  have e: "hash_password h salt password = [] @ CHR ''$'' # ''argon2id'' @ CHR ''$'' # ?v @ CHR ''$'' # ?m @ CHR ''$'' # ?s @ CHR ''$'' # ?k"
    by (simp add: hash_password_def Let_def)
  have s: "split_on (CHR ''$'') (hash_password h salt password) = [[], ''argon2id'', ?v, ?m, ?s, ?k]"
    unfolding e by (subst split_on_append split_on_word, simp add: d b)+ simp
  have ne: "salt \<noteq> []" "?key \<noteq> []" "length ?key = argon_key_len"
    using assms(3) [of password salt argon_time argon_memory argon_threads argon_key_len] assms(4)
    by (auto simp: argon_salt_len_def argon_key_len_def simp flip: length_0_conv)
  from ne show ?thesis
    unfolding verify_password_def s list.case scan_version_str [OF assms(1,2)] scan_params_str by simp
qed

definition sample_hasher :: hasher where
  "sample_hasher = \<lparr>ha_version = 19, ha_key = (\<lambda>pw s t m p k. take k (pw @ replicate k (CHR ''x'')))\<rparr>"

lemma password_round_trip_witness:
  "verify_password sample_hasher (hash_password sample_hasher (replicate 16 (CHR ''s'')) ''correct horse'') ''correct horse'' = Inr True
   \<and> verify_password sample_hasher (hash_password sample_hasher (replicate 16 (CHR ''s'')) ''correct horse'') ''wrong'' = Inr False"
proof -
  have h: "0 \<le> ha_version sample_hasher" "ha_version sample_hasher < 2 ^ 63"
    "\<And>pw s t m p k. length (ha_key sample_hasher pw s t m p k) = k" "length (replicate 16 (CHR ''s'')) = argon_salt_len"
    by (simp_all add: sample_hasher_def argon_salt_len_def)
  show ?thesis by (simp add: password_round_trip [OF h]) (simp add: sample_hasher_def argon_key_len_def)
qed

end
