(* ===== verification/Access.thy ===== *)
theory Access
  imports Apperr
begin

text \<open>
  Who may do what: the roles and the permission matrix of \<open>internal/iam/roles.go\<close> and \<open>matrix.go\<close>, and the
  table \<open>OperationAuths\<close> of \<open>httpapi/apigen/permissions.gen.go\<close> the middleware looks operations up in.  Roles,
  permissions and access levels arrive as strings there (from the database and from the table), so the lookups take
  strings, and one that names no constant finds nothing.
\<close>

section \<open>Roles\<close>

datatype role = RoleAdmin | RoleOps | RoleFinance | RoleSupport | RoleRaceSupervisor | RoleRaceStaff | RolePhotographer

fun role_str :: "role \<Rightarrow> string" where
  "role_str RoleAdmin = ''ADMIN''"
| "role_str RoleOps = ''OPS''"
| "role_str RoleFinance = ''FINANCE''"
| "role_str RoleSupport = ''SUPPORT''"
| "role_str RoleRaceSupervisor = ''RACE_SUPERVISOR''"
| "role_str RoleRaceStaff = ''RACE_STAFF''"
| "role_str RolePhotographer = ''PHOTOGRAPHER''"

definition all_roles :: "role list" where
  "all_roles = [RoleAdmin, RoleOps, RoleFinance, RoleSupport, RoleRaceSupervisor, RoleRaceStaff, RolePhotographer]"

definition parse_role :: "string \<Rightarrow> role option" where
  "parse_role s = List.find (\<lambda>r. role_str r = s) all_roles"

datatype access = AccessRead | AccessWrite

fun access_str :: "access \<Rightarrow> string" where
  "access_str AccessRead = ''read''"
| "access_str AccessWrite = ''write''"

section \<open>The matrix\<close>

datatype permission =
    PermEventPublish | PermEventConfig | PermOrderView | PermRosterExport | PermManualConfirm | PermRefundRequest |
    PermRefundReject | PermRefundApprove | PermRefundSettle | PermExceptionReturn | PermPrepayCancel |
    PermOrderArchive | PermBibAssign | PermBibSwap | PermBibVoid | PermRacepackIssue | PermRacepackUndo |
    PermOfflineConflict | PermResultImport | PermResultPublish | PermResultUnpublish | PermClaimCaseCreate |
    PermClaimBind | PermPhotoUpload | PermPhotoTag | PermPhotoRemovalReview | PermContentManage | PermAccessManage |
    PermReconClose | PermReconResolve | PermRefundCorrection | PermAuditView | PermPriceConfig | PermCouponManage |
    PermPaymentAccountManage | PermProofReview

fun perm_str :: "permission \<Rightarrow> string" where
  "perm_str PermEventPublish = ''event_publish''"
| "perm_str PermEventConfig = ''event_config''"
| "perm_str PermOrderView = ''order_view''"
| "perm_str PermRosterExport = ''roster_export''"
| "perm_str PermManualConfirm = ''manual_confirm''"
| "perm_str PermRefundRequest = ''refund_request''"
| "perm_str PermRefundReject = ''refund_reject''"
| "perm_str PermRefundApprove = ''refund_approve''"
| "perm_str PermRefundSettle = ''refund_settle''"
| "perm_str PermExceptionReturn = ''exception_return''"
| "perm_str PermPrepayCancel = ''prepay_cancel''"
| "perm_str PermOrderArchive = ''order_archive''"
| "perm_str PermBibAssign = ''bib_assign''"
| "perm_str PermBibSwap = ''bib_swap''"
| "perm_str PermBibVoid = ''bib_void''"
| "perm_str PermRacepackIssue = ''racepack_issue''"
| "perm_str PermRacepackUndo = ''racepack_undo''"
| "perm_str PermOfflineConflict = ''offline_conflict''"
| "perm_str PermResultImport = ''result_import''"
| "perm_str PermResultPublish = ''result_publish''"
| "perm_str PermResultUnpublish = ''result_unpublish''"
| "perm_str PermClaimCaseCreate = ''claim_case_create''"
| "perm_str PermClaimBind = ''claim_bind''"
| "perm_str PermPhotoUpload = ''photo_upload''"
| "perm_str PermPhotoTag = ''photo_tag''"
| "perm_str PermPhotoRemovalReview = ''photo_removal_review''"
| "perm_str PermContentManage = ''content_manage''"
| "perm_str PermAccessManage = ''access_manage''"
| "perm_str PermReconClose = ''recon_close''"
| "perm_str PermReconResolve = ''recon_resolve''"
| "perm_str PermRefundCorrection = ''refund_correction''"
| "perm_str PermAuditView = ''audit_view''"
| "perm_str PermPriceConfig = ''price_config''"
| "perm_str PermCouponManage = ''coupon_manage''"
| "perm_str PermPaymentAccountManage = ''payment_account_manage''"
| "perm_str PermProofReview = ''proof_review''"

definition all_permissions :: "permission list" where
  "all_permissions = [
     PermEventPublish, PermEventConfig, PermOrderView, PermRosterExport, PermManualConfirm, PermRefundRequest,
     PermRefundReject, PermRefundApprove, PermRefundSettle, PermExceptionReturn, PermPrepayCancel, PermOrderArchive,
     PermBibAssign, PermBibSwap, PermBibVoid, PermRacepackIssue, PermRacepackUndo, PermOfflineConflict,
     PermResultImport, PermResultPublish, PermResultUnpublish, PermClaimCaseCreate, PermClaimBind, PermPhotoUpload,
     PermPhotoTag, PermPhotoRemovalReview, PermContentManage, PermAccessManage, PermReconClose, PermReconResolve,
     PermRefundCorrection, PermAuditView, PermPriceConfig, PermCouponManage, PermPaymentAccountManage,
     PermProofReview]"


fun cell_access :: "string \<Rightarrow> access option" where
  "cell_access c = (if c = ''W'' then Some AccessWrite else if c = ''R'' then Some AccessRead else None)"

definition matrix_row :: "string list \<Rightarrow> role \<Rightarrow> access option" where
  "matrix_row cells r = (case map_of (zip all_roles cells) r of None \<Rightarrow> None | Some c \<Rightarrow> cell_access c)"

text \<open>The columns are those of \<open>all_roles\<close>.\<close>

fun matrix :: "permission \<Rightarrow> role \<Rightarrow> access option" where
  "matrix PermEventPublish = matrix_row [''R'', ''W'', [], ''R'', [], [], []]"
| "matrix PermEventConfig = matrix_row [''R'', ''W'', ''R'', [], [], [], []]"
| "matrix PermOrderView = matrix_row [''R'', ''R'', ''R'', ''R'', ''R'', ''R'', []]"
| "matrix PermRosterExport = matrix_row [''R'', ''W'', [], [], ''W'', [], []]"
| "matrix PermManualConfirm = matrix_row [[], [], ''W'', [], [], [], []]"
| "matrix PermRefundRequest = matrix_row [[], [], ''W'', ''W'', [], [], []]"
| "matrix PermRefundReject = matrix_row [[], [], ''W'', ''R'', [], [], []]"
| "matrix PermRefundApprove = matrix_row [[], ''R'', ''W'', ''R'', [], [], []]"
| "matrix PermRefundSettle = matrix_row [[], ''R'', ''W'', ''R'', [], [], []]"
| "matrix PermExceptionReturn = matrix_row [[], [], ''W'', ''R'', [], [], []]"
| "matrix PermPrepayCancel = matrix_row [''R'', ''W'', ''R'', ''W'', [], [], []]"
| "matrix PermOrderArchive = matrix_row [''R'', ''W'', ''R'', ''R'', [], [], []]"
| "matrix PermBibAssign = matrix_row [''R'', ''W'', [], [], [], [], []]"
| "matrix PermBibSwap = matrix_row [''R'', ''W'', [], [], ''W'', [], []]"
| "matrix PermBibVoid = matrix_row [''R'', ''W'', [], [], [], [], []]"
| "matrix PermRacepackIssue = matrix_row [[], ''R'', [], ''R'', ''W'', ''W'', []]"
| "matrix PermRacepackUndo = matrix_row [[], ''W'', [], [], ''W'', [], []]"
| "matrix PermOfflineConflict = matrix_row [''R'', ''W'', [], [], ''W'', [], []]"
| "matrix PermResultImport = matrix_row [''R'', ''W'', [], ''R'', [], [], []]"
| "matrix PermResultPublish = matrix_row [''R'', ''W'', [], ''R'', [], [], []]"
| "matrix PermResultUnpublish = matrix_row [''W'', ''W'', [], [], [], [], []]"
| "matrix PermClaimCaseCreate = matrix_row [''R'', ''W'', [], ''W'', [], [], []]"
| "matrix PermClaimBind = matrix_row [''R'', ''W'', [], ''R'', [], [], []]"
| "matrix PermPhotoUpload = matrix_row [''R'', ''W'', [], [], [], [], ''W'']"
| "matrix PermPhotoTag = matrix_row [''R'', ''W'', [], [], [], [], ''W'']"
| "matrix PermPhotoRemovalReview = matrix_row [''W'', ''W'', [], [], [], [], []]"
| "matrix PermContentManage = matrix_row [''R'', ''W'', [], [], [], [], []]"
| "matrix PermAccessManage = matrix_row [''W'', [], [], [], [], [], []]"
| "matrix PermReconClose = matrix_row [''R'', [], ''W'', [], [], [], []]"
| "matrix PermReconResolve = matrix_row [''R'', [], ''W'', [], [], [], []]"
| "matrix PermRefundCorrection = matrix_row [[], [], ''W'', ''R'', [], [], []]"
| "matrix PermAuditView = matrix_row [''W'', ''R'', ''R'', [], [], [], []]"
| "matrix PermPriceConfig = matrix_row [''R'', ''W'', ''R'', [], [], [], []]"
| "matrix PermCouponManage = matrix_row [''R'', ''W'', ''R'', ''R'', [], [], []]"
| "matrix PermPaymentAccountManage = matrix_row [''R'', ''R'', ''W'', [], [], [], []]"
| "matrix PermProofReview = matrix_row [''W'', ''R'', ''W'', ''R'', [], [], []]"

definition matrix_at :: "string \<Rightarrow> string \<Rightarrow> access option" where
  "matrix_at p role =
     (case List.find (\<lambda>q. perm_str q = p) all_permissions of
        None \<Rightarrow> None
      | Some q \<Rightarrow> (case parse_role role of None \<Rightarrow> None | Some r \<Rightarrow> matrix q r))"

definition allowed :: "string \<Rightarrow> string \<Rightarrow> string \<Rightarrow> bool" where
  "allowed role p need =
     (case matrix_at p role of
        None \<Rightarrow> False
      | Some got \<Rightarrow>
          if need = ''write'' then got = AccessWrite
          else if need = ''read'' then got = AccessRead \<or> got = AccessWrite
          else False)"

definition permissions_of :: "string \<Rightarrow> (string \<times> access) list" where
  "permissions_of role =
     concat (map (\<lambda>p. case matrix_at (perm_str p) role of None \<Rightarrow> [] | Some a \<Rightarrow> [(perm_str p, a)]) all_permissions)"

section \<open>The operations of the API\<close>

datatype auth_kind = AuthNone | AuthSession | AuthPermission | AuthApp

record operation_auth =
  oa_kind :: auth_kind
  oa_permission :: string
  oa_access :: string

definition operation_auths :: "(string \<times> operation_auth) list" where
  "operation_auths = [
     (''AdminApproveProof'', \<lparr>oa_kind = AuthPermission, oa_permission = ''proof_review'', oa_access = ''write''\<rparr>),
     (''AdminCreateCoupon'', \<lparr>oa_kind = AuthPermission, oa_permission = ''coupon_manage'', oa_access = ''write''\<rparr>),
     (''AdminCreateEvent'', \<lparr>oa_kind = AuthPermission, oa_permission = ''event_config'', oa_access = ''write''\<rparr>),
     (''AdminCreatePaymentAccount'', \<lparr>oa_kind = AuthPermission, oa_permission = ''payment_account_manage'', oa_access = ''write''\<rparr>),
     (''AdminCreatePriceRule'', \<lparr>oa_kind = AuthPermission, oa_permission = ''price_config'', oa_access = ''write''\<rparr>),
     (''AdminGetEvent'', \<lparr>oa_kind = AuthPermission, oa_permission = ''event_config'', oa_access = ''read''\<rparr>),
     (''AdminGetFile'', \<lparr>oa_kind = AuthPermission, oa_permission = ''proof_review'', oa_access = ''read''\<rparr>),
     (''AdminGetMe'', \<lparr>oa_kind = AuthSession, oa_permission = [], oa_access = []\<rparr>),
     (''AdminGetOrder'', \<lparr>oa_kind = AuthPermission, oa_permission = ''order_view'', oa_access = ''read''\<rparr>),
     (''AdminGetProof'', \<lparr>oa_kind = AuthPermission, oa_permission = ''proof_review'', oa_access = ''read''\<rparr>),
     (''AdminListCoupons'', \<lparr>oa_kind = AuthPermission, oa_permission = ''coupon_manage'', oa_access = ''read''\<rparr>),
     (''AdminListEvents'', \<lparr>oa_kind = AuthPermission, oa_permission = ''event_config'', oa_access = ''read''\<rparr>),
     (''AdminListOrders'', \<lparr>oa_kind = AuthPermission, oa_permission = ''order_view'', oa_access = ''read''\<rparr>),
     (''AdminListPaymentAccounts'', \<lparr>oa_kind = AuthPermission, oa_permission = ''payment_account_manage'', oa_access = ''read''\<rparr>),
     (''AdminListPriceRules'', \<lparr>oa_kind = AuthPermission, oa_permission = ''price_config'', oa_access = ''read''\<rparr>),
     (''AdminListProofs'', \<lparr>oa_kind = AuthPermission, oa_permission = ''proof_review'', oa_access = ''read''\<rparr>),
     (''AdminLogin'', \<lparr>oa_kind = AuthNone, oa_permission = [], oa_access = []\<rparr>),
     (''AdminLogout'', \<lparr>oa_kind = AuthSession, oa_permission = [], oa_access = []\<rparr>),
     (''AdminPublishEvent'', \<lparr>oa_kind = AuthPermission, oa_permission = ''event_publish'', oa_access = ''write''\<rparr>),
     (''AdminRejectProof'', \<lparr>oa_kind = AuthPermission, oa_permission = ''proof_review'', oa_access = ''write''\<rparr>),
     (''AdminUpdateCoupon'', \<lparr>oa_kind = AuthPermission, oa_permission = ''coupon_manage'', oa_access = ''write''\<rparr>),
     (''AdminUpdateEventRegistration'', \<lparr>oa_kind = AuthPermission, oa_permission = ''event_config'', oa_access = ''write''\<rparr>),
     (''AdminUpdatePaymentAccount'', \<lparr>oa_kind = AuthPermission, oa_permission = ''payment_account_manage'', oa_access = ''write''\<rparr>),
     (''AdminUpdatePriceRule'', \<lparr>oa_kind = AuthPermission, oa_permission = ''price_config'', oa_access = ''write''\<rparr>),
     (''AppCancelOrder'', \<lparr>oa_kind = AuthApp, oa_permission = [], oa_access = []\<rparr>),
     (''AppCreateFreeSignup'', \<lparr>oa_kind = AuthApp, oa_permission = [], oa_access = []\<rparr>),
     (''AppCreateOrder'', \<lparr>oa_kind = AuthApp, oa_permission = [], oa_access = []\<rparr>),
     (''AppCreateProfile'', \<lparr>oa_kind = AuthApp, oa_permission = [], oa_access = []\<rparr>),
     (''AppDeleteProfile'', \<lparr>oa_kind = AuthApp, oa_permission = [], oa_access = []\<rparr>),
     (''AppGetConsent'', \<lparr>oa_kind = AuthApp, oa_permission = [], oa_access = []\<rparr>),
     (''AppGetMe'', \<lparr>oa_kind = AuthApp, oa_permission = [], oa_access = []\<rparr>),
     (''AppGetOrder'', \<lparr>oa_kind = AuthApp, oa_permission = [], oa_access = []\<rparr>),
     (''AppListFreeSignups'', \<lparr>oa_kind = AuthApp, oa_permission = [], oa_access = []\<rparr>),
     (''AppListOrders'', \<lparr>oa_kind = AuthApp, oa_permission = [], oa_access = []\<rparr>),
     (''AppListProfiles'', \<lparr>oa_kind = AuthApp, oa_permission = [], oa_access = []\<rparr>),
     (''AppLoginTelegram'', \<lparr>oa_kind = AuthNone, oa_permission = [], oa_access = []\<rparr>),
     (''AppLogout'', \<lparr>oa_kind = AuthApp, oa_permission = [], oa_access = []\<rparr>),
     (''AppQuote'', \<lparr>oa_kind = AuthApp, oa_permission = [], oa_access = []\<rparr>),
     (''AppRequestPhoneCode'', \<lparr>oa_kind = AuthNone, oa_permission = [], oa_access = []\<rparr>),
     (''AppSubmitProof'', \<lparr>oa_kind = AuthApp, oa_permission = [], oa_access = []\<rparr>),
     (''AppUpdateMe'', \<lparr>oa_kind = AuthApp, oa_permission = [], oa_access = []\<rparr>),
     (''AppUpdateProfile'', \<lparr>oa_kind = AuthApp, oa_permission = [], oa_access = []\<rparr>),
     (''AppVerifyPhoneCode'', \<lparr>oa_kind = AuthNone, oa_permission = [], oa_access = []\<rparr>),
     (''GetHealthz'', \<lparr>oa_kind = AuthNone, oa_permission = [], oa_access = []\<rparr>),
     (''GetPublicEvent'', \<lparr>oa_kind = AuthNone, oa_permission = [], oa_access = []\<rparr>),
     (''GetPublicFile'', \<lparr>oa_kind = AuthNone, oa_permission = [], oa_access = []\<rparr>),
     (''GetReadyz'', \<lparr>oa_kind = AuthNone, oa_permission = [], oa_access = []\<rparr>),
     (''ListPublicEvents'', \<lparr>oa_kind = AuthNone, oa_permission = [], oa_access = []\<rparr>)]"

end
