(* ===== verification/Limits.thy ===== *)
theory Limits
  imports GoLib "HOL-Library.Word"
begin

text \<open>
  The two in-memory limiters: \<open>internal/iam/limiter.go\<close> (\<open>LoginLimiter\<close>) and
  \<open>internal/runner/limiter.go\<close> (\<open>OTPLimiter\<close>).  Every method holds the mutex for
  its whole body, so a method is one step; the clock is read once per method
  and is an argument.  A Go map is a HOL map; the sliding windows both limiters
  keep are the locale \<open>sliding\<close>, interpreted for each of their windows.
\<close>

section \<open>Times of a key\<close>

type_synonym times = "string \<rightharpoonup> gotime list"

definition hits :: "times \<Rightarrow> string \<Rightarrow> gotime list" where
  "hits m k = (case m k of None \<Rightarrow> [] | Some ts \<Rightarrow> ts)"

text \<open>\<open>pruneBefore\<close>, \<open>pruneOTP\<close>.\<close>

definition prune :: "gotime list \<Rightarrow> gotime \<Rightarrow> gotime list" where
  "prune ts cutoff = dropWhile (\<lambda>t. t \<le> cutoff) ts"

text \<open>\<open>setTimes\<close>: an empty list deletes the key.\<close>

definition set_times :: "string \<Rightarrow> gotime list \<Rightarrow> times \<Rightarrow> times" where
  "set_times k ts m = (if ts = [] then m(k := None) else m(k \<mapsto> ts))"

text \<open>The loop of \<open>maybeSweep\<close> over one map.\<close>

definition sweep :: "gotime \<Rightarrow> times \<Rightarrow> times" where
  "sweep cutoff m = (\<lambda>k. case m k of None \<Rightarrow> None | Some ts \<Rightarrow> (let ts' = prune ts cutoff in if ts' = [] then None else Some ts'))"

lemma prune_Nil [simp]: "prune [] c = []"
  by (simp add: prune_def)

lemma hits_simps [simp]:
  "hits (\<lambda>_. None) k = []"
  "hits (m(k \<mapsto> ts)) j = (if j = k then ts else hits m j)"
  "hits (m(k := None)) j = (if j = k then [] else hits m j)"
  "hits (set_times k ts m) j = (if j = k then ts else hits m j)"
  "hits (sweep c m) j = prune (hits m j) c"
  by (simp_all add: hits_def set_times_def sweep_def Let_def split: option.split)

lemma prune_filter:
  assumes "sorted ts"
  shows "prune ts c = filter (\<lambda>t. c < t) ts"
  using assms
proof (induction ts)
  case (Cons t ts)
  show ?case
  proof (cases "t \<le> c")
    case True
    with Cons show ?thesis by (simp add: prune_def)
  next
    case False
    with Cons.prems have "filter (\<lambda>x. c < x) ts = ts" by (intro filter_True) auto
    with False show ?thesis by (simp add: prune_def)
  qed
qed (simp add: prune_def)

lemma sorted_filter_times: "sorted ts \<Longrightarrow> sorted (filter P (ts :: gotime list))"
  by (rule sorted_wrt_filter)

lemma sorted_prune: "sorted ts \<Longrightarrow> sorted (prune ts c)"
  by (simp add: prune_filter sorted_filter_times)

section \<open>Sliding windows\<close>

text \<open>
  A map of times \<open>tracks\<close> a history (every time granted so far, per key) at time \<open>now\<close>
  when it agrees with the history on the window that ends now.  Pruning, sweeping and
  time passing keep that, whatever was forgotten lies outside the window for good.
\<close>

locale sliding =
  fixes W :: int
  assumes W_pos: "0 < W"
begin

definition recent :: "gotime list \<Rightarrow> gotime \<Rightarrow> gotime list" where
  "recent ts now = filter (\<lambda>t. now - W < t) ts"

definition tracks :: "times \<Rightarrow> (string \<Rightarrow> gotime list) \<Rightarrow> gotime \<Rightarrow> bool" where
  "tracks m H now \<longleftrightarrow> (\<forall>k. sorted (hits m k) \<and> sorted (H k) \<and> (\<forall>t\<in>set (H k). t \<le> now) \<and> (\<forall>t\<in>set (hits m k). t \<le> now)
     \<and> recent (hits m k) now = recent (H k) now)"

lemma recent_later: "now \<le> now' \<Longrightarrow> recent (recent ts now) now' = recent ts now'"
  by (simp add: recent_def) (rule filter_cong, auto)

lemma tracks_start: "tracks (\<lambda>_. None) (\<lambda>_. []) now"
  by (simp add: tracks_def)

lemma tracks_later:
  assumes "tracks m H now" and "now \<le> now'"
  shows "tracks m H now'"
proof -
  have "recent (hits m k) now' = recent (H k) now'" for k
    using assms recent_later [OF assms(2), of "hits m k"] recent_later [OF assms(2), of "H k"] by (simp add: tracks_def)
  with assms show ?thesis by (force simp: tracks_def)
qed

lemma tracks_prune: "tracks m H now \<Longrightarrow> prune (hits m k) (now - W) = recent (H k) now"
  by (metis prune_filter recent_def tracks_def)

lemma tracks_sweep: "tracks m H now \<Longrightarrow> tracks (sweep (now - W) m) H now"
  by (auto simp: tracks_def tracks_prune sorted_prune recent_def prune_filter sorted_filter_times)

lemma tracks_store:
  assumes "tracks m H now" and "hits m' = (hits m)(k := recent (H k) now)"
  shows "tracks m' H now"
  using assms by (auto simp: tracks_def recent_def sorted_filter_times)

lemma tracks_grant:
  assumes "tracks m H now" and "hits m' = (hits m)(k := recent (H k) now @ [now])"
  shows "tracks m' (H(k := H k @ [now])) now"
  using assms by (auto simp: tracks_def recent_def sorted_append sorted_filter_times)

text \<open>Never more than \<open>n\<close> times in any window.\<close>

definition at_most :: "nat \<Rightarrow> gotime list \<Rightarrow> bool" where
  "at_most n ts \<longleftrightarrow> (\<forall>w. length (filter (\<lambda>t. w - W < t \<and> t \<le> w) ts) \<le> n)"

lemma at_most_Nil [simp]: "at_most n []"
  by (simp add: at_most_def)

lemma at_most_grant:
  assumes "at_most n ts" and "\<forall>t\<in>set ts. t \<le> now" and "length (recent ts now) < n"
  shows "at_most n (ts @ [now])"
  unfolding at_most_def
proof
  fix w
  show "length (filter (\<lambda>t. w - W < t \<and> t \<le> w) (ts @ [now])) \<le> n"
  proof (cases "now \<le> w")
    case True
    then have "\<And>t. w - W < t \<Longrightarrow> now - W < t" by simp
    then have "filter (\<lambda>t. w - W < t \<and> t \<le> w) ts = filter (\<lambda>t. w - W < t \<and> t \<le> w) (recent ts now)"
      by (auto simp: recent_def intro!: filter_cong)
    then have "length (filter (\<lambda>t. w - W < t \<and> t \<le> w) ts) \<le> length (recent ts now)" by simp
    with assms(3) show ?thesis by auto
  next
    case False
    with assms(1) show ?thesis by (simp add: at_most_def)
  qed
qed

lemma recent_Nil: "\<forall>t\<in>set ts. t + W \<le> now \<Longrightarrow> recent ts now = []"
  by (force simp: recent_def filter_empty_conv)

lemma recent_append [simp]: "recent (ts @ ts') now = recent ts now @ recent ts' now"
  by (simp add: recent_def)

lemma recent_now [simp]: "recent [now] now = [now]" "recent [] now = []"
  using W_pos by (simp_all add: recent_def)

end

section \<open>One-time codes: \<open>OTPLimiter\<close>\<close>

definition otp_phone_cooldown :: int where "otp_phone_cooldown = 60 * second"
definition otp_phone_window :: int where "otp_phone_window = hour"
definition otp_phone_max :: nat where "otp_phone_max = 5"
definition otp_ip_window :: int where "otp_ip_window = hour"
definition otp_ip_max :: nat where "otp_ip_max = 20"
definition otp_verify_window :: int where "otp_verify_window = 10 * minute"
definition otp_verify_max :: nat where "otp_verify_max = 30"
definition otp_sweep_every :: "64 word" where "otp_sweep_every = 64"

record otp_limiter =
  ol_phone :: times
  ol_ip :: times
  ol_verify :: times
  ol_calls :: "64 word"

definition new_otp_limiter :: otp_limiter where
  "new_otp_limiter = \<lparr>ol_phone = Map.empty, ol_ip = Map.empty, ol_verify = Map.empty, ol_calls = 0\<rparr>"

definition otp_maybe_sweep :: "gotime \<Rightarrow> otp_limiter \<Rightarrow> otp_limiter" where
  "otp_maybe_sweep now l0 =
     (let l = l0\<lparr>ol_calls := ol_calls l0 + 1\<rparr>
      in if ol_calls l mod otp_sweep_every \<noteq> 0 then l
         else l\<lparr>ol_ip := sweep (now - otp_ip_window) (ol_ip l), ol_phone := sweep (now - otp_phone_window) (ol_phone l),
                ol_verify := sweep (now - otp_verify_window) (ol_verify l)\<rparr>)"

definition ceil_seconds :: "int \<Rightarrow> int" where
  "ceil_seconds d = (if d \<le> 0 then 0 else (d + second - 1) sdiv second * second)"

text \<open>\<open>Allow\<close>: \<open>Inl\<close> the time to wait, or \<open>Inr\<close> granted.\<close>

definition otp_allow :: "string \<Rightarrow> string \<Rightarrow> gotime \<Rightarrow> otp_limiter \<Rightarrow> (int + unit) \<times> otp_limiter" where
  "otp_allow phone ip now l0 =
     (let l = otp_maybe_sweep now l0;
          ip_hits = prune (hits (ol_ip l) ip) (now - otp_ip_window)
      in if otp_ip_max \<le> length ip_hits
         then (Inl (ceil_seconds (hd ip_hits + otp_ip_window - now)), l\<lparr>ol_ip := (ol_ip l)(ip \<mapsto> ip_hits)\<rparr>)
         else let phone_hits = prune (hits (ol_phone l) phone) (now - otp_phone_window);
                  wait = last phone_hits + otp_phone_cooldown - now
              in if phone_hits \<noteq> [] \<and> 0 < wait
                 then (Inl (ceil_seconds wait), l\<lparr>ol_phone := (ol_phone l)(phone \<mapsto> phone_hits)\<rparr>)
                 else if phone_hits \<noteq> [] \<and> otp_phone_max \<le> length phone_hits
                 then (Inl (ceil_seconds (hd phone_hits + otp_phone_window - now)), l\<lparr>ol_phone := (ol_phone l)(phone \<mapsto> phone_hits)\<rparr>)
                 else (Inr (), l\<lparr>ol_ip := (ol_ip l)(ip \<mapsto> ip_hits @ [now]), ol_phone := (ol_phone l)(phone \<mapsto> phone_hits @ [now])\<rparr>))"

definition otp_allow_verify :: "string \<Rightarrow> gotime \<Rightarrow> otp_limiter \<Rightarrow> (int + unit) \<times> otp_limiter" where
  "otp_allow_verify ip now l0 =
     (let l = otp_maybe_sweep now l0;
          hs = prune (hits (ol_verify l) ip) (now - otp_verify_window)
      in if otp_verify_max \<le> length hs
         then (Inl (ceil_seconds (hd hs + otp_verify_window - now)), l\<lparr>ol_verify := (ol_verify l)(ip \<mapsto> hs)\<rparr>)
         else (Inr (), l\<lparr>ol_verify := (ol_verify l)(ip \<mapsto> hs @ [now])\<rparr>))"

interpretation phone_window: sliding otp_phone_window
  by unfold_locales (simp add: otp_phone_window_def time_units)

interpretation otp_ip_window: sliding otp_ip_window
  by unfold_locales (simp add: otp_ip_window_def time_units)

interpretation verify_window: sliding otp_verify_window
  by unfold_locales (simp add: otp_verify_window_def time_units)

section \<open>Staff logins: \<open>LoginLimiter\<close>\<close>

definition ip_window :: int where "ip_window = minute"
definition ip_max_attempts :: nat where "ip_max_attempts = 20"
definition failure_window :: int where "failure_window = 15 * minute"
definition max_failures :: nat where "max_failures = 5"
definition lock_duration :: int where "lock_duration = 15 * minute"
definition sweep_every :: "64 word" where "sweep_every = 64"

record login_limiter =
  ll_ip_hits :: times
  ll_failures :: times
  ll_locked :: "string \<rightharpoonup> gotime"
  ll_in_flight :: "string \<rightharpoonup> int"
  ll_calls :: "64 word"

definition new_login_limiter :: login_limiter where
  "new_login_limiter = \<lparr>ll_ip_hits = Map.empty, ll_failures = Map.empty, ll_locked = Map.empty, ll_in_flight = Map.empty, ll_calls = 0\<rparr>"

definition login_maybe_sweep :: "gotime \<Rightarrow> login_limiter \<Rightarrow> login_limiter" where
  "login_maybe_sweep now l0 =
     (let l = l0\<lparr>ll_calls := ll_calls l0 + 1\<rparr>
      in if ll_calls l mod sweep_every \<noteq> 0 then l
         else l\<lparr>ll_ip_hits := sweep (now - ip_window) (ll_ip_hits l),
                ll_failures := sweep (now - failure_window) (ll_failures l),
                ll_locked := (\<lambda>u. case ll_locked l u of None \<Rightarrow> None | Some until \<Rightarrow> if now < until then Some until else None)\<rparr>)"

definition allow_ip :: "string \<Rightarrow> gotime \<Rightarrow> login_limiter \<Rightarrow> bool \<times> login_limiter" where
  "allow_ip ip now l0 =
     (let l = login_maybe_sweep now l0;
          hs = prune (hits (ll_ip_hits l) ip) (now - ip_window)
      in if ip_max_attempts \<le> length hs
         then (False, l\<lparr>ll_ip_hits := set_times ip hs (ll_ip_hits l)\<rparr>)
         else (True, l\<lparr>ll_ip_hits := (ll_ip_hits l)(ip \<mapsto> hs @ [now])\<rparr>))"

definition is_locked :: "string \<Rightarrow> gotime \<Rightarrow> login_limiter \<Rightarrow> bool \<times> login_limiter" where
  "is_locked u now l =
     (case ll_locked l u of
        None \<Rightarrow> (False, l)
      | Some until \<Rightarrow> if now < until then (True, l) else (False, l\<lparr>ll_locked := (ll_locked l)(u := None)\<rparr>))"

definition in_flight :: "login_limiter \<Rightarrow> string \<Rightarrow> int" where
  "in_flight l u = (case ll_in_flight l u of None \<Rightarrow> 0 | Some n \<Rightarrow> n)"

definition begin_attempt :: "string \<Rightarrow> gotime \<Rightarrow> login_limiter \<Rightarrow> bool \<times> login_limiter" where
  "begin_attempt u now l0 =
     (let l = login_maybe_sweep now l0
      in if (case ll_locked l u of None \<Rightarrow> False | Some until \<Rightarrow> now < until) then (False, l)
         else let l1 = l\<lparr>ll_locked := (ll_locked l)(u := None)\<rparr>;
                  fs = prune (hits (ll_failures l1) u) (now - failure_window);
                  l2 = l1\<lparr>ll_failures := set_times u fs (ll_failures l1)\<rparr>
              in if int max_failures \<le> int (length fs) + in_flight l2 u then (False, l2)
                 else (True, l2\<lparr>ll_in_flight := (ll_in_flight l2)(u \<mapsto> in_flight l2 u + 1)\<rparr>))"

definition release_in_flight :: "string \<Rightarrow> login_limiter \<Rightarrow> login_limiter" where
  "release_in_flight u l =
     (case ll_in_flight l u of
        None \<Rightarrow> l
      | Some n \<Rightarrow> if n \<le> 1 then l\<lparr>ll_in_flight := (ll_in_flight l)(u := None)\<rparr>
                  else l\<lparr>ll_in_flight := (ll_in_flight l)(u \<mapsto> n - 1)\<rparr>)"

definition login_failure :: "string \<Rightarrow> gotime \<Rightarrow> login_limiter \<Rightarrow> login_limiter" where
  "login_failure u now l0 =
     (let l = release_in_flight u l0;
          fs = prune (hits (ll_failures l) u) (now - failure_window) @ [now]
      in if max_failures \<le> length fs
         then l\<lparr>ll_locked := (ll_locked l)(u \<mapsto> now + lock_duration), ll_failures := (ll_failures l)(u := None)\<rparr>
         else l\<lparr>ll_failures := (ll_failures l)(u \<mapsto> fs)\<rparr>)"

definition login_success :: "string \<Rightarrow> login_limiter \<Rightarrow> login_limiter" where
  "login_success u l0 =
     (let l = release_in_flight u l0
      in l\<lparr>ll_failures := (ll_failures l)(u := None), ll_locked := (ll_locked l)(u := None)\<rparr>)"

definition login_release :: "string \<Rightarrow> login_limiter \<Rightarrow> login_limiter" where
  "login_release u l = release_in_flight u l"

interpretation failure_window: sliding failure_window
  by unfold_locales (simp add: failure_window_def time_units)

interpretation ip_window: sliding ip_window
  by unfold_locales (simp add: ip_window_def time_units)

section \<open>What the code limiter guarantees\<close>

text \<open>
  All runs of the limiter: the histories hold the times granted so far, per phone number,
  per address and per address verifying; the clock never goes back.
\<close>

inductive otp_run :: "gotime \<Rightarrow> otp_limiter \<Rightarrow> (string \<Rightarrow> gotime list) \<Rightarrow> (string \<Rightarrow> gotime list) \<Rightarrow> (string \<Rightarrow> gotime list) \<Rightarrow> bool" where
  fresh: "otp_run t new_otp_limiter (\<lambda>_. []) (\<lambda>_. []) (\<lambda>_. [])"
| code_sent: "otp_run t l P I V \<Longrightarrow> t \<le> now \<Longrightarrow> otp_allow phone ip now l = (Inr (), l') \<Longrightarrow>
     otp_run now l' (P(phone := P phone @ [now])) (I(ip := I ip @ [now])) V"
| code_refused: "otp_run t l P I V \<Longrightarrow> t \<le> now \<Longrightarrow> otp_allow phone ip now l = (Inl w, l') \<Longrightarrow> otp_run now l' P I V"
| verified: "otp_run t l P I V \<Longrightarrow> t \<le> now \<Longrightarrow> otp_allow_verify ip now l = (Inr (), l') \<Longrightarrow>
     otp_run now l' P I (V(ip := V ip @ [now]))"
| verify_refused: "otp_run t l P I V \<Longrightarrow> t \<le> now \<Longrightarrow> otp_allow_verify ip now l = (Inl w, l') \<Longrightarrow> otp_run now l' P I V"

definition otp_tracks :: "gotime \<Rightarrow> otp_limiter \<Rightarrow> (string \<Rightarrow> gotime list) \<Rightarrow> (string \<Rightarrow> gotime list) \<Rightarrow> (string \<Rightarrow> gotime list) \<Rightarrow> bool" where
  "otp_tracks t l P I V \<longleftrightarrow> phone_window.tracks (ol_phone l) P t \<and> otp_ip_window.tracks (ol_ip l) I t \<and> verify_window.tracks (ol_verify l) V t"

lemma otp_tracks_sweep:
  assumes "otp_tracks t l P I V" and "t \<le> now"
  shows "otp_tracks now (otp_maybe_sweep now l) P I V"
  using assms phone_window.tracks_later [OF _ assms(2)] otp_ip_window.tracks_later [OF _ assms(2)] verify_window.tracks_later [OF _ assms(2)]
    phone_window.tracks_sweep otp_ip_window.tracks_sweep verify_window.tracks_sweep
  by (simp add: otp_tracks_def otp_maybe_sweep_def Let_def)

lemma hits_upd: "hits (m(k \<mapsto> ts)) = (hits m)(k := ts)" "hits (m(k := None)) = (hits m)(k := [])"
  "hits (set_times k ts m) = (hits m)(k := ts)"
  by (simp_all add: fun_eq_iff)

text \<open>The decision depends on the histories alone.\<close>

lemma otp_allow_spec:
  assumes "otp_tracks t l P I V" and "t \<le> now" and "otp_allow phone ip now l = (r, l')"
  shows "r = Inr () \<longleftrightarrow> length (otp_ip_window.recent (I ip) now) < otp_ip_max
      \<and> (let ps = phone_window.recent (P phone) now in ps = [] \<or> last ps + otp_phone_cooldown \<le> now \<and> length ps < otp_phone_max)"
    and "otp_tracks now l' (if r = Inr () then P(phone := P phone @ [now]) else P) (if r = Inr () then I(ip := I ip @ [now]) else I) V"
proof -
  let ?m = "otp_maybe_sweep now l"
  let ?ps = "phone_window.recent (P phone) now" and ?is = "otp_ip_window.recent (I ip) now"
  have tr: "otp_tracks now ?m P I V" by (rule otp_tracks_sweep [OF assms(1,2)])
  then have ps: "prune (hits (ol_phone ?m) phone) (now - otp_phone_window) = ?ps"
    and hs: "prune (hits (ol_ip ?m) ip) (now - otp_ip_window) = ?is"
    by (simp_all add: otp_tracks_def phone_window.tracks_prune otp_ip_window.tracks_prune)
  note run = assms(3) [unfolded otp_allow_def Let_def ps hs]
  show "r = Inr () \<longleftrightarrow> length ?is < otp_ip_max
      \<and> (let ps = ?ps in ps = [] \<or> last ps + otp_phone_cooldown \<le> now \<and> length ps < otp_phone_max)"
    using run by (auto simp: Let_def not_le split: if_splits)
  show "otp_tracks now l' (if r = Inr () then P(phone := P phone @ [now]) else P) (if r = Inr () then I(ip := I ip @ [now]) else I) V"
    using run tr unfolding otp_tracks_def
    by (auto simp: hits_upd phone_window.tracks_store otp_ip_window.tracks_store phone_window.tracks_grant otp_ip_window.tracks_grant split: if_splits)
qed

lemma otp_allow_verify_spec:
  assumes "otp_tracks t l P I V" and "t \<le> now" and "otp_allow_verify ip now l = (r, l')"
  shows "r = Inr () \<longleftrightarrow> length (verify_window.recent (V ip) now) < otp_verify_max"
    and "otp_tracks now l' P I (if r = Inr () then V(ip := V ip @ [now]) else V)"
proof -
  let ?m = "otp_maybe_sweep now l" and ?hs = "verify_window.recent (V ip) now"
  have tr: "otp_tracks now ?m P I V" by (rule otp_tracks_sweep [OF assms(1,2)])
  then have hs: "prune (hits (ol_verify ?m) ip) (now - otp_verify_window) = ?hs"
    by (simp add: otp_tracks_def verify_window.tracks_prune)
  note run = assms(3) [unfolded otp_allow_verify_def Let_def hs]
  show "r = Inr () \<longleftrightarrow> length ?hs < otp_verify_max" using run by (auto split: if_splits)
  show "otp_tracks now l' P I (if r = Inr () then V(ip := V ip @ [now]) else V)"
    using run tr unfolding otp_tracks_def
    by (auto simp: hits_upd verify_window.tracks_store verify_window.tracks_grant split: if_splits)
qed

lemma otp_run_tracks: "otp_run t l P I V \<Longrightarrow> otp_tracks t l P I V"
proof (induction rule: otp_run.induct)
  case (fresh t)
  show ?case
    using phone_window.tracks_start otp_ip_window.tracks_start verify_window.tracks_start
    by (simp add: otp_tracks_def new_otp_limiter_def)
next
  case (code_sent t l P I V now phone ip l')
  from otp_allow_spec(2) [OF code_sent.IH code_sent.hyps(2,3)] show ?case by (simp only: simp_thms if_True)
next
  case (code_refused t l P I V now phone ip w l')
  from otp_allow_spec(2) [OF code_refused.IH code_refused.hyps(2,3)] show ?case by (simp only: sum.distinct if_False)
next
  case (verified t l P I V now ip l')
  from otp_allow_verify_spec(2) [OF verified.IH verified.hyps(2,3)] show ?case by (simp only: simp_thms if_True)
next
  case (verify_refused t l P I V now ip w l')
  from otp_allow_verify_spec(2) [OF verify_refused.IH verify_refused.hyps(2,3)] show ?case by (simp only: sum.distinct if_False)
qed

lemma sorted_le_last: "sorted ts \<Longrightarrow> t \<in> set ts \<Longrightarrow> t \<le> last (ts :: gotime list)"
  by (induction ts) auto

text \<open>Granted times of a phone are at least the cool-down apart.\<close>

definition spaced :: "int \<Rightarrow> gotime list \<Rightarrow> bool" where
  "spaced d ts \<longleftrightarrow> sorted_wrt (\<lambda>a b. a + d \<le> b) ts"

text \<open>C33: However requests for codes are mixed, swept and repeated, no phone number is sent more than five codes in any
  hour nor two within a minute, no address causes more than twenty codes in any hour, and none can try more than thirty
  codes in any ten minutes.\<close>

theorem code_requests_bounded:
  assumes "otp_run t l P I V"
  shows "phone_window.at_most 5 (P phone) \<and> spaced (60 * second) (P phone) \<and> otp_ip_window.at_most 20 (I ip) \<and> verify_window.at_most 30 (V ip)"
  using assms
proof (induction arbitrary: phone ip rule: otp_run.induct)
  case (fresh t)
  show ?case by (simp add: spaced_def)
next
  case (code_sent t l P I V now p i l')
  note tr = otp_tracks_sweep [OF otp_run_tracks [OF code_sent.hyps(1)] code_sent.hyps(2)]
  then have le: "\<forall>x\<in>set (P p). x \<le> now" "\<forall>x\<in>set (I i). x \<le> now" "sorted (P p)"
    by (auto simp: otp_tracks_def phone_window.tracks_def otp_ip_window.tracks_def)
  from otp_allow_spec(1) [OF otp_run_tracks [OF code_sent.hyps(1)] code_sent.hyps(2,3)]
  have ok: "length (otp_ip_window.recent (I i) now) < 20"
    "phone_window.recent (P p) now = [] \<or> last (phone_window.recent (P p) now) + 60 * second \<le> now \<and> length (phone_window.recent (P p) now) < 5"
    by (simp_all add: otp_ip_max_def otp_phone_max_def otp_phone_cooldown_def Let_def)
  have "x + 60 * second \<le> now" if x: "x \<in> set (P p)" for x
  proof (cases "x \<in> set (phone_window.recent (P p) now)")
    case True
    then have "x \<le> last (phone_window.recent (P p) now)" 
      using le(3) by (intro sorted_le_last) (simp_all add: phone_window.recent_def sorted_filter_times)
    with ok(2) True show ?thesis by auto
  next
    case False
    with x have "\<not> now - otp_phone_window < x" by (simp add: phone_window.recent_def)
    then show ?thesis by (simp add: otp_phone_window_def time_units)
  qed
  with code_sent.IH [of p i] have "spaced (60 * second) (P p @ [now])" by (simp add: spaced_def sorted_wrt_append)
  moreover have "phone_window.at_most 5 (P p @ [now])" "otp_ip_window.at_most 20 (I i @ [now])"
    using code_sent.IH [of p i] le ok by (auto intro!: phone_window.at_most_grant otp_ip_window.at_most_grant)
  ultimately show ?case using code_sent.IH [of phone ip] by simp
next
  case (verified t l P I V now i l')
  note tr = otp_tracks_sweep [OF otp_run_tracks [OF verified.hyps(1)] verified.hyps(2)]
  then have le: "\<forall>x\<in>set (V i). x \<le> now" by (auto simp: otp_tracks_def verify_window.tracks_def)
  from otp_allow_verify_spec(1) [OF otp_run_tracks [OF verified.hyps(1)] verified.hyps(2,3)]
  have "length (verify_window.recent (V i) now) < 30" by (simp add: otp_verify_max_def)
  with le verified.IH [of phone i] have "verify_window.at_most 30 (V i @ [now])" by (auto intro!: verify_window.at_most_grant)
  with verified.IH [of phone ip] show ?case by simp
qed simp_all


definition sample_otp_calls :: "otp_limiter" where
  "sample_otp_calls = snd (otp_allow ''+855'' ''ip'' 0 new_otp_limiter)"

lemma code_requests_bounded_witness:
  "\<exists>l P I V. otp_run (60 * second) l P I V \<and> P ''+855'' = [0, 60 * second] \<and> spaced (60 * second) (P ''+855'')"
proof -
  let ?now = "60 * second"
  let ?l = "snd (otp_allow ''+855'' ''ip'' ?now sample_otp_calls)"
  have g: "fst (otp_allow ''+855'' ''ip'' 0 new_otp_limiter) = Inr ()" "fst (otp_allow ''+855'' ''ip'' ?now sample_otp_calls) = Inr ()"
    by code_simp+
  have "otp_allow ''+855'' ''ip'' 0 new_otp_limiter = (Inr (), sample_otp_calls)" using g(1) by (simp add: sample_otp_calls_def prod_eq_iff)
  from code_sent [OF fresh _ this, of 0] have r: "otp_run 0 sample_otp_calls ((\<lambda>_. [])(''+855'' := [0])) ((\<lambda>_. [])(''ip'' := [0])) (\<lambda>_. [])" by simp
  have "otp_allow ''+855'' ''ip'' ?now sample_otp_calls = (Inr (), ?l)" using g(2) by (simp add: prod_eq_iff)
  from code_sent [OF r _ this] have r2: "otp_run ?now ?l ((\<lambda>_. [])(''+855'' := [0, ?now])) ((\<lambda>_. [])(''ip'' := [0, ?now])) (\<lambda>_. [])"
    by (simp add: time_units)
  from code_requests_bounded [OF r2, of "''+855''"] have "spaced ?now (((\<lambda>_. [])(''+855'' := [0, ?now])) ''+855'')" by blast
  with r2 show ?thesis by (intro exI conjI) (assumption, simp_all)
qed

section \<open>What the login limiter guarantees\<close>

text \<open>
  All interleavings of concurrent logins: \<open>F u\<close> are the failures of a user name since its last success, \<open>A u\<close> the
  attempts begun and not yet ended; an attempt that was granted ends once, as failure, success or release.
\<close>

inductive login_run :: "gotime \<Rightarrow> login_limiter \<Rightarrow> (string \<Rightarrow> gotime list) \<Rightarrow> (string \<Rightarrow> nat) \<Rightarrow> bool" where
  idle: "login_run t new_login_limiter (\<lambda>_. []) (\<lambda>_. 0)"
| counted: "login_run t l F A \<Longrightarrow> t \<le> now \<Longrightarrow> allow_ip ip now l = (b, l') \<Longrightarrow> login_run now l' F A"
| asked: "login_run t l F A \<Longrightarrow> t \<le> now \<Longrightarrow> is_locked u now l = (b, l') \<Longrightarrow> login_run now l' F A"
| begun: "login_run t l F A \<Longrightarrow> t \<le> now \<Longrightarrow> begin_attempt u now l = (True, l') \<Longrightarrow> login_run now l' F (A(u := A u + 1))"
| refused: "login_run t l F A \<Longrightarrow> t \<le> now \<Longrightarrow> begin_attempt u now l = (False, l') \<Longrightarrow> login_run now l' F A"
| failed: "login_run t l F A \<Longrightarrow> t \<le> now \<Longrightarrow> 0 < A u \<Longrightarrow> login_run now (login_failure u now l) (F(u := F u @ [now])) (A(u := A u - 1))"
| succeeded: "login_run t l F A \<Longrightarrow> 0 < A u \<Longrightarrow> login_run t (login_success u l) (F(u := [])) (A(u := A u - 1))"
| gave_up: "login_run t l F A \<Longrightarrow> 0 < A u \<Longrightarrow> login_run t (login_release u l) F (A(u := A u - 1))"

text \<open>
  The invariant, for one user name: what the maps hold for it (the failures \<open>fs\<close>, the lock, the attempts in flight)
  against its history.  While it is locked no attempt is open, and the lock ends a window after the last failure, the
  fifth in a window; otherwise the failures kept are the recent ones, with the open attempts at most five, and the lock
  of every fifth failure is over.
\<close>

definition fifth_failure :: "gotime list \<Rightarrow> gotime \<Rightarrow> bool" where
  "fifth_failure F f \<longleftrightarrow> f \<in> set F \<and> 5 \<le> length (filter (\<lambda>x. f - failure_window < x \<and> x \<le> f) F)"

lemma fifth_failure_Nil [simp]: "\<not> fifth_failure [] f"
  by (simp add: fifth_failure_def)

lemma filter_recent: "\<forall>x\<in>set F. x \<le> now \<Longrightarrow> filter (\<lambda>x. now - failure_window < x \<and> x \<le> now) F = failure_window.recent F now"
  by (auto simp: failure_window.recent_def intro!: filter_cong)

lemma fifth_failure_now:
  assumes "\<forall>x\<in>set F. x \<le> now"
  shows "fifth_failure (F @ [now]) now \<longleftrightarrow> 5 \<le> length (failure_window.recent F now @ [now])"
  using filter_recent [OF assms] by (simp add: fifth_failure_def failure_window_def time_units)

lemma fifth_failure_before:
  assumes "\<forall>x\<in>set F. x \<le> now" and "f \<noteq> now"
  shows "fifth_failure (F @ [now]) f \<longleftrightarrow> fifth_failure F f"
  using assms by (auto simp: fifth_failure_def)

definition user_ok :: "gotime \<Rightarrow> gotime list \<Rightarrow> gotime option \<Rightarrow> int option \<Rightarrow> gotime list \<Rightarrow> nat \<Rightarrow> bool" where
  "user_ok now fs lock fl F a \<longleftrightarrow> fl = (if a = 0 then None else Some (int a)) \<and> failure_window.at_most 5 F
     \<and> sorted fs \<and> (\<forall>x\<in>set F. x \<le> now)
     \<and> (case lock of
          Some until \<Rightarrow> a = 0 \<and> fs = [] \<and> fifth_failure F (until - lock_duration) \<and> (\<forall>x\<in>set F. x + failure_window \<le> until)
        | None \<Rightarrow> (\<forall>x\<in>set fs. x \<le> now) \<and> (\<forall>f. fifth_failure F f \<longrightarrow> f + lock_duration \<le> now) \<and> failure_window.recent fs now = failure_window.recent F now
            \<and> length (failure_window.recent F now) + a \<le> 5)"

lemma user_ok_later:
  assumes "user_ok t fs lock fl F a" and "t \<le> now"
  shows "user_ok now fs lock fl F a"
proof -
  have r: "failure_window.recent xs now = failure_window.recent (failure_window.recent xs t) now" for xs
    by (rule failure_window.recent_later [OF assms(2), symmetric])
  have "length (failure_window.recent F now) \<le> length (failure_window.recent F t)"
    by (subst r) (simp add: failure_window.recent_def [of "failure_window.recent F t"])
  then have n: "length (failure_window.recent F t) + a \<le> 5 \<Longrightarrow> length (failure_window.recent F now) + a \<le> 5" by linarith
  have rr: "failure_window.recent fs t = failure_window.recent F t \<Longrightarrow> failure_window.recent fs now = failure_window.recent F now"
    using r [of fs] r [of F] by simp
  have le: "\<forall>x\<in>set xs. x \<le> t \<Longrightarrow> \<forall>x\<in>set xs. x \<le> now" for xs using assms(2) by fastforce
  have lk: "\<forall>f. fifth_failure F f \<longrightarrow> f + lock_duration \<le> t \<Longrightarrow> \<forall>f. fifth_failure F f \<longrightarrow> f + lock_duration \<le> now"
    using assms(2) by fastforce
  note ok = assms(1) [unfolded user_ok_def]
  show ?thesis
  proof (cases lock)
    case None
    note k = ok [unfolded None option.case]
    from k have "\<forall>x\<in>set F. x \<le> now" "\<forall>x\<in>set fs. x \<le> now" "failure_window.recent fs now = failure_window.recent F now"
      "length (failure_window.recent F now) + a \<le> 5" "\<forall>f. fifth_failure F f \<longrightarrow> f + lock_duration \<le> now"
      using le [of F] le [of fs] rr n lk by simp_all
    with k show ?thesis unfolding user_ok_def None option.case by simp
  next
    case (Some until)
    note k = ok [unfolded Some option.case]
    from k have "\<forall>x\<in>set F. x \<le> now" using le [of F] by simp
    with k show ?thesis unfolding user_ok_def Some option.case by simp
  qed
qed

lemma user_ok_unlock:
  assumes "user_ok now fs (Some until) fl F a" and "until \<le> now"
  shows "user_ok now fs None fl F a"
proof -
  note k = assms(1) [unfolded user_ok_def option.case]
  from k assms(2) have F: "\<forall>x\<in>set F. x + failure_window \<le> now" by fastforce
  then have "\<forall>f. fifth_failure F f \<longrightarrow> f + lock_duration \<le> now"
    by (simp add: fifth_failure_def lock_duration_def failure_window_def)
  with k failure_window.recent_Nil [OF F] show ?thesis by (simp add: user_ok_def)
qed

lemma user_ok_prune:
  assumes "user_ok now fs lock fl F a"
  shows "user_ok now (prune fs (now - failure_window)) lock fl F a"
proof -
  from assms have "sorted (filter (\<lambda>t. now - failure_window < t) fs)" by (simp add: user_ok_def sorted_filter_times)
  with assms show ?thesis by (cases lock) (auto simp: user_ok_def prune_filter failure_window.recent_def)
qed

lemma user_ok_pruned: "user_ok now fs None fl F a \<Longrightarrow> prune fs (now - failure_window) = failure_window.recent F now"
  by (simp add: user_ok_def prune_filter failure_window.recent_def)

lemma user_ok_begin:
  assumes "user_ok now fs None fl F a" and "length (failure_window.recent F now) + a < 5"
  shows "user_ok now fs None (Some (int (a + 1))) F (a + 1)"
  using assms by (auto simp: user_ok_def)

lemma user_ok_open: "user_ok now fs lock fl F a \<Longrightarrow> 0 < a \<Longrightarrow> lock = None"
  by (cases lock) (auto simp: user_ok_def)

lemma user_ok_end: "user_ok now fs None fl F a \<Longrightarrow> 0 < a \<Longrightarrow> user_ok now fs None (if a - 1 = 0 then None else Some (int (a - 1))) F (a - 1)"
  by (auto simp: user_ok_def)

lemma user_ok_fail:
  assumes "user_ok now fs None fl F a" and "0 < a"
  shows "5 \<le> length (failure_window.recent F now @ [now]) \<Longrightarrow>
      user_ok now [] (Some (now + lock_duration)) (if a - 1 = 0 then None else Some (int (a - 1))) (F @ [now]) (a - 1)"
    and "\<not> 5 \<le> length (failure_window.recent F now @ [now]) \<Longrightarrow>
      user_ok now (failure_window.recent F now @ [now]) None (if a - 1 = 0 then None else Some (int (a - 1))) (F @ [now]) (a - 1)"
proof -
  from assms have len: "length (failure_window.recent F now) + a \<le> 5" and F: "\<forall>x\<in>set F. x \<le> now" "failure_window.at_most 5 F"
    and s: "sorted (failure_window.recent F now)"
    by (auto simp: user_ok_def prune_filter simp flip: user_ok_pruned [OF assms(1)] intro: sorted_filter_times)
  with assms(2) have am: "failure_window.at_most 5 (F @ [now])" by (intro failure_window.at_most_grant) auto
  have idem: "failure_window.recent (failure_window.recent F now) now = failure_window.recent F now"
    by (simp add: failure_window.recent_def)
  have sub: "\<forall>x\<in>set (failure_window.recent F now). x \<le> now" using F by (simp add: failure_window.recent_def)
  show "user_ok now [] (Some (now + lock_duration)) (if a - 1 = 0 then None else Some (int (a - 1))) (F @ [now]) (a - 1)"
    if "5 \<le> length (failure_window.recent F now @ [now])"
    using that len am F assms(2) fifth_failure_now [OF F(1)]
    by (auto simp: user_ok_def lock_duration_def failure_window_def)
  show "user_ok now (failure_window.recent F now @ [now]) None (if a - 1 = 0 then None else Some (int (a - 1))) (F @ [now]) (a - 1)"
    if "\<not> 5 \<le> length (failure_window.recent F now @ [now])"
  proof -
    have old: "\<forall>f. fifth_failure F f \<longrightarrow> f + lock_duration \<le> now" using assms(1) by (simp add: user_ok_def)
    have "f + lock_duration \<le> now" if "fifth_failure (F @ [now]) f" for f
      using that old fifth_failure_now [OF F(1)] fifth_failure_before [OF F(1), of f] \<open>\<not> 5 \<le> length (failure_window.recent F now @ [now])\<close>
      by (cases "f = now") simp_all
    then show ?thesis using that len am F s sub idem assms(2) by (auto simp: user_ok_def sorted_append)
  qed
qed

definition login_ok :: "gotime \<Rightarrow> login_limiter \<Rightarrow> (string \<Rightarrow> gotime list) \<Rightarrow> (string \<Rightarrow> nat) \<Rightarrow> bool" where
  "login_ok t l F A \<longleftrightarrow> (\<forall>u. user_ok t (hits (ll_failures l) u) (ll_locked l u) (ll_in_flight l u) (F u) (A u))"

lemma login_ok_later: "login_ok t l F A \<Longrightarrow> t \<le> now \<Longrightarrow> login_ok now l F A"
  unfolding login_ok_def using user_ok_later by blast

lemma login_ok_sweep:
  assumes "login_ok now l F A"
  shows "login_ok now (login_maybe_sweep now l) F A"
proof (cases "(ll_calls l + 1) mod sweep_every = 0")
  case True
  have "user_ok now (prune (hits (ll_failures l) u) (now - failure_window))
      (case ll_locked l u of None \<Rightarrow> None | Some until \<Rightarrow> if now < until then Some until else None) (ll_in_flight l u) (F u) (A u)" for u
    using user_ok_prune [OF assms [unfolded login_ok_def, rule_format, of u]] user_ok_unlock [of now]
    by (auto split: option.split)
  with True show ?thesis by (simp add: login_ok_def login_maybe_sweep_def Let_def)
qed (use assms in \<open>simp add: login_ok_def login_maybe_sweep_def Let_def\<close>)

lemma login_ok_upd:
  assumes "login_ok now l F A" and "user_ok now fs lock fl f a"
    and "hits (ll_failures l') = (hits (ll_failures l))(u := fs)" "ll_locked l' = (ll_locked l)(u := lock)" "ll_in_flight l' = (ll_in_flight l)(u := fl)"
  shows "login_ok now l' (F(u := f)) (A(u := a))"
  using assms by (simp add: login_ok_def)

lemmas login_okD = login_ok_def [THEN iffD1, rule_format]

lemma begin_attempt_spec:
  assumes "login_ok t l F A" and "t \<le> now" and "begin_attempt u now l = (b, l')"
  shows "b \<longleftrightarrow> \<not> (case ll_locked (login_maybe_sweep now l) u of None \<Rightarrow> False | Some until \<Rightarrow> now < until)
      \<and> length (failure_window.recent (F u) now) + A u < 5"
    and "login_ok now l' F (if b then A(u := A u + 1) else A)"
proof -
  define m where "m = login_maybe_sweep now l"
  have ok: "login_ok now m F A" unfolding m_def by (rule login_ok_sweep [OF login_ok_later [OF assms(1,2)]])
  let ?locked = "case ll_locked m u of None \<Rightarrow> False | Some until \<Rightarrow> now < until"
  let ?fs = "prune (hits (ll_failures m) u) (now - failure_window)"
  have unl: "user_ok now (hits (ll_failures m) u) None (ll_in_flight m u) (F u) (A u)" if "\<not> ?locked"
    using login_okD [OF ok, of u] that user_ok_unlock [of now] by (auto split: option.splits)
  have fl: "in_flight m u = int (A u)" using login_okD [OF ok, of u] by (simp add: user_ok_def in_flight_def)
  have "(b \<longleftrightarrow> \<not> ?locked \<and> length (failure_window.recent (F u) now) + A u < 5) \<and> login_ok now l' F (if b then A(u := A u + 1) else A)"
  proof (cases ?locked)
    case True
    with assms(3) ok show ?thesis by (simp add: begin_attempt_def Let_def flip: m_def)
  next
    case False
    note k = unl [OF False]
    have p: "?fs = failure_window.recent (F u) now" by (rule user_ok_pruned [OF k])
    note k' = user_ok_prune [OF k, unfolded p]
    let ?m1 = "m\<lparr>ll_locked := (ll_locked m)(u := None), ll_failures := set_times u ?fs (ll_failures m)\<rparr>"
    have h: "hits (set_times u xs (ll_failures m)) = (hits (ll_failures m))(u := xs)" for xs by auto
    show ?thesis
    proof (cases "length (failure_window.recent (F u) now) + A u < 5")
      case True
      with False assms(3) fl p have b: "b" and l': "l' = ?m1\<lparr>ll_in_flight := (ll_in_flight m)(u \<mapsto> int (A u + 1))\<rparr>"
        by (auto simp: begin_attempt_def Let_def max_failures_def in_flight_def add.commute simp flip: m_def)
      have "login_ok now l' (F(u := F u)) (A(u := A u + 1))"
        by (rule login_ok_upd [OF ok user_ok_begin [OF k' True]]) (simp_all add: l' h p)
      with b True False show ?thesis by simp
    next
      case nb: False
      with False assms(3) fl p have b: "\<not> b" and l': "l' = ?m1"
        by (auto simp: begin_attempt_def Let_def max_failures_def in_flight_def simp flip: m_def)
      have "login_ok now l' (F(u := F u)) (A(u := A u))"
        by (rule login_ok_upd [OF ok k']) (simp_all add: l' h p)
      with b nb False show ?thesis by simp
    qed
  qed
  then show "b \<longleftrightarrow> \<not> (case ll_locked (login_maybe_sweep now l) u of None \<Rightarrow> False | Some until \<Rightarrow> now < until)
      \<and> length (failure_window.recent (F u) now) + A u < 5"
    and "login_ok now l' F (if b then A(u := A u + 1) else A)"
    unfolding m_def by blast+
qed

lemma release_in_flight_spec:
  assumes "user_ok now fs lock (ll_in_flight l u) F a" and "0 < a"
  shows "release_in_flight u l = l\<lparr>ll_in_flight := (ll_in_flight l)(u := if a - 1 = 0 then None else Some (int (a - 1)))\<rparr>"
  using assms by (auto simp: user_ok_def release_in_flight_def of_nat_diff)

lemma login_run_ok:
  assumes "login_run t l F A"
  shows "login_ok t l F A"
  using assms
proof induction
  case (idle t)
  show ?case by (simp add: login_ok_def user_ok_def new_login_limiter_def)
next
  case (counted t l F A now ip b l')
  have "login_ok now (login_maybe_sweep now l) F A" by (rule login_ok_sweep [OF login_ok_later [OF counted.IH counted.hyps(2)]])
  with counted.hyps show ?case by (auto simp: allow_ip_def Let_def login_ok_def split: if_splits)
next
  case (asked t l F A now u b l')
  note ok = login_ok_later [OF asked.IH asked.hyps(2)]
  show ?case
  proof (cases "l' = l")
    case False
    with asked.hyps(3) obtain until where w: "ll_locked l u = Some until" "until \<le> now" "l' = l\<lparr>ll_locked := (ll_locked l)(u := None)\<rparr>"
      by (auto simp: is_locked_def split: option.splits if_splits)
    have "login_ok now l' (F(u := F u)) (A(u := A u))"
      by (rule login_ok_upd [OF ok user_ok_unlock [OF _ w(2)]]) (use login_okD [OF ok, of u] w in \<open>simp_all add: fun_eq_iff\<close>)
    then show ?thesis by simp
  qed (use ok in simp)
next
  case (begun t l F A now u l')
  from begin_attempt_spec(2) [OF begun.IH begun.hyps(2,3), unfolded if_True] show ?case .
next
  case (refused t l F A now u l')
  from begin_attempt_spec(2) [OF refused.IH refused.hyps(2,3), unfolded if_False] show ?case .
next
  case (failed t l F A now u)
  note ok = login_ok_later [OF failed.IH failed.hyps(2)]
  note k = login_okD [OF ok, of u]
  note k = k [unfolded user_ok_open [OF k failed.hyps(3)]]
  have r: "release_in_flight u l = l\<lparr>ll_in_flight := (ll_in_flight l)(u := if A u - 1 = 0 then None else Some (int (A u - 1)))\<rparr>"
    by (rule release_in_flight_spec [OF k failed.hyps(3)])
  note u = user_ok_open [OF login_okD [OF ok] failed.hyps(3)]
  show ?case
  proof (cases "5 \<le> length (failure_window.recent (F u) now @ [now])")
    case True
    show ?thesis
      by (rule login_ok_upd [OF ok user_ok_fail(1) [OF k failed.hyps(3) True]])
        (use True u in \<open>simp_all add: login_failure_def Let_def r max_failures_def user_ok_pruned [OF k] fun_eq_iff\<close>)
  next
    case False
    show ?thesis
      by (rule login_ok_upd [OF ok user_ok_fail(2) [OF k failed.hyps(3) False]])
        (use False u in \<open>simp_all add: login_failure_def Let_def r max_failures_def user_ok_pruned [OF k] fun_eq_iff\<close>)
  qed
next
  case (succeeded t l F A u)
  note k = login_okD [OF succeeded.IH, of u]
  note k = k [unfolded user_ok_open [OF k succeeded.hyps(2)]]
  from user_ok_end [OF k succeeded.hyps(2)]
  have e: "user_ok t [] None (if A u - 1 = 0 then None else Some (int (A u - 1))) [] (A u - 1)" by (simp add: user_ok_def)
  have r: "release_in_flight u l = l\<lparr>ll_in_flight := (ll_in_flight l)(u := if A u - 1 = 0 then None else Some (int (A u - 1)))\<rparr>"
    by (rule release_in_flight_spec [OF k succeeded.hyps(2)])
  show ?case by (rule login_ok_upd [OF succeeded.IH e]) (simp_all add: login_success_def Let_def r fun_eq_iff)
next
  case (gave_up t l F A u)
  note k = login_okD [OF gave_up.IH, of u]
  note n = user_ok_open [OF k gave_up.hyps(2)]
  note k = k [unfolded n]
  have "login_ok t (login_release u l) (F(u := F u)) (A(u := A u - 1))"
    by (rule login_ok_upd [OF gave_up.IH user_ok_end [OF k gave_up.hyps(2)]])
      (use n in \<open>simp_all add: login_release_def release_in_flight_spec [OF k gave_up.hyps(2)] fun_eq_iff\<close>)
  then show ?case by (simp only: fun_upd_triv)
qed

text \<open>C32: However concurrent logins interleave, a user name gets at most five failed attempts in any fifteen minutes since
  its last success.  An attempt is granted exactly when fewer than five count, the failures of the last fifteen minutes and
  the attempts still open, and no failure of the last fifteen minutes was the fifth within fifteen minutes: five failures
  lock the name for fifteen minutes, fewer never do, and the failures of other names do not matter.\<close>

theorem login_lockout:
  assumes "login_run t l F A" and "t \<le> now"
  shows "failure_window.at_most 5 (F u) \<and> A u \<le> 5
    \<and> (fst (begin_attempt u now l) \<longleftrightarrow>
         length (filter (\<lambda>x. now - 15 * minute < x) (F u)) + A u < 5
       \<and> \<not> (\<exists>f\<in>set (F u). now < f + 15 * minute \<and> 5 \<le> length (filter (\<lambda>x. f - 15 * minute < x \<and> x \<le> f) (F u))))"
proof -
  note ok = login_run_ok [OF assms(1)]
  obtain b l' where r: "begin_attempt u now l = (b, l')" by (cases "begin_attempt u now l")
  have m: "login_ok now (login_maybe_sweep now l) F A" by (rule login_ok_sweep [OF login_ok_later [OF ok assms(2)]])
  have "(case ll_locked (login_maybe_sweep now l) u of None \<Rightarrow> False | Some until \<Rightarrow> now < until)
      \<longleftrightarrow> (\<exists>f. fifth_failure (F u) f \<and> now < f + lock_duration)"
  proof (cases "ll_locked (login_maybe_sweep now l) u")
    case None
    with login_okD [OF m, of u] show ?thesis by (fastforce simp: user_ok_def)
  next
    case (Some until)
    with login_okD [OF m, of u] have k: "user_ok now (hits (ll_failures (login_maybe_sweep now l)) u) (Some until)
        (ll_in_flight (login_maybe_sweep now l) u) (F u) (A u)" by simp
    then have "fifth_failure (F u) (until - lock_duration)" by (simp add: user_ok_def)
    moreover have "f + lock_duration \<le> until" if "fifth_failure (F u) f" for f
      using k that by (auto simp: user_ok_def fifth_failure_def lock_duration_def failure_window_def)
    ultimately show ?thesis unfolding Some option.case by (metis diff_add_cancel order_less_le_trans)
  qed
  then have "(case ll_locked (login_maybe_sweep now l) u of None \<Rightarrow> False | Some until \<Rightarrow> now < until)
      \<longleftrightarrow> (\<exists>f\<in>set (F u). now < f + 15 * minute \<and> 5 \<le> length (filter (\<lambda>x. f - 15 * minute < x \<and> x \<le> f) (F u)))"
    by (auto simp: fifth_failure_def lock_duration_def failure_window_def)
  moreover have "failure_window.at_most 5 (F u) \<and> A u \<le> 5"
    using login_okD [OF ok, of u] by (cases "ll_locked l u") (auto simp: user_ok_def)
  moreover have "failure_window.recent (F u) now = filter (\<lambda>x. now - 15 * minute < x) (F u)"
    unfolding failure_window.recent_def by (simp add: failure_window_def)
  ultimately show ?thesis using begin_attempt_spec(1) [OF ok assms(2) r] r
    by (simp only: fst_conv) blast
qed

definition sample_logins :: "nat \<Rightarrow> login_limiter" where
  "sample_logins n = fold (\<lambda>n l. login_failure ''staff'' (int n) (snd (begin_attempt ''staff'' (int n) l))) [0..<n] new_login_limiter"

text \<open>A user name that is not locked and has at most \<open>n\<close> recorded failures.\<close>

definition few_failures :: "nat \<Rightarrow> string \<Rightarrow> login_limiter \<Rightarrow> bool" where
  "few_failures n u l \<longleftrightarrow> ll_locked l = (\<lambda>_. None) \<and> ll_in_flight l u = None \<and> length (hits (ll_failures l) u) \<le> n"

lemma few_failures_sweep: "few_failures n u l \<Longrightarrow> few_failures n u (login_maybe_sweep now l)"
  by (auto simp: few_failures_def login_maybe_sweep_def Let_def prune_def intro: order_trans [OF length_dropWhile_le])

lemma few_failures_begin:
  assumes "few_failures n u l" and "n < 5"
  shows "fst (begin_attempt u now l)"
    and "n < 4 \<Longrightarrow> few_failures (Suc n) u (login_failure u t (snd (begin_attempt u now l)))"
proof -
  let ?m = "login_maybe_sweep now l" and ?fs = "prune (hits (ll_failures (login_maybe_sweep now l)) u) (now - failure_window)"
  have m: "ll_locked ?m = (\<lambda>_. None)" "ll_in_flight ?m u = None" "length (hits (ll_failures ?m) u) \<le> n"
    using few_failures_sweep [OF assms(1), of now] by (simp_all add: few_failures_def)
  have le: "length (prune ts c) \<le> length ts" for ts c by (simp add: prune_def length_dropWhile_le)
  have "length ?fs \<le> n" using le m(3) by (rule order_trans)
  with assms(2) have b: "begin_attempt u now l = (True, ?m\<lparr>ll_locked := (\<lambda>_. None), ll_failures := set_times u ?fs (ll_failures ?m),
      ll_in_flight := (ll_in_flight ?m)(u \<mapsto> 1)\<rparr>)"
    using m(1,2) by (simp add: begin_attempt_def Let_def in_flight_def max_failures_def fun_upd_idem)
  then show "fst (begin_attempt u now l)" by simp
  have "length (prune ?fs (t - failure_window)) \<le> n" using le \<open>length ?fs \<le> n\<close> by (rule order_trans)
  then show "few_failures (Suc n) u (login_failure u t (snd (begin_attempt u now l)))" if "n < 4"
    using that by (simp add: b login_failure_def release_in_flight_def few_failures_def max_failures_def Let_def)
qed

lemma sample_logins_few: "n < 5 \<Longrightarrow> few_failures n ''staff'' (sample_logins n)"
proof (induction n)
  case 0
  then show ?case by (simp add: sample_logins_def few_failures_def new_login_limiter_def)
next
  case (Suc n)
  then have "few_failures n ''staff'' (sample_logins n)" "n < 4" by simp_all
  from few_failures_begin(2) [OF this(1) _ this(2)] this(2) show ?case by (simp add: sample_logins_def)
qed

lemma sample_logins_run:
  assumes "n \<le> 5"
  shows "\<exists>t \<le> int n. login_run t (sample_logins n) ((\<lambda>_. [])(''staff'' := map (\<lambda>n. int n) [0..<n])) (\<lambda>_. 0)"
  using assms
proof (induction n)
  case 0
  have "((\<lambda>_. [])(''staff'' := [])) = (\<lambda>_ :: string. [] :: gotime list)" by auto
  with idle [of 0] show ?case by (auto simp: sample_logins_def)
next
  case (Suc n)
  let ?now = "int n" and ?F = "(\<lambda>_. [])(''staff'' := map (\<lambda>n. int n) [0..<n])"
  have "fst (begin_attempt ''staff'' ?now (sample_logins n))"
    using few_failures_begin(1) [OF sample_logins_few] Suc.prems by simp
  then have b: "begin_attempt ''staff'' ?now (sample_logins n) = (True, snd (begin_attempt ''staff'' ?now (sample_logins n)))"
    by (simp add: prod_eq_iff)
  have a: "(\<lambda>_. 0 :: nat)(''staff'' := 0 + 1, ''staff'' := ((\<lambda>_. 0)(''staff'' := 0 + 1)) ''staff'' - 1) = (\<lambda>_. 0)" by auto
  from Suc.prems have "n \<le> 5" by simp
  from Suc.IH [OF this] obtain t where r: "t \<le> ?now" "login_run t (sample_logins n) ?F (\<lambda>_. 0)" by blast
  have F: "?F(''staff'' := ?F ''staff'' @ [?now]) = (\<lambda>_. [])(''staff'' := map (\<lambda>n. int n) [0..<Suc n])" by simp
  have s: "login_failure ''staff'' ?now (snd (begin_attempt ''staff'' ?now (sample_logins n))) = sample_logins (Suc n)"
    by (simp add: sample_logins_def)
  have "login_run ?now (sample_logins (Suc n)) ((\<lambda>_. [])(''staff'' := map (\<lambda>n. int n) [0..<Suc n])) (\<lambda>_. 0)"
    using failed [OF begun [OF r(2,1) b] order_refl, of "''staff''"] unfolding F s a by (simp only: fun_upd_same zero_less_one add_0 simp_thms)
  moreover have "?now \<le> int (Suc n)" by simp
  ultimately show ?case by blast
qed

lemma login_lockout_witness:
  "\<not> fst (begin_attempt ''staff'' (5) (sample_logins 5)) \<and> fst (begin_attempt ''other'' (5) (sample_logins 5))"
proof -
  let ?F = "(\<lambda>_. [])(''staff'' := map (\<lambda>n. int n) [0..<5])"
  obtain t where t: "t \<le> 5" "login_run t (sample_logins 5) ?F (\<lambda>_. 0)"
    using sample_logins_run [of 5] by auto
  have "filter (\<lambda>x. 5 - 15 * minute < x) (?F ''staff'') = map (\<lambda>n. int n) [0..<5]"
    by (simp add: time_units upt_rec)
  then have "\<not> length (filter (\<lambda>x. 5 - 15 * minute < x) (?F ''staff'')) + 0 < 5" by simp
  moreover have "?F ''other'' = []" by simp
  ultimately show ?thesis
    using login_lockout [OF t(2,1), of "''staff''"] login_lockout [OF t(2,1), of "''other''"] by simp
qed

end
