(* ===== verification/StaffAccess.thy ===== *)
theory StaffAccess
  imports Store Tokens Access Limits
begin

text \<open>
  Staff accounts and their sessions: \<open>internal/iam/service.go\<close> with the statements of \<open>iam/store/iam.sql.go\<close>.  The
  tables of \<open>Store\<close> are the component \<open>base\<close> of the state, beside the tables only logins use.  One request
  reads the clock once; the login limiter is the state \<open>Limits\<close> describes.
\<close>

section \<open>Tables and environment\<close>

record staff_row =
  sf_id :: int
  sf_username :: string
  sf_full_name :: string
  sf_role :: string
  sf_password_hash :: string
  sf_status :: string
  sf_last_login :: "gotime option"

record session_row =
  ss_id :: int
  ss_type :: string
  ss_subject :: int
  ss_token_hash :: string
  ss_expires :: gotime
  ss_revoked :: "gotime option"
  ss_created :: gotime

record otp_row =
  ot_id :: int
  ot_phone :: string
  ot_code_hash :: string
  ot_purpose :: string
  ot_attempts :: int
  ot_expires :: gotime
  ot_consumed :: "gotime option"
  ot_created :: gotime
  ot_provider :: "string option"

record auth_db =
  base :: db
  staff_rows :: "staff_row list"
  sessions :: "session_row list"
  otps :: "otp_row list"

record telegram_user =
  tg_id :: int
  tg_first_name :: string
  tg_last_name :: string
  tg_username :: string
  tg_language_code :: string

text \<open>
  The clock, the bytes of \<open>crypto/rand\<close> at each call path, HMAC-SHA256 under the session secret, the argon2
  package and whether no slot for it came free in time, HMAC-SHA256 under the key Telegram derives from the bot token,
  \<open>json.Unmarshal\<close> and \<open>json.Marshal\<close> of a Telegram user, \<open>rand.Int\<close>, the code of a fixed sender of one-time codes if
  that is the one configured, and what the sender answers.
\<close>

datatype send_answer = Sent string | Unreachable | SendFailed

record auth_env =
  ae_now :: gotime
  ae_rand :: "nat list \<Rightarrow> int list"
  ae_mac :: "string \<Rightarrow> string"
  ae_hasher :: hasher
  ae_busy :: bool
  ae_bot_token :: string
  ae_bot_mac :: "string \<Rightarrow> string"
  ae_json_user :: "string \<Rightarrow> telegram_user option"
  ae_user_json :: "telegram_user \<Rightarrow> string"
  ae_rand_int :: "nat list \<Rightarrow> int \<Rightarrow> int"
  ae_fixed_code :: "string option"
  ae_send :: "string \<Rightarrow> string \<Rightarrow> string \<Rightarrow> send_answer"

definition rand_bytes :: "auth_env \<Rightarrow> nat list \<Rightarrow> nat \<Rightarrow> string" where
  "rand_bytes e path n = map char_of (take n (ae_rand e path))"

definition on_base :: "(db \<Rightarrow> db) \<Rightarrow> auth_db \<Rightarrow> auth_db" where
  "on_base f s = s\<lparr>base := f (base s)\<rparr>"

definition unauthenticated :: goerr where
  "unauthenticated = app 401 CodeUnauthenticated"

section \<open>Statements\<close>

definition idle_timeout :: int where "idle_timeout = 8 * hour"
definition absolute_timeout :: int where "absolute_timeout = 7 * 24 * hour"
definition touch_interval :: int where "touch_interval = minute"

definition get_staff_by_username :: "string \<Rightarrow> auth_db \<Rightarrow> staff_row option" where
  "get_staff_by_username u s = List.find (\<lambda>r. sf_username r = u) (staff_rows s)"

definition insert_staff :: "string \<Rightarrow> string \<Rightarrow> string \<Rightarrow> string \<Rightarrow> auth_db \<Rightarrow> (staff_row \<times> auth_db) res" where
  "insert_staff u name role h s =
     (if role \<notin> role_str ` set all_roles then Inl (PgErr ''23514'' ''staff_role_check'')
      else if \<exists>r\<in>set (staff_rows s). sf_username r = u then Inl (PgErr ''23505'' ''staff_username_key'')
      else let r = \<lparr>sf_id = next_id sf_id (staff_rows s), sf_username = u, sf_full_name = name, sf_role = role,
                    sf_password_hash = h, sf_status = ''ACTIVE'', sf_last_login = None\<rparr>
           in Inr (r, s\<lparr>staff_rows := staff_rows s @ [r]\<rparr>))"

text \<open>\<open>InsertStaffSession\<close> and \<open>InsertUserSession\<close> differ in the subject type.\<close>

definition insert_session :: "string \<Rightarrow> int \<Rightarrow> string \<Rightarrow> gotime \<Rightarrow> gotime \<Rightarrow> auth_db \<Rightarrow> auth_db res" where
  "insert_session type subject h expires created s =
     (if \<exists>r\<in>set (sessions s). ss_token_hash r = h then Inl (PgErr ''23505'' ''sessions_token_hash_key'')
      else Inr (s\<lparr>sessions := sessions s @ [\<lparr>ss_id = next_id ss_id (sessions s), ss_type = type, ss_subject = subject,
             ss_token_hash = h, ss_expires = expires, ss_revoked = None, ss_created = created\<rparr>]\<rparr>))"

definition set_staff_last_login :: "gotime \<Rightarrow> int \<Rightarrow> auth_db \<Rightarrow> auth_db" where
  "set_staff_last_login now i s = s\<lparr>staff_rows := update_where (\<lambda>r. sf_id r = i) (sf_last_login_update (\<lambda>_. Some now)) (staff_rows s)\<rparr>"

definition get_staff_session :: "string \<Rightarrow> auth_db \<Rightarrow> (session_row \<times> staff_row) option" where
  "get_staff_session h s =
     (case List.find (\<lambda>r. ss_type r = ''STAFF'' \<and> ss_token_hash r = h) (sessions s) of
        None \<Rightarrow> None
      | Some ss \<Rightarrow> map_option (Pair ss) (List.find (\<lambda>st. sf_id st = ss_subject ss) (staff_rows s)))"

definition update_session_expiry :: "gotime \<Rightarrow> int \<Rightarrow> auth_db \<Rightarrow> auth_db" where
  "update_session_expiry t i s =
     s\<lparr>sessions := update_where (\<lambda>r. ss_id r = i \<and> ss_revoked r = None) (ss_expires_update (\<lambda>_. t)) (sessions s)\<rparr>"

definition revoke_session :: "gotime \<Rightarrow> string \<Rightarrow> auth_db \<Rightarrow> auth_db" where
  "revoke_session now h s =
     s\<lparr>sessions := update_where (\<lambda>r. ss_token_hash r = h \<and> ss_revoked r = None) (ss_revoked_update (\<lambda>_. Some now)) (sessions s)\<rparr>"

definition session_stale :: "gotime \<Rightarrow> session_row \<Rightarrow> bool" where
  "session_stale cutoff r \<longleftrightarrow> ss_expires r < cutoff \<or> (case ss_revoked r of None \<Rightarrow> False | Some t \<Rightarrow> t < cutoff)"

definition delete_expired_sessions_stmt :: "gotime \<Rightarrow> auth_db \<Rightarrow> nat \<times> auth_db" where
  "delete_expired_sessions_stmt cutoff s =
     (length (filter (session_stale cutoff) (sessions s)), s\<lparr>sessions := filter (\<lambda>r. \<not> session_stale cutoff r) (sessions s)\<rparr>)"

section \<open>Accounts\<close>

record staff_member =
  sm_id :: int
  sm_username :: string
  sm_full_name :: string
  sm_role :: string

definition member_of :: "staff_row \<Rightarrow> staff_member" where
  "member_of r = \<lparr>sm_id = sf_id r, sm_username = sf_username r, sm_full_name = sf_full_name r, sm_role = sf_role r\<rparr>"

definition min_password_len :: nat where "min_password_len = 10"
definition max_full_name_len :: nat where "max_full_name_len = 100"

definition username_pattern :: "string \<Rightarrow> bool" where
  "username_pattern u \<longleftrightarrow> 3 \<le> length u \<and> length u \<le> 64 \<and> (\<forall>c\<in>set u. is_lower c \<or> is_digit c \<or> c \<in> set ''._-'')"

definition staff_items :: "string \<Rightarrow> string \<Rightarrow> string \<Rightarrow> string \<Rightarrow> field_item list" where
  "staff_items username full_name role password =
     item (\<not> username_pattern username) ''username'' ''field.invalid'' []
     @ (if full_name = [] then [(''fullName'', ''field.required'', [])]
        else item (max_full_name_len < length full_name) ''fullName'' ''field.too_long'' [(''max'', PInt (int max_full_name_len))])
     @ item (parse_role role = None) ''role'' ''field.invalid'' []
     @ item (length password < min_password_len) ''password'' ''field.invalid'' []"

definition create_staff :: "auth_env \<Rightarrow> string \<Rightarrow> string \<Rightarrow> string \<Rightarrow> string \<Rightarrow> auth_db \<Rightarrow> (staff_member \<times> auth_db) res" where
  "create_staff e username0 full_name0 role password s =
     (let username = trim_space username0; full_name = trim_space full_name0
      in bindE (collect (staff_items username full_name role password)) (\<lambda>_.
         let h = hash_password (ae_hasher e) (rand_bytes e [0] argon_salt_len) password
         in bindE (map_err from_pg (insert_staff username full_name role h s)) (\<lambda>(r, s').
            Inr (member_of r, s'))))"

section \<open>Sessions\<close>

definition argon2_busy :: goerr where
  "argon2_busy = OtherErr ''iam: no argon2 slot available''"

definition verify_password_limited :: "auth_env \<Rightarrow> string \<Rightarrow> string \<Rightarrow> bool res" where
  "verify_password_limited e encoded password =
     (if ae_busy e then Inl argon2_busy else verify_password (ae_hasher e) encoded password)"

definition dummy_hash :: "auth_env \<Rightarrow> string" where
  "dummy_hash e = hash_password (ae_hasher e) (rand_bytes e [1] argon_salt_len) ''werun-dummy-password''"

definition invalid_credentials :: goerr where
  "invalid_credentials = app 401 CodeInvalidCredentials"

definition login_failed_entry :: "int \<Rightarrow> audit_row" where
  "login_failed_entry i =
     \<lparr>au_actor_type = ''SYSTEM'', au_actor = None, au_role = None, au_action = ''staff.login_failed'',
      au_entity_type = ''staff'', au_entity = i, au_event = None, au_financial = False\<rparr>"

text \<open>The transaction at the end of \<open>Login\<close>.\<close>

definition open_staff_session :: "auth_env \<Rightarrow> string \<Rightarrow> staff_row \<Rightarrow> auth_db \<Rightarrow> auth_db res" where
  "open_staff_session e raw r s =
     bindE (insert_session ''STAFF'' (sf_id r) (ae_mac e raw) (ae_now e + idle_timeout) (ae_now e) s) (\<lambda>s1.
       Inr (on_base (audit_record (staff_entry (sf_id r) (sf_role r) ''staff.login'' ''staff'' (sf_id r) None False))
             (set_staff_last_login (ae_now e) (sf_id r) s1)))"

definition login_staff :: "auth_env \<Rightarrow> string \<Rightarrow> string \<Rightarrow> string \<Rightarrow> login_limiter \<Rightarrow> auth_db
    \<Rightarrow> (string \<times> staff_member) res \<times> login_limiter \<times> auth_db" where
  "login_staff e username0 password ip l0 s =
     (let username = to_lower (trim_space username0); now = ae_now e; (ok, l1) = allow_ip ip now l0
      in if \<not> ok then (Inl (app 429 CodeRateLimited), l1, s)
      else let (granted, l2) = begin_attempt username now l1
      in if \<not> granted then (Inl (app 423 CodeAccountLocked), l2, s)
      else case get_staff_by_username username s of
        None \<Rightarrow>
          if verify_password_limited e (dummy_hash e) password = Inl argon2_busy
          then (Inl (app 429 CodeRateLimited), login_release username l2, s)
          else (Inl invalid_credentials, login_failure username now l2, s)
      | Some r \<Rightarrow>
          (case verify_password_limited e (sf_password_hash r) password of
             Inl err \<Rightarrow>
               if err = argon2_busy then (Inl (app 429 CodeRateLimited), login_release username l2, s)
               else (Inl err, login_release username l2, s)
           | Inr right \<Rightarrow>
               if \<not> right \<or> sf_status r \<noteq> ''ACTIVE''
               then (Inl invalid_credentials, login_failure username now l2, on_base (audit_record (login_failed_entry (sf_id r))) s)
               else let l3 = login_success username l2; raw = rand_bytes e [2] token_bytes
                    in (case open_staff_session e raw r s of
                          Inl err \<Rightarrow> (Inl err, l3, s)
                        | Inr s' \<Rightarrow> (Inr (encode_token raw, member_of r), l3, s'))))"

definition authenticate_staff :: "auth_env \<Rightarrow> string \<Rightarrow> auth_db \<Rightarrow> staff_member res \<times> auth_db" where
  "authenticate_staff e token s =
     (case decode_token token of
        None \<Rightarrow> (Inl unauthenticated, s)
      | Some raw \<Rightarrow>
          (case get_staff_session (ae_mac e raw) s of
             None \<Rightarrow> (Inl unauthenticated, s)
           | Some (ss, st) \<Rightarrow>
               (let now = ae_now e; absolute = ss_created ss + absolute_timeout
                in if ss_revoked ss \<noteq> None \<or> \<not> now < ss_expires ss \<or> \<not> now < absolute \<or> sf_status st \<noteq> ''ACTIVE''
                   then (Inl unauthenticated, s)
                   else let target = (if absolute < now + idle_timeout then absolute else now + idle_timeout);
                            s' = (if touch_interval \<le> target - ss_expires ss then update_session_expiry target (ss_id ss) s else s)
                        in (case parse_role (sf_role st) of
                              None \<Rightarrow> (Inl (OtherErr ''iam: staff has unknown role''), s')
                            | Some _ \<Rightarrow> (Inr (member_of st), s')))))"

definition logout_staff :: "auth_env \<Rightarrow> string \<Rightarrow> auth_db \<Rightarrow> auth_db" where
  "logout_staff e token s =
     (case decode_token token of None \<Rightarrow> s | Some raw \<Rightarrow> revoke_session (ae_now e) (ae_mac e raw) s)"

definition delete_expired_sessions :: "auth_env \<Rightarrow> int \<Rightarrow> auth_db \<Rightarrow> nat \<times> auth_db" where
  "delete_expired_sessions e older_than s = delete_expired_sessions_stmt (ae_now e - older_than) s"

definition session_retention :: int where "session_retention = 7 * 24 * hour"

text \<open>\<open>SessionCleanupWorker.Work\<close>.\<close>

definition session_cleanup_work :: "auth_env \<Rightarrow> auth_db \<Rightarrow> auth_db" where
  "session_cleanup_work e s = snd (delete_expired_sessions e session_retention s)"

end
