(* ===== verification/RunnerAccess.thy ===== *)
theory RunnerAccess
  imports StaffAccess Storage "HOL-Library.List_Lexorder"
begin

text \<open>
  How runners sign in: the init data of a Telegram mini app (\<open>internal/runner/initdata.go\<close>), one-time codes
  (\<open>otp.go\<close>), and their sessions (\<open>service.go\<close>), with the statements of \<open>runner/store/runner.sql.go\<close>.
\<close>

section \<open>Query strings and hexadecimal\<close>

text \<open>Byte strings, as everything here.\<close>

definition hex_digit :: "char \<Rightarrow> nat option" where
  "hex_digit c =
     (let n = code_of c
      in if 48 \<le> n \<and> n \<le> 57 then Some (n - 48)
         else if 97 \<le> n \<and> n \<le> 102 then Some (n - 87)
         else if 65 \<le> n \<and> n \<le> 70 then Some (n - 55) else None)"

definition hex_byte :: "char \<Rightarrow> char \<Rightarrow> char option" where
  "hex_byte a b =
     (case hex_digit a of None \<Rightarrow> None
      | Some x \<Rightarrow> (case hex_digit b of None \<Rightarrow> None | Some y \<Rightarrow> Some (char_of (16 * x + y))))"

definition hex_encode :: "string \<Rightarrow> string" where
  "hex_encode bs = concat (map (\<lambda>b. [hex_lower (code_of b div 16), hex_lower (code_of b mod 16)]) bs)"

fun hex_decode :: "string \<Rightarrow> string option" where
  "hex_decode [] = Some []"
| "hex_decode [a] = None"
| "hex_decode (a # b # s) =
     (case hex_byte a b of None \<Rightarrow> None
      | Some c \<Rightarrow> (case hex_decode s of None \<Rightarrow> None | Some cs \<Rightarrow> Some (c # cs)))"

fun query_unescape :: "string \<Rightarrow> string option" where
  "query_unescape [] = Some []"
| "query_unescape (c # s) =
     (if c = CHR ''%''
      then (case s of a # b # r \<Rightarrow>
                (case hex_byte a b of None \<Rightarrow> None
                 | Some x \<Rightarrow> (case query_unescape r of None \<Rightarrow> None | Some xs \<Rightarrow> Some (x # xs)))
              | _ \<Rightarrow> None)
      else (case query_unescape s of None \<Rightarrow> None
            | Some xs \<Rightarrow> Some ((if c = CHR ''+'' then CHR '' '' else c) # xs)))"

definition is_unreserved :: "char \<Rightarrow> bool" where
  "is_unreserved c \<longleftrightarrow> is_lower c \<or> is_upper c \<or> is_digit c \<or> c \<in> set ''-_.~''"

definition query_escape :: "string \<Rightarrow> string" where
  "query_escape s =
     concat (map (\<lambda>c. if is_unreserved c then [c] else if c = CHR '' '' then ''+''
                      else [CHR ''%'', hex_upper (code_of c div 16), hex_upper (code_of c mod 16)]) s)"

text \<open>\<open>url.ParseQuery\<close>: the pairs in order; \<open>None\<close> when it reports an error.\<close>

definition cut_at :: "char \<Rightarrow> string \<Rightarrow> string \<times> string" where
  "cut_at d s = (takeWhile (\<lambda>c. c \<noteq> d) s, drop 1 (dropWhile (\<lambda>c. c \<noteq> d) s))"

fun parse_pairs :: "string list \<Rightarrow> (string \<times> string) list option" where
  "parse_pairs [] = Some []"
| "parse_pairs (p # ps) =
     (if CHR '';'' \<in> set p then None
      else if p = [] then parse_pairs ps
      else (case query_unescape (fst (cut_at (CHR ''='') p)) of None \<Rightarrow> None
        | Some k \<Rightarrow> (case query_unescape (snd (cut_at (CHR ''='') p)) of None \<Rightarrow> None
        | Some v \<Rightarrow> (case parse_pairs ps of None \<Rightarrow> None
        | Some kvs \<Rightarrow> Some ((k, v) # kvs)))))"

definition parse_query :: "string \<Rightarrow> (string \<times> string) list option" where
  "parse_query s = parse_pairs (split_on (CHR ''&'') s)"

definition values_get :: "(string \<times> string) list \<Rightarrow> string \<Rightarrow> string" where
  "values_get vs k = (case map_of vs k of None \<Rightarrow> [] | Some v \<Rightarrow> v)"

section \<open>Init data\<close>

definition init_data_max_age :: int where "init_data_max_age = 24 * hour"

definition telegram_auth_invalid :: goerr where
  "telegram_auth_invalid = app 401 CodeTelegramAuthInvalid"

text \<open>\<open>dataCheckString\<close>: all fields but the hash, sorted by their key, one per line.\<close>

definition data_check_string :: "(string \<times> string) list \<Rightarrow> string" where
  "data_check_string vs =
     join [char_of (10::nat)] (map (\<lambda>k. k @ ''='' @ values_get vs k)
       (sort (filter (\<lambda>k. k \<noteq> ''hash'') (map fst vs))))"

text \<open>\<open>strconv.ParseInt(s, 10, 64)\<close>.\<close>

definition parse_int64 :: "string \<Rightarrow> int option" where
  "parse_int64 s =
     (let neg = has_prefix s ''-''; ds = (if neg \<or> has_prefix s ''+'' then tl s else s);
          v = (if neg then - digits_val 0 ds else digits_val 0 ds)
      in if ds = [] \<or> \<not> list_all is_digit ds \<or> v < - (2 ^ 63) \<or> 2 ^ 63 \<le> v then None else Some v)"

text \<open>\<open>time.Unix\<close>: a time counts its seconds from year 1 in an \<open>int64\<close>, so a number of seconds near its end wraps around.\<close>

definition time_unix :: "int \<Rightarrow> gotime" where
  "time_unix s = (int64 (s + 62135596800) - 62135596800) * second"

definition verify_init_data :: "auth_env \<Rightarrow> string \<Rightarrow> telegram_user res" where
  "verify_init_data e init_data =
     (if trim_space (ae_bot_token e) = [] then Inl telegram_auth_invalid
      else case parse_query init_data of
        None \<Rightarrow> Inl telegram_auth_invalid
      | Some vs \<Rightarrow>
          if \<not> distinct (map fst vs) then Inl telegram_auth_invalid
          else if values_get vs ''hash'' = [] then Inl telegram_auth_invalid
          else (case hex_decode (values_get vs ''hash'') of
            None \<Rightarrow> Inl telegram_auth_invalid
          | Some got \<Rightarrow>
              if got \<noteq> ae_bot_mac e (data_check_string vs) then Inl telegram_auth_invalid
              else (case parse_int64 (values_get vs ''auth_date'') of
                None \<Rightarrow> Inl telegram_auth_invalid
              | Some auth_unix \<Rightarrow>
                  if init_data_max_age < ae_now e - time_unix auth_unix then Inl telegram_auth_invalid
                  else (case ae_json_user e (values_get vs ''user'') of
                    None \<Rightarrow> Inl telegram_auth_invalid
                  | Some u \<Rightarrow> if tg_id u \<le> 0 then Inl telegram_auth_invalid else Inr u))))"

text \<open>\<open>SignInitData\<close>; \<open>Values.Encode\<close> sorts by key.\<close>

definition encode_pair :: "string \<times> string \<Rightarrow> string" where
  "encode_pair kv = query_escape (fst kv) @ ''='' @ query_escape (snd kv)"

definition sign_init_data :: "auth_env \<Rightarrow> telegram_user \<Rightarrow> gotime \<Rightarrow> string" where
  "sign_init_data e u auth_date =
     (let vs = [(''auth_date'', int_str (auth_date div second)), (''user'', ae_user_json e u)];
          h = hex_encode (ae_bot_mac e (data_check_string vs))
      in join ''&'' (map encode_pair [vs ! 0, (''hash'', h), vs ! 1]))"

section \<open>Users and their sessions\<close>

record runner_user =
  ru_id :: int
  ru_phone :: string
  ru_telegram :: int
  ru_username :: string
  ru_name :: string
  ru_locale :: string

definition user_of :: "user_row \<Rightarrow> runner_user" where
  "user_of r = \<lparr>ru_id = us_id r, ru_phone = deref_string (us_phone r),
     ru_telegram = (case us_telegram r of None \<Rightarrow> 0 | Some i \<Rightarrow> i), ru_username = deref_string (us_username r),
     ru_name = deref_string (us_name r), ru_locale = us_locale r\<rparr>"

record session =
  rs_token :: string
  rs_expires :: gotime
  rs_user :: runner_user

definition session_ttl :: int where "session_ttl = 24 * hour"

definition locale_for :: "string \<Rightarrow> string" where
  "locale_for language_code =
     (let code = to_lower (trim_space language_code)
      in if has_prefix code ''zh'' then ''zh'' else if code = ''km'' then ''km'' else ''en'')"

definition display_name :: "telegram_user \<Rightarrow> string" where
  "display_name u =
     (let name = trim_space (trim_space (tg_first_name u) @ '' '' @ trim_space (tg_last_name u))
      in if name = [] then trim_space (tg_username u) else name)"

definition user_entry :: "int \<Rightarrow> string \<Rightarrow> audit_row" where
  "user_entry i action =
     \<lparr>au_actor_type = ''USER'', au_actor = Some i, au_role = None, au_action = action,
      au_entity_type = ''user'', au_entity = i, au_event = None, au_financial = False\<rparr>"

text \<open>The upserts: insert, or on a conflict update the row that is there.\<close>

definition upsert_telegram_user :: "int \<Rightarrow> string option \<Rightarrow> string option \<Rightarrow> string \<Rightarrow> gotime \<Rightarrow> db \<Rightarrow> user_row \<times> db" where
  "upsert_telegram_user tg username name locale now s =
     (let fresh = \<lparr>us_id = next_id us_id (users s), us_phone = None, us_telegram = Some tg, us_username = username,
            us_name = name, us_locale = locale, us_status = ''ACTIVE'', us_last_login = Some now\<rparr>
      in case List.find (\<lambda>r. us_telegram r = Some tg) (users s) of
        None \<Rightarrow> (fresh, s\<lparr>users := users s @ [fresh]\<rparr>)
      | Some r \<Rightarrow>
          (let upd = (\<lambda>r. r\<lparr>us_username := username, us_name := name, us_last_login := Some now\<rparr>)
           in (upd r, s\<lparr>users := update_where (\<lambda>r. us_telegram r = Some tg) upd (users s)\<rparr>)))"

definition upsert_phone_user :: "string \<Rightarrow> string \<Rightarrow> gotime \<Rightarrow> db \<Rightarrow> user_row \<times> db" where
  "upsert_phone_user phone locale now s =
     (let fresh = \<lparr>us_id = next_id us_id (users s), us_phone = Some phone, us_telegram = None, us_username = None,
            us_name = None, us_locale = locale, us_status = ''ACTIVE'', us_last_login = Some now\<rparr>
      in case List.find (\<lambda>r. us_phone r = Some phone) (users s) of
        None \<Rightarrow> (fresh, s\<lparr>users := users s @ [fresh]\<rparr>)
      | Some r \<Rightarrow>
          (r\<lparr>us_last_login := Some now\<rparr>,
           s\<lparr>users := update_where (\<lambda>r. us_phone r = Some phone) (us_last_login_update (\<lambda>_. Some now)) (users s)\<rparr>))"

text \<open>What both logins end with: a session for the user row, and its audit entry.\<close>

definition open_user_session :: "auth_env \<Rightarrow> string \<Rightarrow> runner_user \<Rightarrow> auth_db \<Rightarrow> auth_db res" where
  "open_user_session e raw u s =
     bindE (insert_session ''USER'' (ru_id u) (ae_mac e raw) (ae_now e + session_ttl) (ae_now e) s) (\<lambda>s'.
       Inr (on_base (audit_record (user_entry (ru_id u) ''runner.login'')) s'))"

definition login_telegram :: "auth_env \<Rightarrow> string \<Rightarrow> auth_db \<Rightarrow> (session \<times> auth_db) res" where
  "login_telegram e init_data s =
     bindE (verify_init_data e init_data) (\<lambda>tg.
       let raw = rand_bytes e [3] token_bytes;
           (row, b) = upsert_telegram_user (tg_id tg) (opt_string (tg_username tg)) (opt_string (display_name tg))
                        (locale_for (tg_language_code tg)) (ae_now e) (base s);
           u = user_of row
       in bindE (failIf (us_status row \<noteq> ''ACTIVE'') (app 403 CodeForbidden)) (\<lambda>_.
          bindE (open_user_session e raw u (s\<lparr>base := b\<rparr>)) (\<lambda>s'.
            Inr (\<lparr>rs_token = encode_token raw, rs_expires = ae_now e + session_ttl, rs_user = u\<rparr>, s'))))"

definition get_user_session :: "string \<Rightarrow> auth_db \<Rightarrow> (session_row \<times> user_row) option" where
  "get_user_session h s =
     (case List.find (\<lambda>r. ss_type r = ''USER'' \<and> ss_token_hash r = h) (sessions s) of
        None \<Rightarrow> None
      | Some ss \<Rightarrow> map_option (Pair ss) (List.find (\<lambda>u. us_id u = ss_subject ss) (users (base s))))"

definition authenticate_runner :: "auth_env \<Rightarrow> string \<Rightarrow> auth_db \<Rightarrow> runner_user res" where
  "authenticate_runner e token s =
     (case decode_token token of
        None \<Rightarrow> Inl unauthenticated
      | Some raw \<Rightarrow>
          (case get_user_session (ae_mac e raw) s of
             None \<Rightarrow> Inl unauthenticated
           | Some (ss, u) \<Rightarrow>
               if ss_revoked ss \<noteq> None \<or> \<not> ae_now e < ss_expires ss \<or> us_status u \<noteq> ''ACTIVE''
               then Inl unauthenticated else Inr (user_of u)))"

definition revoke_user_session :: "gotime \<Rightarrow> string \<Rightarrow> auth_db \<Rightarrow> auth_db" where
  "revoke_user_session now h s =
     s\<lparr>sessions := update_where (\<lambda>r. ss_type r = ''USER'' \<and> ss_token_hash r = h \<and> ss_revoked r = None)
         (ss_revoked_update (\<lambda>_. Some now)) (sessions s)\<rparr>"

definition logout_runner :: "auth_env \<Rightarrow> string \<Rightarrow> auth_db \<Rightarrow> auth_db" where
  "logout_runner e token s =
     (case decode_token token of None \<Rightarrow> s | Some raw \<Rightarrow> revoke_user_session (ae_now e) (ae_mac e raw) s)"

section \<open>One-time codes\<close>

definition otp_ttl :: int where "otp_ttl = 5 * minute"
definition otp_resend_after :: int where "otp_resend_after = 60 * second"
definition otp_max_attempts :: int where "otp_max_attempts = 5"
definition otp_length :: nat where "otp_length = 6"
definition display_name_max :: nat where "display_name_max = 64"
definition fixed_otp_code :: string where "fixed_otp_code = ''123456''"

definition valid_e164 :: "string \<Rightarrow> bool" where
  "valid_e164 s \<longleftrightarrow>
     (case s of
        p # d # ds \<Rightarrow> p = CHR ''+'' \<and> is_digit d \<and> d \<noteq> CHR ''0'' \<and> 6 \<le> length ds \<and> length ds \<le> 14 \<and> list_all is_digit ds
      | _ \<Rightarrow> False)"

definition mask_phone :: "string \<Rightarrow> string" where
  "mask_phone phone = (if length phone \<le> 7 then ''***'' else take 4 phone @ ''***'' @ drop (length phone - 3) phone)"

definition fixed_code :: "string \<Rightarrow> string" where
  "fixed_code c = (if c \<noteq> [] then c else fixed_otp_code)"

definition new_code :: "auth_env \<Rightarrow> string" where
  "new_code e =
     (case ae_fixed_code e of
        Some c \<Rightarrow> fixed_code c
      | None \<Rightarrow> pad_zero otp_length (int_str (ae_rand_int e [4] 1000000)))"

definition hash_code :: "auth_env \<Rightarrow> string \<Rightarrow> string \<Rightarrow> string" where
  "hash_code e phone code = ae_mac e (phone @ '':'' @ code)"

definition otp_active :: "string \<Rightarrow> otp_row \<Rightarrow> bool" where
  "otp_active phone r \<longleftrightarrow> ot_phone r = phone \<and> ot_purpose r = ''LOGIN'' \<and> ot_consumed r = None"

definition consume_active_otps :: "string \<Rightarrow> gotime \<Rightarrow> auth_db \<Rightarrow> auth_db" where
  "consume_active_otps phone now s = s\<lparr>otps := update_where (otp_active phone) (ot_consumed_update (\<lambda>_. Some now)) (otps s)\<rparr>"

definition insert_otp :: "string \<Rightarrow> string \<Rightarrow> gotime \<Rightarrow> gotime \<Rightarrow> auth_db \<Rightarrow> int \<times> auth_db" where
  "insert_otp phone h expires created s =
     (let i = next_id ot_id (otps s)
      in (i, s\<lparr>otps := otps s @ [\<lparr>ot_id = i, ot_phone = phone, ot_code_hash = h, ot_purpose = ''LOGIN'', ot_attempts = 0,
             ot_expires = expires, ot_consumed = None, ot_created = created, ot_provider = None\<rparr>]\<rparr>))"

definition consume_otp :: "int \<Rightarrow> gotime \<Rightarrow> auth_db \<Rightarrow> auth_db" where
  "consume_otp i now s = s\<lparr>otps := update_where (\<lambda>r. ot_id r = i) (ot_consumed_update (\<lambda>_. Some now)) (otps s)\<rparr>"

definition set_otp_provider :: "int \<Rightarrow> string \<Rightarrow> auth_db \<Rightarrow> auth_db" where
  "set_otp_provider i req s = s\<lparr>otps := update_where (\<lambda>r. ot_id r = i) (ot_provider_update (\<lambda>_. Some req)) (otps s)\<rparr>"

definition get_active_otp :: "string \<Rightarrow> auth_db \<Rightarrow> otp_row option" where
  "get_active_otp phone s =
     (case sort_key (\<lambda>r. - ot_created r) (filter (otp_active phone) (otps s)) of [] \<Rightarrow> None | r # _ \<Rightarrow> Some r)"

definition increment_otp_attempts :: "int \<Rightarrow> auth_db \<Rightarrow> auth_db" where
  "increment_otp_attempts i s = s\<lparr>otps := update_where (\<lambda>r. ot_id r = i) (\<lambda>r. r\<lparr>ot_attempts := ot_attempts r + 1\<rparr>) (otps s)\<rparr>"

record code_request =
  cq_expires_in :: int
  cq_resend_after :: int
  cq_channel :: string

definition retry_later :: "int \<Rightarrow> goerr" where
  "retry_later wait = AppErr (with_field ''retryAfterSeconds'' (int_str (wait sdiv second)) [] (new_err 429 CodeRateLimited))"

definition request_phone_code :: "auth_env \<Rightarrow> string \<Rightarrow> string \<Rightarrow> otp_limiter \<Rightarrow> auth_db
    \<Rightarrow> code_request res \<times> otp_limiter \<times> auth_db" where
  "request_phone_code e phone ip l0 s =
     (if \<not> valid_e164 phone then (Inl (app 422 CodeOTPPhoneInvalid), l0, s)
      else case otp_allow phone ip (ae_now e) l0 of
        (Inl wait, l) \<Rightarrow> (Inl (retry_later wait), l, s)
      | (Inr _, l) \<Rightarrow>
          (let code = new_code e; now = ae_now e;
               (i, s1) = insert_otp phone (hash_code e phone code) (now + otp_ttl) now (consume_active_otps phone now s)
           in case ae_send e phone code (int_str i) of
                Unreachable \<Rightarrow> (Inl (app 422 CodeOTPPhoneNotOnTelegram), l, consume_otp i now s1)
              | SendFailed \<Rightarrow> (Inl (app 502 CodeOTPSendFailed), l, consume_otp i now s1)
              | Sent req \<Rightarrow> (Inr \<lparr>cq_expires_in = otp_ttl, cq_resend_after = otp_resend_after, cq_channel = ''telegram''\<rparr>, l,
                           if req = [] then s1 else set_otp_provider i req s1)))"

text \<open>
  The transaction of \<open>VerifyPhoneCode\<close>: \<open>Inl\<close> rolls back; \<open>Inr\<close> commits, also when the outcome is a business error
  (the variable \<open>bizErr\<close>).
\<close>

definition verify_code_tx :: "auth_env \<Rightarrow> string \<Rightarrow> string \<Rightarrow> string \<Rightarrow> string \<Rightarrow> auth_db \<Rightarrow> (runner_user res \<times> auth_db) res" where
  "verify_code_tx e raw phone code locale s =
     (case get_active_otp phone s of
        None \<Rightarrow> Inr (Inl (app 422 CodeOTPExpired), s)
      | Some otp \<Rightarrow>
          if \<not> ae_now e < ot_expires otp then Inr (Inl (app 422 CodeOTPExpired), s)
          else if otp_max_attempts \<le> ot_attempts otp
          then Inr (Inl (app 422 CodeOTPAttemptsExceeded), consume_otp (ot_id otp) (ae_now e) s)
          else if ot_code_hash otp \<noteq> hash_code e phone code
          then Inr (Inl (AppErr (with_field ''attemptsLeft'' (int_str (max (otp_max_attempts - (ot_attempts otp + 1)) 0)) []
                          (new_err 422 CodeOTPInvalid))), increment_otp_attempts (ot_id otp) s)
          else let s1 = consume_otp (ot_id otp) (ae_now e) s; (row, b) = upsert_phone_user phone locale (ae_now e) (base s1);
                   s2 = s1\<lparr>base := b\<rparr>; u = user_of row
               in if us_status row \<noteq> ''ACTIVE'' then Inr (Inl (app 403 CodeForbidden), s2)
                  else bindE (open_user_session e raw u s2) (\<lambda>s3. Inr (Inr u, s3)))"

definition verify_phone_code :: "auth_env \<Rightarrow> string \<Rightarrow> string \<Rightarrow> string \<Rightarrow> string \<Rightarrow> otp_limiter \<Rightarrow> auth_db
    \<Rightarrow> session res \<times> otp_limiter \<times> auth_db" where
  "verify_phone_code e phone code locale ip l0 s =
     (if \<not> valid_e164 phone then (Inl (app 422 CodeOTPPhoneInvalid), l0, s)
      else case otp_allow_verify ip (ae_now e) l0 of
        (Inl wait, l) \<Rightarrow> (Inl (retry_later wait), l, s)
      | (Inr _, l) \<Rightarrow>
          (let lang = (case parse_lang locale of None \<Rightarrow> default_lang | Some g \<Rightarrow> g); raw = rand_bytes e [5] token_bytes
           in case verify_code_tx e raw phone code (lang_str lang) s of
                Inl err \<Rightarrow> (Inl err, l, s)
              | Inr (Inl err, s') \<Rightarrow> (Inl err, l, s')
              | Inr (Inr u, s') \<Rightarrow>
                  (Inr \<lparr>rs_token = encode_token raw, rs_expires = ae_now e + session_ttl, rs_user = u\<rparr>, l, s')))"

section \<open>The runner's own data\<close>

definition update_user_profile :: "int \<Rightarrow> string option \<Rightarrow> string \<Rightarrow> db \<Rightarrow> db" where
  "update_user_profile i name locale s =
     s\<lparr>users := update_where (\<lambda>r. us_id r = i) (\<lambda>r. r\<lparr>us_name := name, us_locale := locale\<rparr>) (users s)\<rparr>"

definition update_me :: "int \<Rightarrow> string option \<Rightarrow> string option \<Rightarrow> db \<Rightarrow> (runner_user \<times> db) res" where
  "update_me i name0 locale s =
     (let name = map_option trim_space name0
      in if name = Some [] then Inl (AppErr (with_field ''displayName'' ''field.required'' [] validation_error))
         else if (case name of None \<Rightarrow> False | Some n \<Rightarrow> display_name_max < length n)
         then Inl (AppErr (with_field ''displayName'' ''field.too_long'' [] validation_error))
         else if (case locale of None \<Rightarrow> False | Some l \<Rightarrow> parse_lang l = None)
         then Inl (AppErr (with_field ''locale'' ''field.invalid'' [] validation_error))
         else (case List.find (\<lambda>r. us_id r = i) (users s) of
                 None \<Rightarrow> Inl (OtherErr ''runner: load user'')
               | Some cur \<Rightarrow>
                   (let n = (if name \<noteq> None then name else us_name cur);
                        l = (case locale of None \<Rightarrow> us_locale cur
                             | Some l \<Rightarrow> (case parse_lang l of None \<Rightarrow> us_locale cur | Some g \<Rightarrow> lang_str g))
                    in Inr (user_of (cur\<lparr>us_name := n, us_locale := l\<rparr>),
                            audit_record (user_entry i ''runner.profile_update'') (update_user_profile i n l s)))))"

text \<open>\<open>BearerToken\<close>.\<close>

definition bearer_token :: "string \<Rightarrow> string" where
  "bearer_token header =
     (if CHR '' '' \<notin> set header \<or> to_lower (fst (cut_at (CHR '' '') header)) \<noteq> ''bearer'' then []
      else trim_space (snd (cut_at (CHR '' '') header)))"

end
