(* ===== verification/Forms.thy ===== *)
theory Forms
  imports Accounts Payments PriceRules Coupons EventAdmin RunnerAccess
begin

text \<open>
  How the handlers read a request: the multipart forms of payment proofs and
  payment accounts (\<open>internal/payment/handlers.go\<close>, \<open>proof_handlers.go\<close>), and the
  conversions of \<open>internal/pricing/handlers.go\<close> and \<open>internal/event/handlers.go\<close>
  that narrow or hide a value.  A multipart body is the list of what
  \<open>NextPart\<close> and the reads of a part yield, in order.
\<close>

section \<open>Multipart forms\<close>

text \<open>A part with its name and content, or a failure to read on: the body limit of the router, or any other.\<close>

datatype form_part = Part string string | BodyTooLarge | ReadFails

definition max_text_part_bytes :: nat where "max_text_part_bytes = 1024"

text \<open>\<open>multipartError\<close>.\<close>

definition multipart_error :: "bool \<Rightarrow> int \<Rightarrow> goerr" where
  "multipart_error limit max_bytes =
     (if limit then AppErr (with_params [(''maxMB'', PInt (max_bytes div 1048576))] (new_err 413 CodeFileTooLarge))
      else app 400 CodeBadRequest)"

text \<open>A file part is read up to one byte past its limit.\<close>

definition read_limited :: "int \<Rightarrow> string \<Rightarrow> string" where
  "read_limited max_bytes data = take (nat (max_bytes + 1)) data"

definition proof_fields :: "string list" where
  "proof_fields = [''bankTxnRef'', ''declaredAmountCents'', ''declaredPaidAt'', ''payerName'']"

fun proof_parts :: "form_part list \<Rightarrow> string option \<times> (string \<times> string) list \<Rightarrow> (string option \<times> (string \<times> string) list) res" where
  "proof_parts [] acc = Inr acc"
| "proof_parts (BodyTooLarge # ps) acc = Inl (multipart_error True max_proof_bytes)"
| "proof_parts (ReadFails # ps) acc = Inl (multipart_error False max_proof_bytes)"
| "proof_parts (Part name data # ps) (content, flds) =
     (if name = ''file'' then proof_parts ps (Some (read_limited max_proof_bytes data), flds)
      else if name \<in> set proof_fields
      then if max_text_part_bytes < byte_len data
           then Inl (AppErr (with_field name ''field.too_long'' [(''max'', PInt (int max_text_part_bytes))] validation_error))
           else proof_parts ps (content, AList.update name data flds)
      else proof_parts ps (content, flds))"

definition form_value :: "(string \<times> string) list \<Rightarrow> string \<Rightarrow> string" where
  "form_value flds name = (case map_of flds name of None \<Rightarrow> [] | Some v \<Rightarrow> v)"

definition proof_form_items :: "(string \<Rightarrow> gotime option) \<Rightarrow> string option \<Rightarrow> (string \<times> string) list \<Rightarrow> field_item list" where
  "proof_form_items rfc3339 content flds =
     (let amount = trim_space (form_value flds ''declaredAmountCents''); at = trim_space (form_value flds ''declaredPaidAt'')
      in item (content = None) ''file'' ''field.required'' []
       @ (if amount = [] then item True ''declaredAmountCents'' ''field.required'' []
          else item (parse_int64 amount = None) ''declaredAmountCents'' ''field.invalid'' [])
       @ item (at \<noteq> [] \<and> rfc3339 at = None) ''declaredPaidAt'' ''field.invalid'' [])"

text \<open>\<open>readProofForm\<close>; \<open>rfc3339\<close> is \<open>time.Parse\<close> with that layout.\<close>

definition read_proof_form :: "(string \<Rightarrow> gotime option) \<Rightarrow> form_part list \<Rightarrow> submit_input res" where
  "read_proof_form rfc3339 parts =
     bindE (proof_parts parts (None, [])) (\<lambda>(content, flds).
     bindE (collect (proof_form_items rfc3339 content flds)) (\<lambda>_.
       Inr \<lparr>sb_file = map_option UpBytes content, sb_ref = form_value flds ''bankTxnRef'',
            sb_declared = (case parse_int64 (trim_space (form_value flds ''declaredAmountCents'')) of None \<Rightarrow> 0 | Some n \<Rightarrow> n),
            sb_paid_at = (let at = trim_space (form_value flds ''declaredPaidAt'') in if at = [] then None else rfc3339 at),
            sb_payer = map_of flds ''payerName''\<rparr>))"

text \<open>\<open>readAccountForm\<close>: a malformed number or flag is remembered and the reading goes on.\<close>

record account_form =
  af_input :: account_input
  af_qr :: "string option"

definition account_field :: "string \<Rightarrow> string \<Rightarrow> account_input \<Rightarrow> account_input \<times> field_item list" where
  "account_field name v inp =
     (if name = ''name'' then (inp\<lparr>ac_name := v\<rparr>, [])
      else if name = ''provider'' then (inp\<lparr>ac_provider := v\<rparr>, [])
      else if name = ''accountName'' then (inp\<lparr>ac_account_name := v\<rparr>, [])
      else if name = ''accountNoMasked'' then (inp\<lparr>ac_no_masked := v\<rparr>, [])
      else if name = ''scope'' then (inp\<lparr>ac_scope := v\<rparr>, [])
      else if name = ''eventId''
      then if trim_space v = [] then (inp\<lparr>ac_event := None\<rparr>, [])
           else (case parse_int64 (trim_space v) of
                   None \<Rightarrow> (inp, [(''eventId'', ''field.invalid'', [])])
                 | Some i \<Rightarrow> if i \<le> 0 then (inp, [(''eventId'', ''field.invalid'', [])]) else (inp\<lparr>ac_event := Some i\<rparr>, []))
      else if name = ''active''
      then if v = ''true'' then (inp\<lparr>ac_active := True\<rparr>, [])
           else if v = ''false'' then (inp\<lparr>ac_active := False\<rparr>, []) else (inp, [(''active'', ''field.invalid'', [])])
      else (inp, []))"

fun account_parts :: "form_part list \<Rightarrow> account_form \<times> field_item list \<Rightarrow> (account_form \<times> field_item list) res" where
  "account_parts [] acc = Inr acc"
| "account_parts (BodyTooLarge # ps) acc = Inl (multipart_error True max_qr_bytes)"
| "account_parts (ReadFails # ps) acc = Inl (multipart_error False max_qr_bytes)"
| "account_parts (Part name data # ps) (form, errs) =
     (if name = ''qr''
      then let qr = read_limited max_qr_bytes data
           in account_parts ps (if qr = [] then form else form\<lparr>af_qr := Some qr\<rparr>, errs)
      else if max_text_part_bytes < byte_len data then Inl (app 400 CodeBadRequest)
      else case account_field name data (af_input form) of
        (inp, es) \<Rightarrow> account_parts ps (form\<lparr>af_input := inp\<rparr>, errs @ es))"

definition empty_account_input :: account_input where
  "empty_account_input = \<lparr>ac_name = [], ac_provider = [], ac_account_name = [], ac_no_masked = [], ac_scope = [],
     ac_event = None, ac_active = True\<rparr>"

definition read_account_form :: "form_part list \<Rightarrow> account_form res" where
  "read_account_form parts =
     bindE (account_parts parts (\<lparr>af_input = empty_account_input, af_qr = None\<rparr>, [])) (\<lambda>(form, errs).
     bindE (collect errs) (\<lambda>_. Inr form))"

section \<open>Narrowing conversions\<close>

text \<open>\<open>priceRuleInputFromAPI\<close>: the order is an \<open>int32\<close> that must fit the \<open>smallint\<close> column; an absent one is zero.\<close>

definition price_rule_input_from_api :: "int option \<Rightarrow> price_rule_input \<Rightarrow> price_rule_input res" where
  "price_rule_input_from_api sort_order b =
     (case sort_order of
        None \<Rightarrow> Inr (b\<lparr>ri_sort := 0\<rparr>)
      | Some n \<Rightarrow>
          if n < 0 \<or> 32767 < n then Inl (AppErr (with_field ''sortOrder'' ''field.invalid'' [] validation_error))
          else Inr (b\<lparr>ri_sort := int16 n\<rparr>))"

text \<open>\<open>couponInputFromAPI\<close>.\<close>

definition coupon_input_from_api :: "int option \<Rightarrow> coupon_input \<Rightarrow> coupon_input res" where
  "coupon_input_from_api min_runners b =
     (case min_runners of
        None \<Rightarrow> Inr (b\<lparr>ci_min_runners := None\<rparr>)
      | Some n \<Rightarrow>
          if n < - 32768 \<or> 32767 < n then Inl (AppErr (with_field ''minRunners'' ''field.invalid'' [] validation_error))
          else Inr (b\<lparr>ci_min_runners := Some (int16 n)\<rparr>))"

section \<open>What the public pages show\<close>

record public_category =
  pb_id :: int
  pb_code :: string
  pb_name :: string
  pb_distance :: int
  pb_capacity :: int
  pb_start :: gotime
  pb_cutoff :: gotime
  pb_min_age :: int
  pb_sold_out :: bool
  pb_remaining :: int

definition remaining_of :: "category_row \<Rightarrow> int" where
  "remaining_of c = (let r = int32 (int32 (ec_capacity c - ec_used c) - ec_reserved c) in if r < 0 then 0 else r)"

definition sold_out :: "category_row \<Rightarrow> bool" where
  "sold_out c \<longleftrightarrow> ec_capacity c \<le> int64 (ec_used c + ec_reserved c)"

definition deref_time :: "gotime option \<Rightarrow> gotime" where
  "deref_time t = (case t of None \<Rightarrow> zero_time | Some x \<Rightarrow> x)"

section \<open>Facts\<close>

text \<open>A form that is accepted keeps what was typed: the file within one byte of its limit, the amount as the decimal number
  it spells, an event id that is positive.\<close>

lemma read_limited_length: "0 \<le> m \<Longrightarrow> int (length (read_limited m data)) \<le> m + 1"
  by (simp add: read_limited_def)

lemma proof_parts_file:
  assumes "proof_parts ps (content, flds) = Inr (Some data, flds')"
    and "\<forall>d. content = Some d \<longrightarrow> int (length d) \<le> max_proof_bytes + 1"
  shows "int (length data) \<le> max_proof_bytes + 1"
  using assms
proof (induction ps arbitrary: content flds)
  case (Cons p ps)
  have "0 \<le> max_proof_bytes" by (simp add: max_proof_bytes_def)
  with Cons show ?case
    by (cases p) (auto simp: read_limited_length split: if_splits)
qed auto

lemma read_proof_form_Inr:
  assumes "read_proof_form rfc3339 parts = Inr inp"
  shows "\<exists>data. sb_file inp = Some (UpBytes data) \<and> int (length data) \<le> max_proof_bytes + 1"
proof -
  from assms obtain content flds where c: "proof_parts parts (None, []) = Inr (content, flds)"
    and k: "collect (proof_form_items rfc3339 content flds) = Inr ()" and f: "sb_file inp = map_option UpBytes content"
    by (auto simp: read_proof_form_def bindE_Inr_iff)
  from k have "content \<noteq> None" by (auto simp: proof_form_items_def Let_def)
  with c f proof_parts_file [of parts None "[]"] show ?thesis by auto
qed

text \<open>The counters of a category that is not oversold: the two shown values agree, and nothing wraps around.\<close>

lemma remaining_exact:
  assumes "0 \<le> ec_used c" "0 \<le> ec_reserved c" "ec_used c + ec_reserved c \<le> ec_capacity c" "ec_capacity c < 2 ^ 31"
  shows "remaining_of c = ec_capacity c - ec_used c - ec_reserved c \<and> (sold_out c \<longleftrightarrow> remaining_of c = 0)"
proof -
  have "int32 (ec_capacity c - ec_used c) = ec_capacity c - ec_used c"
    "int32 (ec_capacity c - ec_used c - ec_reserved c) = ec_capacity c - ec_used c - ec_reserved c"
    "int64 (ec_used c + ec_reserved c) = ec_used c + ec_reserved c"
    using assms by (auto intro!: int32_id int64_id)
  with assms show ?thesis by (auto simp: remaining_of_def sold_out_def Let_def)
qed

end
