(* ===== verification/AccessControl.thy ===== *)
theory AccessControl
  imports RunnerAccess
begin

text \<open>
  The gate in front of the handlers: \<open>CSRFGuard\<close> and \<open>AuthMiddleware\<close> of \<open>internal/httpapi/auth.go\<close>.  A request is
  what they read of it; the middleware either answers with an error or calls the handler for a principal.
\<close>

section \<open>The gate\<close>

record request =
  rq_method :: string
  rq_path :: string
  rq_client :: string
  rq_cookie :: string
  rq_authorization :: string

definition csrf_guard :: "request \<Rightarrow> unit res" where
  "csrf_guard rq =
     (if has_prefix (rq_path rq) ''/api/admin/'' \<and> rq_method rq \<noteq> ''GET'' \<and> rq_method rq \<noteq> ''HEAD''
         \<and> rq_client rq \<noteq> ''admin''
      then Inl (app 403 CodeCSRF) else Inr ())"

datatype principal = Anyone | Runner runner_user | Member staff_member

definition auth_middleware :: "auth_env \<Rightarrow> (string \<times> operation_auth) list \<Rightarrow> string \<Rightarrow> request \<Rightarrow> auth_db
    \<Rightarrow> principal res \<times> auth_db" where
  "auth_middleware e auths op rq s =
     (case map_of auths op of
        None \<Rightarrow> (Inl (app 403 CodeForbidden), s)
      | Some rule \<Rightarrow>
          if oa_kind rule = AuthNone then (Inr Anyone, s)
          else if oa_kind rule = AuthApp
          then (let token = bearer_token (rq_authorization rq)
                in if token = [] then (Inl unauthenticated, s)
                   else (bindE (authenticate_runner e token s) (\<lambda>u. Inr (Runner u)), s))
          else if rq_cookie rq = [] then (Inl unauthenticated, s)
          else (case authenticate_staff e (rq_cookie rq) s of
                  (Inl err, s') \<Rightarrow> (Inl err, s')
                | (Inr m, s') \<Rightarrow>
                    if oa_kind rule = AuthPermission \<and> \<not> allowed (sm_role m) (oa_permission rule) (oa_access rule)
                    then (Inl (app 403 CodeForbidden), s') else (Inr (Member m), s')))"

section \<open>Who gets through\<close>

definition live_runner :: "auth_env \<Rightarrow> string \<Rightarrow> runner_user \<Rightarrow> auth_db \<Rightarrow> bool" where
  "live_runner e token u s \<longleftrightarrow>
     (\<exists>raw ss r. decode_token token = Some raw \<and> get_user_session (ae_mac e raw) s = Some (ss, r)
        \<and> ss_revoked ss = None \<and> ae_now e < ss_expires ss \<and> us_status r = ''ACTIVE'' \<and> u = user_of r)"

definition live_member :: "auth_env \<Rightarrow> string \<Rightarrow> staff_member \<Rightarrow> auth_db \<Rightarrow> bool" where
  "live_member e token m s \<longleftrightarrow>
     (\<exists>raw ss r. decode_token token = Some raw \<and> get_staff_session (ae_mac e raw) s = Some (ss, r)
        \<and> ss_revoked ss = None \<and> ae_now e < ss_expires ss \<and> ae_now e < ss_created ss + absolute_timeout
        \<and> sf_status r = ''ACTIVE'' \<and> m = member_of r \<and> parse_role (sf_role r) \<noteq> None)"

lemma authenticate_runner_Inr: "authenticate_runner e token s = Inr u \<longleftrightarrow> live_runner e token u s"
  by (auto simp: authenticate_runner_def live_runner_def split: option.splits prod.splits if_splits)

lemma authenticate_staff_Inr: "fst (authenticate_staff e token s) = Inr m \<longleftrightarrow> live_member e token m s"
  by (auto simp: authenticate_staff_def live_member_def Let_def split: option.splits prod.splits)

definition public_operations :: "string list" where
  "public_operations = [''AdminLogin'', ''AppLoginTelegram'', ''AppRequestPhoneCode'', ''AppVerifyPhoneCode'', ''GetHealthz'',
     ''GetPublicEvent'', ''GetPublicFile'', ''GetReadyz'', ''ListPublicEvents'']"

text \<open>Who may change what: the roles for each operation of the back office that writes.\<close>

definition writers :: "string \<Rightarrow> string list" where
  "writers op =
     (if op \<in> {''AdminApproveProof'', ''AdminRejectProof''} then [''ADMIN'', ''FINANCE'']
      else if op \<in> {''AdminCreatePaymentAccount'', ''AdminUpdatePaymentAccount''} then [''FINANCE'']
      else [''OPS''])"

definition office_writes :: "string list" where
  "office_writes = [''AdminApproveProof'', ''AdminRejectProof'', ''AdminCreatePaymentAccount'', ''AdminUpdatePaymentAccount'',
     ''AdminCreateCoupon'', ''AdminUpdateCoupon'', ''AdminCreatePriceRule'', ''AdminUpdatePriceRule'', ''AdminCreateEvent'',
     ''AdminUpdateEventRegistration'', ''AdminPublishEvent'']"

lemma operation_table:
  "list_all (\<lambda>(op, r). map_of operation_auths op = Some r
     \<and> (oa_kind r = AuthNone \<longleftrightarrow> op \<in> set public_operations)
     \<and> (oa_kind r = AuthApp \<longrightarrow> has_prefix op ''App'')
     \<and> (oa_kind r = AuthSession \<longrightarrow> op \<in> {''AdminGetMe'', ''AdminLogout''})
     \<and> (oa_kind r = AuthPermission \<longrightarrow> has_prefix op ''Admin'')
     \<and> (op \<in> set office_writes \<longrightarrow> oa_kind r = AuthPermission
          \<and> list_all (\<lambda>q. allowed (role_str q) (oa_permission r) (oa_access r) \<longleftrightarrow> role_str q \<in> set (writers op)) all_roles)) operation_auths"
  by code_simp

lemma parse_role_Some: "parse_role s = Some r \<Longrightarrow> s = role_str r \<and> r \<in> set all_roles"
  by (simp add: parse_role_def find_Some_iff) (metis nth_mem)

text \<open>A request reaches a handler only for an operation of the table; without a session only for the public operations;
  for an operation of runners only with a live session of an active runner; for an operation of the back office only
  with a live session of an active member of staff; and the operations that change money, prices, coupons or events only
  for the roles that own them.\<close>

theorem requests_are_authorized:
  assumes "auth_middleware e operation_auths op rq s = (Inr p, s')"
  shows "case p of
      Anyone \<Rightarrow> op \<in> set public_operations
    | Runner u \<Rightarrow> has_prefix op ''App'' \<and> live_runner e (bearer_token (rq_authorization rq)) u s
    | Member m \<Rightarrow> has_prefix op ''Admin'' \<and> live_member e (rq_cookie rq) m s
        \<and> (op \<in> set office_writes \<longrightarrow> sm_role m \<in> set (writers op))"
proof -
  from assms obtain r where r: "map_of operation_auths op = Some r"
    by (auto simp: auth_middleware_def split: option.splits)
  then have "(op, r) \<in> set operation_auths" by (rule map_of_SomeD)
  with operation_table have t: "oa_kind r = AuthNone \<longleftrightarrow> op \<in> set public_operations" "oa_kind r = AuthApp \<longrightarrow> has_prefix op ''App''"
    "oa_kind r = AuthSession \<longrightarrow> op \<in> {''AdminGetMe'', ''AdminLogout''}" "oa_kind r = AuthPermission \<longrightarrow> has_prefix op ''Admin''"
    "op \<in> set office_writes \<longrightarrow> oa_kind r = AuthPermission
       \<and> list_all (\<lambda>q. allowed (role_str q) (oa_permission r) (oa_access r) \<longleftrightarrow> role_str q \<in> set (writers op)) all_roles"
    unfolding list_all_iff by blast+
  show ?thesis
  proof (cases "oa_kind r = AuthNone \<or> oa_kind r = AuthApp")
    case True
    with assms r t(1,2) show ?thesis
      by (auto simp: auth_middleware_def Let_def bindE_Inr_iff authenticate_runner_Inr split: if_splits)
  next
    case False
    obtain m where m: "authenticate_staff e (rq_cookie rq) s = (Inr m, s')" "p = Member m"
      and a: "oa_kind r = AuthPermission \<longrightarrow> allowed (sm_role m) (oa_permission r) (oa_access r)"
      using assms r False by (auto simp: auth_middleware_def split: if_splits prod.splits sum.splits)
    from m(1) authenticate_staff_Inr [of e "rq_cookie rq" s m] have live: "live_member e (rq_cookie rq) m s" by simp
    then obtain q where q: "parse_role (sm_role m) = Some q" by (auto simp: live_member_def member_of_def)
    from False have "oa_kind r = AuthSession \<or> oa_kind r = AuthPermission" by (cases "oa_kind r") auto
    with t(3,4) have "has_prefix op ''Admin''" by (auto simp: has_prefix_def)
    moreover have "op \<in> set office_writes \<longrightarrow> sm_role m \<in> set (writers op)"
      using t(5) a parse_role_Some [OF q] by (auto simp: list_all_iff)
    ultimately show ?thesis using live m(2) by simp
  qed
qed

end
