(* ===== verification/Messages.thy ===== *)
theory Messages
  imports Notify AccessControl
begin

text \<open>
  What a client sees of a request that fails: the message catalogue
  (\<open>internal/platform/i18n/catalog.go\<close>; its lookup \<open>T\<close> is \<open>catalog_t\<close>), the error
  body, the request id and the recovery from a panic of \<open>internal/platform/httpx\<close>,
  the body limits of \<open>internal/httpapi/router.go\<close> and the errors of the command
  line (\<open>describeError\<close>).  The log lines written on the way are left out.
\<close>

section \<open>Loading the catalogue\<close>

text \<open>A message file is what \<open>json.Unmarshal\<close> makes of it, a map from keys to texts; \<open>Inl\<close> is the failure to read or
  parse the file of a language.\<close>

datatype catalog_error = Unreadable lang | KeySetsDiffer "(lang \<times> string) list"

definition message_keys :: "(lang \<Rightarrow> (string \<times> string) list) \<Rightarrow> string list" where
  "message_keys msgs = sort (remdups (concat (map (\<lambda>l. map fst (msgs l)) required_langs)))"

definition missing_messages :: "(lang \<Rightarrow> (string \<times> string) list) \<Rightarrow> (lang \<times> string) list" where
  "missing_messages msgs =
     concat (map (\<lambda>k. concat (map (\<lambda>l. if map_of (msgs l) k = None then [(l, k)] else []) required_langs)) (message_keys msgs))"

definition load_catalog :: "(lang \<Rightarrow> (string \<times> string) list option) \<Rightarrow> catalog_error + (lang \<Rightarrow> string \<Rightarrow> string)" where
  "load_catalog texts =
     (case List.find (\<lambda>l. texts l = None) required_langs of
        Some l \<Rightarrow> Inl (Unreadable l)
      | None \<Rightarrow>
          (let msgs = (\<lambda>l. case texts l of None \<Rightarrow> [] | Some m \<Rightarrow> m)
           in if missing_messages msgs \<noteq> [] then Inl (KeySetsDiffer (missing_messages msgs))
              else Inr (\<lambda>l k. case map_of (msgs l) k of None \<Rightarrow> [] | Some t \<Rightarrow> t)))"

section \<open>Error bodies\<close>

record error_body =
  eb_code :: string
  eb_message :: string
  eb_fields :: "(string \<times> string) list"

definition param_text :: "params \<Rightarrow> (string \<times> string) list" where
  "param_text ps = map (\<lambda>(n, v). (n, case v of PInt i \<Rightarrow> int_str i | PStr s \<Rightarrow> s
     | PList ss \<Rightarrow> ''['' @ join '' '' ss @ '']'')) ps"

definition render_error :: "env \<Rightarrow> lang \<Rightarrow> apperr \<Rightarrow> error_body" where
  "render_error e l ae =
     \<lparr>eb_code = code_str (ae_code ae), eb_message = catalog_t e l (code_str (ae_code ae)) (param_text (ae_params ae)),
      eb_fields = map (\<lambda>(f, fe). (f, catalog_t e l (fe_key fe) (param_text (fe_params fe)))) (ae_fields ae)\<rparr>"

definition write_error :: "env \<Rightarrow> lang \<Rightarrow> goerr \<Rightarrow> int \<times> error_body" where
  "write_error e l err =
     (let ae = (case as_app err of None \<Rightarrow> new_err 500 CodeInternal | Some ae \<Rightarrow> ae)
      in (ae_status ae, render_error e l ae))"

text \<open>\<open>describeError\<close> of the command line: always in Chinese, the fields sorted by name and text.\<close>

definition describe_error :: "env \<Rightarrow> goerr \<Rightarrow> string + (string \<times> string list)" where
  "describe_error e err =
     (case as_app err of
        None \<Rightarrow> Inl (case err of OtherErr s \<Rightarrow> s | PgErr code c \<Rightarrow> code | AppErr _ \<Rightarrow> [])
      | Some ae \<Rightarrow> let b = render_error e ZH ae in Inr (eb_message b, sort (map (\<lambda>(f, t). f @ '': '' @ t) (eb_fields b))))"

section \<open>The middlewares\<close>

definition is_id_char :: "char \<Rightarrow> bool" where
  "is_id_char c \<longleftrightarrow> is_lower c \<or> is_upper c \<or> is_digit c \<or> c = CHR ''-'' \<or> c = CHR ''_''"

definition valid_request_id :: "string \<Rightarrow> bool" where
  "valid_request_id s \<longleftrightarrow> s \<noteq> [] \<and> byte_len s \<le> 64 \<and> list_all is_id_char s"

definition request_id :: "string \<Rightarrow> string \<Rightarrow> string" where
  "request_id random header = (if valid_request_id header then header else hex_encode random)"

text \<open>How a handler ends: \<open>Recover\<close> turns a panic into an error body, but lets \<open>http.ErrAbortHandler\<close> through.\<close>

datatype 'a outcome = Returned 'a | Failed goerr | Panicked string | Aborted

datatype 'a answer = Answer 'a | ErrorAnswer int error_body | Dropped

definition recover :: "env \<Rightarrow> lang \<Rightarrow> 'a outcome \<Rightarrow> 'a answer" where
  "recover e l out =
     (case out of
        Returned x \<Rightarrow> Answer x
      | Failed err \<Rightarrow> (case write_error e l err of (st, b) \<Rightarrow> ErrorAnswer st b)
      | Panicked p \<Rightarrow> (case write_error e l (app 500 CodeInternal) of (st, b) \<Rightarrow> ErrorAnswer st b)
      | Aborted \<Rightarrow> Dropped)"

definition max_request_body :: int where "max_request_body = 1048576"
definition max_upload_body :: int where "max_upload_body = 6291456"

text \<open>\<open>uploadBodyPath\<close>: a proof of an order, a payment account or the list of them.\<close>

definition upload_body_path :: "string \<Rightarrow> bool" where
  "upload_body_path path \<longleftrightarrow>
     (case split_on (CHR ''/'') path of
        [r, a, app', orders', no, proofs'] \<Rightarrow> r = [] \<and> a = ''api'' \<and> app' = ''app'' \<and> orders' = ''orders'' \<and> no \<noteq> [] \<and> proofs' = ''proofs''
      | [r, a, admin, accounts'] \<Rightarrow> r = [] \<and> a = ''api'' \<and> admin = ''admin'' \<and> accounts' = ''payment-accounts''
      | [r, a, admin, accounts', i] \<Rightarrow> r = [] \<and> a = ''api'' \<and> admin = ''admin'' \<and> accounts' = ''payment-accounts''
          \<and> i \<noteq> [] \<and> list_all is_digit i
      | _ \<Rightarrow> False)"

definition body_limit_for :: "string \<Rightarrow> int" where
  "body_limit_for path = (if upload_body_path path then max_upload_body else max_request_body)"

text \<open>\<open>maxBodySize\<close>: \<open>None\<close> is a body without limit.\<close>

definition max_body_size :: "string \<Rightarrow> int option" where
  "max_body_size path = (if has_prefix path ''/api/'' then Some (body_limit_for path) else None)"

text \<open>The chain of one request: CSRF guard, binding of the parameters and the body, authentication, handler; each
  failure ends in an error body in the language of the request.  \<open>authenticate\<close> is the authentication middleware on the
  state of the server.\<close>

definition serve :: "env \<Rightarrow> lang \<Rightarrow> request \<Rightarrow> bool \<Rightarrow> ('s \<Rightarrow> principal res \<times> 's) \<Rightarrow> (principal \<Rightarrow> 's \<Rightarrow> 'a outcome \<times> 's)
    \<Rightarrow> 's \<Rightarrow> 'a answer \<times> 's" where
  "serve e l rq bound authenticate handler s =
     (case csrf_guard rq of
        Inl err \<Rightarrow> (recover e l (Failed err), s)
      | Inr _ \<Rightarrow>
          if \<not> bound then (recover e l (Failed (app 400 CodeBadRequest)), s)
          else (case authenticate s of
             (Inl err, s') \<Rightarrow> (recover e l (Failed err), s')
           | (Inr p, s') \<Rightarrow> (case handler p s' of (out, s2) \<Rightarrow> (recover e l out, s2))))"

section \<open>What a client learns\<close>

lemma set_message_keys: "set (message_keys msgs) = (\<Union>l\<in>set required_langs. fst ` set (msgs l))"
  by (simp add: message_keys_def)

lemma missing_messages_none:
  "missing_messages msgs = [] \<longleftrightarrow> (\<forall>k\<in>set (message_keys msgs). \<forall>l\<in>set required_langs. k \<in> fst ` set (msgs l))"
  by (auto simp: missing_messages_def map_of_eq_None_iff split: if_splits)

lemma all_langs: "l \<in> set required_langs"
  by (cases l) (simp_all add: required_langs_def)

lemma message_keys_agree:
  "missing_messages msgs = [] \<longleftrightarrow> (\<forall>l l'. fst ` set (msgs l) = fst ` set (msgs l'))"
proof
  assume "missing_messages msgs = []"
  then have "fst ` set (msgs l) = set (message_keys msgs)" for l
    using all_langs [of l] by (auto simp: missing_messages_none set_message_keys)
  then show "\<forall>l l'. fst ` set (msgs l) = fst ` set (msgs l')" by simp
next
  assume "\<forall>l l'. fst ` set (msgs l) = fst ` set (msgs l')"
  then show "missing_messages msgs = []" by (simp add: missing_messages_none set_message_keys) blast
qed

text \<open>The catalogue loads exactly when every file is readable and the files have the same keys.\<close>

lemma load_catalog_iff:
  "(\<exists>cat. load_catalog texts = Inr cat) \<longleftrightarrow>
     (\<forall>l. texts l \<noteq> None) \<and> (\<forall>l l'. fst ` set (the (texts l)) = fst ` set (the (texts l')))"
proof (cases "\<exists>l. texts l = None")
  case True
  then obtain l where l: "texts l = None" by blast
  then have "List.find (\<lambda>l. texts l = None) required_langs \<noteq> None"
    using all_langs [of l] by (auto simp: find_None_iff)
  then have "\<not> (\<exists>cat. load_catalog texts = Inr cat)" by (auto simp: load_catalog_def)
  moreover have "\<not> (\<forall>l. texts l \<noteq> None)" using l by blast
  ultimately show ?thesis by blast
next
  case False
  then have "List.find (\<lambda>l. texts l = None) required_langs = None" by (simp add: find_None_iff)
  moreover from False have "(\<lambda>l. case texts l of None \<Rightarrow> [] | Some m \<Rightarrow> m) = (\<lambda>l. the (texts l))"
    by (intro ext) (metis option.case_eq_if)
  ultimately show ?thesis using False message_keys_agree [of "\<lambda>l. the (texts l)"]
    by (simp add: load_catalog_def Let_def)
qed

text \<open>A request id is never longer than what was accepted and holds no character that could forge a log line or a header.\<close>

lemma request_id_safe: "length random = 8 \<Longrightarrow> valid_request_id (request_id random header)"
proof -
  have h: "is_id_char (hex_lower x) \<and> byte_len [hex_lower x] = 1" if "x < 16" for x
  proof -
    have "list_all (\<lambda>x. is_id_char (hex_lower x) \<and> byte_len [hex_lower x] = 1) [0..<16]" by code_simp
    with that show ?thesis by (simp add: list_all_iff)
  qed
  have b: "code_of c div 16 < 16" "code_of c mod 16 < 16" for c using code_of_bound [of c] by auto
  have "list_all is_id_char (hex_encode bs) \<and> byte_len (hex_encode bs) = 2 * length bs" for bs
    using h b by (induction bs) (simp_all add: hex_encode_def byte_len_def)
  moreover have "length random = 8 \<Longrightarrow> hex_encode random \<noteq> []" by (cases random) (simp_all add: hex_encode_def)
  ultimately show "length random = 8 \<Longrightarrow> ?thesis" by (auto simp: request_id_def valid_request_id_def)
qed

text \<open>Causes inside the service, an unknown error, a database error or a panic, cannot be told apart from outside: all of
  them answer 500 with the one text of \<open>INTERNAL\<close> in the language of the request.\<close>

definition internal_cause :: "'a outcome \<Rightarrow> bool" where
  "internal_cause out = (case out of Failed err \<Rightarrow> as_app err = None | Panicked _ \<Rightarrow> True | _ \<Rightarrow> False)"

lemma recover_internal:
  assumes "internal_cause out"
  shows "recover e l out = ErrorAnswer 500 (render_error e l (new_err 500 CodeInternal))"
  using assms by (auto simp: internal_cause_def recover_def write_error_def app_def split: outcome.splits)

lemma internal_errors_hidden:
  assumes "internal_cause out" and "internal_cause out'"
  shows "serve e l rq bound authenticate (\<lambda>p s. (out, f p s)) s = serve e l rq bound authenticate (\<lambda>p s. (out', f p s)) s"
  by (simp add: serve_def Let_def recover_internal [OF assms(1)] recover_internal [OF assms(2)]
      split: sum.split prod.split)

text \<open>The limit of a path without slash at its end is one of the two, and only the upload paths get the larger one.\<close>

lemma upload_paths:
  "map max_body_size [''/api/app/orders/W-1/proofs'', ''/api/admin/payment-accounts'', ''/api/admin/payment-accounts/12'',
     ''/api/app/orders//proofs'', ''/api/admin/payment-accounts/12a'', ''/api/admin/events'', ''/health'']
   = [Some 6291456, Some 6291456, Some 6291456, Some 1048576, Some 1048576, Some 1048576, None]"
  by code_simp

end
