(* ===== verification/AuthSamples.thy ===== *)
theory AuthSamples
  imports AccessControl Samples
begin

text \<open>A member of staff and an environment the witnesses sign in with.\<close>

definition sample_auth_env :: auth_env where
  "sample_auth_env = \<lparr>ae_now = sample_now, ae_rand = (\<lambda>path. map int path @ replicate 32 7), ae_mac = (\<lambda>bs. CHR ''m'' # bs),
     ae_hasher = sample_hasher, ae_busy = False, ae_bot_token = ''bot'', ae_bot_mac = rev,
     ae_json_user = (\<lambda>s. Some \<lparr>tg_id = digits_val 0 s, tg_first_name = ''Dara'', tg_last_name = [], tg_username = [], tg_language_code = ''en''\<rparr>),
     ae_user_json = (\<lambda>u. int_str (tg_id u)), ae_rand_int = (\<lambda>path n. 4711), ae_fixed_code = None, ae_send = (\<lambda>phone code payload. Sent [])\<rparr>"

definition sample_auth_db :: auth_db where
  "sample_auth_db = \<lparr>base = sample_db,
     staff_rows = [\<lparr>sf_id = 1, sf_username = ''sokha'', sf_full_name = ''Sokha'', sf_role = ''FINANCE'',
       sf_password_hash = hash_password sample_hasher (replicate 16 (CHR ''s'')) ''correct horse'', sf_status = ''ACTIVE'',
       sf_last_login = None\<rparr>],
     sessions = [], otps = []\<rparr>"

definition sample_login :: "(string \<times> staff_member) res \<times> login_limiter \<times> auth_db" where
  "sample_login = login_staff sample_auth_env '' Sokha '' ''correct horse'' ''10.0.0.1'' new_login_limiter sample_auth_db"

definition sample_request :: request where
  "sample_request = \<lparr>rq_method = ''POST'', rq_path = ''/api/admin/proofs/1/approve'', rq_client = ''admin'',
     rq_cookie = encode_token (rand_bytes sample_auth_env [2] token_bytes), rq_authorization = []\<rparr>"

lemma sample_login_runs:
  "fst sample_login = Inr (rq_cookie sample_request, \<lparr>sm_id = 1, sm_username = ''sokha'', sm_full_name = ''Sokha'', sm_role = ''FINANCE''\<rparr>)"
  by code_simp

lemma sample_request_passes:
  "fst (auth_middleware sample_auth_env operation_auths ''AdminApproveProof'' sample_request (snd (snd sample_login)))
     = Inr (Member \<lparr>sm_id = 1, sm_username = ''sokha'', sm_full_name = ''Sokha'', sm_role = ''FINANCE''\<rparr>)"
  by code_simp

lemma requests_are_authorized_witness:
  "\<exists>m. fst (auth_middleware sample_auth_env operation_auths ''AdminApproveProof'' sample_request (snd (snd sample_login))) = Inr (Member m)
     \<and> live_member sample_auth_env (rq_cookie sample_request) m (snd (snd sample_login)) \<and> sm_role m \<in> set [''ADMIN'', ''FINANCE'']"
proof -
  let ?run = "auth_middleware sample_auth_env operation_auths ''AdminApproveProof'' sample_request (snd (snd sample_login))"
  obtain m where m: "fst ?run = Inr (Member m)" using sample_request_passes by blast
  then have "?run = (Inr (Member m), snd ?run)" by (simp add: prod_eq_iff)
  note a = requests_are_authorized [OF this]
  have "''AdminApproveProof'' \<in> set office_writes" "writers ''AdminApproveProof'' = [''ADMIN'', ''FINANCE'']" by code_simp+
  with a have "live_member sample_auth_env (rq_cookie sample_request) m (snd (snd sample_login)) \<and> sm_role m \<in> set [''ADMIN'', ''FINANCE'']"
    by (simp only: principal.case simp_thms)
  with m show ?thesis by blast
qed

end
