(* ===== verification/AuthRuns.thy ===== *)
theory AuthRuns
  imports AuthSamples
begin

text \<open>
  All runs of the sign-in services, one request after the other under a clock that never goes back, and how long a
  session of a member of staff lives.  The history \<open>H\<close> holds for each token hash who signed in and when, the last time the
  session was used, and whether it was signed out.
\<close>

section \<open>Runs\<close>

record session_use =
  su_staff :: int
  su_login :: gotime
  su_last :: gotime
  su_out :: bool

inductive auth_run :: "(string \<Rightarrow> string) \<Rightarrow> gotime \<Rightarrow> auth_db \<Rightarrow> (string \<rightharpoonup> session_use) \<Rightarrow> bool" for mac where
  start: "sessions s = [] \<Longrightarrow> distinct (map sf_id (staff_rows s)) \<Longrightarrow> \<forall>r\<in>set (staff_rows s). parse_role (sf_role r) \<noteq> None
     \<Longrightarrow> auth_run mac t s Map.empty"
| signed_in: "auth_run mac t s H \<Longrightarrow> ae_mac e = mac \<Longrightarrow> t \<le> ae_now e \<Longrightarrow> login_staff e u pw ip l s = (Inr (token, m), l', s')
     \<Longrightarrow> decode_token token = Some raw
     \<Longrightarrow> auth_run mac (ae_now e) s' (H(mac raw \<mapsto> \<lparr>su_staff = sm_id m, su_login = ae_now e, su_last = ae_now e, su_out = False\<rparr>))"
| not_signed_in: "auth_run mac t s H \<Longrightarrow> ae_mac e = mac \<Longrightarrow> t \<le> ae_now e \<Longrightarrow> login_staff e u pw ip l s = (Inl err, l', s')
     \<Longrightarrow> auth_run mac (ae_now e) s' H"
| used: "auth_run mac t s H \<Longrightarrow> ae_mac e = mac \<Longrightarrow> t \<le> ae_now e \<Longrightarrow> authenticate_staff e token s = (Inr m, s')
     \<Longrightarrow> decode_token token = Some raw
     \<Longrightarrow> auth_run mac (ae_now e) s' (H(mac raw := map_option (su_last_update (\<lambda>_. ae_now e)) (H (mac raw))))"
| refused: "auth_run mac t s H \<Longrightarrow> ae_mac e = mac \<Longrightarrow> t \<le> ae_now e \<Longrightarrow> authenticate_staff e token s = (Inl err, s')
     \<Longrightarrow> auth_run mac (ae_now e) s' H"
| signed_out: "auth_run mac t s H \<Longrightarrow> ae_mac e = mac \<Longrightarrow> t \<le> ae_now e \<Longrightarrow> decode_token token = Some raw
     \<Longrightarrow> auth_run mac (ae_now e) (logout_staff e token s) (H(mac raw := map_option (su_out_update (\<lambda>_. True)) (H (mac raw))))"
| cleaned: "auth_run mac t s H \<Longrightarrow> t \<le> ae_now e \<Longrightarrow> auth_run mac (ae_now e) (session_cleanup_work e s) H"
| staff_created: "auth_run mac t s H \<Longrightarrow> t \<le> ae_now e \<Longrightarrow> create_staff e u n role pw s = Inr (m, s') \<Longrightarrow> auth_run mac (ae_now e) s' H"
| runner_in: "auth_run mac t s H \<Longrightarrow> ae_mac e = mac \<Longrightarrow> t \<le> ae_now e \<Longrightarrow> login_telegram e d s = Inr (x, s') \<Longrightarrow> auth_run mac (ae_now e) s' H"
| runner_code: "auth_run mac t s H \<Longrightarrow> ae_mac e = mac \<Longrightarrow> t \<le> ae_now e \<Longrightarrow> request_phone_code e phone ip l s = (x, l', s')
     \<Longrightarrow> auth_run mac (ae_now e) s' H"
| runner_verified: "auth_run mac t s H \<Longrightarrow> ae_mac e = mac \<Longrightarrow> t \<le> ae_now e \<Longrightarrow> verify_phone_code e phone code locale ip l s = (x, l', s')
     \<Longrightarrow> auth_run mac (ae_now e) s' H"
| runner_out: "auth_run mac t s H \<Longrightarrow> ae_mac e = mac \<Longrightarrow> t \<le> ae_now e \<Longrightarrow> auth_run mac (ae_now e) (logout_runner e token s) H"

section \<open>The invariant\<close>

definition row_ok :: "gotime \<Rightarrow> session_row \<Rightarrow> session_use \<Rightarrow> bool" where
  "row_ok t r h \<longleftrightarrow> ss_subject r = su_staff h \<and> ss_created r = su_login h \<and> (ss_revoked r \<noteq> None \<longleftrightarrow> su_out h)
     \<and> su_login h \<le> su_last h \<and> su_last h \<le> t
     \<and> ss_expires r \<le> su_last h + idle_timeout \<and> ss_expires r \<le> su_login h + absolute_timeout
     \<and> min (su_last h + idle_timeout) (su_login h + absolute_timeout) < ss_expires r + touch_interval"

definition is_staff :: "session_row \<Rightarrow> bool" where
  "is_staff r \<longleftrightarrow> ss_type r = ''STAFF''"

definition fresh_enough :: "gotime \<Rightarrow> session_use \<Rightarrow> bool" where
  "fresh_enough t h \<longleftrightarrow> \<not> su_out h \<and> t + touch_interval \<le> su_last h + idle_timeout \<and> t + touch_interval \<le> su_login h + absolute_timeout"

definition session_inv :: "gotime \<Rightarrow> auth_db \<Rightarrow> (string \<rightharpoonup> session_use) \<Rightarrow> bool" where
  "session_inv t s H \<longleftrightarrow> distinct (map ss_token_hash (sessions s)) \<and> distinct (map ss_id (sessions s))
     \<and> distinct (map sf_id (staff_rows s)) \<and> (\<forall>r\<in>set (staff_rows s). parse_role (sf_role r) \<noteq> None)
     \<and> (\<forall>r\<in>set (sessions s). is_staff r \<longrightarrow> ss_subject r \<in> sf_id ` set (staff_rows s)
          \<and> (\<exists>h. H (ss_token_hash r) = Some h \<and> row_ok t r h))
     \<and> (\<forall>k h. H k = Some h \<and> fresh_enough t h \<longrightarrow> (\<exists>r\<in>set (sessions s). is_staff r \<and> ss_token_hash r = k))"

lemma row_ok_later: "row_ok t r h \<Longrightarrow> t \<le> t' \<Longrightarrow> row_ok t' r h"
  by (simp add: row_ok_def)

lemma fresh_enough_before: "fresh_enough t' h \<Longrightarrow> t \<le> t' \<Longrightarrow> fresh_enough t h"
  by (simp add: fresh_enough_def)

lemma session_inv_later: "session_inv t s H \<Longrightarrow> t \<le> t' \<Longrightarrow> session_inv t' s H"
  unfolding session_inv_def using row_ok_later fresh_enough_before by blast

lemma session_inv_cong:
  "session_inv t s H \<Longrightarrow> sessions s' = sessions s \<Longrightarrow> staff_rows s' = staff_rows s \<Longrightarrow> session_inv t s' H"
  by (simp add: session_inv_def)

text \<open>Every step keeps the staff table (or adds a row), and what it does to the sessions is one of four things.\<close>

lemma session_inv_user:
  assumes "session_inv t s H" and "sessions s' = sessions s @ [r]" and "staff_rows s' = staff_rows s"
    and "ss_id r \<notin> ss_id ` set (sessions s)" and "ss_token_hash r \<notin> ss_token_hash ` set (sessions s)" and "\<not> is_staff r"
  shows "session_inv t s' H"
  using assms unfolding session_inv_def by (auto 4 3)

lemma session_inv_staff:
  assumes "session_inv t s H" and "sessions s' = sessions s @ [r]" and "map sf_id (staff_rows s') = map sf_id (staff_rows s)"
    and "map sf_role (staff_rows s') = map sf_role (staff_rows s)"
    and "ss_id r \<notin> ss_id ` set (sessions s)" and "ss_token_hash r \<notin> ss_token_hash ` set (sessions s)"
    and "is_staff r" and "ss_subject r \<in> sf_id ` set (staff_rows s)" and "row_ok t r h"
  shows "session_inv t s' (H(ss_token_hash r \<mapsto> h))"
proof -
  have ids: "sf_id ` set (staff_rows s') = sf_id ` set (staff_rows s)" using assms(3) by (metis set_map)
  have "sf_role ` set (staff_rows s') = sf_role ` set (staff_rows s)" using assms(4) by (metis set_map)
  then have roles: "\<forall>r\<in>set (staff_rows s'). parse_role (sf_role r) \<noteq> None" if "\<forall>r\<in>set (staff_rows s). parse_role (sf_role r) \<noteq> None"
    using that by (metis imageE imageI)
  have ne: "\<forall>x\<in>set (sessions s). ss_token_hash x \<noteq> ss_token_hash r" using assms(6) by (metis image_eqI)
  show ?thesis using assms(1,2,3,5-9) roles ne unfolding session_inv_def ids by (auto 4 3)
qed

lemma session_inv_update:
  assumes "session_inv t s H" and "sessions s' = map f (sessions s)" and "staff_rows s' = staff_rows s"
    and f: "\<And>r. ss_id (f r) = ss_id r" "\<And>r. ss_token_hash (f r) = ss_token_hash r" "\<And>r. ss_type (f r) = ss_type r" "\<And>r. ss_subject (f r) = ss_subject r"
    and ok: "\<And>r h. r \<in> set (sessions s) \<Longrightarrow> is_staff r \<Longrightarrow> H (ss_token_hash r) = Some h \<Longrightarrow> row_ok t r h
        \<Longrightarrow> \<exists>h'. H' (ss_token_hash r) = Some h' \<and> row_ok t (f r) h'"
    and fresh: "\<And>k h'. H' k = Some h' \<Longrightarrow> fresh_enough t h' \<Longrightarrow> (\<exists>h. H k = Some h \<and> fresh_enough t h) \<or> (\<exists>r\<in>set (sessions s). is_staff r \<and> ss_token_hash r = k)"
  shows "session_inv t s' H'"
proof -
  have m: "map ss_id (sessions s') = map ss_id (sessions s)" "map ss_token_hash (sessions s') = map ss_token_hash (sessions s)"
    by (simp_all add: assms(2) f o_def)
  have st: "is_staff (f r) = is_staff r" for r by (simp add: is_staff_def f)
  show ?thesis
    unfolding session_inv_def m assms(3)
  proof (intro conjI ballI allI impI)
    fix r assume "r \<in> set (sessions s')" "is_staff r"
    then obtain r0 where r0: "r0 \<in> set (sessions s)" "r = f r0" "is_staff r0" by (auto simp: assms(2) st)
    with assms(1) obtain h where h: "H (ss_token_hash r0) = Some h" "row_ok t r0 h" and sub: "ss_subject r0 \<in> sf_id ` set (staff_rows s)"
      unfolding session_inv_def by blast
    from sub r0 show "ss_subject r \<in> sf_id ` set (staff_rows s)" by (simp add: f)
    from ok [OF r0(1,3) h] r0 show "\<exists>h. H' (ss_token_hash r) = Some h \<and> row_ok t r h" by (simp add: f)
  next
    fix k h' assume "H' k = Some h' \<and> fresh_enough t h'"
    with fresh [of k h'] assms(1) have "\<exists>r\<in>set (sessions s). is_staff r \<and> ss_token_hash r = k" unfolding session_inv_def by blast
    then show "\<exists>r\<in>set (sessions s'). is_staff r \<and> ss_token_hash r = k" by (auto simp: assms(2) st f)
  qed (use assms(1) in \<open>simp_all add: session_inv_def\<close>)
qed

lemma session_inv_delete:
  assumes "session_inv t s H" and "sessions s' = filter (\<lambda>r. \<not> session_stale cutoff r) (sessions s)" and "staff_rows s' = staff_rows s"
    and "cutoff \<le> t"
  shows "session_inv t s' H"
proof -
  have keep: "\<not> session_stale cutoff r" if "row_ok t r h" "fresh_enough t h" for r h
    using that assms(4) by (auto simp: session_stale_def row_ok_def fresh_enough_def split: option.splits)
  have d: "distinct (map ss_token_hash (sessions s'))" "distinct (map ss_id (sessions s'))"
    using assms(1,2) by (simp_all add: session_inv_def distinct_map_filter)
  have "\<exists>r\<in>set (sessions s'). is_staff r \<and> ss_token_hash r = k" if h: "H k = Some h" "fresh_enough t h" for k h
  proof -
    from assms(1) h obtain r where r: "r \<in> set (sessions s)" "is_staff r" "ss_token_hash r = k" unfolding session_inv_def by blast
    with assms(1) h have "row_ok t r h" unfolding session_inv_def by (metis option.inject)
    from keep [OF this h(2)] r show ?thesis by (auto simp: assms(2))
  qed
  with d assms(1) show ?thesis by (simp add: session_inv_def assms(2,3))
qed


section \<open>What the operations do to the sessions\<close>

lemma insert_session_Inr:
  "insert_session ty i h ex cr s = Inr s' \<longleftrightarrow> h \<notin> ss_token_hash ` set (sessions s)
     \<and> s' = s\<lparr>sessions := sessions s @ [\<lparr>ss_id = next_id ss_id (sessions s), ss_type = ty, ss_subject = i, ss_token_hash = h,
            ss_expires = ex, ss_revoked = None, ss_created = cr\<rparr>]\<rparr>"
  by (auto simp: insert_session_def)

definition user_session :: "auth_db \<Rightarrow> auth_db \<Rightarrow> bool" where
  "user_session s s' \<longleftrightarrow> staff_rows s' = staff_rows s
     \<and> (sessions s' = sessions s
        \<or> (\<exists>r. sessions s' = sessions s @ [r] \<and> \<not> is_staff r \<and> ss_id r \<notin> ss_id ` set (sessions s)
              \<and> ss_token_hash r \<notin> ss_token_hash ` set (sessions s)))"

lemma user_session_inv: "session_inv t s H \<Longrightarrow> user_session s s' \<Longrightarrow> session_inv t s' H"
  unfolding user_session_def using session_inv_cong session_inv_user by blast

lemma user_session_same: "sessions s' = sessions s \<Longrightarrow> staff_rows s' = staff_rows s \<Longrightarrow> user_session s s'"
  by (simp add: user_session_def)

lemma user_session_base [simp]: "user_session (s\<lparr>base := b\<rparr>) s' \<longleftrightarrow> user_session s s'"
    "user_session (s\<lparr>otps := x\<rparr>) s' \<longleftrightarrow> user_session s s'"
  by (simp_all add: user_session_def)

lemma open_user_session_Inr:
  assumes "open_user_session e raw u s = Inr s'"
  shows "user_session s s'"
  using assms next_id_fresh [of ss_id "sessions s"]
  by (auto simp: open_user_session_def bindE_Inr_iff insert_session_Inr on_base_def user_session_def is_staff_def)

lemma login_telegram_user_session: "login_telegram e d s = Inr (x, s') \<Longrightarrow> user_session s s'"
  by (auto simp: login_telegram_def bindE_Inr_iff Let_def case_prod_unfold dest!: open_user_session_Inr)

lemma request_phone_code_user_session: "request_phone_code e phone ip l s = (x, l', s') \<Longrightarrow> user_session s s'"
  by (auto simp: request_phone_code_def insert_otp_def consume_active_otps_def consume_otp_def set_otp_provider_def Let_def
      user_session_same split: if_splits prod.splits sum.splits send_answer.splits)

lemma verify_code_tx_user_session: "verify_code_tx e raw phone code locale s = Inr (x, s') \<Longrightarrow> user_session s s'"
  by (auto simp: verify_code_tx_def consume_otp_def increment_otp_attempts_def Let_def case_prod_unfold bindE_Inr_iff
      user_session_same dest!: open_user_session_Inr split: option.splits if_splits)

lemma verify_phone_code_user_session: "verify_phone_code e phone code locale ip l s = (x, l', s') \<Longrightarrow> user_session s s'"
  by (auto simp: verify_phone_code_def Let_def user_session_same dest!: verify_code_tx_user_session
      split: if_splits prod.splits sum.splits)

lemma login_staff_Inr:
  assumes "login_staff e u pw ip l s = (Inr (token, m), l', s')"
  shows "\<exists>r raw. r \<in> set (staff_rows s) \<and> m = member_of r \<and> token = encode_token raw \<and> raw = rand_bytes e [2] token_bytes
    \<and> open_staff_session e raw r s = Inr s'"
  using assms by (auto simp: login_staff_def Let_def get_staff_by_username_def dest!: find_Some_key
      split: if_splits prod.splits option.splits sum.splits)

lemma login_staff_Inl:
  assumes "login_staff e u pw ip l s = (Inl err, l', s')"
  shows "sessions s' = sessions s \<and> staff_rows s' = staff_rows s"
  using assms by (auto simp: login_staff_def Let_def on_base_def split: if_splits prod.splits option.splits sum.splits)

lemma open_staff_session_inv:
  assumes "session_inv t s H" and "r \<in> set (staff_rows s)" and "open_staff_session e raw r s = Inr s'" and "ae_now e = t"
  shows "session_inv t s' (H(ae_mac e raw \<mapsto> \<lparr>su_staff = sf_id r, su_login = t, su_last = t, su_out = False\<rparr>))"
proof -
  let ?r = "\<lparr>ss_id = next_id ss_id (sessions s), ss_type = ''STAFF'', ss_subject = sf_id r, ss_token_hash = ae_mac e raw,
      ss_expires = t + idle_timeout, ss_revoked = None, ss_created = t\<rparr>"
  let ?h = "\<lparr>su_staff = sf_id r, su_login = t, su_last = t, su_out = False\<rparr>"
  from assms(3,4) have s: "sessions s' = sessions s @ [?r]" "ae_mac e raw \<notin> ss_token_hash ` set (sessions s)"
    "map sf_id (staff_rows s') = map sf_id (staff_rows s)" "map sf_role (staff_rows s') = map sf_role (staff_rows s)"
    by (auto simp: open_staff_session_def bindE_Inr_iff insert_session_Inr on_base_def set_staff_last_login_def update_where_def)
  have "row_ok t ?r ?h" by (simp add: row_ok_def idle_timeout_def absolute_timeout_def touch_interval_def time_units)
  with session_inv_staff [OF assms(1) s(1,3,4), where h = ?h] s(2) assms(2) next_id_fresh [of ss_id "sessions s"]
  show ?thesis by (simp add: is_staff_def)
qed

lemma revoke_session_inv:
  assumes "session_inv t s H"
  shows "session_inv t (revoke_session t k s) (H(k := map_option (su_out_update (\<lambda>_. True)) (H k)))"
proof -
  let ?f = "\<lambda>r. if ss_token_hash r = k \<and> ss_revoked r = None then ss_revoked_update (\<lambda>_. Some t) r else r"
  show ?thesis
    by (rule session_inv_update [OF assms, where f = ?f])
      (auto simp: revoke_session_def update_where_def row_ok_def fresh_enough_def split: if_splits)
qed

lemma logout_runner_inv:
  assumes "session_inv t s H"
  shows "session_inv t (revoke_user_session now k s) H"
proof -
  let ?f = "\<lambda>r. if ss_type r = ''USER'' \<and> ss_token_hash r = k \<and> ss_revoked r = None then ss_revoked_update (\<lambda>_. Some now) r else r"
  show ?thesis
    by (rule session_inv_update [OF assms, where f = ?f])
      (auto simp: revoke_user_session_def update_where_def is_staff_def)
qed

lemma get_staff_session_Some:
  assumes "get_staff_session k s = Some (ss, st)"
  shows "ss \<in> set (sessions s) \<and> is_staff ss \<and> ss_token_hash ss = k \<and> st \<in> set (staff_rows s) \<and> sf_id st = ss_subject ss"
  using assms by (auto simp: get_staff_session_def is_staff_def find_Some_iff split: option.splits)

lemma find_key_unique_where:
  "distinct (map key t) \<Longrightarrow> r \<in> set t \<Longrightarrow> P r \<Longrightarrow> List.find (\<lambda>x. P x \<and> key x = key r) t = Some r"
  by (induction t) (auto simp: rev_image_eqI)

lemma get_staff_session_row:
  assumes "session_inv t s H" and "ss \<in> set (sessions s)" "is_staff ss" and "st \<in> set (staff_rows s)" "sf_id st = ss_subject ss"
  shows "get_staff_session (ss_token_hash ss) s = Some (ss, st)"
proof -
  from assms(1) have d: "distinct (map ss_token_hash (sessions s))" "distinct (map sf_id (staff_rows s))" by (simp_all add: session_inv_def)
  have "List.find (\<lambda>r. ss_type r = ''STAFF'' \<and> ss_token_hash r = ss_token_hash ss) (sessions s) = Some ss"
    using find_key_unique_where [OF d(1) assms(2), of "\<lambda>r. ss_type r = ''STAFF''"] assms(3) by (simp add: is_staff_def)
  moreover have "List.find (\<lambda>r. sf_id r = ss_subject ss) (staff_rows s) = Some st"
    using find_key_unique [OF d(2) assms(4)] assms(5) by simp
  ultimately show ?thesis by (simp add: get_staff_session_def)
qed


section \<open>Using a session\<close>

definition renewed :: "gotime \<Rightarrow> session_row \<Rightarrow> gotime" where
  "renewed now ss = (if ss_created ss + absolute_timeout < now + idle_timeout then ss_created ss + absolute_timeout else now + idle_timeout)"

lemma authenticate_staff_row:
  assumes "authenticate_staff e token s = (Inr m, s')" and "decode_token token = Some raw"
  shows "\<exists>ss st. get_staff_session (ae_mac e raw) s = Some (ss, st) \<and> m = member_of st \<and> ss_revoked ss = None
    \<and> ae_now e < ss_expires ss \<and> ae_now e < ss_created ss + absolute_timeout \<and> sf_status st = ''ACTIVE''
    \<and> s' = (if touch_interval \<le> renewed (ae_now e) ss - ss_expires ss then update_session_expiry (renewed (ae_now e) ss) (ss_id ss) s else s)"
  using assms by (auto simp: authenticate_staff_def renewed_def Let_def split: option.splits prod.splits if_splits)

lemma renew_inv:
  assumes inv: "session_inv now s H" and ss: "ss \<in> set (sessions s)" "is_staff ss" "H (ss_token_hash ss) = Some h" "ss_revoked ss = None"
    and s': "s' = (if touch_interval \<le> renewed now ss - ss_expires ss then update_session_expiry (renewed now ss) (ss_id ss) s else s)"
  shows "session_inv now s' (H(ss_token_hash ss \<mapsto> h\<lparr>su_last := now\<rparr>))"
proof -
  let ?touch = "touch_interval \<le> renewed now ss - ss_expires ss"
  let ?f = "\<lambda>r. if ?touch \<and> ss_id r = ss_id ss \<and> ss_revoked r = None then ss_expires_update (\<lambda>_. renewed now ss) r else r"
  have d: "distinct (map ss_id (sessions s))" "distinct (map ss_token_hash (sessions s))" using inv by (simp_all add: session_inv_def)
  have ok: "row_ok now ss h" using inv ss unfolding session_inv_def by (metis option.inject)
  have new: "row_ok now (?f ss) (h\<lparr>su_last := now\<rparr>)"
    using ok ss(4) by (auto simp: row_ok_def renewed_def min_def touch_interval_def idle_timeout_def absolute_timeout_def time_units split: if_splits)
  show ?thesis
  proof (rule session_inv_update [OF inv, where f = ?f])
    show "sessions s' = map ?f (sessions s)" by (simp add: s' update_session_expiry_def update_where_def)
    show "staff_rows s' = staff_rows s" by (simp add: s' update_session_expiry_def)
    fix r k assume r: "r \<in> set (sessions s)" "is_staff r" "H (ss_token_hash r) = Some k" "row_ok now r k"
    show "\<exists>h'. (H(ss_token_hash ss \<mapsto> h\<lparr>su_last := now\<rparr>)) (ss_token_hash r) = Some h' \<and> row_ok now (?f r) h'"
    proof (cases "r = ss")
      case True
      show ?thesis unfolding True using new by (intro exI conjI) (rule fun_upd_same)
    next
      case False
      with distinct_key_eq [OF d(1) r(1) ss(1)] distinct_key_eq [OF d(2) r(1) ss(1)]
      have "ss_id r \<noteq> ss_id ss" "ss_token_hash r \<noteq> ss_token_hash ss" by blast+
      with r show ?thesis by simp
    qed
  next
    fix k h'
    assume "(H(ss_token_hash ss \<mapsto> h\<lparr>su_last := now\<rparr>)) k = Some h'" "fresh_enough now h'"
    then show "(\<exists>h. H k = Some h \<and> fresh_enough now h) \<or> (\<exists>r\<in>set (sessions s). is_staff r \<and> ss_token_hash r = k)"
      using ss by (cases "k = ss_token_hash ss") auto
  qed simp_all
qed

lemma authenticate_staff_run:
  assumes inv: "session_inv (ae_now e) s H" and run: "authenticate_staff e token s = (Inr m, s')" "decode_token token = Some raw"
  shows "\<exists>h. H (ae_mac e raw) = Some h \<and> sm_id m = su_staff h \<and> \<not> su_out h \<and> ae_now e < su_login h + absolute_timeout
    \<and> ae_now e < su_last h + idle_timeout \<and> session_inv (ae_now e) s' (H(ae_mac e raw \<mapsto> h\<lparr>su_last := ae_now e\<rparr>))"
proof -
  from authenticate_staff_row [OF run] obtain ss st where a: "get_staff_session (ae_mac e raw) s = Some (ss, st)" "m = member_of st"
    "ss_revoked ss = None" "ae_now e < ss_expires ss" "ae_now e < ss_created ss + absolute_timeout"
    "s' = (if touch_interval \<le> renewed (ae_now e) ss - ss_expires ss then update_session_expiry (renewed (ae_now e) ss) (ss_id ss) s else s)"
    by blast
  note r = get_staff_session_Some [OF a(1)]
  with inv obtain h where h: "H (ss_token_hash ss) = Some h" "row_ok (ae_now e) ss h" unfolding session_inv_def by blast
  with renew_inv [OF inv _ _ h(1) a(3,6)] r a(2-5) show ?thesis by (auto simp: row_ok_def member_of_def)
qed

lemma authenticate_staff_refused:
  assumes "session_inv t s H" and "authenticate_staff e token s = (Inl err, s')"
  shows "s' = s"
proof -
  have roles: "parse_role (sf_role st) \<noteq> None" if "get_staff_session k s = Some (ss, st)" for k ss st
    using get_staff_session_Some [OF that] assms(1) unfolding session_inv_def by blast
  from assms(2) show ?thesis
    by (auto simp: authenticate_staff_def Let_def dest: roles split: option.splits prod.splits if_splits)
qed

lemma create_staff_inv:
  assumes "session_inv t s H" and "create_staff e u n role pw s = Inr (m, s')"
  shows "session_inv t s' H"
proof -
  from assms(2) obtain r where r: "staff_rows s' = staff_rows s @ [r]" "sessions s' = sessions s" "sf_id r = next_id sf_id (staff_rows s)"
    "parse_role (sf_role r) \<noteq> None"
    by (auto simp: create_staff_def staff_items_def bindE_Inr_iff Let_def insert_staff_def split: if_splits)
  with assms(1) next_id_fresh [of sf_id "staff_rows s"] show ?thesis by (auto simp: session_inv_def)
qed

lemma auth_run_inv:
  assumes "auth_run mac t s H"
  shows "session_inv t s H"
  using assms
proof induction
  case (start s t)
  then show ?case by (simp add: session_inv_def)
next
  case (signed_in t s H e u pw ip l token m l' s' raw)
  from login_staff_Inr [OF signed_in.hyps(4)] obtain r raw' where r: "r \<in> set (staff_rows s)" "m = member_of r" "token = encode_token raw'"
    "raw' = rand_bytes e [2] token_bytes" "open_staff_session e raw' r s = Inr s'" by blast
  have "raw' = raw" using r(3) signed_in.hyps(5) by (simp add: decode_token_def encode_token_def split: if_splits)
  with open_staff_session_inv [OF session_inv_later [OF signed_in.IH signed_in.hyps(3)] r(1,5) refl] r(2) signed_in.hyps(2)
  show ?case by (simp add: member_of_def fun_upd_def)
next
  case (not_signed_in t s H e u pw ip l err l' s')
  from login_staff_Inl [OF not_signed_in.hyps(4)] show ?case
    by (intro session_inv_cong [OF session_inv_later [OF not_signed_in.IH not_signed_in.hyps(3)]]) simp_all
next
  case (used t s H e token m s' raw)
  from authenticate_staff_run [OF session_inv_later [OF used.IH used.hyps(3)] used.hyps(4,5)]
  obtain h where h: "H (ae_mac e raw) = Some h" "session_inv (ae_now e) s' (H(ae_mac e raw \<mapsto> h\<lparr>su_last := ae_now e\<rparr>))" by blast
  from h(2) show ?case by (simp only: used.hyps(2) [symmetric] h(1) option.map)
next
  case (refused t s H e token err s')
  note inv = session_inv_later [OF refused.IH refused.hyps(3)]
  from authenticate_staff_refused [OF inv refused.hyps(4)] inv show ?case by simp
next
  case (signed_out t s H e token raw)
  from revoke_session_inv [OF session_inv_later [OF signed_out.IH signed_out.hyps(3)], of "mac raw"] signed_out.hyps(2,4)
  show ?case by (simp add: logout_staff_def fun_upd_def)
next
  case (cleaned t s H e)
  show ?case
    by (rule session_inv_delete [OF session_inv_later [OF cleaned.IH cleaned.hyps(2)], where cutoff = "ae_now e - session_retention"])
      (simp_all add: session_cleanup_work_def delete_expired_sessions_def delete_expired_sessions_stmt_def session_retention_def time_units)
next
  case (staff_created t s H e u n role pw m s')
  show ?case by (rule create_staff_inv [OF session_inv_later [OF staff_created.IH staff_created.hyps(2)] staff_created.hyps(3)])
next
  case (runner_in t s H e d x s')
  show ?case by (rule user_session_inv [OF session_inv_later [OF runner_in.IH runner_in.hyps(3)] login_telegram_user_session [OF runner_in.hyps(4)]])
next
  case (runner_code t s H e phone ip l x l' s')
  show ?case by (rule user_session_inv [OF session_inv_later [OF runner_code.IH runner_code.hyps(3)] request_phone_code_user_session [OF runner_code.hyps(4)]])
next
  case (runner_verified t s H e phone code lang ip l x l' s')
  show ?case
    by (rule user_session_inv [OF session_inv_later [OF runner_verified.IH runner_verified.hyps(3)] verify_phone_code_user_session [OF runner_verified.hyps(4)]])
next
  case (runner_out t s H e token)
  note inv = session_inv_later [OF runner_out.IH runner_out.hyps(3)]
  show ?case
  proof (cases "decode_token token")
    case (Some raw)
    with logout_runner_inv [OF inv] show ?thesis by (simp add: logout_runner_def)
  qed (use inv in \<open>simp add: logout_runner_def\<close>)
qed

text \<open>C27: A staff session authenticates as the member who signed in, at most seven days after signing in, at most eight hours
  after its last use and never after signing out; and it does so for as long as it is used, up to a minute before those
  limits, whatever other sign-ins, runners and clean-ups happen meanwhile.\<close>

theorem staff_session_lifetime:
  assumes "auth_run (ae_mac e) t s H" and "t \<le> ae_now e" and "decode_token token = Some raw"
  shows "(\<forall>m. fst (authenticate_staff e token s) = Inr m \<longrightarrow>
      (\<exists>h. H (ae_mac e raw) = Some h \<and> sm_id m = su_staff h \<and> \<not> su_out h \<and> ae_now e < su_login h + 7 * day \<and> ae_now e < su_last h + 8 * hour))
    \<and> (\<forall>h. H (ae_mac e raw) = Some h \<and> \<not> su_out h \<and> ae_now e + minute \<le> su_login h + 7 * day \<and> ae_now e + minute \<le> su_last h + 8 * hour
        \<and> (\<forall>r\<in>set (staff_rows s). sf_id r = su_staff h \<longrightarrow> sf_status r = ''ACTIVE'')
        \<longrightarrow> (\<exists>m. fst (authenticate_staff e token s) = Inr m))"
proof (intro conjI allI impI)
  note inv = session_inv_later [OF auth_run_inv [OF assms(1)] assms(2)]
  fix m assume "fst (authenticate_staff e token s) = Inr m"
  then have "authenticate_staff e token s = (Inr m, snd (authenticate_staff e token s))" by (simp add: prod_eq_iff)
  from authenticate_staff_run [OF inv this assms(3)]
  show "\<exists>h. H (ae_mac e raw) = Some h \<and> sm_id m = su_staff h \<and> \<not> su_out h \<and> ae_now e < su_login h + 7 * day \<and> ae_now e < su_last h + 8 * hour"
    by (auto simp: absolute_timeout_def idle_timeout_def day_def)
next
  note inv = session_inv_later [OF auth_run_inv [OF assms(1)] assms(2)]
  fix h assume h: "H (ae_mac e raw) = Some h \<and> \<not> su_out h \<and> ae_now e + minute \<le> su_login h + 7 * day \<and> ae_now e + minute \<le> su_last h + 8 * hour
        \<and> (\<forall>r\<in>set (staff_rows s). sf_id r = su_staff h \<longrightarrow> sf_status r = ''ACTIVE'')"
  then have "fresh_enough (ae_now e) h" by (simp add: fresh_enough_def idle_timeout_def absolute_timeout_def touch_interval_def day_def)
  with inv h obtain ss where ss: "ss \<in> set (sessions s)" "is_staff ss" "ss_token_hash ss = ae_mac e raw" unfolding session_inv_def by blast
  with inv h have ok: "row_ok (ae_now e) ss h" and sub: "ss_subject ss \<in> sf_id ` set (staff_rows s)"
    unfolding session_inv_def by (metis option.inject)+
  from sub obtain st where st: "st \<in> set (staff_rows s)" "sf_id st = ss_subject ss" by auto
  have "get_staff_session (ae_mac e raw) s = Some (ss, st)" using get_staff_session_row [OF inv ss(1,2) st] ss(3) by simp
  moreover have "sf_status st = ''ACTIVE''" using h st ok by (simp add: row_ok_def)
  moreover obtain q where "parse_role (sf_role st) = Some q" using inv st(1) unfolding session_inv_def by blast
  moreover from ok h have "ss_revoked ss = None" "ae_now e < ss_expires ss" "ae_now e < ss_created ss + absolute_timeout"
    by (auto simp: row_ok_def idle_timeout_def absolute_timeout_def touch_interval_def time_units)
  ultimately show "\<exists>m. fst (authenticate_staff e token s) = Inr m"
    using assms(3) by (simp add: authenticate_staff_def Let_def)
qed

definition sample_later :: "int \<Rightarrow> auth_env" where
  "sample_later d = sample_auth_env\<lparr>ae_now := sample_now + d\<rparr>"

lemma staff_session_lifetime_witness:
  "(\<exists>m. fst (authenticate_staff (sample_later (3 * hour)) (rq_cookie sample_request) (snd (snd sample_login))) = Inr m)
   \<and> \<not> (\<exists>m. fst (authenticate_staff (sample_later (9 * hour)) (rq_cookie sample_request) (snd (snd sample_login))) = Inr m)"
proof -
  let ?e = sample_auth_env and ?s = "snd (snd sample_login)" and ?raw = "rand_bytes sample_auth_env [2] token_bytes"
  let ?m = "\<lparr>sm_id = 1, sm_username = ''sokha'', sm_full_name = ''Sokha'', sm_role = ''FINANCE''\<rparr>"
  have start: "auth_run (ae_mac ?e) sample_now sample_auth_db Map.empty"
    by (rule start) (simp_all add: sample_auth_db_def parse_role_def all_roles_def)
  have d: "decode_token (rq_cookie sample_request) = Some ?raw" by code_simp
  have now: "ae_now ?e = sample_now" by (simp add: sample_auth_env_def)
  have l: "login_staff ?e '' Sokha '' ''correct horse'' ''10.0.0.1'' new_login_limiter sample_auth_db
      = (Inr (rq_cookie sample_request, ?m), fst (snd sample_login), ?s)"
    using sample_login_runs by (simp add: prod_eq_iff flip: sample_login_def)
  define h where "h = \<lparr>su_staff = 1, su_login = sample_now, su_last = sample_now, su_out = False\<rparr>"
  from signed_in [OF start refl _ l d] have run: "auth_run (ae_mac ?e) sample_now ?s [ae_mac ?e ?raw \<mapsto> h]"
    by (simp add: now h_def fun_upd_def)
  have active: "\<forall>r\<in>set (staff_rows ?s). sf_status r = ''ACTIVE''" by code_simp
  have mac: "ae_mac (sample_later k) = ae_mac ?e" "ae_now (sample_later k) = sample_now + k" for k by (simp_all add: sample_later_def)
  have run3: "auth_run (ae_mac (sample_later k)) sample_now ?s [ae_mac ?e ?raw \<mapsto> h]" for k using run by (simp only: mac)
  have le: "sample_now \<le> ae_now (sample_later (3 * hour))" "sample_now \<le> ae_now (sample_later (9 * hour))" by (simp_all add: mac time_units)
  have "ae_now (sample_later (3 * hour)) + minute \<le> su_login h + 7 * day" "ae_now (sample_later (3 * hour)) + minute \<le> su_last h + 8 * hour"
    "\<not> ae_now (sample_later (9 * hour)) < su_last h + 8 * hour" "\<not> su_out h" by (simp_all add: mac h_def time_units)
  with staff_session_lifetime [OF run3 le(1) d] staff_session_lifetime [OF run3 le(2) d] active
  show ?thesis unfolding mac(1) by (metis (no_types, lifting) fun_upd_same option.inject)
qed

end
