(* ===== verification/Api.thy ===== *)
theory Api
  imports Lifecycle Forms Messages AuthRuns
begin

text \<open>
  The HTTP interface: one definition per handler of the strict server of
  \<open>internal/httpapi/server.go\<close>, on the whole state of the process (database,
  disk, sessions, limiters), and the chain of middlewares in front of them.  A
  call carries the decoded parameters of its operation, a body is absent when
  the generated code passes none.  Decoding JSON is the work of the generated
  code; a request it cannot decode has no call.  Answers carry the values of
  the services; the conversions to the generated types that only rename fields
  are left out, those that hide something are here.
\<close>

section \<open>State\<close>

record world =
  wd_auth :: auth_db
  wd_disk :: disk
  wd_logins :: login_limiter
  wd_codes :: otp_limiter

abbreviation wd_db :: "world \<Rightarrow> db" where "wd_db w \<equiv> base (wd_auth w)"

text \<open>What the handlers take from outside: clock, randomness and catalogue of both halves, SHA-256 of a payload,
  \<open>time.Parse(time.RFC3339, _)\<close>, the answer of the database to a ping.\<close>

record http_env =
  he_env :: env
  he_auth :: auth_env
  he_digest :: "create_input \<Rightarrow> string"
  he_rfc3339 :: "string \<Rightarrow> gotime option"
  he_ready :: bool

section \<open>Calls and answers\<close>

datatype api_call =
    AdminLogin "(string \<times> string) option" | AdminLogout | AdminGetMe
  | AdminListEvents | AdminGetEvent int | AdminCreateEvent "event_input option" | AdminPublishEvent int
  | AdminUpdateEventRegistration int "registration_input option"
  | AdminListPriceRules int | AdminCreatePriceRule int "(int option \<times> price_rule_input) option"
  | AdminUpdatePriceRule int "(int option \<times> price_rule_input) option"
  | AdminListCoupons "int option" | AdminCreateCoupon "(int option \<times> coupon_input) option"
  | AdminUpdateCoupon int "(int option \<times> coupon_input) option"
  | AdminListPaymentAccounts | AdminCreatePaymentAccount "form_part list option"
  | AdminUpdatePaymentAccount int "form_part list option"
  | AdminListOrders admin_filter | AdminGetOrder int
  | AdminListProofs "string option" | AdminGetProof int | AdminApproveProof int "approve_input option"
  | AdminRejectProof int "reject_input option" | AdminGetFile int
  | AppLoginTelegram "string option" | AppLogout | AppGetMe | AppRequestPhoneCode "string option"
  | AppVerifyPhoneCode "(string \<times> string) option" | AppUpdateMe "(string option \<times> string option) option"
  | AppListProfiles | AppCreateProfile "(profile_data \<times> bool option) option"
  | AppUpdateProfile int "(profile_data \<times> bool option) option" | AppDeleteProfile int
  | AppGetConsent string "string option"
  | AppQuote string "(string option \<times> participant_input list) option"
  | AppCreateOrder string "(string option \<times> create_input) option" | AppListOrders | AppGetOrder string | AppCancelOrder string
  | AppCreateFreeSignup string "free_input option" | AppListFreeSignups
  | AppSubmitProof string "form_part list option"
  | GetHealthz | GetReadyz | ListPublicEvents | GetPublicEvent string | GetPublicFile int

fun op_of :: "api_call \<Rightarrow> string" where
  "op_of (AdminLogin _) = ''AdminLogin''" | "op_of AdminLogout = ''AdminLogout''" | "op_of AdminGetMe = ''AdminGetMe''"
| "op_of AdminListEvents = ''AdminListEvents''" | "op_of (AdminGetEvent _) = ''AdminGetEvent''"
| "op_of (AdminCreateEvent _) = ''AdminCreateEvent''" | "op_of (AdminPublishEvent _) = ''AdminPublishEvent''"
| "op_of (AdminUpdateEventRegistration _ _) = ''AdminUpdateEventRegistration''"
| "op_of (AdminListPriceRules _) = ''AdminListPriceRules''" | "op_of (AdminCreatePriceRule _ _) = ''AdminCreatePriceRule''"
| "op_of (AdminUpdatePriceRule _ _) = ''AdminUpdatePriceRule''"
| "op_of (AdminListCoupons _) = ''AdminListCoupons''" | "op_of (AdminCreateCoupon _) = ''AdminCreateCoupon''"
| "op_of (AdminUpdateCoupon _ _) = ''AdminUpdateCoupon''"
| "op_of AdminListPaymentAccounts = ''AdminListPaymentAccounts''"
| "op_of (AdminCreatePaymentAccount _) = ''AdminCreatePaymentAccount''"
| "op_of (AdminUpdatePaymentAccount _ _) = ''AdminUpdatePaymentAccount''"
| "op_of (AdminListOrders _) = ''AdminListOrders''" | "op_of (AdminGetOrder _) = ''AdminGetOrder''"
| "op_of (AdminListProofs _) = ''AdminListProofs''" | "op_of (AdminGetProof _) = ''AdminGetProof''"
| "op_of (AdminApproveProof _ _) = ''AdminApproveProof''" | "op_of (AdminRejectProof _ _) = ''AdminRejectProof''"
| "op_of (AdminGetFile _) = ''AdminGetFile''"
| "op_of (AppLoginTelegram _) = ''AppLoginTelegram''" | "op_of AppLogout = ''AppLogout''" | "op_of AppGetMe = ''AppGetMe''"
| "op_of (AppRequestPhoneCode _) = ''AppRequestPhoneCode''" | "op_of (AppVerifyPhoneCode _) = ''AppVerifyPhoneCode''"
| "op_of (AppUpdateMe _) = ''AppUpdateMe''" | "op_of AppListProfiles = ''AppListProfiles''"
| "op_of (AppCreateProfile _) = ''AppCreateProfile''" | "op_of (AppUpdateProfile _ _) = ''AppUpdateProfile''"
| "op_of (AppDeleteProfile _) = ''AppDeleteProfile''" | "op_of (AppGetConsent _ _) = ''AppGetConsent''"
| "op_of (AppQuote _ _) = ''AppQuote''" | "op_of (AppCreateOrder _ _) = ''AppCreateOrder''"
| "op_of AppListOrders = ''AppListOrders''" | "op_of (AppGetOrder _) = ''AppGetOrder''"
| "op_of (AppCancelOrder _) = ''AppCancelOrder''" | "op_of (AppCreateFreeSignup _ _) = ''AppCreateFreeSignup''"
| "op_of AppListFreeSignups = ''AppListFreeSignups''" | "op_of (AppSubmitProof _ _) = ''AppSubmitProof''"
| "op_of GetHealthz = ''GetHealthz''" | "op_of GetReadyz = ''GetReadyz''" | "op_of ListPublicEvents = ''ListPublicEvents''"
| "op_of (GetPublicEvent _) = ''GetPublicEvent''" | "op_of (GetPublicFile _) = ''GetPublicFile''"

text \<open>\<open>toAppUser\<close>: the phone number only masked; \<open>toRunnerProfile\<close>: the identity number only masked.\<close>

record app_user =
  xu_id :: int
  xu_name :: string
  xu_locale :: string
  xu_telegram :: "(int \<times> string) option"
  xu_phone_masked :: "string option"

definition to_app_user :: "runner_user \<Rightarrow> app_user" where
  "to_app_user u = \<lparr>xu_id = ru_id u, xu_name = ru_name u, xu_locale = ru_locale u,
     xu_telegram = (if ru_telegram u \<noteq> 0 then Some (ru_telegram u, ru_username u) else None),
     xu_phone_masked = (if ru_phone u \<noteq> [] then Some (mask_phone (ru_phone u)) else None)\<rparr>"

record runner_profile =
  xp_id :: int
  xp_data :: profile_data
  xp_masked :: string
  xp_self :: bool

definition to_runner_profile :: "profile_view \<Rightarrow> runner_profile" where
  "to_runner_profile v = \<lparr>xp_id = pv_id v, xp_data = (pv_data v)\<lparr>pd_id_no := []\<rparr>, xp_masked = pv_masked v, xp_self = pv_self v\<rparr>"

record me =
  xm_staff :: staff_member
  xm_permissions :: "(string \<times> access) list"

definition to_me :: "staff_member \<Rightarrow> me" where
  "to_me m = \<lparr>xm_staff = m, xm_permissions = permissions_of (sm_role m)\<rparr>"

text \<open>\<open>toPublicEvent\<close>: names in one language, seats as what is left; the cover image is not modelled.\<close>

record public_event_view =
  xe_id :: int
  xe_slug :: string
  xe_type :: string
  xe_name :: string
  xe_city :: string
  xe_race_date :: gotime
  xe_open :: bool
  xe_opens_at :: "gotime option"
  xe_closes_at :: "gotime option"
  xe_categories :: "public_category list"
  xe_from_price :: "int option"

definition to_public_category :: "lang \<Rightarrow> category_row \<Rightarrow> public_category" where
  "to_public_category l c = \<lparr>pb_id = ec_id c, pb_code = ec_code c, pb_name = text_in (ec_name c) l, pb_distance = ec_distance c,
     pb_capacity = ec_capacity c, pb_start = deref_time (ec_start_at c), pb_cutoff = deref_time (ec_cutoff_at c),
     pb_min_age = ec_min_age c, pb_sold_out = sold_out c, pb_remaining = remaining_of c\<rparr>"

definition to_public_event :: "lang \<Rightarrow> event_view \<Rightarrow> public_event_view" where
  "to_public_event l v =
     (let ev = vw_row v in
      \<lparr>xe_id = ev_id ev, xe_slug = ev_slug ev, xe_type = ev_type ev, xe_name = text_in (ev_name ev) l, xe_city = ev_city ev,
       xe_race_date = ev_race_date ev, xe_open = ev_open ev, xe_opens_at = ev_opens_at ev, xe_closes_at = ev_closes_at ev,
       xe_categories = map (to_public_category l) (vw_categories v), xe_from_price = vw_from_price v\<rparr>)"

datatype api_response =
    RNone | RHealth string | RSession string gotime app_user | RUser app_user | RCodeSent int int string
  | RLoggedIn me string int | RMe me
  | RProfiles "runner_profile list" | RProfile runner_profile | RConsent consent_row
  | RQuote quote | ROrder api_order | ROrders "order_summary list"
  | RFree free_signup | RFrees "free_summary list" | RProof proof_view
  | RPublicEvents "public_event_view list" | RPublicEvent public_event_view | RImage string int string string
  | REvents "event_view list" | REvent event_view
  | RRules "price_rule list" | RRule price_rule | RCoupons "coupon_view list" | RCoupon coupon_view
  | RAccounts "account_view list" | RAccount account_view
  | RAdminOrders "order_summary list" int | RAdminOrder admin_order_detail
  | RQueue "queue_item list" | RProofDetail proof_detail

section \<open>Handlers\<close>

type_synonym handler = "world \<Rightarrow> api_response res \<times> world"

text \<open>The steps the handlers share: \<open>StaffFrom\<close> and \<open>UserFrom\<close>, the absent body, a reading service and a service that commits.\<close>

definition as_staff :: "principal \<Rightarrow> (staff \<Rightarrow> handler) \<Rightarrow> handler" where
  "as_staff p f w = (case p of Member m \<Rightarrow> f \<lparr>st_id = sm_id m, st_role = sm_role m\<rparr> w | _ \<Rightarrow> (Inl unauthenticated, w))"

definition as_runner :: "principal \<Rightarrow> (runner_user \<Rightarrow> handler) \<Rightarrow> handler" where
  "as_runner p f w = (case p of Runner u \<Rightarrow> f u w | _ \<Rightarrow> (Inl unauthenticated, w))"

definition with_body :: "'b option \<Rightarrow> ('b \<Rightarrow> handler) \<Rightarrow> handler" where
  "with_body b f w = (case b of None \<Rightarrow> (Inl (app 400 CodeBadRequest), w) | Some x \<Rightarrow> f x w)"

definition converted :: "'a res \<Rightarrow> ('a \<Rightarrow> handler) \<Rightarrow> handler" where
  "converted r f w = (case r of Inl err \<Rightarrow> (Inl err, w) | Inr x \<Rightarrow> f x w)"

definition reads :: "(db \<Rightarrow> 'a res) \<Rightarrow> ('a \<Rightarrow> api_response) \<Rightarrow> handler" where
  "reads f answer w = (bindE (f (wd_db w)) (\<lambda>x. Inr (answer x)), w)"

definition set_db :: "db \<Rightarrow> world \<Rightarrow> world" where
  "set_db s w = w\<lparr>wd_auth := (wd_auth w)\<lparr>base := s\<rparr>\<rparr>"

definition commits :: "(db \<Rightarrow> ('a \<times> db) res) \<Rightarrow> ('a \<Rightarrow> api_response) \<Rightarrow> handler" where
  "commits f answer w =
     (case f (wd_db w) of Inl err \<Rightarrow> (Inl err, w) | Inr (x, s) \<Rightarrow> (Inr (answer x), set_db s w))"

definition commits_disk :: "(db \<Rightarrow> disk \<Rightarrow> ('a \<times> db) res \<times> disk) \<Rightarrow> ('a \<Rightarrow> api_response) \<Rightarrow> handler" where
  "commits_disk f answer w =
     (case f (wd_db w) (wd_disk w) of
        (Inl err, d) \<Rightarrow> (Inl err, w\<lparr>wd_disk := d\<rparr>)
      | (Inr (x, s), d) \<Rightarrow> (Inr (answer x), set_db s (w\<lparr>wd_disk := d\<rparr>)))"

text \<open>A review commits before its detail is read again, so its answer may be an error.\<close>

definition reviews :: "(db \<Rightarrow> (proof_detail res \<times> db) res) \<Rightarrow> handler" where
  "reviews f w =
     (case f (wd_db w) of
        Inl err \<Rightarrow> (Inl err, w) | Inr (r, s) \<Rightarrow> (bindE r (\<lambda>d. Inr (RProofDetail d)), set_db s w))"

subsection \<open>Staff accounts (\<open>internal/iam/handlers.go\<close>)\<close>

definition admin_login :: "http_env \<Rightarrow> string \<Rightarrow> (string \<times> string) option \<Rightarrow> handler" where
  "admin_login h ip body = with_body body (\<lambda>(username, password) w.
     case login_staff (he_auth h) username password ip (wd_logins w) (wd_auth w) of
       (Inl err, l, s) \<Rightarrow> (Inl err, w\<lparr>wd_logins := l, wd_auth := s\<rparr>)
     | (Inr (token, m), l, s) \<Rightarrow>
         (Inr (RLoggedIn (to_me m) token (absolute_timeout div second)), w\<lparr>wd_logins := l, wd_auth := s\<rparr>))"

definition admin_logout :: "http_env \<Rightarrow> request \<Rightarrow> handler" where
  "admin_logout h rq w =
     (Inr RNone, if rq_cookie rq = [] then w else w\<lparr>wd_auth := logout_staff (he_auth h) (rq_cookie rq) (wd_auth w)\<rparr>)"

definition admin_get_me :: "principal \<Rightarrow> handler" where
  "admin_get_me p w = (case p of Member m \<Rightarrow> (Inr (RMe (to_me m)), w) | _ \<Rightarrow> (Inl unauthenticated, w))"

subsection \<open>Events (\<open>internal/event/handlers.go\<close>)\<close>

definition list_public_events :: "http_env \<Rightarrow> lang \<Rightarrow> handler" where
  "list_public_events h l = reads (\<lambda>s. Inr (list_public (he_env h) s)) (\<lambda>vs. RPublicEvents (map (to_public_event l) vs))"

definition get_public_event :: "http_env \<Rightarrow> lang \<Rightarrow> string \<Rightarrow> handler" where
  "get_public_event h l slug = reads (get_public (he_env h) slug) (\<lambda>v. RPublicEvent (to_public_event l v))"

definition admin_list_events :: handler where
  "admin_list_events = reads (\<lambda>s. Inr (list_all_events s)) REvents"

definition admin_get_event :: "int \<Rightarrow> handler" where
  "admin_get_event i = reads (get_admin i) REvent"

definition admin_create_event :: "principal \<Rightarrow> event_input option \<Rightarrow> handler" where
  "admin_create_event p body = as_staff p (\<lambda>actor. with_body body (\<lambda>b. commits (create_event actor b) REvent))"

definition admin_publish_event :: "http_env \<Rightarrow> principal \<Rightarrow> int \<Rightarrow> handler" where
  "admin_publish_event h p i = as_staff p (\<lambda>actor. commits (publish_event (he_env h) actor i) REvent)"

definition admin_update_event_registration :: "principal \<Rightarrow> int \<Rightarrow> registration_input option \<Rightarrow> handler" where
  "admin_update_event_registration p i body =
     as_staff p (\<lambda>actor. with_body body (\<lambda>b. commits (update_registration actor i b) REvent))"

subsection \<open>Prices and coupons (\<open>internal/pricing/handlers.go\<close>)\<close>

definition admin_list_price_rules :: "int \<Rightarrow> handler" where
  "admin_list_price_rules ev = reads (list_price_rules ev) RRules"

definition admin_create_price_rule :: "principal \<Rightarrow> int \<Rightarrow> (int option \<times> price_rule_input) option \<Rightarrow> handler" where
  "admin_create_price_rule p ev body = as_staff p (\<lambda>actor. with_body body (\<lambda>(sort_order, b).
     converted (price_rule_input_from_api sort_order b) (\<lambda>inp. commits (create_price_rule actor ev inp) RRule)))"

definition admin_update_price_rule :: "principal \<Rightarrow> int \<Rightarrow> (int option \<times> price_rule_input) option \<Rightarrow> handler" where
  "admin_update_price_rule p i body = as_staff p (\<lambda>actor. with_body body (\<lambda>(sort_order, b).
     converted (price_rule_input_from_api sort_order b) (\<lambda>inp. commits (update_price_rule actor i inp) RRule)))"

definition admin_list_coupons :: "int option \<Rightarrow> handler" where
  "admin_list_coupons ev = reads (\<lambda>s. Inr (list_coupons ev s)) RCoupons"

definition admin_create_coupon :: "http_env \<Rightarrow> principal \<Rightarrow> (int option \<times> coupon_input) option \<Rightarrow> handler" where
  "admin_create_coupon h p body = as_staff p (\<lambda>actor. with_body body (\<lambda>(min_runners, b).
     converted (coupon_input_from_api min_runners b) (\<lambda>inp. commits (create_coupon (he_env h) actor inp) RCoupon)))"

text \<open>An update carries no code.\<close>

definition admin_update_coupon :: "principal \<Rightarrow> int \<Rightarrow> (int option \<times> coupon_input) option \<Rightarrow> handler" where
  "admin_update_coupon p i body = as_staff p (\<lambda>actor. with_body body (\<lambda>(min_runners, b).
     converted (coupon_input_from_api min_runners (b\<lparr>ci_code := []\<rparr>)) (\<lambda>inp. commits (update_coupon actor i inp) RCoupon)))"

subsection \<open>Payment accounts and proofs (\<open>internal/payment\<close>)\<close>

definition admin_list_payment_accounts :: handler where
  "admin_list_payment_accounts = reads (\<lambda>s. Inr (list_accounts s)) RAccounts"

definition admin_create_payment_account :: "http_env \<Rightarrow> principal \<Rightarrow> form_part list option \<Rightarrow> handler" where
  "admin_create_payment_account h p body = as_staff p (\<lambda>actor. with_body body (\<lambda>parts.
     converted (read_account_form parts) (\<lambda>form.
       commits_disk (create_account (he_env h) actor (af_input form) (map_option UpBytes (af_qr form))) RAccount)))"

definition admin_update_payment_account :: "http_env \<Rightarrow> principal \<Rightarrow> int \<Rightarrow> form_part list option \<Rightarrow> handler" where
  "admin_update_payment_account h p i body = as_staff p (\<lambda>actor. with_body body (\<lambda>parts.
     converted (read_account_form parts) (\<lambda>form.
       commits_disk (update_account (he_env h) actor i (af_input form) (map_option UpBytes (af_qr form))) RAccount)))"

definition get_public_file :: "http_env \<Rightarrow> int \<Rightarrow> handler" where
  "get_public_file h i w =
     (bindE (open_public_file (he_env h) i (wd_db w) (wd_disk w))
        (\<lambda>(f, data). Inr (RImage (fl_mime f) (fl_size f) ''public, max-age=86400'' data)), w)"

definition app_submit_proof :: "http_env \<Rightarrow> principal \<Rightarrow> string \<Rightarrow> form_part list option \<Rightarrow> handler" where
  "app_submit_proof h p order_no body = as_runner p (\<lambda>u. with_body body (\<lambda>parts.
     converted (read_proof_form (he_rfc3339 h) parts) (\<lambda>inp.
       commits_disk (submit_proof (he_env h) (ru_id u) order_no inp) RProof)))"

definition admin_list_proofs :: "http_env \<Rightarrow> string option \<Rightarrow> handler" where
  "admin_list_proofs h status = reads (list_proofs (he_env h) (deref_string status)) RQueue"

definition admin_get_proof :: "int \<Rightarrow> handler" where
  "admin_get_proof i = reads (get_proof i) RProofDetail"

definition admin_approve_proof :: "http_env \<Rightarrow> principal \<Rightarrow> int \<Rightarrow> approve_input option \<Rightarrow> handler" where
  "admin_approve_proof h p i body = as_staff p (\<lambda>actor. with_body body (\<lambda>b. reviews (approve_proof (he_env h) actor i b)))"

definition admin_reject_proof :: "http_env \<Rightarrow> principal \<Rightarrow> int \<Rightarrow> reject_input option \<Rightarrow> handler" where
  "admin_reject_proof h p i body = as_staff p (\<lambda>actor. with_body body (\<lambda>b. reviews (reject_proof (he_env h) actor i b)))"

definition admin_get_file :: "http_env \<Rightarrow> int \<Rightarrow> handler" where
  "admin_get_file h i w =
     (bindE (open_proof_file (he_env h) i (wd_db w) (wd_disk w))
        (\<lambda>(f, data). Inr (RImage (fl_mime f) (fl_size f) ''private, no-store'' data)), w)"

subsection \<open>Runners (\<open>internal/runner/handlers.go\<close>)\<close>

definition session_answer :: "session \<Rightarrow> api_response" where
  "session_answer ss = RSession (rs_token ss) (rs_expires ss) (to_app_user (rs_user ss))"

definition app_login_telegram :: "http_env \<Rightarrow> string option \<Rightarrow> handler" where
  "app_login_telegram h body = with_body body (\<lambda>init_data w.
     case login_telegram (he_auth h) init_data (wd_auth w) of
       Inl err \<Rightarrow> (Inl err, w) | Inr (ss, s) \<Rightarrow> (Inr (session_answer ss), w\<lparr>wd_auth := s\<rparr>))"

definition app_logout :: "http_env \<Rightarrow> request \<Rightarrow> handler" where
  "app_logout h rq w =
     (let token = bearer_token (rq_authorization rq)
      in (Inr RNone, if token = [] then w else w\<lparr>wd_auth := logout_runner (he_auth h) token (wd_auth w)\<rparr>))"

definition app_get_me :: "principal \<Rightarrow> handler" where
  "app_get_me p = as_runner p (\<lambda>u w. (Inr (RUser (to_app_user u)), w))"

definition app_request_phone_code :: "http_env \<Rightarrow> string \<Rightarrow> string option \<Rightarrow> handler" where
  "app_request_phone_code h ip body = with_body body (\<lambda>phone w.
     case request_phone_code (he_auth h) (trim_space phone) ip (wd_codes w) (wd_auth w) of
       (Inl err, l, s) \<Rightarrow> (Inl err, w\<lparr>wd_codes := l, wd_auth := s\<rparr>)
     | (Inr c, l, s) \<Rightarrow> (Inr (RCodeSent (cq_expires_in c div second) (cq_resend_after c div second) (cq_channel c)),
          w\<lparr>wd_codes := l, wd_auth := s\<rparr>))"

definition app_verify_phone_code :: "http_env \<Rightarrow> string \<Rightarrow> lang \<Rightarrow> (string \<times> string) option \<Rightarrow> handler" where
  "app_verify_phone_code h ip l body = with_body body (\<lambda>(phone, code) w.
     case verify_phone_code (he_auth h) (trim_space phone) (trim_space code) (lang_str l) ip (wd_codes w) (wd_auth w) of
       (Inl err, lim, s) \<Rightarrow> (Inl err, w\<lparr>wd_codes := lim, wd_auth := s\<rparr>)
     | (Inr ss, lim, s) \<Rightarrow> (Inr (session_answer ss), w\<lparr>wd_codes := lim, wd_auth := s\<rparr>))"

definition app_update_me :: "principal \<Rightarrow> (string option \<times> string option) option \<Rightarrow> handler" where
  "app_update_me p body = as_runner p (\<lambda>u. with_body body (\<lambda>(name, locale).
     commits (update_me (ru_id u) name locale) (\<lambda>v. RUser (to_app_user v))))"

definition app_list_profiles :: "http_env \<Rightarrow> principal \<Rightarrow> handler" where
  "app_list_profiles h p = as_runner p (\<lambda>u. reads (list_profiles (he_env h) (ru_id u)) (\<lambda>vs. RProfiles (map to_runner_profile vs)))"

definition app_create_profile :: "http_env \<Rightarrow> principal \<Rightarrow> (profile_data \<times> bool option) option \<Rightarrow> handler" where
  "app_create_profile h p body = as_runner p (\<lambda>u. with_body body (\<lambda>(d, is_self).
     commits (create_profile (he_env h) (ru_id u) d (is_self = Some True)) (\<lambda>v. RProfile (to_runner_profile v))))"

definition app_update_profile :: "http_env \<Rightarrow> principal \<Rightarrow> int \<Rightarrow> (profile_data \<times> bool option) option \<Rightarrow> handler" where
  "app_update_profile h p i body = as_runner p (\<lambda>u. with_body body (\<lambda>(d, is_self).
     commits (update_profile (he_env h) (ru_id u) i d (is_self = Some True)) (\<lambda>v. RProfile (to_runner_profile v))))"

definition app_delete_profile :: "principal \<Rightarrow> int \<Rightarrow> handler" where
  "app_delete_profile p i = as_runner p (\<lambda>u. commits (\<lambda>s. bindE (delete_profile (ru_id u) i s) (\<lambda>s'. Inr ((), s'))) (\<lambda>_. RNone))"

definition app_get_consent :: "http_env \<Rightarrow> lang \<Rightarrow> string \<Rightarrow> string option \<Rightarrow> handler" where
  "app_get_consent h l purpose lang_code =
     (if purpose \<noteq> ''REGISTRATION'' then (\<lambda>w. (Inl (AppErr (with_field ''purpose'' ''field.invalid'' [] validation_error)), w))
      else let l' = (case lang_code of None \<Rightarrow> l | Some c \<Rightarrow> (case parse_lang c of None \<Rightarrow> l | Some g \<Rightarrow> g))
           in reads (current_consent (he_env h) ''REGISTRATION'' l') RConsent)"

subsection \<open>Orders (\<open>internal/registration/handlers.go\<close>, \<open>admin_handlers.go\<close>, \<open>free_handlers.go\<close>)\<close>

definition app_quote :: "http_env \<Rightarrow> principal \<Rightarrow> string \<Rightarrow> (string option \<times> participant_input list) option \<Rightarrow> handler" where
  "app_quote h p slug body = as_runner p (\<lambda>u. with_body body (\<lambda>(coupon, ps).
     reads (preview_quote (he_env h) slug (deref_string coupon) ps) RQuote))"

definition create_input_from_api :: "string \<Rightarrow> string option \<Rightarrow> create_input \<Rightarrow> create_input" where
  "create_input_from_api key coupon b = b\<lparr>in_key := key, in_coupon := deref_string coupon\<rparr>"

definition app_create_order :: "http_env \<Rightarrow> principal \<Rightarrow> string \<Rightarrow> (string option \<times> create_input) option \<Rightarrow> handler" where
  "app_create_order h p key body = as_runner p (\<lambda>u. with_body body (\<lambda>(coupon, b).
     commits (create_order (he_env h) (he_digest h) (ru_id u) (create_input_from_api key coupon b)) (\<lambda>d. ROrder (to_api_order d))))"

definition app_list_orders :: "principal \<Rightarrow> handler" where
  "app_list_orders p = as_runner p (\<lambda>u. reads (\<lambda>s. Inr (list_my_orders (ru_id u) s)) ROrders)"

definition app_get_order :: "principal \<Rightarrow> string \<Rightarrow> handler" where
  "app_get_order p no = as_runner p (\<lambda>u. reads (get_my_order (ru_id u) no) (\<lambda>d. ROrder (to_api_order d)))"

definition app_cancel_order :: "http_env \<Rightarrow> principal \<Rightarrow> string \<Rightarrow> handler" where
  "app_cancel_order h p no = as_runner p (\<lambda>u. commits (cancel_order (he_env h) (ru_id u) no) (\<lambda>d. ROrder (to_api_order d)))"

definition admin_list_orders_handler :: "admin_filter \<Rightarrow> handler" where
  "admin_list_orders_handler f = reads (admin_list_orders f) (\<lambda>(os, n). RAdminOrders os n)"

definition admin_get_order_handler :: "int \<Rightarrow> handler" where
  "admin_get_order_handler i = reads (admin_get_order i) RAdminOrder"

definition app_create_free_signup :: "http_env \<Rightarrow> principal \<Rightarrow> string \<Rightarrow> free_input option \<Rightarrow> handler" where
  "app_create_free_signup h p slug body = as_runner p (\<lambda>u. with_body body (\<lambda>b.
     commits (create_free_signup (he_env h) (ru_id u) slug b) RFree))"

definition app_list_free_signups :: "principal \<Rightarrow> handler" where
  "app_list_free_signups p = as_runner p (\<lambda>u. reads (\<lambda>s. Inr (list_my_free_signups (ru_id u) s)) RFrees)"

section \<open>The server\<close>

record http_request =
  hq_request :: request
  hq_query_lang :: string
  hq_accept :: string
  hq_ip :: string
  hq_call :: "api_call option"

fun handle :: "http_env \<Rightarrow> http_request \<Rightarrow> lang \<Rightarrow> api_call \<Rightarrow> principal \<Rightarrow> handler" where
  "handle h q l (AdminLogin b) p = admin_login h (hq_ip q) b"
| "handle h q l AdminLogout p = admin_logout h (hq_request q)"
| "handle h q l AdminGetMe p = admin_get_me p"
| "handle h q l AdminListEvents p = admin_list_events"
| "handle h q l (AdminGetEvent i) p = admin_get_event i"
| "handle h q l (AdminCreateEvent b) p = admin_create_event p b"
| "handle h q l (AdminPublishEvent i) p = admin_publish_event h p i"
| "handle h q l (AdminUpdateEventRegistration i b) p = admin_update_event_registration p i b"
| "handle h q l (AdminListPriceRules i) p = admin_list_price_rules i"
| "handle h q l (AdminCreatePriceRule i b) p = admin_create_price_rule p i b"
| "handle h q l (AdminUpdatePriceRule i b) p = admin_update_price_rule p i b"
| "handle h q l (AdminListCoupons i) p = admin_list_coupons i"
| "handle h q l (AdminCreateCoupon b) p = admin_create_coupon h p b"
| "handle h q l (AdminUpdateCoupon i b) p = admin_update_coupon p i b"
| "handle h q l AdminListPaymentAccounts p = admin_list_payment_accounts"
| "handle h q l (AdminCreatePaymentAccount b) p = admin_create_payment_account h p b"
| "handle h q l (AdminUpdatePaymentAccount i b) p = admin_update_payment_account h p i b"
| "handle h q l (AdminListOrders f) p = admin_list_orders_handler f"
| "handle h q l (AdminGetOrder i) p = admin_get_order_handler i"
| "handle h q l (AdminListProofs st) p = admin_list_proofs h st"
| "handle h q l (AdminGetProof i) p = admin_get_proof i"
| "handle h q l (AdminApproveProof i b) p = admin_approve_proof h p i b"
| "handle h q l (AdminRejectProof i b) p = admin_reject_proof h p i b"
| "handle h q l (AdminGetFile i) p = admin_get_file h i"
| "handle h q l (AppLoginTelegram b) p = app_login_telegram h b"
| "handle h q l AppLogout p = app_logout h (hq_request q)"
| "handle h q l AppGetMe p = app_get_me p"
| "handle h q l (AppRequestPhoneCode b) p = app_request_phone_code h (hq_ip q) b"
| "handle h q l (AppVerifyPhoneCode b) p = app_verify_phone_code h (hq_ip q) l b"
| "handle h q l (AppUpdateMe b) p = app_update_me p b"
| "handle h q l AppListProfiles p = app_list_profiles h p"
| "handle h q l (AppCreateProfile b) p = app_create_profile h p b"
| "handle h q l (AppUpdateProfile i b) p = app_update_profile h p i b"
| "handle h q l (AppDeleteProfile i) p = app_delete_profile p i"
| "handle h q l (AppGetConsent purpose c) p = app_get_consent h l purpose c"
| "handle h q l (AppQuote slug b) p = app_quote h p slug b"
| "handle h q l (AppCreateOrder key b) p = app_create_order h p key b"
| "handle h q l AppListOrders p = app_list_orders p"
| "handle h q l (AppGetOrder no) p = app_get_order p no"
| "handle h q l (AppCancelOrder no) p = app_cancel_order h p no"
| "handle h q l (AppCreateFreeSignup slug b) p = app_create_free_signup h p slug b"
| "handle h q l AppListFreeSignups p = app_list_free_signups p"
| "handle h q l (AppSubmitProof no b) p = app_submit_proof h p no b"
| "handle h q l GetHealthz p = (\<lambda>w. (Inr (RHealth ''ok''), w))"
| "handle h q l GetReadyz p = (\<lambda>w. (Inr (RHealth (if he_ready h then ''ok'' else ''unavailable'')), w))"
| "handle h q l ListPublicEvents p = list_public_events h l"
| "handle h q l (GetPublicEvent slug) p = get_public_event h l slug"
| "handle h q l (GetPublicFile i) p = get_public_file h i"

text \<open>A request whose operation the generated code cannot bind has no call.\<close>

definition authenticate_world :: "http_env \<Rightarrow> string \<Rightarrow> request \<Rightarrow> world \<Rightarrow> principal res \<times> world" where
  "authenticate_world h op rq w =
     (case auth_middleware (he_auth h) operation_auths op rq (wd_auth w) of (r, s) \<Rightarrow> (r, w\<lparr>wd_auth := s\<rparr>))"

definition outcome_of :: "'a res \<Rightarrow> 'a outcome" where
  "outcome_of r = (case r of Inl err \<Rightarrow> Failed err | Inr x \<Rightarrow> Returned x)"

definition api_request :: "http_env \<Rightarrow> http_request \<Rightarrow> world \<Rightarrow> api_response answer \<times> world" where
  "api_request h q w =
     (let l = from_request (hq_query_lang q) (hq_accept q)
      in case hq_call q of
           None \<Rightarrow> serve (he_env h) l (hq_request q) False (\<lambda>w. (Inr Anyone, w)) (\<lambda>p w. (Aborted, w)) w
         | Some c \<Rightarrow>
             serve (he_env h) l (hq_request q) True (authenticate_world h (op_of c) (hq_request q))
               (\<lambda>p w. case handle h q l c p w of (r, w') \<Rightarrow> (outcome_of r, w')) w)"

end
