(* ===== verification/Config.thy ===== *)
theory Config
  imports RunnerAccess
begin

text \<open>
  \<open>internal/platform/config/config.go\<close>: the checks of the environment of the
  process, and the choices \<open>cmd/werun/app.go\<close> makes from them.
  \<open>env.ParseAs\<close> (package \<open>caarlos0/env\<close>) is an argument: the configuration it
  filled in and the text of its error, if any.  \<open>net/url\<close>'s \<open>Parse\<close> is an
  argument too, with the scheme and the host of an address.
\<close>

section \<open>Padded base64\<close>

text \<open>\<open>base64.StdEncoding.DecodeString\<close>: line ends are skipped, the text comes in groups of four
  and only the last one is padded.\<close>

definition base64_std_decode :: "string \<Rightarrow> string option" where
  "base64_std_decode s =
     (let t = filter (\<lambda>c. code_of c \<noteq> 10 \<and> code_of c \<noteq> 13) s;
          body = takeWhile (\<lambda>c. c \<noteq> CHR ''='') t; pad = dropWhile (\<lambda>c. c \<noteq> CHR ''='') t
      in if length t mod 4 \<noteq> 0 \<or> 2 < length pad \<or> \<not> list_all (\<lambda>c. c = CHR ''='') pad then None
         else base64_decode raw_std body)"

fun contains :: "string \<Rightarrow> string \<Rightarrow> bool" where
  "contains [] sub = (sub = [])"
| "contains (c # s) sub = (has_prefix (c # s) sub \<or> contains s sub)"

definition trim_right :: "char \<Rightarrow> string \<Rightarrow> string" where
  "trim_right d s = rev (dropWhile (\<lambda>c. c = d) (rev s))"

section \<open>The configuration\<close>

record config =
  cf_env :: string
  cf_http_addr :: string
  cf_database_url :: string
  cf_session_secret :: string
  cf_pii_key :: string
  cf_files_dir :: string
  cf_log_level :: string
  cf_bot_token :: string
  cf_bot_username :: string
  cf_telegram_send :: string
  cf_base_url :: string
  cf_otp_sender :: string
  cf_gateway_token :: string
  cf_fixed_code :: string

text \<open>One constructor per error of \<open>Load\<close>.\<close>

datatype config_error =
    ParseError string
  | EnvInvalid string
  | SecretTooShort
  | PIIKeyNotBase64
  | PIIKeyLength nat
  | MustNotBeEmpty string
  | TelegramSendInvalid string
  | BaseURLInvalid string
  | BaseURLNotHttps string
  | OTPSenderInvalid string
  | FixedCodeInvalid string
  | SenderNotAllowed string
  | GatewayTokenMissing

definition is_prod :: "config \<Rightarrow> bool" where
  "is_prod c \<longleftrightarrow> cf_env c = ''prod''"

definition pii_key_bytes :: "config \<Rightarrow> config_error + string" where
  "pii_key_bytes c =
     (case base64_std_decode (cf_pii_key c) of
        None \<Rightarrow> Inl PIIKeyNotBase64
      | Some key \<Rightarrow> if length key \<noteq> 32 then Inl (PIIKeyLength (length key)) else Inr key)"

definition telegram_send_enabled :: "config \<Rightarrow> bool" where
  "telegram_send_enabled c =
     (if cf_telegram_send c = ''on'' then True else if cf_telegram_send c = ''off'' then False else is_prod c)"

definition otp_sender_kind :: "config \<Rightarrow> string" where
  "otp_sender_kind c =
     (if cf_otp_sender c \<noteq> [] then cf_otp_sender c else if is_prod c then ''telegram'' else ''fixed'')"

definition fixed_code_pattern :: "string \<Rightarrow> bool" where
  "fixed_code_pattern s \<longleftrightarrow> length s = 6 \<and> list_all is_digit s"

definition validate_base_url :: "(string \<Rightarrow> (string \<times> string) option) \<Rightarrow> string \<Rightarrow> bool \<Rightarrow> config_error list" where
  "validate_base_url parse_url raw in_prod =
     (case parse_url raw of
        None \<Rightarrow> [BaseURLInvalid raw]
      | Some (scheme, host) \<Rightarrow>
          if (scheme \<noteq> ''http'' \<and> scheme \<noteq> ''https'') \<or> host = [] then [BaseURLInvalid raw]
          else if in_prod \<and> scheme \<noteq> ''https'' then [BaseURLNotHttps raw] else [])"

text \<open>\<open>Load\<close> trims the values as it goes and reports every error at once.\<close>

definition trimmed_config :: "config \<Rightarrow> config" where
  "trimmed_config c = c\<lparr>cf_bot_token := trim_space (cf_bot_token c), cf_bot_username := trim_space (cf_bot_username c),
     cf_base_url := trim_right (CHR ''/'') (cf_base_url c), cf_otp_sender := trim_space (cf_otp_sender c),
     cf_gateway_token := trim_space (cf_gateway_token c), cf_fixed_code := trim_space (cf_fixed_code c)\<rparr>"

definition reported :: "string option \<Rightarrow> string \<Rightarrow> bool" where
  "reported err name = (case err of None \<Rightarrow> False | Some text \<Rightarrow> contains text name)"

definition config_errors :: "(string \<Rightarrow> (string \<times> string) option) \<Rightarrow> config \<Rightarrow> string option \<Rightarrow> config_error list" where
  "config_errors parse_url raw err =
     (let c = trimmed_config raw in
      (case err of None \<Rightarrow> [] | Some text \<Rightarrow> [ParseError text])
      @ (if cf_env c \<noteq> ''dev'' \<and> cf_env c \<noteq> ''prod'' then [EnvInvalid (cf_env c)] else [])
      @ (if cf_session_secret c \<noteq> [] \<and> byte_len (cf_session_secret c) < 32 then [SecretTooShort] else [])
      @ (if cf_pii_key c \<noteq> [] then (case pii_key_bytes c of Inl e \<Rightarrow> [e] | Inr _ \<Rightarrow> []) else [])
      @ concat (map (\<lambda>(name, v). if v = [] \<and> \<not> reported err name then [MustNotBeEmpty name] else [])
          [(''WERUN_TELEGRAM_BOT_TOKEN'', cf_bot_token c), (''WERUN_TELEGRAM_BOT_USERNAME'', cf_bot_username c)])
      @ (if cf_telegram_send c \<noteq> [] \<and> cf_telegram_send c \<noteq> ''on'' \<and> cf_telegram_send c \<noteq> ''off''
         then [TelegramSendInvalid (cf_telegram_send c)] else [])
      @ (if reported err ''WERUN_APP_BASE_URL'' then [] else validate_base_url parse_url (cf_base_url raw) (is_prod c))
      @ (if cf_otp_sender c \<in> {'''', ''telegram'', ''log'', ''fixed''} then [] else [OTPSenderInvalid (cf_otp_sender c)])
      @ (if cf_fixed_code c \<noteq> [] \<and> \<not> fixed_code_pattern (cf_fixed_code c) then [FixedCodeInvalid (cf_fixed_code c)] else [])
      @ (if is_prod c \<and> (cf_otp_sender c = ''log'' \<or> (cf_otp_sender c = ''fixed'' \<and> cf_fixed_code c = []))
         then [SenderNotAllowed (cf_otp_sender c)] else [])
      @ (if otp_sender_kind c = ''telegram'' \<and> cf_gateway_token c = [] then [GatewayTokenMissing] else []))"

definition load_config :: "(string \<Rightarrow> (string \<times> string) option) \<Rightarrow> config \<Rightarrow> string option \<Rightarrow> config_error list + config" where
  "load_config parse_url raw err =
     (let errs = config_errors parse_url raw err in if errs \<noteq> [] then Inl errs else Inr (trimmed_config raw))"

section \<open>The senders of the process\<close>

text \<open>\<open>newNotifySender\<close> and \<open>newOTPSender\<close>; \<open>None\<close> is the panic on an unknown kind.\<close>

datatype notify_sender = TelegramBot string | LogNotify
datatype otp_channel = GatewayOTP string | LogOTP | FixedOTP string

definition new_notify_sender :: "config \<Rightarrow> notify_sender" where
  "new_notify_sender c = (if telegram_send_enabled c then TelegramBot (cf_bot_token c) else LogNotify)"

definition new_otp_sender :: "config \<Rightarrow> otp_channel option" where
  "new_otp_sender c =
     (if otp_sender_kind c = ''telegram'' then Some (GatewayOTP (cf_gateway_token c))
      else if otp_sender_kind c = ''log'' then Some LogOTP
      else if otp_sender_kind c = ''fixed'' then Some (FixedOTP (cf_fixed_code c)) else None)"

text \<open>The code a fixed channel dictates: \<open>FixedOTPSender.FixedCode\<close>, looked up by \<open>newCode\<close>.\<close>

definition dictated_code :: "otp_channel \<Rightarrow> string option" where
  "dictated_code ch = (case ch of FixedOTP code \<Rightarrow> Some (fixed_code code) | _ \<Rightarrow> None)"

text \<open>The part of \<open>Bootstrap\<close> that depends on the configuration only: the second decoding of the key, of which
  \<open>piicrypt.New\<close> asks 32 bytes again.\<close>

definition boot_config :: "(string \<Rightarrow> (string \<times> string) option) \<Rightarrow> config \<Rightarrow> string option
    \<Rightarrow> config_error list + config \<times> string" where
  "boot_config parse_url raw err =
     bindE (load_config parse_url raw err) (\<lambda>c.
     case pii_key_bytes c of Inl e \<Rightarrow> Inl [e] | Inr key \<Rightarrow> Inr (c, key))"

section \<open>What a loaded configuration guarantees\<close>

lemma load_config_Inr:
  "load_config parse_url raw err = Inr c \<longleftrightarrow> config_errors parse_url raw err = [] \<and> c = trimmed_config raw"
  by (auto simp: load_config_def Let_def)

lemma trimmed_config_simps [simp]:
  "cf_env (trimmed_config c) = cf_env c" "cf_session_secret (trimmed_config c) = cf_session_secret c"
  "cf_pii_key (trimmed_config c) = cf_pii_key c" "cf_telegram_send (trimmed_config c) = cf_telegram_send c"
  "is_prod (trimmed_config c) = is_prod c" "cf_bot_token (trimmed_config c) = trim_space (cf_bot_token c)"
  by (simp_all add: trimmed_config_def is_prod_def)

lemma validate_base_url_ok:
  "validate_base_url parse_url raw in_prod = [] \<longleftrightarrow>
     (\<exists>scheme host. parse_url raw = Some (scheme, host) \<and> host \<noteq> []
        \<and> (scheme = ''https'' \<or> (scheme = ''http'' \<and> \<not> in_prod)))"
  by (auto simp: validate_base_url_def split: option.split)

lemma if_report:
  "(if b then [x] else []) = [] \<longleftrightarrow> \<not> b" "(if b then xs else []) = [] \<longleftrightarrow> \<not> b \<or> xs = []"
  "(if b then [] else xs) = [] \<longleftrightarrow> b \<or> xs = []"
  by simp_all

lemma load_config_ok:
  assumes "load_config parse_url raw err = Inr c"
  shows "c = trimmed_config raw" "err = None" "cf_env c = ''dev'' \<or> cf_env c = ''prod''"
    "cf_session_secret c = [] \<or> 32 \<le> byte_len (cf_session_secret c)"
    "cf_pii_key c = [] \<or> (\<exists>key. pii_key_bytes c = Inr key)"
    "cf_bot_token c \<noteq> []" "cf_bot_username c \<noteq> []"
    "validate_base_url parse_url (cf_base_url raw) (is_prod c) = []"
    "cf_otp_sender c \<in> {'''', ''telegram'', ''log'', ''fixed''}"
    "cf_fixed_code c = [] \<or> fixed_code_pattern (cf_fixed_code c)"
    "is_prod c \<Longrightarrow> cf_otp_sender c \<noteq> ''log'' \<and> (cf_otp_sender c = ''fixed'' \<longrightarrow> cf_fixed_code c \<noteq> [])"
    "otp_sender_kind c = ''telegram'' \<Longrightarrow> cf_gateway_token c \<noteq> []"
proof -
  from assms have c: "c = trimmed_config raw" and none: "config_errors parse_url raw err = []" by (simp_all add: load_config_Inr)
  then show "c = trimmed_config raw" by simp
  show err: "err = None" using none by (cases err) (simp_all add: config_errors_def Let_def)
  have k: "(case pii_key_bytes c of Inl e \<Rightarrow> [e] | Inr x \<Rightarrow> []) = [] \<longleftrightarrow> (\<exists>key. pii_key_bytes c = Inr key)"
    by (simp split: sum.split)
  note e = none [unfolded config_errors_def Let_def c [symmetric] err reported_def option.case list.map concat.simps prod.case
    if_report append_is_Nil_conv append_Nil append_Nil2 k not_False_eq_True if_False]
  show "cf_env c = ''dev'' \<or> cf_env c = ''prod''" "cf_session_secret c = [] \<or> 32 \<le> byte_len (cf_session_secret c)"
    "cf_pii_key c = [] \<or> (\<exists>key. pii_key_bytes c = Inr key)" "cf_bot_token c \<noteq> []" "cf_bot_username c \<noteq> []"
    "validate_base_url parse_url (cf_base_url raw) (is_prod c) = []" "cf_otp_sender c \<in> {'''', ''telegram'', ''log'', ''fixed''}"
    "cf_fixed_code c = [] \<or> fixed_code_pattern (cf_fixed_code c)"
    "is_prod c \<Longrightarrow> cf_otp_sender c \<noteq> ''log'' \<and> (cf_otp_sender c = ''fixed'' \<longrightarrow> cf_fixed_code c \<noteq> [])"
    "otp_sender_kind c = ''telegram'' \<Longrightarrow> cf_gateway_token c \<noteq> []"
    using e by (simp_all only: not_less de_Morgan_conj not_not) (blast+)?
qed

lemma pii_key_bytes_length: "pii_key_bytes c = Inr key \<Longrightarrow> length key = 32"
  by (auto simp: pii_key_bytes_def split: option.splits if_splits)

lemma trim_right_last: "trim_right d s = [] \<or> last (trim_right d s) \<noteq> d"
  using hd_dropWhile [of "\<lambda>c. c = d" "rev s"] by (auto simp: trim_right_def last_rev)

text \<open>C39: A process that starts in production has a bot token and a 32-byte key, serves an https address, and never
  logs one-time codes: it sends them through the gateway with a token, or dictates the six digits that were
  configured on purpose. Its session secret has 32 bytes or is the empty one.\<close>

theorem production_is_safe:
  assumes "boot_config parse_url raw err = Inr (c, key)" and "is_prod c"
  shows "(\<exists>ch. new_otp_sender c = Some ch \<and> ch \<noteq> LogOTP \<and> ch \<noteq> GatewayOTP []
            \<and> (case dictated_code ch of None \<Rightarrow> True | Some code \<Rightarrow> code = cf_fixed_code c \<and> fixed_code_pattern code))
       \<and> cf_bot_token c \<noteq> [] \<and> length key = 32
       \<and> (\<exists>host. parse_url (cf_base_url raw) = Some (''https'', host) \<and> host \<noteq> [])
       \<and> (cf_session_secret c = [] \<or> 32 \<le> byte_len (cf_session_secret c))"
proof -
  from assms(1) have l: "load_config parse_url raw err = Inr c" and k: "pii_key_bytes c = Inr key"
    by (auto simp: boot_config_def bindE_def split: sum.splits)
  note ok = load_config_ok [OF l]
  have "\<exists>host. parse_url (cf_base_url raw) = Some (''https'', host) \<and> host \<noteq> []"
    using ok(8) assms(2) by (auto simp: validate_base_url_ok)
  moreover have "\<exists>ch. new_otp_sender c = Some ch \<and> ch \<noteq> LogOTP \<and> ch \<noteq> GatewayOTP []
      \<and> (case dictated_code ch of None \<Rightarrow> True | Some code \<Rightarrow> code = cf_fixed_code c \<and> fixed_code_pattern code)"
  proof (cases "otp_sender_kind c = ''telegram''")
    case True
    with ok(12) show ?thesis by (simp add: new_otp_sender_def dictated_code_def)
  next
    case False
    with ok(9) ok(11) [OF assms(2)] assms(2) have "cf_otp_sender c = ''fixed''" "cf_fixed_code c \<noteq> []"
      by (auto simp: otp_sender_kind_def split: if_splits)
    with ok(10) show ?thesis by (auto simp: new_otp_sender_def otp_sender_kind_def dictated_code_def fixed_code_def)
  qed
  ultimately show ?thesis using ok(4,6) pii_key_bytes_length [OF k] by blast
qed

definition sample_config :: config where
  "sample_config = \<lparr>cf_env = ''prod'', cf_http_addr = '':8080'', cf_database_url = ''postgres://db'',
     cf_session_secret = replicate 32 (CHR ''s''), cf_pii_key = replicate 43 (CHR ''A'') @ ''='', cf_files_dir = ''./data/files'',
     cf_log_level = ''info'', cf_bot_token = '' 12:ab '', cf_bot_username = ''werun_bot'', cf_telegram_send = [],
     cf_base_url = ''https://run.example/'', cf_otp_sender = ''fixed'', cf_gateway_token = [], cf_fixed_code = ''804217''\<rparr>"

definition sample_url :: "string \<Rightarrow> (string \<times> string) option" where
  "sample_url s = (if has_prefix s ''https://'' then Some (''https'', takeWhile (\<lambda>c. c \<noteq> CHR ''/'') (drop 8 s)) else None)"

lemma sample_config_boots:
  "boot_config sample_url sample_config None = Inr (trimmed_config sample_config, replicate 32 (char_of (0 :: nat)))"
  by code_simp

lemma production_is_safe_witness:
  "boot_config sample_url sample_config None = Inr (trimmed_config sample_config, replicate 32 (char_of (0 :: nat)))
   \<and> is_prod (trimmed_config sample_config) \<and> cf_bot_token (trimmed_config sample_config) = ''12:ab''
   \<and> (\<exists>ch. new_otp_sender (trimmed_config sample_config) = Some ch \<and> ch \<noteq> LogOTP)"
proof -
  have p: "is_prod (trimmed_config sample_config)" "cf_bot_token (trimmed_config sample_config) = ''12:ab''" by code_simp+
  from production_is_safe [OF sample_config_boots p(1)] p sample_config_boots show ?thesis by blast
qed

text \<open>
  \<open>required\<close> asks for the variable only, and the length of the secret is checked only when it is not empty: a process
  with \<open>WERUN_SESSION_SECRET=\<close> starts in production, keys the hashes of its sessions and codes with the empty key.
\<close>

lemma empty_session_secret_boots:
  "\<exists>c key. boot_config sample_url (sample_config\<lparr>cf_session_secret := []\<rparr>) None = Inr (c, key)
     \<and> is_prod c \<and> cf_session_secret c = []"
proof (intro exI conjI)
  show "boot_config sample_url (sample_config\<lparr>cf_session_secret := []\<rparr>) None
     = Inr (trimmed_config (sample_config\<lparr>cf_session_secret := []\<rparr>), replicate 32 (char_of (0 :: nat)))" by code_simp
  show "is_prod (trimmed_config (sample_config\<lparr>cf_session_secret := []\<rparr>))" by code_simp
  show "cf_session_secret (trimmed_config (sample_config\<lparr>cf_session_secret := []\<rparr>)) = []" by code_simp
qed

end
