(* ===== verification/Codes.thy ===== *)
theory Codes
  imports AuthRuns
begin

text \<open>
  What one-time codes guarantee: at most one code of a number is active, it can be tried a few times, and it signs in once.
\<close>

section \<open>The active code\<close>

lemma get_active_otp_Some:
  assumes "get_active_otp p s = Some r"
  shows "r \<in> set (otps s) \<and> otp_active p r"
proof -
  let ?xs = "sort_key (\<lambda>r. - ot_created r) (filter (otp_active p) (otps s))"
  from assms obtain rs where "?xs = r # rs" by (auto simp: get_active_otp_def split: list.splits)
  then have "r \<in> set ?xs" by (metis list.set_intros(1))
  then show ?thesis by simp
qed

lemma get_active_otp_None: "get_active_otp p s = None \<longleftrightarrow> (\<forall>r\<in>set (otps s). \<not> otp_active p r)"
proof -
  let ?xs = "sort_key (\<lambda>r. - ot_created r) (filter (otp_active p) (otps s))"
  have "get_active_otp p s = None \<longleftrightarrow> ?xs = []" by (cases ?xs) (simp_all add: get_active_otp_def)
  also have "\<dots> \<longleftrightarrow> set ?xs = {}" by (rule set_empty [symmetric])
  finally show ?thesis by auto
qed

text \<open>
  All runs that touch the codes: \<open>W p\<close> and \<open>R p\<close> count the wrong and the right answers for the phone number \<open>p\<close> since
  the last code was made for it.  Whatever else the service does leaves the table alone.
\<close>

definition wrong_code :: "'a res \<Rightarrow> bool" where
  "wrong_code x \<longleftrightarrow> (case x of Inl (AppErr a) \<Rightarrow> ae_code a = CodeOTPInvalid | _ \<Rightarrow> False)"

inductive code_run :: "auth_db \<Rightarrow> (string \<Rightarrow> nat) \<Rightarrow> (string \<Rightarrow> nat) \<Rightarrow> bool" where
  no_codes: "otps s = [] \<Longrightarrow> code_run s (\<lambda>_. 0) (\<lambda>_. 0)"
| code_made: "code_run s W R \<Longrightarrow> request_phone_code e phone ip l s = (x, l', s') \<Longrightarrow> otps s' \<noteq> otps s
     \<Longrightarrow> code_run s' (W(phone := 0)) (R(phone := 0))"
| no_code_made: "code_run s W R \<Longrightarrow> request_phone_code e phone ip l s = (x, l', s') \<Longrightarrow> otps s' = otps s \<Longrightarrow> code_run s' W R"
| code_tried: "code_run s W R \<Longrightarrow> verify_phone_code e phone code locale ip l s = (x, l', s')
     \<Longrightarrow> code_run s' (W(phone := W phone + (if wrong_code x then 1 else 0))) (R(phone := R phone + (if isl x then 0 else 1)))"
| elsewhere: "code_run s W R \<Longrightarrow> otps s' = otps s \<Longrightarrow> code_run s' W R"

definition codes_inv :: "otp_row list \<Rightarrow> (string \<Rightarrow> nat) \<Rightarrow> (string \<Rightarrow> nat) \<Rightarrow> bool" where
  "codes_inv os W R \<longleftrightarrow> distinct (map ot_id os)
     \<and> (\<forall>p. W p \<le> 5 \<and> R p \<le> 1
         \<and> (\<forall>r\<in>set os. otp_active p r \<longrightarrow> int (W p) \<le> ot_attempts r \<and> R p = 0 \<and> (\<forall>r'\<in>set os. otp_active p r' \<longrightarrow> r' = r)))"

lemma otp_active_phone: "otp_active p r \<Longrightarrow> ot_phone r = p"
  by (simp add: otp_active_def)

lemma codes_inv_map:
  assumes "codes_inv os W R" and "os' = map f os" and "\<And>r. ot_id (f r) = ot_id r"
    and "\<And>p r. otp_active p (f r) \<Longrightarrow> otp_active p r \<and> ot_attempts (f r) = ot_attempts r"
  shows "codes_inv os' W R"
proof -
  have "map ot_id os' = map ot_id os" by (simp add: assms(2,3) o_def)
  moreover have "int (W p) \<le> ot_attempts x \<and> R p = 0 \<and> (\<forall>y\<in>set os'. otp_active p y \<longrightarrow> y = x)"
    if x: "x \<in> set os'" "otp_active p x" for p x
  proof -
    from x assms(2,4) obtain r where r: "r \<in> set os" "x = f r" "otp_active p r" "ot_attempts x = ot_attempts r" by auto
    with assms(1) have "int (W p) \<le> ot_attempts x" "R p = 0" and u: "\<forall>r'\<in>set os. otp_active p r' \<longrightarrow> r' = r"
      unfolding codes_inv_def by auto
    moreover have "y = x" if y: "y \<in> set os'" "otp_active p y" for y
    proof -
      from y assms(2,4) obtain q where "q \<in> set os" "y = f q" "otp_active p q" by auto
      with u r(2) show ?thesis by blast
    qed
    ultimately show ?thesis by blast
  qed
  ultimately show ?thesis using assms(1) unfolding codes_inv_def by simp
qed

lemma codes_inv_request:
  assumes "codes_inv os W R" and "os' = update_where (otp_active phone) (ot_consumed_update (\<lambda>_. Some now)) os @ [r]"
    and "ot_id r \<notin> ot_id ` set os" "ot_phone r = phone" "0 \<le> ot_attempts r"
  shows "codes_inv os' (W(phone := 0)) (R(phone := 0))"
proof -
  let ?f = "\<lambda>r. if otp_active phone r then ot_consumed_update (\<lambda>_. Some now) r else r"
  obtain os1 where os1: "os1 = map ?f os" by blast
  have m: "codes_inv os1 W R"
    by (rule codes_inv_map [OF assms(1) os1]) (auto simp: otp_active_def split: if_splits)
  have nf: "\<not> otp_active phone (?f y)" for y
  proof (cases "otp_active phone y")
    case True
    have "\<not> otp_active phone (ot_consumed_update (\<lambda>_. Some now) y)" by (simp add: otp_active_def)
    with True show ?thesis by (simp only: if_True not_False_eq_True)
  qed (simp only: if_False not_False_eq_True)
  have none: "\<not> otp_active phone x" if "x \<in> set os1" for x
  proof -
    from that obtain y where "x = ?f y" unfolding os1 set_map by (rule imageE)
    with nf [of y] show ?thesis by (simp only: not_False_eq_True)
  qed
  have "map ot_id os1 = map ot_id os" unfolding os1 by (induction os) auto
  then have "ot_id ` set os1 = ot_id ` set os" by (metis set_map)
  with assms(3) have new: "ot_id r \<notin> ot_id ` set os1" by simp
  have os': "os' = os1 @ [r]" by (simp add: assms(2) os1 update_where_def)
  from m new have "distinct (map ot_id os')" unfolding os' by (simp add: codes_inv_def)
  moreover have ph: "otp_active p r \<Longrightarrow> p = phone" for p using assms(4) by (simp add: otp_active_def)
  moreover have "int ((W(phone := 0)) p) \<le> ot_attempts x \<and> (R(phone := 0)) p = 0 \<and> (\<forall>y\<in>set os'. otp_active p y \<longrightarrow> y = x)"
    if x: "x \<in> set os'" "otp_active p x" for p x
  proof (cases "x = r")
    case True
    with x(2) ph none assms(5) show ?thesis unfolding os' by auto
  next
    case False
    with x os' have k: "x \<in> set os1" by simp
    with none x(2) have "p \<noteq> phone" by blast
    with k m x(2) ph show ?thesis unfolding os' codes_inv_def by auto
  qed
  ultimately show ?thesis using m unfolding codes_inv_def by simp
qed

lemma codes_inv_tried:
  assumes inv: "codes_inv os W R" and r: "r \<in> set os" "otp_active phone r" "ot_attempts r < otp_max_attempts"
  shows "codes_inv (update_where (\<lambda>x. ot_id x = ot_id r) (\<lambda>x. x\<lparr>ot_attempts := ot_attempts x + 1\<rparr>) os) (W(phone := W phone + 1)) R"
    and "codes_inv (update_where (\<lambda>x. ot_id x = ot_id r) (ot_consumed_update (\<lambda>_. Some now)) os) W (R(phone := R phone + 1))"
proof -
  from inv have d: "distinct (map ot_id os)" by (simp add: codes_inv_def)
  from inv r have w: "int (W phone) \<le> ot_attempts r" "R phone = 0" and u: "\<And>x. x \<in> set os \<Longrightarrow> otp_active phone x \<Longrightarrow> x = r"
    unfolding codes_inv_def by blast+
  have key: "(ot_id x = ot_id r) = (x = r)" if "x \<in> set os" for x using distinct_key_eq [OF d that r(1)] by blast
  have upd: "set (update_where (\<lambda>x. ot_id x = ot_id r) f os) = insert (f r) (set os - {r})" for f
    using r(1) by (auto simp: set_update_where key)
  have ids: "map ot_id (update_where (\<lambda>x. ot_id x = ot_id r) f os) = map ot_id os" if "\<And>x. ot_id (f x) = ot_id x" for f
    using that by (simp add: map_update_where)
  let ?a = "\<lambda>x. x\<lparr>ot_attempts := ot_attempts x + 1\<rparr>" and ?c = "ot_consumed_update (\<lambda>_. Some now)"
  have a: "otp_active p (?a r) = otp_active p r" "\<not> otp_active p (?c r)" for p by (simp_all add: otp_active_def)
  have W5: "W phone + 1 \<le> 5" using w(1) r(3) by (simp add: otp_max_attempts_def)
  have p: "otp_active p r \<Longrightarrow> p = phone" for p using r(2) by (simp add: otp_active_def)
  show "codes_inv (update_where (\<lambda>x. ot_id x = ot_id r) ?a os) (W(phone := W phone + 1)) R"
    unfolding codes_inv_def upd
  proof (intro conjI allI ballI impI)
    show "distinct (map ot_id (update_where (\<lambda>x. ot_id x = ot_id r) ?a os))" using d by (simp add: ids)
    fix q
    show "(W(phone := W phone + 1)) q \<le> 5" "R q \<le> 1" using inv W5 by (auto simp: codes_inv_def)
    fix x assume x: "x \<in> insert (?a r) (set os - {r})" "otp_active q x"
    have one: "x = ?a r" if "x \<in> insert (?a r) (set os - {r})" "otp_active phone x" for x using that u by blast
    have other: "x \<in> set os" if "x \<in> insert (?a r) (set os - {r})" "otp_active q x" "q \<noteq> phone" for x using that a p by auto
    have q: "q \<noteq> phone \<Longrightarrow> int (W q) \<le> ot_attempts x \<and> R q = 0 \<and> (\<forall>y\<in>set os. otp_active q y \<longrightarrow> y = x)"
      using inv other [OF x] x(2) unfolding codes_inv_def by blast
    show "int ((W(phone := W phone + 1)) q) \<le> ot_attempts x"
    proof (cases "q = phone")
      case True
      with one [of x] x w(1) show ?thesis by simp
    qed (use q in simp)
    show "R q = 0" using q w(2) by (cases "q = phone") auto
    fix y assume y: "y \<in> insert (?a r) (set os - {r})" "otp_active q y"
    show "y = x"
    proof (cases "q = phone")
      case True
      with one [of x] one [of y] x y show ?thesis by simp
    qed (use q other [OF y] y(2) in blast)
  qed
  show "codes_inv (update_where (\<lambda>x. ot_id x = ot_id r) ?c os) W (R(phone := R phone + 1))"
    unfolding codes_inv_def upd
  proof (intro conjI allI ballI impI)
    show "distinct (map ot_id (update_where (\<lambda>x. ot_id x = ot_id r) ?c os))" using d by (simp add: ids)
    fix q
    show "W q \<le> 5" "(R(phone := R phone + 1)) q \<le> 1" using inv w(2) by (auto simp: codes_inv_def)
    fix x assume x: "x \<in> insert (?c r) (set os - {r})" "otp_active q x"
    then have q: "x \<in> set os" "q \<noteq> phone" using a u by auto
    with inv x(2) show "int (W q) \<le> ot_attempts x" "(R(phone := R phone + 1)) q = 0" by (auto simp: codes_inv_def)
    fix y assume "y \<in> insert (?c r) (set os - {r})" "otp_active q y"
    with x(2) q(1) show "y = x" using inv a unfolding codes_inv_def by (metis Diff_iff insert_iff)
  qed
qed

lemma codes_inv_consume: "codes_inv (otps s) W R \<Longrightarrow> codes_inv (otps (consume_otp i now s)) W R"
  by (rule codes_inv_map [where f = "\<lambda>r. if ot_id r = i then ot_consumed_update (\<lambda>_. Some now) r else r"])
    (auto simp: consume_otp_def update_where_def otp_active_def split: if_splits)

lemma codes_inv_provider: "codes_inv (otps s) W R \<Longrightarrow> codes_inv (otps (set_otp_provider i req s)) W R"
  by (rule codes_inv_map [where f = "\<lambda>r. if ot_id r = i then ot_provider_update (\<lambda>_. Some req) r else r"])
    (auto simp: set_otp_provider_def update_where_def otp_active_def split: if_splits)

lemma request_codes:
  assumes "codes_inv (otps s) W R" and "request_phone_code e phone ip l s = (x, l', s')" and "otps s' \<noteq> otps s"
  shows "codes_inv (otps s') (W(phone := 0)) (R(phone := 0))"
proof -
  let ?c = "consume_active_otps phone (ae_now e) s"
  let ?s = "snd (insert_otp phone (hash_code e phone (new_code e)) (ae_now e + otp_ttl) (ae_now e) ?c)"
  have "map ot_id (otps ?c) = map ot_id (otps s)" by (simp add: consume_active_otps_def map_update_where)
  then have ids: "ot_id ` set (otps ?c) = ot_id ` set (otps s)" by (metis set_map)
  have "codes_inv (otps ?s) (W(phone := 0)) (R(phone := 0))"
    by (rule codes_inv_request [OF assms(1)])
      (use next_id_fresh [of ot_id "otps ?c"] ids in \<open>auto simp: insert_otp_def Let_def consume_active_otps_def\<close>)
  moreover have "s' = ?s \<or> (\<exists>i. s' = consume_otp i (ae_now e) ?s) \<or> (\<exists>i req. s' = set_otp_provider i req ?s)"
    using assms(2,3) by (auto simp: request_phone_code_def Let_def case_prod_unfold split: if_splits prod.splits sum.splits send_answer.splits)
  ultimately show ?thesis using codes_inv_consume codes_inv_provider by blast
qed

lemma wrong_code_simps [simp]: "\<not> wrong_code (Inr x)" "wrong_code (Inl (app st c)) \<longleftrightarrow> c = CodeOTPInvalid"
  "wrong_code (Inl (AppErr (with_field f k ps (new_err st c)))) \<longleftrightarrow> c = CodeOTPInvalid"
  by (simp_all add: wrong_code_def app_def)


lemma open_user_session_cases:
  "open_user_session e raw u s = Inr s' \<Longrightarrow> otps s' = otps s"
  "open_user_session e raw u s = Inl err \<Longrightarrow> \<not> wrong_code (Inl err)"
  by (auto simp: open_user_session_def insert_session_def on_base_def wrong_code_def bindE_Inr_iff bindE_Inl_iff split: if_splits)

lemma verify_code_tx_cases:
  assumes "verify_code_tx e raw phone code locale s = Inr (x, s')"
  obtains (same) "otps s' = otps s" "isl x" "\<not> wrong_code x"
  | (wrong) r where "get_active_otp phone s = Some r" "ot_attempts r < otp_max_attempts" "wrong_code x" "isl x"
      "otps s' = otps (increment_otp_attempts (ot_id r) s)"
  | (gone) i where "isl x" "\<not> wrong_code x" "otps s' = otps (consume_otp i (ae_now e) s)"
  | (right) r where "get_active_otp phone s = Some r" "ot_attempts r < otp_max_attempts" "\<not> isl x"
      "otps s' = otps (consume_otp (ot_id r) (ae_now e) s)"
proof (cases "get_active_otp phone s")
  case None
  with assms show ?thesis by (intro same) (auto simp: verify_code_tx_def)
next
  case (Some r)
  consider (late) "\<not> ae_now e < ot_expires r" | (full) "ae_now e < ot_expires r" "otp_max_attempts \<le> ot_attempts r"
    | (bad) "ae_now e < ot_expires r" "\<not> otp_max_attempts \<le> ot_attempts r" "ot_code_hash r \<noteq> hash_code e phone code"
    | (good) "ae_now e < ot_expires r" "\<not> otp_max_attempts \<le> ot_attempts r" "ot_code_hash r = hash_code e phone code" by blast
  then show ?thesis
  proof cases
    case late
    with Some assms show ?thesis by (intro same) (auto simp: verify_code_tx_def)
  next
    case full
    with Some assms show ?thesis by (intro gone) (auto simp: verify_code_tx_def)
  next
    case bad
    with Some assms show ?thesis by (intro wrong [OF Some]) (auto simp: verify_code_tx_def)
  next
    case good
    let ?s1 = "consume_otp (ot_id r) (ae_now e) s"
    let ?row = "fst (upsert_phone_user phone locale (ae_now e) (base ?s1))"
    let ?s2 = "?s1\<lparr>base := snd (upsert_phone_user phone locale (ae_now e) (base ?s1))\<rparr>"
    from Some good have v: "verify_code_tx e raw phone code locale s =
        (if us_status ?row \<noteq> ''ACTIVE'' then Inr (Inl (app 403 CodeForbidden), ?s2)
         else bindE (open_user_session e raw (user_of ?row) ?s2) (\<lambda>s3. Inr (Inr (user_of ?row), s3)))"
      by (simp add: verify_code_tx_def Let_def case_prod_unfold)
    show ?thesis
    proof (cases "us_status ?row = ''ACTIVE''")
      case True
      with assms v obtain s3 where "open_user_session e raw (user_of ?row) ?s2 = Inr s3" "x = Inr (user_of ?row)" "s' = s3"
        by (auto simp: bindE_Inr_iff)
      with open_user_session_cases(1) Some good show ?thesis by (intro right [OF Some]) auto
    next
      case False
      with assms v show ?thesis by (intro gone [of "ot_id r"]) auto
    qed
  qed
qed

lemma verify_codes:
  assumes inv: "codes_inv (otps s) W R" and run: "verify_phone_code e phone code locale ip l s = (x, l', s')"
  shows "codes_inv (otps s') (W(phone := W phone + (if wrong_code x then 1 else 0))) (R(phone := R phone + (if isl x then 0 else 1)))"
proof -
  let ?tx = "verify_code_tx e (rand_bytes e [5] token_bytes) phone code
      (lang_str (case parse_lang locale of None \<Rightarrow> default_lang | Some g \<Rightarrow> g)) s"
  consider (refused) "s' = s" "isl x" "\<not> wrong_code x" | (ran) y where "?tx = Inr (y, s')" "isl x = isl y" "wrong_code x = wrong_code y"
  proof (cases "valid_e164 phone \<and> (\<exists>u. fst (otp_allow_verify ip (ae_now e) l) = Inr u)")
    case False
    with run show ?thesis
      by (intro refused) (auto simp: verify_phone_code_def retry_later_def split: if_splits sum.splits prod.splits)
  next
    case True
    show ?thesis
    proof (cases ?tx)
      case (Inl err)
      then have "\<not> wrong_code (Inl err :: session res)"
        using open_user_session_cases(2)
        by (auto simp: verify_code_tx_def Let_def case_prod_unfold wrong_code_def bindE_Inl_iff split: option.splits if_splits)
      with Inl True run show ?thesis
        by (intro refused) (auto simp: verify_phone_code_def Let_def split: sum.splits prod.splits)
    next
      case (Inr ys)
      with True run show ?thesis
        by (intro ran [of "fst ys"]) (auto simp: verify_phone_code_def Let_def wrong_code_def split: sum.splits prod.splits)
    qed
  qed
  then show ?thesis
  proof cases
    case refused
    with inv show ?thesis by simp
  next
    case (ran y)
    from ran(1) show ?thesis
    proof (cases rule: verify_code_tx_cases)
      case same
      with inv ran show ?thesis by simp
    next
      case (wrong r)
      with codes_inv_tried(1) [OF inv _ _ wrong(2)] get_active_otp_Some [OF wrong(1)] ran show ?thesis
        by (simp add: increment_otp_attempts_def)
    next
      case (gone i)
      with codes_inv_consume [OF inv] ran show ?thesis by simp
    next
      case (right r)
      with codes_inv_tried(2) [OF inv _ _ right(2)] get_active_otp_Some [OF right(1)] ran show ?thesis
        by (cases y) (simp_all add: consume_otp_def)
    qed
  qed
qed

text \<open>C28: No code can be guessed: however codes are requested and tried, in whatever order and for whatever numbers, between two
  codes made for a phone number at most five wrong codes are answered as wrong and at most one login succeeds.\<close>

theorem code_guesses_bounded:
  assumes "code_run s W R"
  shows "W phone \<le> 5 \<and> R phone \<le> 1"
proof -
  from assms have "codes_inv (otps s) W R"
  proof induction
    case (no_codes s)
    then show ?case by (simp add: codes_inv_def)
  next
    case (code_made s W R e phone ip l x l' s')
    from request_codes [OF code_made.IH code_made.hyps(2,3)] show ?case .
  next
    case (no_code_made s W R e phone ip l x l' s')
    then show ?case by simp
  next
    case (code_tried s W R e phone code loc ip l x l' s')
    from verify_codes [OF code_tried.IH code_tried.hyps(2)] show ?case .
  next
    case (elsewhere s W R s')
    then show ?case by simp
  qed
  then show ?thesis by (simp add: codes_inv_def)
qed

definition sample_phone :: string where "sample_phone = ''+85512345678''"

definition sample_code_sent :: "code_request res \<times> otp_limiter \<times> auth_db" where
  "sample_code_sent = request_phone_code sample_auth_env sample_phone ''10.0.0.1'' new_otp_limiter sample_auth_db"

definition sample_code_wrong :: "session res \<times> otp_limiter \<times> auth_db" where
  "sample_code_wrong = verify_phone_code sample_auth_env sample_phone ''000000'' ''en'' ''10.0.0.1'' (fst (snd sample_code_sent)) (snd (snd sample_code_sent))"

definition sample_code_right :: "session res \<times> otp_limiter \<times> auth_db" where
  "sample_code_right = verify_phone_code sample_auth_env sample_phone ''004711'' ''en'' ''10.0.0.1'' (fst (snd sample_code_wrong)) (snd (snd sample_code_wrong))"

lemma code_guesses_bounded_witness:
  "\<exists>W R. code_run (snd (snd sample_code_right)) W R \<and> W sample_phone = 1 \<and> R sample_phone = 1 \<and> W sample_phone \<le> 5"
proof -
  have r: "wrong_code (fst sample_code_wrong)" "isl (fst sample_code_wrong)" "\<not> wrong_code (fst sample_code_right)" "\<not> isl (fst sample_code_right)"
    by code_simp+
  have m: "otps (snd (snd sample_code_sent)) \<noteq> otps sample_auth_db" by code_simp
  have e: "request_phone_code sample_auth_env sample_phone ''10.0.0.1'' new_otp_limiter sample_auth_db
      = (fst sample_code_sent, fst (snd sample_code_sent), snd (snd sample_code_sent))"
    "verify_phone_code sample_auth_env sample_phone ''000000'' ''en'' ''10.0.0.1'' (fst (snd sample_code_sent)) (snd (snd sample_code_sent))
      = (fst sample_code_wrong, fst (snd sample_code_wrong), snd (snd sample_code_wrong))"
    "verify_phone_code sample_auth_env sample_phone ''004711'' ''en'' ''10.0.0.1'' (fst (snd sample_code_wrong)) (snd (snd sample_code_wrong))
      = (fst sample_code_right, fst (snd sample_code_right), snd (snd sample_code_right))"
    by (simp_all add: sample_code_sent_def sample_code_wrong_def sample_code_right_def)
  have "code_run sample_auth_db (\<lambda>_. 0) (\<lambda>_. 0)" by (rule no_codes) (simp add: sample_auth_db_def)
  have z: "(\<lambda>_. 0)(sample_phone := 0) = (\<lambda>_. 0 :: nat)" by auto
  note run = code_made [OF \<open>code_run sample_auth_db _ _\<close> e(1) m, unfolded z]
  have "code_run (snd (snd sample_code_wrong)) ((\<lambda>_. 0)(sample_phone := 1)) (\<lambda>_. 0)"
    using code_tried [OF run e(2)] r z by (simp only: if_True add_0)
  from code_tried [OF this e(3)] r
  have run: "code_run (snd (snd sample_code_right)) ((\<lambda>_. 0)(sample_phone := 1, sample_phone := 1)) ((\<lambda>_. 0)(sample_phone := 1))"
    by (simp only: if_False add_0 add_0_right fun_upd_same)
  show ?thesis using code_guesses_bounded [OF run, of sample_phone] run by (intro exI conjI) (assumption, simp_all)
qed

lemma request_active_code:
  assumes "request_phone_code e phone ip l s = (Inr q, l', s')"
  obtains r where "filter (otp_active phone) (otps s') = [r]" "ot_attempts r = 0" "ot_code_hash r = hash_code e phone (new_code e)"
    "ot_expires r = ae_now e + otp_ttl" "base s' = base s" "sessions s' = sessions s" "valid_e164 phone"
proof -
  let ?i = "next_id ot_id (otps (consume_active_otps phone (ae_now e) s))"
  let ?r = "\<lparr>ot_id = ?i, ot_phone = phone, ot_code_hash = hash_code e phone (new_code e), ot_purpose = ''LOGIN'', ot_attempts = 0,
      ot_expires = ae_now e + otp_ttl, ot_consumed = None, ot_created = ae_now e, ot_provider = None\<rparr>"
  let ?s1 = "snd (insert_otp phone (hash_code e phone (new_code e)) (ae_now e + otp_ttl) (ae_now e) (consume_active_otps phone (ae_now e) s))"
  have "\<exists>req. valid_e164 phone \<and> s' = (if req = [] then ?s1 else set_otp_provider ?i req ?s1)"
    using assms
    by (cases "ae_send e phone (new_code e) (int_str ?i)")
      (auto simp: request_phone_code_def insert_otp_def Let_def split: if_splits sum.splits prod.splits)
  then obtain req where v: "valid_e164 phone" "s' = (if req = [] then ?s1 else set_otp_provider ?i req ?s1)" by blast
  have old: "filter (otp_active phone) (update_where (otp_active phone) (ot_consumed_update (\<lambda>_. Some now)) os) = []" for now os
    by (induction os) (auto simp: otp_active_def)
  have old': "filter (otp_active phone) (update_where (\<lambda>r. ot_id r = i) (ot_provider_update (\<lambda>_. x)) os) = []"
    if "filter (otp_active phone) os = []" for i x os
    using that by (induction os) (auto simp: otp_active_def split: if_splits)
  have f: "filter (otp_active phone) (otps s') = [if req = [] then ?r else ?r\<lparr>ot_provider := Some req\<rparr>]"
    by (cases "req = []")
      (simp_all add: v(2) insert_otp_def consume_active_otps_def set_otp_provider_def Let_def old old' update_where_append, simp_all add: otp_active_def)
  show ?thesis
    by (rule that [OF f]) (auto simp: v insert_otp_def consume_active_otps_def set_otp_provider_def Let_def)
qed

lemma upsert_phone_user_row:
  assumes "upsert_phone_user phone locale now b = (row, b')" and "distinct (map us_id (users b))"
    and "\<forall>u\<in>set (users b). us_phone u = Some phone \<longrightarrow> us_status u = ''ACTIVE''"
  shows "List.find (\<lambda>u. us_id u = us_id row) (users b') = Some row \<and> us_phone row = Some phone \<and> us_status row = ''ACTIVE''"
proof (cases "List.find (\<lambda>r. us_phone r = Some phone) (users b)")
  case None
  with assms(1) have r: "users b' = users b @ [row]" "us_id row = next_id us_id (users b)" "us_phone row = Some phone" "us_status row = ''ACTIVE''"
    by (auto simp: upsert_phone_user_def Let_def)
  have "List.find (\<lambda>u. us_id u = us_id row) (users b) = None"
    using next_id_fresh [of us_id "users b"] r(2) by (force simp: find_None_iff)
  with r show ?thesis by (simp add: find_append)
next
  case (Some u)
  let ?f = "us_last_login_update (\<lambda>_. Some now)"
  from find_Some_key [OF Some] have u: "u \<in> set (users b)" "us_phone u = Some phone" by auto
  from Some assms(1) have r: "row = ?f u" "users b' = update_where (\<lambda>r. us_phone r = Some phone) ?f (users b)"
    by (auto simp: upsert_phone_user_def Let_def)
  have "distinct (map us_id (users b'))" using assms(2) by (simp add: r(2) map_update_where)
  moreover have "row \<in> set (users b')" using u unfolding r set_update_where by force
  ultimately have "List.find (\<lambda>x. us_id x = us_id row) (users b') = Some row" by (rule find_key_unique)
  with u assms(3) r(1) show ?thesis by simp
qed

lemma open_user_session_live:
  assumes "open_user_session e raw u s = Inr s'" and "length raw = token_bytes" and "List.find (\<lambda>x. us_id x = ru_id u) (users (base s)) = Some row"
    and "us_status row = ''ACTIVE''"
  shows "authenticate_runner e (encode_token raw) s' = Inr (user_of row)"
proof -
  from assms(1) have n: "ae_mac e raw \<notin> ss_token_hash ` set (sessions s)" and b: "users (base s') = users (base s)"
    and t: "sessions s' = sessions s @ [\<lparr>ss_id = next_id ss_id (sessions s), ss_type = ''USER'', ss_subject = ru_id u,
            ss_token_hash = ae_mac e raw, ss_expires = ae_now e + session_ttl, ss_revoked = None, ss_created = ae_now e\<rparr>]"
    by (auto simp: open_user_session_def bindE_Inr_iff insert_session_Inr on_base_def audit_record_def)
  from n have "List.find (\<lambda>r. ss_type r = ''USER'' \<and> ss_token_hash r = ae_mac e raw) (sessions s) = None"
    by (force simp: find_None_iff)
  with assms(2-4) b show ?thesis
    by (simp add: authenticate_runner_def get_user_session_def t find_append session_ttl_def time_units)
qed

text \<open>C29: A code that was sent signs its phone number in, within five minutes and from any address the limiter lets
  through: the login returns a token that authenticates the user with that number, and the code is used up.\<close>

theorem code_signs_in_once:
  assumes sent: "request_phone_code e phone ip l s = (Inr q, l1, s1)"
    and later: "ae_mac e' = ae_mac e" "ae_now e' < ae_now e + 5 * minute"
    and ids: "distinct (map us_id (users (base s)))"
    and granted: "fst (otp_allow_verify ip' (ae_now e') l1) = Inr ()"
    and token: "length (rand_bytes e' [5] token_bytes) = token_bytes"
      "ae_mac e' (rand_bytes e' [5] token_bytes) \<notin> ss_token_hash ` set (sessions s)"
    and active: "\<forall>u\<in>set (users (base s)). us_phone u = Some phone \<longrightarrow> us_status u = ''ACTIVE''"
  shows "\<exists>x l2 s2. verify_phone_code e' phone (new_code e) lang ip' l1 s1 = (Inr x, l2, s2)
    \<and> authenticate_runner e' (rs_token x) s2 = Inr (rs_user x) \<and> ru_phone (rs_user x) = phone \<and> get_active_otp phone s2 = None"
proof -
  let ?raw = "rand_bytes e' [5] token_bytes"
  let ?lang = "lang_str (case parse_lang lang of None \<Rightarrow> default_lang | Some g \<Rightarrow> g)"
  obtain r where r: "filter (otp_active phone) (otps s1) = [r]" "ot_attempts r = 0" "ot_code_hash r = hash_code e phone (new_code e)"
    "ot_expires r = ae_now e + otp_ttl" "base s1 = base s" "sessions s1 = sessions s" "valid_e164 phone"
    by (rule request_active_code [OF sent])
  let ?c = "consume_otp (ot_id r) (ae_now e') s1"
  obtain row b where up: "upsert_phone_user phone ?lang (ae_now e') (base s) = (row, b)" by fastforce
  note row = upsert_phone_user_row [OF up ids active]
  have "\<not> (\<exists>x\<in>set (sessions s). ss_token_hash x = ae_mac e' ?raw)" using token(2) by force
  moreover have "sessions ?c = sessions s" using r(6) by (simp add: consume_otp_def)
  ultimately obtain s2 where s2: "open_user_session e' ?raw (user_of row) (?c\<lparr>base := b\<rparr>) = Inr s2"
    by (auto simp: open_user_session_def insert_session_def)
  have act: "get_active_otp phone s1 = Some r" by (simp add: get_active_otp_def r(1))
  have base: "base ?c = base s" by (simp add: consume_otp_def r(5))
  have "hash_code e phone (new_code e) = hash_code e' phone (new_code e)" using later(1) by (simp add: hash_code_def)
  then have tx: "verify_code_tx e' ?raw phone (new_code e) ?lang s1 = Inr (Inr (user_of row), s2)"
    using act r(2-4) later(2) up row s2 by (simp add: verify_code_tx_def base otp_ttl_def otp_max_attempts_def)
  obtain l2 where l2: "otp_allow_verify ip' (ae_now e') l1 = (Inr (), l2)" using granted by (metis prod.collapse)
  let ?x = "\<lparr>rs_token = encode_token ?raw, rs_expires = ae_now e' + session_ttl, rs_user = user_of row\<rparr>"
  have "verify_phone_code e' phone (new_code e) lang ip' l1 s1 = (Inr ?x, l2, s2)"
    using r(7) l2 tx by (simp add: verify_phone_code_def Let_def)
  moreover have "authenticate_runner e' (encode_token ?raw) s2 = Inr (user_of row)"
    using open_user_session_live [OF s2 token(1)] row by (simp add: user_of_def)
  moreover have "get_active_otp phone s2 = None"
  proof -
    have "otps s2 = otps ?c" using open_user_session_cases(1) [OF s2] by simp
    moreover have "\<not> otp_active phone y" if "y \<in> set (otps ?c)" for y
    proof -
      from that obtain x where x: "x \<in> set (otps s1)" "y = (if ot_id x = ot_id r then ot_consumed_update (\<lambda>_. Some (ae_now e')) x else x)"
        by (auto simp: consume_otp_def set_update_where)
      show ?thesis
      proof
        assume "otp_active phone y"
        with x have "otp_active phone x" "ot_id x \<noteq> ot_id r" by (auto simp: otp_active_def split: if_splits)
        with x(1) have "x \<in> set (filter (otp_active phone) (otps s1))" by simp
        with r(1) \<open>ot_id x \<noteq> ot_id r\<close> show False by simp
      qed
    qed
    ultimately show ?thesis by (simp add: get_active_otp_None)
  qed
  ultimately show ?thesis using row by (intro exI conjI) (assumption, simp_all add: user_of_def deref_string_def)
qed

lemma code_signs_in_once_witness:
  "\<exists>x s2. fst (verify_phone_code sample_auth_env sample_phone ''004711'' ''en'' ''10.0.0.1'' (fst (snd sample_code_sent)) (snd (snd sample_code_sent))) = Inr x
     \<and> authenticate_runner sample_auth_env (rs_token x) s2 = Inr (rs_user x) \<and> ru_phone (rs_user x) = sample_phone"
proof -
  obtain q where q: "fst sample_code_sent = Inr q"
  proof -
    have "\<not> isl (fst sample_code_sent)" by code_simp
    then show ?thesis using that by (cases "fst sample_code_sent") auto
  qed
  have sent: "request_phone_code sample_auth_env sample_phone ''10.0.0.1'' new_otp_limiter sample_auth_db
      = (Inr q, fst (snd sample_code_sent), snd (snd sample_code_sent))"
    using q by (simp add: sample_code_sent_def [symmetric] prod_eq_iff)
  have g: "fst (otp_allow_verify ''10.0.0.1'' (ae_now sample_auth_env) (fst (snd sample_code_sent))) = Inr ()" by code_simp
  have t: "length (rand_bytes sample_auth_env [5] token_bytes) = token_bytes" by code_simp
  have n: "new_code sample_auth_env = ''004711''" by code_simp
  have d: "distinct (map us_id (users (base sample_auth_db)))" by code_simp
  have a: "\<forall>u\<in>set (users (base sample_auth_db)). us_phone u = Some sample_phone \<longrightarrow> us_status u = ''ACTIVE''" by code_simp
  have "sessions sample_auth_db = []" by (simp add: sample_auth_db_def)
  with code_signs_in_once [OF sent refl _ d g t _ a, where lang = "''en''"] n show ?thesis by (force simp: time_units)
qed

end
