(* ===== verification/InitData.thy ===== *)
theory InitData
  imports Codes
begin

text \<open>
  The init data of the Telegram mini app (\<open>internal/runner/initdata.go\<close>): hex
  and query escaping read back what they wrote, so \<open>SignInitData\<close>, the
  generator of \<open>werun dev-initdata\<close>, and \<open>VerifyInitData\<close> agree on every user.
\<close>

section \<open>Escaping reads back\<close>

lemma hex_digits: "x < 16 \<Longrightarrow> hex_digit (hex_lower x) = Some x \<and> hex_digit (hex_upper x) = Some x
   \<and> hex_upper x \<in> set ''0123456789ABCDEF''"
proof -
  have "list_all (\<lambda>x. hex_digit (hex_lower x) = Some x \<and> hex_digit (hex_upper x) = Some x \<and> hex_upper x \<in> set ''0123456789ABCDEF'') [0..<16]"
    by code_simp
  then show "x < 16 \<Longrightarrow> ?thesis" by (simp add: list_all_iff)
qed

lemma hex_halves: "code_of c div 16 < 16" "code_of c mod 16 < 16"
  using code_of_bound [of c] by auto

lemma hex_byte_halves:
  "hex_byte (hex_lower (code_of c div 16)) (hex_lower (code_of c mod 16)) = Some c"
  "hex_byte (hex_upper (code_of c div 16)) (hex_upper (code_of c mod 16)) = Some c"
  using hex_digits [OF hex_halves(1), of c] hex_digits [OF hex_halves(2), of c] by (simp_all add: hex_byte_def)

lemma hex_decode_encode [simp]: "hex_decode (hex_encode bs) = Some bs"
  by (induction bs) (simp_all add: hex_encode_def hex_byte_halves)

lemma hex_encode_Nil [simp]: "hex_encode bs = [] \<longleftrightarrow> bs = []"
  by (cases bs) (simp_all add: hex_encode_def)

lemma query_escape_simps:
  "query_escape [] = []"
  "query_escape (c # s) = (if is_unreserved c then [c] else if c = CHR '' '' then ''+''
     else [CHR ''%'', hex_upper (code_of c div 16), hex_upper (code_of c mod 16)]) @ query_escape s"
  by (simp_all add: query_escape_def)

lemma unreserved_not: "\<not> is_unreserved (CHR ''%'')" "\<not> is_unreserved (CHR ''+'')" "\<not> is_unreserved (CHR ''&'')"
  "\<not> is_unreserved (CHR '';'')" "\<not> is_unreserved (CHR ''='')"
  by code_simp+

lemma query_unescape_escape [simp]: "query_unescape (query_escape s) = Some s"
proof (induction s)
  case (Cons c s)
  then show ?case using unreserved_not hex_byte_halves(2) [of c] by (auto simp: query_escape_simps)
qed (simp add: query_escape_simps)

lemma query_escape_chars: "CHR ''&'' \<notin> set (query_escape s)" "CHR '';'' \<notin> set (query_escape s)" "CHR ''='' \<notin> set (query_escape s)"
proof -
  have h: "CHR ''&'' \<noteq> hex_upper x \<and> CHR '';'' \<noteq> hex_upper x \<and> CHR ''='' \<noteq> hex_upper x" if "x < 16" for x
    using hex_digits [OF that] by auto
  show "CHR ''&'' \<notin> set (query_escape s)" "CHR '';'' \<notin> set (query_escape s)" "CHR ''='' \<notin> set (query_escape s)"
    by (induction s) (use unreserved_not h [OF hex_halves(1)] h [OF hex_halves(2)] in \<open>auto simp: query_escape_simps\<close>)
qed

lemma cut_at_append: "d \<notin> set a \<Longrightarrow> cut_at d (a @ d # b) = (a, b)"
  by (induction a) (auto simp: cut_at_def)

lemma encode_pair_parts:
  "CHR ''&'' \<notin> set (encode_pair kv)" "CHR '';'' \<notin> set (encode_pair kv)" "encode_pair kv \<noteq> []"
  "cut_at (CHR ''='') (encode_pair kv) = (query_escape (fst kv), query_escape (snd kv))"
  using query_escape_chars [of "fst kv"] query_escape_chars [of "snd kv"]
  by (auto simp: encode_pair_def cut_at_append)

lemma parse_pairs_encode: "parse_pairs (map encode_pair vs) = Some vs"
  by (induction vs) (simp_all add: encode_pair_parts)

lemma split_on_join: "ws \<noteq> [] \<Longrightarrow> \<forall>w\<in>set ws. d \<notin> set w \<Longrightarrow> split_on d (join [d] ws) = ws"
proof (induction ws rule: induct_list012)
  case (3 w v ws)
  then show ?case by (simp add: split_on_append)
qed (simp_all add: split_on_word)

lemma parse_query_encode: "vs \<noteq> [] \<Longrightarrow> parse_query (join ''&'' (map encode_pair vs)) = Some vs"
  using encode_pair_parts(1) by (simp add: parse_query_def split_on_join parse_pairs_encode)

lemma parse_int64_int_str:
  assumes "- (2 ^ 63) \<le> n" "n < 2 ^ 63"
  shows "parse_int64 (int_str n) = Some n"
proof -
  have ne: "digits m \<noteq> []" for m by (subst digits.simps) simp
  have d: "list_all is_digit (digits m) \<and> \<not> has_prefix (digits m) ''-'' \<and> \<not> has_prefix (digits m) ''+''" if "0 \<le> m" for m
    using digits_digits [OF that] is_digit_graph
    by (cases "digits m") (auto simp: list_all_iff has_prefix_def)
  show ?thesis
  proof (cases "n < 0")
    case True
    with d [of "- n"] ne assms show ?thesis
      by (simp add: parse_int64_def int_str_def has_prefix_def digits_val_digits Let_def)
  next
    case False
    with d [of n] ne assms show ?thesis
      by (simp add: parse_int64_def int_str_def digits_val_digits Let_def)
  qed
qed

section \<open>The round trip\<close>

lemma signed_data_verifies:
  assumes "trim_space (ae_bot_token e) \<noteq> []" and "\<And>x. ae_bot_mac e x \<noteq> []"
    and "ae_json_user e (ae_user_json e u) = Some u" "0 < tg_id u"
    and "- (2 ^ 63) \<le> d div second" "d div second + 62135596800 < 2 ^ 63" "ae_now e \<le> d div second * second + 24 * hour"
  shows "verify_init_data e (sign_init_data e u d) = Inr u"
proof -
  have t: "time_unix (d div second) = d div second * second" using assms(5,6) by (simp add: time_unix_def int64_id)
  let ?a = "(''auth_date'', int_str (d div second))" and ?u = "(''user'', ae_user_json e u)"
  let ?mac = "ae_bot_mac e (data_check_string [?a, ?u])"
  let ?vs = "[?a, (''hash'', hex_encode ?mac), ?u]"
  have "parse_query (sign_init_data e u d) = Some ?vs"
    using parse_query_encode [of ?vs] by (simp add: sign_init_data_def Let_def)
  moreover have "data_check_string ?vs = data_check_string [?a, ?u]"
    by (simp add: data_check_string_def values_get_def insort_key.simps)
  moreover have "values_get ?vs ''hash'' = hex_encode ?mac" "values_get ?vs ''auth_date'' = int_str (d div second)"
    "values_get ?vs ''user'' = ae_user_json e u" "distinct (map fst ?vs)" by (simp_all add: values_get_def)
  ultimately show ?thesis
    using assms parse_int64_int_str [OF assms(5)] t by (simp add: verify_init_data_def init_data_max_age_def)
qed

text \<open>C37: Init data signed for a user within the last day verifies as exactly that user, whatever its name contains; the
  signing time is one a \<open>time.Time\<close> can hold.\<close>

theorem init_data_round_trip:
  assumes "trim_space (ae_bot_token e) \<noteq> []" and "\<And>x. ae_bot_mac e x \<noteq> []"
    and "ae_json_user e (ae_user_json e u) = Some u" "0 < tg_id u"
    and "- (2 ^ 63) \<le> d div second" "d div second + 62135596800 < 2 ^ 63" "ae_now e \<le> d div second * second + 24 * hour"
  shows "verify_init_data e (sign_init_data e u d) = Inr u"
  using assms by (rule signed_data_verifies)

lemma init_data_round_trip_witness:
  "verify_init_data (sample_auth_env\<lparr>ae_bot_mac := Cons (CHR ''h'')\<rparr>)
     (sign_init_data (sample_auth_env\<lparr>ae_bot_mac := Cons (CHR ''h'')\<rparr>)
       \<lparr>tg_id = 77, tg_first_name = ''Dara'', tg_last_name = [], tg_username = [], tg_language_code = ''en''\<rparr> sample_now)
   = Inr \<lparr>tg_id = 77, tg_first_name = ''Dara'', tg_last_name = [], tg_username = [], tg_language_code = ''en''\<rparr>"
proof (rule init_data_round_trip)
  show "ae_bot_mac (sample_auth_env\<lparr>ae_bot_mac := Cons (CHR ''h'')\<rparr>) x \<noteq> []" for x by simp
qed code_simp+

end
