(* ===== verification/Commands.thy ===== *)
theory Commands
  imports Config Consents InitData Messages
begin

text \<open>
  The commands of the binary \<open>werun\<close> (\<open>cmd/werun\<close>) that change data or mint a login:
  \<open>publish-consent\<close>, \<open>create-staff\<close> and \<open>dev-initdata\<close>, with the dispatch of
  \<open>main.go\<close>.  A command gets the flags the \<open>flag\<close> package parsed; \<open>serve\<close>,
  \<open>worker\<close>, \<open>migrate\<close> and \<open>healthcheck\<close> run servers and are exit codes here.
\<close>

section \<open>Errors of a command\<close>

datatype cli_error =
    ExtraArguments "string list"
  | MissingFlag string
  | BadDate
  | BadItems
  | UnreadableText
  | UnknownRole
  | NoPassword
  | PasswordsDiffer
  | NotATerminal
  | DevInitDataInProd
  | BadTelegramID
  | EmptyName
  | BadLang
  | LoadConfig "config_error list"
  | Service goerr

section \<open>publish-consent\<close>

text \<open>\<open>time.Parse(time.DateOnly, s)\<close>.\<close>

definition days_in :: "int \<Rightarrow> int \<Rightarrow> int" where
  "days_in y m = (if m = 2 then if y mod 4 = 0 \<and> (y mod 100 \<noteq> 0 \<or> y mod 400 = 0) then 29 else 28
     else if m \<in> {4, 6, 9, 11} then 30 else 31)"

definition parse_date_only :: "string \<Rightarrow> gotime option" where
  "parse_date_only s =
     (let y = digits_val 0 (take 4 s); m = digits_val 0 (take 2 (drop 5 s)); d = digits_val 0 (drop 8 s)
      in if length s = 10 \<and> list_all is_digit (take 4 s @ take 2 (drop 5 s) @ drop 8 s) \<and> s ! 4 = CHR ''-'' \<and> s ! 7 = CHR ''-''
            \<and> 1 \<le> m \<and> m \<le> 12 \<and> 1 \<le> d \<and> d \<le> days_in y m
         then Some (date_time y m d) else None)"

record publish_flags =
  fl_purpose :: string
  fl_version :: string
  fl_lang :: string
  fl_effective :: string
  fl_file :: string
  fl_items :: string

text \<open>\<open>parsePublishConsentArgs\<close>; \<open>read_text\<close> reads the file or the standard input, \<open>json_items\<close> is the strict decoder
  of \<open>encoding/json\<close> for one array of items.\<close>

definition parse_publish_consent_args ::
    "(string \<Rightarrow> string option) \<Rightarrow> (string \<Rightarrow> consent_item list option) \<Rightarrow> publish_flags \<Rightarrow> string list
     \<Rightarrow> cli_error + publish_input" where
  "parse_publish_consent_args read_text json_items fl rest =
     bindE (failIf (rest \<noteq> []) (ExtraArguments rest)) (\<lambda>_.
     bindE (case List.find (\<lambda>(name, v). trim_space v = [])
              [(''--purpose'', fl_purpose fl), (''--version'', fl_version fl), (''--lang'', fl_lang fl),
               (''--effective-date'', fl_effective fl), (''--file'', fl_file fl), (''--items'', fl_items fl)] of
              Some (name, v) \<Rightarrow> Inl (MissingFlag name) | None \<Rightarrow> Inr ()) (\<lambda>_.
     bindE (case parse_date_only (fl_effective fl) of None \<Rightarrow> Inl BadDate | Some d \<Rightarrow> Inr d) (\<lambda>date.
     bindE (case json_items (fl_items fl) of None \<Rightarrow> Inl BadItems | Some its \<Rightarrow> Inr its) (\<lambda>its.
     bindE (case read_text (fl_file fl) of None \<Rightarrow> Inl UnreadableText | Some t \<Rightarrow> Inr t) (\<lambda>txt.
       Inr \<lparr>pc_purpose = fl_purpose fl, pc_version = fl_version fl, pc_lang = fl_lang fl, pc_effective = date,
            pc_text = txt, pc_items = its\<rparr>)))))"

definition run_publish_consent ::
    "(string \<Rightarrow> string) \<Rightarrow> (string \<Rightarrow> string option) \<Rightarrow> (string \<Rightarrow> consent_item list option) \<Rightarrow> publish_flags \<Rightarrow> string list
     \<Rightarrow> db \<Rightarrow> cli_error + db" where
  "run_publish_consent sha read_text json_items fl rest s =
     bindE (parse_publish_consent_args read_text json_items fl rest) (\<lambda>inp.
     case publish_consent sha inp s of Inl err \<Rightarrow> Inl (Service err) | Inr s' \<Rightarrow> Inr s')"

section \<open>create-staff\<close>

definition read_password_line :: "string \<Rightarrow> cli_error + string" where
  "read_password_line input =
     (let line = takeWhile (\<lambda>c. code_of c \<noteq> 10) input;
          password = rev (dropWhile (\<lambda>c. code_of c = 13 \<or> code_of c = 10) (rev line))
      in if password = [] then Inl NoPassword else Inr password)"

text \<open>\<open>promptPassword\<close>: the two lines typed at a terminal; \<open>None\<close> is an input that is not a terminal.\<close>

definition prompt_password :: "(string \<times> string) option \<Rightarrow> cli_error + string" where
  "prompt_password typed =
     (case typed of None \<Rightarrow> Inl NotATerminal
      | Some (first, again) \<Rightarrow> if first \<noteq> again then Inl PasswordsDiffer else Inr first)"

definition run_create_staff :: "auth_env \<Rightarrow> string \<Rightarrow> string \<Rightarrow> string \<Rightarrow> bool \<Rightarrow> string \<Rightarrow> (string \<times> string) option
    \<Rightarrow> auth_db \<Rightarrow> cli_error + staff_member \<times> auth_db" where
  "run_create_staff e username full_name role_name from_stdin stdin typed s =
     (case parse_role role_name of
        None \<Rightarrow> Inl UnknownRole
      | Some role \<Rightarrow>
          bindE (if from_stdin then read_password_line stdin else prompt_password typed) (\<lambda>password.
          case create_staff e username full_name (role_str role) password s of
            Inl err \<Rightarrow> Inl (Service err) | Inr r \<Rightarrow> Inr r))"

section \<open>dev-initdata\<close>

definition run_dev_init_data :: "auth_env \<Rightarrow> string \<Rightarrow> config_error list + config \<Rightarrow> int \<Rightarrow> string \<Rightarrow> string
    \<Rightarrow> cli_error + string" where
  "run_dev_init_data e env_var loaded telegram_id name lang_code =
     (if env_var = ''prod'' then Inl DevInitDataInProd
      else if telegram_id \<le> 0 then Inl BadTelegramID
      else if trim_space name = [] then Inl EmptyName
      else if lang_code \<notin> {''zh'', ''en'', ''km''} then Inl BadLang
      else (case loaded of
              Inl errs \<Rightarrow> Inl (LoadConfig errs)
            | Inr c \<Rightarrow>
                if is_prod c then Inl DevInitDataInProd
                else Inr (sign_init_data (e\<lparr>ae_bot_token := cf_bot_token c\<rparr>)
                       \<lparr>tg_id = telegram_id, tg_first_name = trim_space name, tg_last_name = [], tg_username = [],
                        tg_language_code = lang_code\<rparr> (ae_now e))))"

section \<open>Dispatch\<close>

text \<open>\<open>run\<close>: the exit code, given that of the servers and the outcome of the other commands.\<close>

definition run_main :: "(string \<Rightarrow> string list \<Rightarrow> int) \<Rightarrow> (string \<Rightarrow> string list \<Rightarrow> cli_error + unit) \<Rightarrow> string list \<Rightarrow> int" where
  "run_main server command args =
     (case args of
        [] \<Rightarrow> 2
      | a # rest \<Rightarrow>
          if a \<in> {''serve'', ''worker'', ''migrate'', ''healthcheck''} then server a rest
          else if a \<in> {''create-staff'', ''dev-initdata'', ''publish-consent''}
          then (case command a rest of Inl _ \<Rightarrow> 1 | Inr _ \<Rightarrow> 0)
          else if a \<in> {''help'', ''-h'', ''--help''} then 0 else 2)"

section \<open>What the commands do\<close>

text \<open>The login that \<open>dev-initdata\<close> prints is accepted by the service with the same bot token, for the user that was
  asked for; production mints none.\<close>

lemma dev_init_data_verifies:
  assumes "run_dev_init_data e env_var loaded i name lang_code = Inr out"
    and "loaded = Inr c" and "load_config parse_url raw err = loaded"
    and "\<And>x. ae_bot_mac e x \<noteq> []" and "\<And>u. ae_json_user e (ae_user_json e u) = Some u"
    and "- (2 ^ 63) \<le> ae_now e div second" "ae_now e div second + 62135596800 < 2 ^ 63"
  shows "verify_init_data (e\<lparr>ae_bot_token := cf_bot_token c\<rparr>) out
      = Inr \<lparr>tg_id = i, tg_first_name = trim_space name, tg_last_name = [], tg_username = [], tg_language_code = lang_code\<rparr>
    \<and> \<not> is_prod c \<and> env_var \<noteq> ''prod''"
proof -
  from assms(2,3) have l: "load_config parse_url raw err = Inr c" by simp
  from load_config_ok(1,6) [OF l] have t: "trim_space (cf_bot_token c) \<noteq> []" by simp
  have "ae_now e \<le> ae_now e div second * second + second"
    using pos_mod_bound [of second "ae_now e"] div_mult_mod_eq [of "ae_now e" second] by (simp add: time_units)
  then have n: "ae_now e \<le> ae_now e div second * second + 24 * hour" by (simp add: time_units)
  show ?thesis using assms(1,2) t assms(4-7) n
    by (auto simp: run_dev_init_data_def split: if_splits intro!: signed_data_verifies)
qed

lemma read_password_line_no_eol:
  assumes "read_password_line input = Inr password"
  shows "password \<noteq> [] \<and> char_of (10 :: nat) \<notin> set password \<and> last password \<noteq> char_of (13 :: nat)"
proof -
  let ?p = "\<lambda>c. code_of c = 13 \<or> code_of c = 10" and ?line = "takeWhile (\<lambda>c. code_of c \<noteq> 10) input"
  from assms have p: "password = rev (dropWhile ?p (rev ?line))" "password \<noteq> []"
    by (auto simp: read_password_line_def Let_def split: if_splits)
  then have "set password \<subseteq> set ?line" by (auto dest: set_dropWhileD)
  then have "char_of (10 :: nat) \<notin> set password" using set_takeWhileD [of _ "\<lambda>c. code_of c \<noteq> 10" input]
    by (force simp: code_of_def)
  moreover from p have "\<not> ?p (last password)" using hd_dropWhile [of ?p "rev ?line"] by (simp add: last_rev)
  ultimately show ?thesis using p(2) by (auto simp: code_of_def)
qed

end
