(* ===== verification/ApiRuns.thy ===== *)
theory ApiRuns
  imports Api Commands
begin

text \<open>
  What a request can do to the data of the service: either nothing, or one step of the
  service of \<open>Lifecycle\<close> by somebody entitled to it; and the runs of the whole process:
  requests, jobs, commands and restarts.
\<close>

section \<open>Sign-in leaves the shop alone\<close>

text \<open>Everything the service keeps but the accounts of the runners and the audit log.\<close>

definition shop :: "db \<Rightarrow> db" where
  "shop s = s\<lparr>users := [], audit_logs := []\<rparr>"

lemma shop_books: "shop s' = shop s \<Longrightarrow> books s' = books s"
proof -
  have "books (shop t) = books t" for t by (simp add: books_def shop_def)
  then show "shop s' = shop s \<Longrightarrow> books s' = books s" by metis
qed

lemma shop_audit [simp]: "shop (audit_record a s) = shop s"
  by (simp add: shop_def audit_record_def)

lemma shop_users [simp]: "shop (s\<lparr>users := us\<rparr>) = shop s"
  by (simp add: shop_def)

lemma on_base_base [simp]: "base (on_base f s) = f (base s)"
  by (simp add: on_base_def)

lemma insert_session_base: "insert_session ty i h ex cr s = Inr s' \<Longrightarrow> base s' = base s"
  by (simp add: insert_session_Inr)

lemma open_user_session_shop: "open_user_session e raw u s = Inr s' \<Longrightarrow> shop (base s') = shop (base s)"
  by (auto simp: open_user_session_def bindE_Inr_iff dest!: insert_session_base)

lemma open_staff_session_shop: "open_staff_session e raw r s = Inr s' \<Longrightarrow> shop (base s') = shop (base s)"
  by (auto simp: open_staff_session_def bindE_Inr_iff set_staff_last_login_def dest!: insert_session_base)

lemma login_staff_shop: "login_staff e u pw ip l s = (x, l', s') \<Longrightarrow> shop (base s') = shop (base s)"
  by (auto simp: login_staff_def Let_def dest!: open_staff_session_shop
      split: if_splits prod.splits option.splits sum.splits)

lemma upsert_telegram_user_shop: "shop (snd (upsert_telegram_user tg un n loc now s)) = shop s"
  by (simp add: upsert_telegram_user_def Let_def split: option.split)

lemma upsert_phone_user_shop: "shop (snd (upsert_phone_user phone loc now s)) = shop s"
  by (simp add: upsert_phone_user_def Let_def split: option.split)

lemma login_telegram_shop: "login_telegram e d s = Inr (x, s') \<Longrightarrow> shop (base s') = shop (base s)"
  by (auto simp: login_telegram_def bindE_Inr_iff Let_def case_prod_unfold upsert_telegram_user_shop dest!: open_user_session_shop)

lemma request_phone_code_base: "request_phone_code e phone ip l s = (x, l', s') \<Longrightarrow> base s' = base s"
  by (auto simp: request_phone_code_def insert_otp_def consume_active_otps_def consume_otp_def set_otp_provider_def Let_def
      split: if_splits prod.splits sum.splits send_answer.splits)

lemma verify_code_tx_shop: "verify_code_tx e raw phone code loc s = Inr (x, s') \<Longrightarrow> shop (base s') = shop (base s)"
  by (auto simp: verify_code_tx_def consume_otp_def increment_otp_attempts_def Let_def case_prod_unfold bindE_Inr_iff
      upsert_phone_user_shop dest!: open_user_session_shop split: option.splits if_splits)

lemma verify_phone_code_shop: "verify_phone_code e phone code loc ip l s = (x, l', s') \<Longrightarrow> shop (base s') = shop (base s)"
  by (auto simp: verify_phone_code_def Let_def dest!: verify_code_tx_shop split: if_splits prod.splits sum.splits)

lemma update_me_shop: "update_me i n loc s = Inr (v, s') \<Longrightarrow> shop s' = shop s"
  by (auto simp: update_me_def update_user_profile_def Let_def split: if_splits option.splits)

lemma authenticate_staff_base: "base (snd (authenticate_staff e token s)) = base s"
  by (auto simp: authenticate_staff_def update_session_expiry_def Let_def split: option.split prod.split)

lemma auth_middleware_base: "auth_middleware e auths op rq s = (r, s') \<Longrightarrow> base s' = base s"
  using authenticate_staff_base [of e "rq_cookie rq" s]
  by (auto simp: auth_middleware_def Let_def split: option.splits if_splits prod.splits sum.splits)

lemma logout_base: "base (logout_staff e token s) = base s" "base (logout_runner e token s) = base s"
  by (simp_all add: logout_staff_def logout_runner_def revoke_session_def revoke_user_session_def split: option.split)

section \<open>What the parts of a handler do\<close>

lemma set_db_simps [simp]: "wd_db (set_db s w) = s" "wd_db (w\<lparr>wd_disk := d\<rparr>) = wd_db w" "wd_db (w\<lparr>wd_logins := l\<rparr>) = wd_db w"
    "wd_db (w\<lparr>wd_codes := c\<rparr>) = wd_db w" "wd_db (w\<lparr>wd_auth := a\<rparr>) = base a"
  by (simp_all add: set_db_def)

definition obeys :: "(db \<Rightarrow> db \<Rightarrow> bool) \<Rightarrow> handler \<Rightarrow> bool" where
  "obeys change f \<longleftrightarrow> (\<forall>w r w'. f w = (r, w') \<longrightarrow> change (wd_db w) (wd_db w'))"

lemma obeys_weaken: "obeys quiet f \<Longrightarrow> (\<And>s s'. quiet s s' \<Longrightarrow> change s s') \<Longrightarrow> obeys change f"
  by (auto simp: obeys_def)

lemma obeysI: "(\<And>w r w'. f w = (r, w') \<Longrightarrow> change (wd_db w) (wd_db w')) \<Longrightarrow> obeys change f"
  by (simp add: obeys_def)

text \<open>A rule on how a handler may change the database, and how each part of a handler keeps it.\<close>

locale handler_policy =
  fixes change :: "db \<Rightarrow> db \<Rightarrow> bool"
  assumes unchanged: "change s s"
begin

lemma obeys_same: "(\<And>w r w'. f w = (r, w') \<Longrightarrow> wd_db w' = wd_db w) \<Longrightarrow> obeys change f"
  by (auto intro!: obeysI simp: unchanged)

lemma obeys_reads: "obeys change (reads f answer)"
  by (rule obeys_same) (simp add: reads_def)

lemma obeys_staff: "(\<And>m a. p = Member m \<Longrightarrow> obeys change (f a)) \<Longrightarrow> obeys change (as_staff p f)"
  by (auto simp: obeys_def as_staff_def unchanged split: principal.splits)

lemma obeys_runner: "(\<And>u. p = Runner u \<Longrightarrow> obeys change (f u)) \<Longrightarrow> obeys change (as_runner p f)"
  by (auto simp: obeys_def as_runner_def unchanged split: principal.splits)

lemma obeys_body: "(\<And>x. obeys change (f x)) \<Longrightarrow> obeys change (with_body b f)"
  by (auto simp: obeys_def with_body_def unchanged split: option.splits)

lemma obeys_converted: "(\<And>x. obeys change (f x)) \<Longrightarrow> obeys change (converted r f)"
  by (auto simp: obeys_def converted_def unchanged split: sum.splits)

lemma obeys_commits: "(\<And>s x s'. f s = Inr (x, s') \<Longrightarrow> change s s') \<Longrightarrow> obeys change (commits f answer)"
  by (auto simp: obeys_def commits_def unchanged split: sum.splits prod.splits)

lemma obeys_commits_disk: "(\<And>s d x s' d'. f s d = (Inr (x, s'), d') \<Longrightarrow> change s s') \<Longrightarrow> obeys change (commits_disk f answer)"
  by (auto simp: obeys_def commits_disk_def unchanged split: sum.splits prod.splits)

lemma obeys_reviews: "(\<And>s x s'. f s = Inr (x, s') \<Longrightarrow> change s s') \<Longrightarrow> obeys change (reviews f)"
  by (auto simp: obeys_def reviews_def unchanged split: sum.splits prod.splits)

lemmas obeys_parts = obeys_reads obeys_staff obeys_runner obeys_body obeys_converted

end

section \<open>What a handler does\<close>

definition runner_writes :: "string list" where
  "runner_writes = [''AppCreateOrder'', ''AppCancelOrder'', ''AppCreateFreeSignup'', ''AppSubmitProof'', ''AppCreateProfile'',
     ''AppUpdateProfile'', ''AppDeleteProfile'']"

definition entitled :: "principal \<Rightarrow> string \<Rightarrow> bool" where
  "entitled p op = (case p of Anyone \<Rightarrow> False | Runner u \<Rightarrow> op \<in> set runner_writes | Member m \<Rightarrow> op \<in> set office_writes)"

text \<open>Reading and signing in leave the shop as it is.\<close>

definition quiet :: "db \<Rightarrow> db \<Rightarrow> bool" where
  "quiet s s' \<longleftrightarrow> shop s' = shop s"

interpretation still: handler_policy quiet
  by unfold_locales (simp add: quiet_def)

lemmas writes = runner_writes_def office_writes_def

lemma quiet_sign_in:
  "obeys quiet (admin_login h ip b)" "obeys quiet (app_login_telegram h tg)"
  "obeys quiet (app_request_phone_code h ip phone)" "obeys quiet (app_verify_phone_code h ip l cb)"
  "obeys quiet (app_update_me p me_in)"
  subgoal unfolding admin_login_def
    by (rule still.obeys_body) (auto intro!: obeysI quiet_def [THEN iffD2] dest: login_staff_shop split: prod.splits sum.splits)
  subgoal unfolding app_login_telegram_def
    by (rule still.obeys_body) (auto intro!: obeysI quiet_def [THEN iffD2] dest: login_telegram_shop split: prod.splits sum.splits)
  subgoal unfolding app_request_phone_code_def
    by (rule still.obeys_body) (auto intro!: obeysI quiet_def [THEN iffD2] dest!: request_phone_code_base split: prod.splits sum.splits)
  subgoal unfolding app_verify_phone_code_def
    by (rule still.obeys_body) (auto intro!: obeysI quiet_def [THEN iffD2] dest: verify_phone_code_shop split: prod.splits sum.splits)
  subgoal unfolding app_update_me_def
    by (auto intro!: still.obeys_parts still.obeys_commits quiet_def [THEN iffD2] dest: update_me_shop split: prod.splits)
  done

lemmas handler_defs = admin_logout_def admin_get_me_def list_public_events_def get_public_event_def admin_list_events_def
  admin_get_event_def admin_list_price_rules_def admin_list_coupons_def admin_list_payment_accounts_def get_public_file_def
  admin_list_proofs_def admin_get_proof_def admin_get_file_def app_logout_def app_get_me_def app_list_profiles_def
  app_get_consent_def app_quote_def app_list_orders_def app_get_order_def admin_list_orders_handler_def admin_get_order_handler_def
  app_list_free_signups_def

lemma quiet_reading:
  assumes "op_of c \<notin> set runner_writes" and "op_of c \<notin> set office_writes"
  shows "obeys quiet (handle h q l c p)"
  using assms by (cases c) (auto simp: quiet_sign_in handler_defs logout_base Let_def writes
      as_runner_def with_body_def reads_def intro!: still.obeys_same split: principal.splits option.splits prod.splits if_splits)

definition allowed_change :: "principal \<Rightarrow> api_call \<Rightarrow> db \<Rightarrow> db \<Rightarrow> bool" where
  "allowed_change p c s s' \<longleftrightarrow> shop s' = shop s \<or> (step s s' \<and> entitled p (op_of c))"

lemma shop_change: "shop s' = shop s \<Longrightarrow> allowed_change p c s s'"
  by (simp add: allowed_change_def)

interpretation gated: handler_policy "allowed_change p c" for p c
  by unfold_locales (simp add: shop_change)

lemma staff_change: "p = Member m \<Longrightarrow> op_of c \<in> set office_writes \<Longrightarrow> step s s' \<Longrightarrow> allowed_change p c s s'"
  by (simp add: allowed_change_def entitled_def)

lemma runner_change: "p = Runner u \<Longrightarrow> op_of c \<in> set runner_writes \<Longrightarrow> step s s' \<Longrightarrow> allowed_change p c s s'"
  by (simp add: allowed_change_def entitled_def)

lemma runner_changes:
  "obeys (allowed_change p (AppCreateOrder key ob)) (app_create_order h p key ob)"
  "obeys (allowed_change p (AppCancelOrder no)) (app_cancel_order h p no)"
  "obeys (allowed_change p (AppCreateFreeSignup slug fb)) (app_create_free_signup h p slug fb)"
  "obeys (allowed_change p (AppSubmitProof no parts)) (app_submit_proof h p no parts)"
  "obeys (allowed_change p (AppCreateProfile pb)) (app_create_profile h p pb)"
  "obeys (allowed_change p (AppUpdateProfile i pb)) (app_update_profile h p i pb)"
  "obeys (allowed_change p (AppDeleteProfile i)) (app_delete_profile p i)"
  by (auto simp: app_create_order_def app_cancel_order_def app_create_free_signup_def app_submit_proof_def app_create_profile_def
      app_update_profile_def app_delete_profile_def writes bindE_Inr_iff
      intro!: gated.obeys_parts gated.obeys_commits gated.obeys_commits_disk runner_change split: prod.splits
      intro: step.intros)

lemma staff_changes:
  "obeys (allowed_change p (AdminCreateEvent eb)) (admin_create_event p eb)"
  "obeys (allowed_change p (AdminPublishEvent i)) (admin_publish_event h p i)"
  "obeys (allowed_change p (AdminUpdateEventRegistration i rb)) (admin_update_event_registration p i rb)"
  "obeys (allowed_change p (AdminCreatePriceRule i prb)) (admin_create_price_rule p i prb)"
  "obeys (allowed_change p (AdminUpdatePriceRule i prb)) (admin_update_price_rule p i prb)"
  "obeys (allowed_change p (AdminCreateCoupon cb)) (admin_create_coupon h p cb)"
  "obeys (allowed_change p (AdminUpdateCoupon i cb)) (admin_update_coupon p i cb)"
  "obeys (allowed_change p (AdminCreatePaymentAccount parts)) (admin_create_payment_account h p parts)"
  "obeys (allowed_change p (AdminUpdatePaymentAccount i parts)) (admin_update_payment_account h p i parts)"
  "obeys (allowed_change p (AdminApproveProof i ab)) (admin_approve_proof h p i ab)"
  "obeys (allowed_change p (AdminRejectProof i jb)) (admin_reject_proof h p i jb)"
  by (auto simp: admin_create_event_def admin_publish_event_def admin_update_event_registration_def admin_create_price_rule_def
      admin_update_price_rule_def admin_create_coupon_def admin_update_coupon_def admin_create_payment_account_def
      admin_update_payment_account_def admin_approve_proof_def admin_reject_proof_def writes
      intro!: gated.obeys_parts gated.obeys_commits gated.obeys_commits_disk gated.obeys_reviews staff_change
      split: prod.splits intro: step.intros)

lemma handle_obeys: "obeys (allowed_change p c) (handle h q l c p)"
proof (cases "op_of c \<in> set runner_writes \<union> set office_writes")
  case True
  then show ?thesis by (cases c) (simp_all add: writes runner_changes staff_changes)
next
  case False
  then have "obeys quiet (handle h q l c p)" by (intro quiet_reading) simp_all
  then show ?thesis by (rule obeys_weaken) (simp add: quiet_def shop_change)
qed

section \<open>Requests\<close>

lemma authenticate_world_db: "authenticate_world h op rq w = (r, w') \<Longrightarrow> wd_db w' = wd_db w"
  by (auto simp: authenticate_world_def dest: auth_middleware_base split: prod.splits)

lemma serve_cases:
  assumes "serve e l rq bound authenticate handler s = (ans, s')"
  obtains "s' = s" | r where "authenticate s = (r, s')"
  | p t ot where "csrf_guard rq = Inr ()" "bound" "authenticate s = (Inr p, t)" "handler p t = (ot, s')"
  using assms by (auto simp: serve_def split: sum.splits prod.splits if_splits)

lemma api_request_cases:
  assumes "api_request h q w = (ans, w')"
  obtains "wd_db w' = wd_db w"
  | c p where "hq_call q = Some c" "csrf_guard (hq_request q) = Inr ()"
      "fst (auth_middleware (he_auth h) operation_auths (op_of c) (hq_request q) (wd_auth w)) = Inr p"
      "\<And>change. (\<And>l. obeys change (handle h q l c p)) \<Longrightarrow> change (wd_db w) (wd_db w')"
proof (cases "hq_call q")
  case None
  with assms that(1) show thesis
    by (auto simp: api_request_def Let_def elim!: serve_cases)
next
  case (Some c)
  let ?l = "from_request (hq_query_lang q) (hq_accept q)"
  from assms Some have "serve (he_env h) ?l (hq_request q) True (authenticate_world h (op_of c) (hq_request q))
      (\<lambda>p w. case handle h q ?l c p w of (r, w') \<Rightarrow> (outcome_of r, w')) w = (ans, w')"
    by (simp add: api_request_def Let_def)
  then show thesis
  proof (cases rule: serve_cases)
    case 1
    with that(1) show thesis by simp
  next
    case (2 r)
    with that(1) show thesis by (auto dest: authenticate_world_db)
  next
    case (3 p t ot)
    from 3(4) obtain r where r: "handle h q ?l c p t = (r, w')" by (auto split: prod.splits)
    have t: "wd_db t = wd_db w" by (rule authenticate_world_db [OF 3(3)])
    show thesis
    proof (rule that(2) [OF Some 3(1)])
      show "fst (auth_middleware (he_auth h) operation_auths (op_of c) (hq_request q) (wd_auth w)) = Inr p"
        using 3(3) by (auto simp: authenticate_world_def split: prod.splits)
      show "change (wd_db w) (wd_db w')" if "\<And>l. obeys change (handle h q l c p)" for change
        using that [of ?l] r t unfolding obeys_def by metis
    qed
  qed
qed

text \<open>C26: A request changes what the service keeps (all but the accounts of the runners and the audit log) only as one step
  of the service, past the CSRF guard, for an operation that writes, on behalf of an active runner with a live session or
  of an active member of staff with a live session in a role that owns the operation.\<close>

theorem api_changes_are_authorized:
  assumes "api_request h q w = (ans, w')" and "shop (wd_db w') \<noteq> shop (wd_db w)"
  shows "\<exists>c. hq_call q = Some c \<and> csrf_guard (hq_request q) = Inr () \<and> step (wd_db w) (wd_db w')
    \<and> (op_of c \<in> set runner_writes \<and> (\<exists>u. live_runner (he_auth h) (bearer_token (rq_authorization (hq_request q))) u (wd_auth w))
       \<or> op_of c \<in> set office_writes \<and> (\<exists>m. live_member (he_auth h) (rq_cookie (hq_request q)) m (wd_auth w)
           \<and> sm_role m \<in> set (writers (op_of c))))"
proof (rule api_request_cases [OF assms(1)])
  assume "wd_db w' = wd_db w"
  with assms(2) show ?thesis by simp
next
  fix c p
  let ?run = "auth_middleware (he_auth h) operation_auths (op_of c) (hq_request q) (wd_auth w)"
  assume c: "hq_call q = Some c" "csrf_guard (hq_request q) = Inr ()" and p: "fst ?run = Inr p"
    and ch: "\<And>change. (\<And>l. obeys change (handle h q l c p)) \<Longrightarrow> change (wd_db w) (wd_db w')"
  from p have "?run = (Inr p, snd ?run)" by (simp add: prod_eq_iff)
  note a = requests_are_authorized [OF this]
  have "allowed_change p c (wd_db w) (wd_db w')" by (rule ch) (rule handle_obeys)
  with assms(2) have "step (wd_db w) (wd_db w')" "entitled p (op_of c)" by (auto simp: allowed_change_def)
  with a c show ?thesis by (auto simp: entitled_def split: principal.splits)
qed

section \<open>Runs of the process\<close>

text \<open>A run: requests, jobs and commands in any order, each with its own clock and randomness; a restart forgets the limiters.\<close>

inductive process_step :: "world \<Rightarrow> world \<Rightarrow> bool" where
  requested: "api_request h q w = (ans, w') \<Longrightarrow> process_step w w'"
| deadlines_run: "deadline_work e (wd_db w) = (report, n, s') \<Longrightarrow> process_step w (set_db s' w)"
| message_sent: "send_work e i attempt max_tries result (wd_db w) = (sent, s') \<Longrightarrow> process_step w (set_db s' w)"
| sessions_cleaned: "process_step w (w\<lparr>wd_auth := session_cleanup_work ae (wd_auth w)\<rparr>)"
| staff_added: "run_create_staff ae u n role from_stdin stdin typed (wd_auth w) = Inr (m, a) \<Longrightarrow> process_step w (w\<lparr>wd_auth := a\<rparr>)"
| consent_added: "run_publish_consent sha read_text json_items fl rest (wd_db w) = Inr s' \<Longrightarrow> process_step w (set_db s' w)"
| restarted: "process_step w (w\<lparr>wd_logins := new_login_limiter, wd_codes := new_otp_limiter\<rparr>)"

lemma create_staff_base: "create_staff ae u n role pw a = Inr (m, a') \<Longrightarrow> base a' = base a"
  unfolding create_staff_def insert_staff_def Let_def bindE_Inr_iff map_err_Inr by (auto split: if_splits)

lemma run_create_staff_base:
  assumes "run_create_staff ae u n role from_stdin stdin typed a = Inr (m, a')"
  shows "base a' = base a"
proof -
  from assms obtain r where "parse_role role = Some r" by (cases "parse_role role") (simp_all add: run_create_staff_def)
  with assms have "bindE (if from_stdin then read_password_line stdin else prompt_password typed)
      (\<lambda>pw. case create_staff ae u n (role_str r) pw a of Inl err \<Rightarrow> Inl (Service err) | Inr y \<Rightarrow> Inr y) = Inr (m, a')"
    by (simp add: run_create_staff_def)
  then obtain pw where "(case create_staff ae u n (role_str r) pw a of Inl err \<Rightarrow> Inl (Service err) | Inr y \<Rightarrow> Inr y) = Inr (m, a')"
    unfolding bindE_Inr_iff by blast
  then have "create_staff ae u n (role_str r) pw a = Inr (m, a')" by (simp split: sum.splits)
  then show ?thesis by (rule create_staff_base)
qed

lemma session_cleanup_base: "base (session_cleanup_work ae a) = base a"
  by (simp add: session_cleanup_work_def delete_expired_sessions_def delete_expired_sessions_stmt_def Let_def)

lemma run_publish_consent_step:
  assumes "run_publish_consent sha read_text json_items fl rest s = Inr s'"
  shows "step s s'"
proof -
  from assms obtain inp where "(case publish_consent sha inp s of Inl err \<Rightarrow> Inl (Service err) | Inr s' \<Rightarrow> Inr s') = Inr s'"
    unfolding run_publish_consent_def bindE_Inr_iff by blast
  then have "publish_consent sha inp s = Inr s'" by (simp split: sum.splits)
  then show ?thesis by (rule new_consent)
qed

lemma shop_step:
  assumes "shop s' = shop s"
  shows "step s s'"
proof -
  have "s' = (shop s')\<lparr>users := users s', audit_logs := audit_logs s'\<rparr>" by (simp add: shop_def)
  also have "\<dots> = s\<lparr>users := users s', audit_logs := audit_logs s'\<rparr>" unfolding assms by (simp add: shop_def)
  finally show ?thesis using signing_in by metis
qed

lemma process_step_db:
  assumes "process_step w w'"
  shows "step (wd_db w) (wd_db w')"
  using assms
proof (cases rule: process_step.cases)
  case (requested h q ans)
  then show ?thesis
  proof (rule api_request_cases)
    fix c p
    assume ch: "\<And>change. (\<And>l. obeys change (handle h q l c p)) \<Longrightarrow> change (wd_db w) (wd_db w')"
    have "allowed_change p c (wd_db w) (wd_db w')" by (rule ch) (rule handle_obeys)
    then show ?thesis by (auto simp: allowed_change_def shop_step)
  qed (simp add: shop_step)
qed (auto simp: run_create_staff_base session_cleanup_base shop_step intro: step.deadlines step.sending run_publish_consent_step)

inductive process_run :: "world \<Rightarrow> bool" where
  booted: "start (wd_db w) \<Longrightarrow> process_run w"
| went_on: "process_run w \<Longrightarrow> process_step w w' \<Longrightarrow> process_run w'"

lemma process_run_reachable: "process_run w \<Longrightarrow> reachable (wd_db w)"
  by (induction rule: process_run.induct) (use started stepped process_step_db in blast)+

lemma process_run_ok: "process_run w \<Longrightarrow> sys_ok (wd_db w)"
  by (rule reachable_ok) (rule process_run_reachable)

text \<open>C20: Every run of the whole process, with requests, jobs, commands and restarts in any order, is a run of the service
  model on its database; so what holds of reachable states holds whatever clients send.\<close>

theorem process_refines_service:
  assumes "process_run w" and "process_step\<^sup>*\<^sup>* w w'"
  shows "reachable (wd_db w') \<and> step\<^sup>*\<^sup>* (wd_db w) (wd_db w')"
  using assms(2)
proof (induction rule: rtranclp_induct)
  case base
  then show ?case using process_run_reachable [OF assms(1)] by simp
next
  case (step t u)
  then show ?case using process_step_db [OF step(2)] by (auto intro: stepped rtranclp.rtrancl_into_rtrancl)
qed

end
