(* ===== verification/Money.thy ===== *)
theory Money
  imports ApiRuns
begin

text \<open>
  Who books money: of all the requests, only the approval of a payment proof adds to the
  table of receipts, one receipt for the proof it names.  The second policy on handlers.
\<close>

section \<open>Operations that book nothing\<close>

lemma books_receipts: "books s' = books s \<Longrightarrow> receipts s' = receipts s"
  by (rule booksD(10))

lemma confirm_paid_receipts:
  assumes "db_ok s" and "confirm_paid e i at s = Inr s'"
  shows "receipts s' = receipts s"
  unfolding confirm_paid_orders(1) [OF assms] by (simp add: paid_db_def settled_def with_orders_def)

lemma release_order_receipts:
  assumes "db_ok s" and "release_order e i k s = Inr (b, s')"
  shows "receipts s' = receipts s"
  using assms(2) by (auto simp: release_order_eq [OF assms(1)] released_db_def settled_def with_orders_def split: if_splits)

lemma cancel_order_receipts:
  assumes "db_ok s" and "cancel_order e u no s = Inr (d, s')"
  shows "receipts s' = receipts s"
  using assms(2) by (rule cancel_order_Inr) (auto simp: audit_record_def dest: release_order_receipts [OF assms(1)])

lemma create_order_tx_receipts:
  assumes ok: "db_ok s" and "create_order_tx e u ev inp s = Inr (d, s')"
  shows "receipts s' = receipts s"
proof -
  from assms(2) obtain q parts row ps rs s5 where
    P: "placed q row ps rs s s5" and "resolve_participants e u s inp = Inr parts"
      "check_already_registered (ev_id ev) parts s = Inr ()"
      "map rg_id_hash rs = take (length rs) (map rv_hash parts)" "\<forall>r\<in>set rs. rg_event r = ev_id ev"
    and "idem_keys s5 = idem_keys s" "events s5 = events s"
    and "proofs s5 = proofs s" and rc: "receipts s5 = receipts s" and "exceptions s5 = exceptions s" "ro_status row = PendingPayment"
    and fin: "ro_amount row \<noteq> 0 \<and> (\<exists>a. s' = audit_record a s5)
      \<or> (\<exists>a b t. confirm_paid e (ro_id row) (e_now e) (audit_record a s5) = Inr t \<and> s' = audit_record b t)"
    by (rule create_order_tx_placed [OF ok])
  have "db_ok (audit_record a s5)" for a using placed_ok [OF ok P] by simp
  from fin confirm_paid_receipts [OF this] rc show ?thesis by (auto simp: audit_record_def)
qed

lemma claim_idempotency_key_receipts: "claim_idempotency_key sub key h now s = Inr (x, s') \<Longrightarrow> receipts s' = receipts s"
  unfolding claim_idempotency_key_def by (auto split: option.splits if_splits)

lemma create_order_receipts:
  assumes "db_ok s" and run: "create_order e digest u inp s = Inr (d, s')"
  shows "receipts s' = receipts s"
  using run
proof (rule create_order_Inr)
  fix norm ev
  assume "claim_idempotency_key (subject_of u) (in_key norm) (digest (request_payload e norm)) (e_now e) s = Inr (Some d, s')
     \<or> (\<exists>s1 s2. claim_idempotency_key (subject_of u) (in_key norm) (digest (request_payload e norm)) (e_now e) s = Inr (None, s1)
          \<and> create_order_tx e u ev norm s1 = Inr (d, s2)
          \<and> s' = save_idempotency_response (subject_of u) (in_key norm) (to_api_order d) s2)"
  then show ?thesis
  proof (elim disjE exE conjE)
    fix s1 s2 assume c: "claim_idempotency_key (subject_of u) (in_key norm) (digest (request_payload e norm)) (e_now e) s = Inr (None, s1)"
      and t: "create_order_tx e u ev norm s1 = Inr (d, s2)"
      and s': "s' = save_idempotency_response (subject_of u) (in_key norm) (to_api_order d) s2"
    have "db_ok s1" using claim_idempotency_key_ok(1) [OF c] assms(1) by simp
    from create_order_tx_receipts [OF this t] claim_idempotency_key_receipts [OF c] show ?thesis
      by (simp add: s' save_idempotency_response_def)
  qed (rule claim_idempotency_key_receipts)
qed

lemma create_free_signup_receipts: "create_free_signup e u slug inp s = Inr (out, s') \<Longrightarrow> receipts s' = receipts s"
  by (erule create_free_signup_Inr, elim exE, simp)

lemma submit_proof_receipts:
  assumes "submit_proof e u no inp s k = (Inr (v, s'), k')"
  shows "receipts s' = receipts s"
proof -
  obtain key img where run: "submit_proof_tx e u no key img inp s = Inr (v, s')" by (rule submit_proof_Inr [OF assms])
  obtain r :: order_row and p fs where "\<exists>a. s' = audit_record a (with_orders (\<lambda>x. ro_id x = ro_id r \<and> submittable x) submit_row
      (s\<lparr>files := fs, proofs := proofs s @ [p]\<rparr>))"
    by (rule submit_proof_tx_Inr [OF run])
  then show ?thesis by (auto simp: audit_record_def with_orders_def)
qed

lemma reject_proof_receipts:
  assumes "reject_proof e actor i inp s = Inr (x, s')"
  shows "receipts s' = receipts s"
proof -
  obtain code reason where run: "reject_proof_tx e actor i code reason s = Inr s'" by (rule reject_proof_Inr [OF assms])
  obtain r :: order_row and d s2 ps where "s2 = with_orders (\<lambda>x. ro_id x = ro_id r \<and> under_review x) (reject_row d) (s\<lparr>proofs := ps\<rparr>)"
    and c: "core s' = core s2" by (rule reject_proof_tx_Inr [OF run])
  then show ?thesis using coreD [OF c] by (simp add: with_orders_def)
qed

lemma rule_receipts:
  "create_price_rule actor ev rule_in s = Inr (rule, s') \<Longrightarrow> receipts s' = receipts s"
  "update_price_rule actor i rule_in s = Inr (rule, s') \<Longrightarrow> receipts s' = receipts s"
  by (erule create_price_rule_Inr update_price_rule_Inr, simp add: audit_record_def)+

lemma coupon_receipts:
  "create_coupon e actor coupon_in s = Inr (c, s') \<Longrightarrow> receipts s' = receipts s"
  "update_coupon actor i coupon_in s = Inr (c, s') \<Longrightarrow> receipts s' = receipts s"
  by (erule create_coupon_Inr update_coupon_Inr, simp add: audit_record_def)+

lemma create_event_receipts:
  assumes "create_event actor event_in s = Inr (v, s')"
  shows "receipts s' = receipts s"
proof -
  obtain row s2 a where f: "foldE (insert_category_step (ev_id row)) (enumerate 0 (ei_categories event_in)) ([], s\<lparr>events := events s @ [row]\<rparr>) = Inr (vw_categories v, s2)"
    and s': "s' = audit_record a s2" by (rule create_event_Inr [OF assms])
  from insert_categories_frame [OF f] show ?thesis by (auto simp: s' audit_record_def)
qed

section \<open>The policy\<close>

text \<open>In good order, a request leaves the receipts alone or is an approval that books what the reviewer received.\<close>

definition books_for :: "staff_member \<Rightarrow> int \<Rightarrow> approve_input \<Rightarrow> db \<Rightarrow> db \<Rightarrow> bool" where
  "books_for m i b s s' \<longleftrightarrow> (\<exists>row. receipts s' = receipts s @ [row] \<and> rc_proof row = Some i \<and> rc_amount row = ap_received b
     \<and> rc_recorded_by row = Some (sm_id m)
     \<and> (\<exists>p\<in>set (proofs s). pf_id p = i \<and> pf_status p = PfSubmitted \<and> rc_order row = pf_order p
          \<and> rc_account row = pf_account p \<and> rc_txn_ref row = pf_txn_ref p))"

definition money_rule :: "principal \<Rightarrow> api_call \<Rightarrow> db \<Rightarrow> db \<Rightarrow> bool" where
  "money_rule p c s s' \<longleftrightarrow> (db_ok s \<longrightarrow> receipts s' = receipts s
     \<or> (\<exists>m i b. p = Member m \<and> c = AdminApproveProof i (Some b) \<and> books_for m i b s s'))"

lemma no_money: "(db_ok s \<Longrightarrow> receipts s' = receipts s) \<Longrightarrow> money_rule p c s s'"
  by (simp add: money_rule_def)

interpretation tills: handler_policy "money_rule p c" for p c
  by unfold_locales (simp add: no_money)

lemma approve_proof_books:
  assumes ok: "db_ok s" and "approve_proof e \<lparr>st_id = sm_id m, st_role = sm_role m\<rparr> i b s = Inr (x, s')"
  shows "books_for m i b s s'"
  using approve_proof_Inr [OF assms(2)]
proof (rule approve_proof_tx_Inr)
  let ?actor = "\<lparr>st_id = sm_id m, st_role = sm_role m\<rparr>"
  fix p r ps xs s4
  let ?c = "(new_receipt ?actor p (order_from_row r) b)\<lparr>rc_id := next_id rc_id (receipts s)\<rparr>"
  let ?t = "s\<lparr>proofs := update_where (\<lambda>p. pf_id p = i \<and> pf_status p = PfSubmitted)
         (\<lambda>p. p\<lparr>pf_status := PfApproved, pf_reviewed_by := Some (st_id ?actor), pf_reviewed_at := Some (e_now e)\<rparr>) (proofs s),
       receipts := receipts s @ [?c], exceptions := exceptions s @ xs\<rparr>"
  assume p: "p \<in> set (proofs s)" "pf_id p = i" "pf_order p = Some (ro_id r)" "pf_status p = PfSubmitted"
    and cp: "confirm_paid e (ro_id r) (ap_received_at b) ?t = Inr s4" and c: "core s' = core s4"
  have "db_ok ?t" using ok by (subst db_ok_cong [of _ s]) simp_all
  from confirm_paid_receipts [OF this cp] coreD [OF c] have "receipts s' = receipts s @ [?c]" by simp
  then show ?thesis using p by (auto simp: books_for_def new_receipt_def order_from_row_def intro!: bexI [of _ p])
qed

lemmas no_receipts = create_order_receipts cancel_order_receipts create_free_signup_receipts submit_proof_receipts reject_proof_receipts
  rule_receipts coupon_receipts create_event_receipts op_books [THEN books_receipts]

lemma runner_money:
  "obeys (money_rule p c) (app_create_order h p key ob)" "obeys (money_rule p c) (app_cancel_order h p no)"
  "obeys (money_rule p c) (app_create_free_signup h p slug fb)" "obeys (money_rule p c) (app_submit_proof h p no parts)"
  "obeys (money_rule p c) (app_create_profile h p pb)" "obeys (money_rule p c) (app_update_profile h p i pb)"
  "obeys (money_rule p c) (app_delete_profile p i)"
  by (auto simp: app_create_order_def app_cancel_order_def app_create_free_signup_def app_submit_proof_def app_create_profile_def
      app_update_profile_def app_delete_profile_def bindE_Inr_iff
      intro!: tills.obeys_parts tills.obeys_commits tills.obeys_commits_disk no_money split: prod.splits intro: no_receipts)

lemma staff_money:
  "obeys (money_rule p c) (admin_create_event p eb)" "obeys (money_rule p c) (admin_publish_event h p i)"
  "obeys (money_rule p c) (admin_update_event_registration p i rb)" "obeys (money_rule p c) (admin_create_price_rule p i prb)"
  "obeys (money_rule p c) (admin_update_price_rule p i prb)" "obeys (money_rule p c) (admin_create_coupon h p cb)"
  "obeys (money_rule p c) (admin_update_coupon p i cb)" "obeys (money_rule p c) (admin_create_payment_account h p parts)"
  "obeys (money_rule p c) (admin_update_payment_account h p i parts)" "obeys (money_rule p c) (admin_reject_proof h p i jb)"
  by (auto simp: admin_create_event_def admin_publish_event_def admin_update_event_registration_def admin_create_price_rule_def
      admin_update_price_rule_def admin_create_coupon_def admin_update_coupon_def admin_create_payment_account_def
      admin_update_payment_account_def admin_reject_proof_def
      intro!: tills.obeys_parts tills.obeys_commits tills.obeys_commits_disk tills.obeys_reviews no_money
      split: prod.splits intro: no_receipts)

lemma handle_money: "obeys (money_rule p c) (handle h q l c p)"
proof (cases "op_of c \<in> set runner_writes \<union> set office_writes")
  case True
  show ?thesis
  proof (cases "\<exists>i b. c = AdminApproveProof i b")
    case True
    then obtain i b where c: "c = AdminApproveProof i b" by blast
    have "obeys (money_rule p c) (reviews (approve_proof (he_env h) \<lparr>st_id = sm_id m, st_role = sm_role m\<rparr> i x))"
      if "p = Member m" "b = Some x" for m x
      using that approve_proof_books [of _ "he_env h" m i x] by (intro tills.obeys_reviews) (auto simp: money_rule_def c)
    then show ?thesis
      by (auto simp: c admin_approve_proof_def obeys_def as_staff_def with_body_def no_money split: principal.splits option.splits)
  next
    case False
    with True show ?thesis
      by (cases c) (simp_all add: writes runner_money staff_money)
  qed
next
  case False
  then have "obeys quiet (handle h q l c p)" by (intro quiet_reading) simp_all
  then show ?thesis
    by (rule obeys_weaken) (rule no_money, rule books_receipts, rule shop_books, simp add: quiet_def)
qed

text \<open>C38: In every run of the process, a request changes the table of receipts only by approving a payment proof, on behalf
  of an active ADMIN or FINANCE member with a live session; it then adds exactly one receipt, for that proof's order,
  account and bank transaction, over the amount the reviewer gave, and under the reviewer's name.\<close>

theorem money_is_booked_by_review:
  assumes "process_run w" and "api_request h q w = (ans, w')" and "receipts (wd_db w') \<noteq> receipts (wd_db w)"
  shows "\<exists>i b m. hq_call q = Some (AdminApproveProof i (Some b)) \<and> live_member (he_auth h) (rq_cookie (hq_request q)) m (wd_auth w)
    \<and> sm_role m \<in> {''ADMIN'', ''FINANCE''} \<and> books_for m i b (wd_db w) (wd_db w')"
proof (rule api_request_cases [OF assms(2)])
  assume "wd_db w' = wd_db w"
  with assms(3) show ?thesis by simp
next
  fix c p
  let ?run = "auth_middleware (he_auth h) operation_auths (op_of c) (hq_request q) (wd_auth w)"
  assume c: "hq_call q = Some c" and p: "fst ?run = Inr p"
    and ch: "\<And>change. (\<And>l. obeys change (handle h q l c p)) \<Longrightarrow> change (wd_db w) (wd_db w')"
  from p have "?run = (Inr p, snd ?run)" by (simp add: prod_eq_iff)
  note a = requests_are_authorized [OF this]
  have "money_rule p c (wd_db w) (wd_db w')" by (rule ch) (rule handle_money)
  moreover have "db_ok (wd_db w)" using process_run_ok [OF assms(1)] by (simp add: sys_ok_def)
  ultimately obtain m i b where m: "p = Member m" "c = AdminApproveProof i (Some b)" "books_for m i b (wd_db w) (wd_db w')"
    using assms(3) by (auto simp: money_rule_def)
  moreover from a m have "live_member (he_auth h) (rq_cookie (hq_request q)) m (wd_auth w)" "sm_role m \<in> {''ADMIN'', ''FINANCE''}"
    by (simp_all add: office_writes_def writers_def)
  ultimately show ?thesis using c by blast
qed

end
