(* ===== verification/ApiSamples.thy ===== *)
theory ApiSamples
  imports Money AuthSamples
begin

text \<open>
  A run of the process over its HTTP interface on the sample database: runner 1 places an
  order and submits a proof, and a member of staff approves it.  The witnesses of the properties of requests.
\<close>

definition sample_token :: "char \<Rightarrow> string" where
  "sample_token c = encode_token (replicate 32 c)"

definition sample_session :: "int \<Rightarrow> string \<Rightarrow> char \<Rightarrow> session_row" where
  "sample_session i ty c = \<lparr>ss_id = i, ss_type = ty, ss_subject = 1, ss_token_hash = ae_mac sample_auth_env (replicate 32 c),
     ss_expires = sample_now + idle_timeout, ss_revoked = None, ss_created = sample_now\<rparr>"

definition sample_world :: world where
  "sample_world = \<lparr>wd_auth = \<lparr>base = sample_db,
       staff_rows = [\<lparr>sf_id = 1, sf_username = ''sokha'', sf_full_name = ''Sokha'', sf_role = ''ADMIN'', sf_password_hash = [],
         sf_status = ''ACTIVE'', sf_last_login = None\<rparr>],
       sessions = [sample_session 1 ''USER'' (CHR ''u''), sample_session 2 ''STAFF'' (CHR ''s'')], otps = []\<rparr>,
     wd_disk = [], wd_logins = new_login_limiter, wd_codes = new_otp_limiter\<rparr>"

definition sample_http_env :: http_env where
  "sample_http_env = \<lparr>he_env = sample_env, he_auth = sample_auth_env, he_digest = in_key, he_rfc3339 = (\<lambda>s. None), he_ready = True\<rparr>"

definition sample_http :: "string \<Rightarrow> api_call \<Rightarrow> http_request" where
  "sample_http path c = \<lparr>hq_request = \<lparr>rq_method = ''POST'', rq_path = path, rq_client = ''admin'', rq_cookie = sample_token (CHR ''s''),
       rq_authorization = ''Bearer '' @ sample_token (CHR ''u'')\<rparr>,
     hq_query_lang = ''en'', hq_accept = [], hq_ip = ''10.0.0.1'', hq_call = Some c\<rparr>"

definition place_call :: api_call where
  "place_call = AppCreateOrder (in_key sample_create) (Some (Some (in_coupon sample_create), sample_create))"

definition proof_call :: api_call where
  "proof_call = AppSubmitProof '' wr0000e1r7'' (Some
     [Part ''file'' ''PNG...'', Part ''bankTxnRef'' '' tx 001 '', Part ''declaredAmountCents'' ''3599''])"

definition approve_call :: api_call where
  "approve_call = AdminApproveProof 1 (Some sample_approve)"

definition place_request :: http_request where "place_request = sample_http ''/api/app/orders'' place_call"
definition proof_request :: http_request where "proof_request = sample_http ''/api/app/orders/wr0000e1r7/proofs'' proof_call"
definition approve_request :: http_request where "approve_request = sample_http ''/api/admin/proofs/1/approve'' approve_call"

definition sample_runner :: runner_user where
  "sample_runner = user_of (sample_user 1)"

definition sample_member :: staff_member where
  "sample_member = \<lparr>sm_id = 1, sm_username = ''sokha'', sm_full_name = ''Sokha'', sm_role = ''ADMIN''\<rparr>"

lemma sample_tokens [simp]:
  "bearer_token (''Bearer '' @ sample_token (CHR ''u'')) = sample_token (CHR ''u'')" "sample_token (CHR ''u'') \<noteq> []" "sample_token (CHR ''s'') \<noteq> []"
  "decode_token (sample_token c) = Some (replicate 32 c)"
  subgoal by code_simp
  subgoal by code_simp
  subgoal by code_simp
  subgoal unfolding sample_token_def by (rule decode_encode_token) (simp add: token_bytes_def)
  done

lemma sample_http_fields [simp]:
  "rq_cookie (hq_request (sample_http path c)) = sample_token (CHR ''s'')"
  "bearer_token (rq_authorization (hq_request (sample_http path c))) = sample_token (CHR ''u'')"
  "csrf_guard (hq_request (sample_http path c)) = Inr ()" "hq_call (sample_http path c) = Some c"
  "from_request (hq_query_lang (sample_http path c)) (hq_accept (sample_http path c)) = EN"
  subgoal by (simp add: sample_http_def)
  subgoal unfolding sample_http_def by (simp only: http_request.select_convs request.select_convs sample_tokens)
  subgoal by (simp add: sample_http_def csrf_guard_def)
  subgoal by (simp add: sample_http_def)
  subgoal unfolding sample_http_def http_request.select_convs by code_simp
  done

lemma sample_runner_passes:
  assumes "users s = users sample_db" and "map_of operation_auths op = Some r" and "oa_kind r = AuthApp"
  shows "auth_middleware sample_auth_env operation_auths op (hq_request (sample_http path c)) ((wd_auth sample_world)\<lparr>base := s\<rparr>)
     = (Inr (Runner sample_runner), (wd_auth sample_world)\<lparr>base := s\<rparr>)"
  using assms
  by (simp add: auth_middleware_def authenticate_runner_def get_user_session_def sample_world_def sample_session_def
      sample_db_def sample_user_def sample_auth_env_def sample_runner_def bindE_def idle_timeout_def time_units)

lemma sample_member_passes:
  assumes "map_of operation_auths op = Some r" and "oa_kind r = AuthPermission" "allowed ''ADMIN'' (oa_permission r) (oa_access r)"
  shows "auth_middleware sample_auth_env operation_auths op (hq_request (sample_http path c)) ((wd_auth sample_world)\<lparr>base := s\<rparr>)
     = (Inr (Member sample_member), (wd_auth sample_world)\<lparr>base := s\<rparr>)"
  using assms
  by (simp add: auth_middleware_def authenticate_staff_def get_staff_session_def sample_world_def sample_session_def
      sample_auth_env_def sample_member_def member_of_def idle_timeout_def absolute_timeout_def touch_interval_def time_units
      parse_role_def all_roles_def Let_def)

section \<open>Three requests\<close>

lemma sample_request_runs:
  assumes "handle sample_http_env (sample_http path c) EN c p w = (Inr x, w')"
    and "auth_middleware sample_auth_env operation_auths (op_of c) (hq_request (sample_http path c)) (wd_auth w) = (Inr p, wd_auth w)"
  shows "api_request sample_http_env (sample_http path c) w = (Answer x, w')"
  using assms
  by (simp add: api_request_def serve_def authenticate_world_def outcome_of_def recover_def sample_http_env_def)

definition sample_state :: "db \<Rightarrow> disk \<Rightarrow> world" where
  "sample_state s d = (set_db s sample_world)\<lparr>wd_disk := d\<rparr>"

lemma sample_state_simps [simp]:
  "wd_db (sample_state s d) = s" "wd_disk (sample_state s d) = d" "set_db t (sample_state s d) = sample_state t d"
  "(sample_state s d)\<lparr>wd_disk := d'\<rparr> = sample_state s d'" "wd_auth (sample_state s d) = (wd_auth sample_world)\<lparr>base := s\<rparr>"
  by (simp_all add: sample_state_def set_db_def)

lemma sample_world_state: "sample_world = sample_state sample_db []"
  by (simp add: sample_state_def set_db_def sample_world_def)

lemma sample_runner_id [simp]: "ru_id sample_runner = 1"
  by (simp add: sample_runner_def user_of_def sample_user_def)

lemma sample_operations:
  "map_of operation_auths (op_of place_call) = Some \<lparr>oa_kind = AuthApp, oa_permission = [], oa_access = []\<rparr>"
  "map_of operation_auths (op_of proof_call) = Some \<lparr>oa_kind = AuthApp, oa_permission = [], oa_access = []\<rparr>"
  "map_of operation_auths (op_of approve_call) = Some \<lparr>oa_kind = AuthPermission, oa_permission = ''proof_review'', oa_access = ''write''\<rparr>"
  by code_simp+

lemma sample_places:
  "api_request sample_http_env place_request (sample_state sample_db [])
     = (Answer (ROrder (to_api_order (fst sample_placing))), sample_state sample_placed [])"
  unfolding place_request_def
proof (rule sample_request_runs)
  have c: "create_input_from_api (in_key sample_create) (Some (in_coupon sample_create)) sample_create = sample_create"
    by (simp add: create_input_from_api_def deref_string_def)
  show "handle sample_http_env (sample_http ''/api/app/orders'' place_call) EN place_call (Runner sample_runner) (sample_state sample_db [])
    = (Inr (ROrder (to_api_order (fst sample_placing))), sample_state sample_placed [])"
    using sample_placing_runs
    by (simp add: place_call_def app_create_order_def as_runner_def with_body_def commits_def c sample_http_env_def split_beta)
  show "auth_middleware sample_auth_env operation_auths (op_of place_call) (hq_request (sample_http ''/api/app/orders'' place_call))
      (wd_auth (sample_state sample_db [])) = (Inr (Runner sample_runner), wd_auth (sample_state sample_db []))"
    unfolding sample_state_simps by (rule sample_runner_passes [OF _ sample_operations(1)]) simp_all
qed

lemma sample_form_reads:
  "read_proof_form (he_rfc3339 sample_http_env)
     [Part ''file'' ''PNG...'', Part ''bankTxnRef'' '' tx 001 '', Part ''declaredAmountCents'' ''3599''] = Inr sample_submit"
proof -
  let ?fields = "[(''bankTxnRef'', '' tx 001 ''), (''declaredAmountCents'', ''3599'')]"
  have "read_limited max_proof_bytes ''PNG...'' = ''PNG...''" by (simp add: read_limited_def max_proof_bytes_def)
  moreover have "\<not> max_text_part_bytes < byte_len '' tx 001 ''" "\<not> max_text_part_bytes < byte_len ''3599''"
    by code_simp+
  ultimately have "proof_parts [Part ''file'' ''PNG...'', Part ''bankTxnRef'' '' tx 001 '', Part ''declaredAmountCents'' ''3599''] (None, [])
      = Inr (Some ''PNG...'', ?fields)"
    by (simp add: proof_fields_def)
  moreover have "collect (proof_form_items (\<lambda>s. None) (Some ''PNG...'') ?fields) = Inr ()"
    "parse_int64 (trim_space ''3599'') = Some 3599" "trim_space (form_value ?fields ''declaredPaidAt'') = []" by code_simp+
  ultimately show ?thesis
    by (simp add: read_proof_form_def bindE_def sample_http_env_def sample_submit_def form_value_def Let_def collect_def)
qed

lemma sample_submits:
  "api_request sample_http_env proof_request (sample_state sample_placed [])
     = (Answer (RProof (fst (projr (fst sample_submission)))), sample_state sample_submitted (snd sample_submission))"
  unfolding proof_request_def
proof (rule sample_request_runs)
  show "handle sample_http_env (sample_http ''/api/app/orders/wr0000e1r7/proofs'' proof_call) EN proof_call (Runner sample_runner) (sample_state sample_placed [])
    = (Inr (RProof (fst (projr (fst sample_submission)))), sample_state sample_submitted (snd sample_submission))"
    using sample_submission_runs sample_form_reads
    by (simp add: proof_call_def app_submit_proof_def as_runner_def with_body_def converted_def commits_disk_def sample_http_env_def split_beta)
  have "users sample_placed = users sample_db" by (simp add: sample_placing_def)
  then show "auth_middleware sample_auth_env operation_auths (op_of proof_call) (hq_request (sample_http ''/api/app/orders/wr0000e1r7/proofs'' proof_call))
      (wd_auth (sample_state sample_placed [])) = (Inr (Runner sample_runner), wd_auth (sample_state sample_placed []))"
    unfolding sample_state_simps by (rule sample_runner_passes [OF _ sample_operations(2)]) simp_all
qed

lemma sample_approves:
  "\<exists>d. api_request sample_http_env approve_request (sample_state sample_submitted (snd sample_submission))
     = (Answer (RProofDetail d), sample_state sample_approved (snd sample_submission))"
proof -
  obtain d where d: "fst sample_approval = Inr d" by (simp add: sample_approval_def)
  have "handle sample_http_env (sample_http ''/api/admin/proofs/1/approve'' approve_call) EN approve_call (Member sample_member)
      (sample_state sample_submitted (snd sample_submission)) = (Inr (RProofDetail d), sample_state sample_approved (snd sample_submission))"
    using sample_approval_runs d
    by (simp add: approve_call_def admin_approve_proof_def as_staff_def with_body_def reviews_def sample_http_env_def split_beta
        sample_member_def sample_staff_def bindE_def)
  moreover have "auth_middleware sample_auth_env operation_auths (op_of approve_call) (hq_request (sample_http ''/api/admin/proofs/1/approve'' approve_call))
      (wd_auth (sample_state sample_submitted (snd sample_submission))) = (Inr (Member sample_member), wd_auth (sample_state sample_submitted (snd sample_submission)))"
  proof -
    have "allowed ''ADMIN'' ''proof_review'' ''write''" by code_simp
    then show ?thesis unfolding sample_state_simps by (intro sample_member_passes [OF sample_operations(3)]) simp_all
  qed
  ultimately show ?thesis unfolding approve_request_def by (blast intro: sample_request_runs)
qed

section \<open>The run\<close>

lemma sample_process:
  "process_run (sample_state sample_db [])" "process_run (sample_state sample_placed [])"
  "process_run (sample_state sample_submitted (snd sample_submission))"
proof -
  show b: "process_run (sample_state sample_db [])" by (rule booted) (simp add: sample_start)
  show p: "process_run (sample_state sample_placed [])" by (rule went_on [OF b requested [OF sample_places]])
  show "process_run (sample_state sample_submitted (snd sample_submission))" by (rule went_on [OF p requested [OF sample_submits]])
qed

lemma api_changes_are_authorized_witness:
  "\<exists>u. live_runner sample_auth_env (sample_token (CHR ''u'')) u (wd_auth (sample_state sample_db []))"
proof -
  obtain r :: order_row where r: "r \<in> set (orders sample_placed)" by (rule placed_tables)
  have "orders sample_db = []" by (simp add: sample_db_def empty_db_def)
  with r have "orders sample_placed \<noteq> orders sample_db" by auto
  with booksD(1) [OF shop_books] have "shop sample_placed \<noteq> shop sample_db" by blast
  then have "shop (wd_db (sample_state sample_placed [])) \<noteq> shop (wd_db (sample_state sample_db []))" by simp
  with api_changes_are_authorized [OF sample_places] obtain c where
    c: "hq_call place_request = Some c" "op_of c \<in> set runner_writes \<and>
      (\<exists>u. live_runner (he_auth sample_http_env) (bearer_token (rq_authorization (hq_request place_request))) u (wd_auth (sample_state sample_db [])))
     \<or> op_of c \<in> set office_writes"
    by auto
  from c(1) have "c = place_call" by (simp add: place_request_def)
  then have "op_of c \<notin> set office_writes" by (simp add: place_call_def office_writes_def)
  with c(2) show ?thesis by (simp add: place_request_def sample_http_env_def)
qed

lemma money_is_booked_by_review_witness:
  "\<exists>m. sm_role m \<in> {''ADMIN'', ''FINANCE''} \<and> books_for m 1 sample_approve sample_submitted sample_approved"
proof -
  obtain d where d: "api_request sample_http_env approve_request (sample_state sample_submitted (snd sample_submission))
     = (Answer (RProofDetail d), sample_state sample_approved (snd sample_submission))" using sample_approves by blast
  have "receipts sample_submitted = []" by (simp add: sample_submission_def sample_placing_def sample_db_def empty_db_def)
  moreover have "receipts sample_approved \<noteq> []" by (simp add: sample_approval_def)
  ultimately have "receipts (wd_db (sample_state sample_approved (snd sample_submission)))
      \<noteq> receipts (wd_db (sample_state sample_submitted (snd sample_submission)))" by simp
  from money_is_booked_by_review [OF sample_process(3) d this] show ?thesis
    by (auto simp: approve_request_def approve_call_def)
qed

lemma process_refines_service_witness: "reachable sample_approved \<and> step\<^sup>*\<^sup>* sample_db sample_approved"
proof -
  obtain d where "api_request sample_http_env approve_request (sample_state sample_submitted (snd sample_submission))
     = (Answer (RProofDetail d), sample_state sample_approved (snd sample_submission))" using sample_approves by blast
  then have "process_step\<^sup>*\<^sup>* (sample_state sample_db []) (sample_state sample_approved (snd sample_submission))"
    using requested [OF sample_places] requested [OF sample_submits] requested
    by (meson rtranclp.rtrancl_refl rtranclp.rtrancl_into_rtrancl)
  from process_refines_service [OF sample_process(1) this] show ?thesis by simp
qed

end
