(* ===== verification/Channels.thy ===== *)
theory Channels
  imports Config Notify Samples
begin

text \<open>
  The channels out of the process: the Bot API (\<open>internal/notify/telegram.go\<close>), the Telegram
  Gateway (\<open>internal/runner/gateway.go\<close>) and the cipher for identity numbers
  (\<open>internal/platform/piicrypt\<close>).  A call over HTTP is an argument: a function from the
  address and the body to what came back; so are the JSON decoding of an answer, AES-GCM
  and SHA-256.  A body is text in valid UTF-8.
\<close>

section \<open>Calls over HTTP\<close>

text \<open>The request could not be built or sent (with the text of the error), the answer could not be read, or it was.\<close>

datatype http_reply = NotBuilt string | NotSent string | NotRead int string | Reply int string

text \<open>\<open>redact\<close>, in both clients: errors of \<open>net/http\<close> quote the address, and it holds the token.\<close>

definition redact :: "string \<Rightarrow> string \<Rightarrow> string" where
  "redact token err = (if token = [] then err else replace_all token ''<redacted>'' err)"

definition max_reply_bytes :: nat where "max_reply_bytes = 65536"

section \<open>The Bot API\<close>

record send_message =
  sg_chat :: int
  sg_text :: string
  sg_button :: "(string \<times> string) option"

definition default_telegram_base_url :: string where
  "default_telegram_base_url = ''https://api.telegram.org''"

record telegram_sender =
  ts_token :: string
  ts_base :: string

definition new_telegram_sender :: "string \<Rightarrow> string \<Rightarrow> telegram_sender" where
  "new_telegram_sender token url =
     \<lparr>ts_token = token, ts_base = trim_right (CHR ''/'') (if url = [] then default_telegram_base_url else url)\<rparr>"

text \<open>\<open>decode\<close> is \<open>json.Unmarshal\<close> into the flag \<open>ok\<close> and the description, whose zero values stay when it fails.\<close>

definition telegram_send :: "telegram_sender \<Rightarrow> (string \<Rightarrow> send_message \<Rightarrow> http_reply) \<Rightarrow> (string \<Rightarrow> bool \<times> string)
    \<Rightarrow> send_message \<Rightarrow> send_result" where
  "telegram_send sd post decode m =
     (case post (ts_base sd @ ''/bot'' @ ts_token sd @ ''/sendMessage'') m of
        NotBuilt err \<Rightarrow> SendErr False (''telegram sendMessage: build request: '' @ redact (ts_token sd) err)
      | NotSent err \<Rightarrow> SendErr False (''telegram sendMessage: '' @ redact (ts_token sd) err)
      | NotRead st err \<Rightarrow> SendErr False (''telegram sendMessage: read response (status '' @ int_str st @ ''): '' @ err)
      | Reply st body \<Rightarrow>
          (let raw = take_bytes max_reply_bytes body; (ok, desc) = decode raw;
               description = (if desc = [] then take_bytes 200 (trim_space raw) else desc)
           in if st = 403 then SendErr True (''notify: recipient blocked the bot: '' @ description)
              else if st < 200 \<or> 299 < st \<or> \<not> ok
              then SendErr False (''telegram sendMessage: status '' @ int_str st @ '': '' @ description) else SendOk))"

text \<open>\<open>LogSender\<close> writes a log line and reports success.\<close>

definition notify_send :: "notify_sender \<Rightarrow> (string \<Rightarrow> send_message \<Rightarrow> http_reply) \<Rightarrow> (string \<Rightarrow> bool \<times> string)
    \<Rightarrow> send_message \<Rightarrow> send_result" where
  "notify_send sd post decode m =
     (case sd of TelegramBot token \<Rightarrow> telegram_send (new_telegram_sender token default_telegram_base_url) post decode m
      | LogNotify \<Rightarrow> SendOk)"

section \<open>The Gateway\<close>

record gateway_request =
  gr_phone :: string
  gr_code :: string
  gr_ttl :: int
  gr_payload :: string

definition otp_ttl_seconds :: int where "otp_ttl_seconds = 300"

definition gateway_phone_errors :: "string list" where
  "gateway_phone_errors = [''PHONE_NUMBER_INVALID'', ''PHONE_NUMBER_NOT_FOUND'', ''USER_NOT_FOUND'', ''PHONE_NUMBER_BANNED'']"

text \<open>\<open>decode\<close>: \<open>ok\<close>, the error and the request id, or no JSON.  The texts of the other errors only reach the log.\<close>

definition gateway_send :: "string \<Rightarrow> string \<Rightarrow> (string \<Rightarrow> string \<Rightarrow> gateway_request \<Rightarrow> http_reply) \<Rightarrow> (string \<Rightarrow> (bool \<times> string \<times> string) option)
    \<Rightarrow> string \<Rightarrow> string \<Rightarrow> string \<Rightarrow> send_answer" where
  "gateway_send token url post decode phone code payload =
     (case post (trim_right (CHR ''/'') url @ ''/sendVerificationMessage'') (''Bearer '' @ token)
             \<lparr>gr_phone = phone, gr_code = code, gr_ttl = otp_ttl_seconds, gr_payload = payload\<rparr> of
        Reply st body \<Rightarrow>
          if st div 100 \<noteq> 2 then SendFailed
          else (case decode (take_bytes max_reply_bytes body) of
                  None \<Rightarrow> SendFailed
                | Some (ok, err, req) \<Rightarrow>
                    if ok then Sent req else if err \<in> set gateway_phone_errors then Unreachable else SendFailed)
      | _ \<Rightarrow> SendFailed)"

definition otp_send :: "otp_channel \<Rightarrow> (string \<Rightarrow> string \<Rightarrow> gateway_request \<Rightarrow> http_reply) \<Rightarrow> (string \<Rightarrow> (bool \<times> string \<times> string) option)
    \<Rightarrow> string \<Rightarrow> string \<Rightarrow> string \<Rightarrow> send_answer" where
  "otp_send ch post decode phone code payload =
     (case ch of GatewayOTP token \<Rightarrow> gateway_send token ''https://gatewayapi.telegram.org'' post decode phone code payload
      | LogOTP \<Rightarrow> Sent [] | FixedOTP c \<Rightarrow> Sent [])"

section \<open>Identity numbers\<close>

text \<open>\<open>seal key nonce plain\<close> and \<open>open' key nonce sealed\<close> are AES-256-GCM, 12 bytes of nonce and 16 of tag.\<close>

record pii_cipher =
  pc_key :: string
  pc_hash_key :: string

definition hash_key_label :: string where "hash_key_label = ''werun/pii-hash/v1''"
definition nonce_size :: nat where "nonce_size = 12"
definition tag_size :: nat where "tag_size = 16"

definition new_cipher :: "(string \<Rightarrow> string) \<Rightarrow> string \<Rightarrow> string + pii_cipher" where
  "new_cipher sha key =
     (if length key \<noteq> 32 then Inl ''piicrypt: key must be 32 bytes''
      else Inr \<lparr>pc_key = key, pc_hash_key = sha (hash_key_label @ key)\<rparr>)"

definition pii_encrypt :: "(string \<Rightarrow> string \<Rightarrow> string \<Rightarrow> string) \<Rightarrow> pii_cipher \<Rightarrow> string \<Rightarrow> string \<Rightarrow> string" where
  "pii_encrypt seal c random plain = (let nonce = take nonce_size random in nonce @ seal (pc_key c) nonce plain)"

definition pii_decrypt :: "(string \<Rightarrow> string \<Rightarrow> string \<Rightarrow> string option) \<Rightarrow> pii_cipher \<Rightarrow> string \<Rightarrow> string option" where
  "pii_decrypt unseal c sealed =
     (if length sealed < nonce_size + tag_size then None
      else unseal (pc_key c) (take nonce_size sealed) (drop nonce_size sealed))"

definition pii_hash :: "(string \<Rightarrow> string \<Rightarrow> string) \<Rightarrow> pii_cipher \<Rightarrow> string \<Rightarrow> string" where
  "pii_hash mac c normalized = mac (pc_hash_key c) normalized"

section \<open>What the channels guarantee\<close>

lemma telegram_send_ok:
  "telegram_send sd post decode m = SendOk \<longleftrightarrow>
     (\<exists>st body. post (ts_base sd @ ''/bot'' @ ts_token sd @ ''/sendMessage'') m = Reply st body
        \<and> 200 \<le> st \<and> st \<le> 299 \<and> fst (decode (take_bytes max_reply_bytes body)))"
  by (auto simp: telegram_send_def Let_def not_less split: http_reply.split prod.split)

lemma telegram_send_blocked:
  "(\<exists>msg. telegram_send sd post decode m = SendErr True msg) \<longleftrightarrow>
     (\<exists>body. post (ts_base sd @ ''/bot'' @ ts_token sd @ ''/sendMessage'') m = Reply 403 body)"
  by (auto simp: telegram_send_def Let_def split: http_reply.split prod.split)

lemma gateway_send_unreachable:
  "gateway_send token url post decode phone code payload = Unreachable \<longleftrightarrow>
     (\<exists>st body err req. post (trim_right (CHR ''/'') url @ ''/sendVerificationMessage'') (''Bearer '' @ token)
          \<lparr>gr_phone = phone, gr_code = code, gr_ttl = otp_ttl_seconds, gr_payload = payload\<rparr> = Reply st body
        \<and> st div 100 = 2 \<and> decode (take_bytes max_reply_bytes body) = Some (False, err, req) \<and> err \<in> set gateway_phone_errors)"
  by (auto simp: gateway_send_def split: http_reply.split option.split prod.split if_splits)

text \<open>The key that \<open>Bootstrap\<close> decodes is one \<open>New\<close> takes.\<close>

lemma boot_cipher: "boot_config parse_url raw err = Inr (c, key) \<Longrightarrow> \<exists>ci. new_cipher sha key = Inr ci \<and> pc_key ci = key"
  by (auto simp: boot_config_def bindE_def new_cipher_def dest!: pii_key_bytes_length split: sum.splits)

lemma pii_round_trip:
  assumes "\<And>k n p. unseal k n (seal k n p) = Some p" and "\<And>k n p. length (seal k n p) = length p + tag_size"
    and "nonce_size \<le> length random"
  shows "pii_decrypt unseal c (pii_encrypt seal c random plain) = Some plain"
  using assms by (simp add: pii_decrypt_def pii_encrypt_def Let_def)

section \<open>The token stays secret\<close>

lemma has_prefix_simps [simp]:
  "has_prefix s []" "has_prefix [] (x # xs) = False" "has_prefix (c # s) (x # xs) \<longleftrightarrow> c = x \<and> has_prefix s xs"
  by (auto simp: has_prefix_def)

lemma has_prefix_replace_all:
  "CHR ''<'' \<notin> set x \<Longrightarrow> has_prefix (replace_all old (''<'' @ new) s) x \<Longrightarrow> has_prefix s x"
proof (induction x arbitrary: s)
  case (Cons a x)
  then show ?case by (cases s) (auto split: if_splits)
qed simp

lemma contains_not_hd: "t \<notin> set xs \<Longrightarrow> contains (xs @ s) (t # ts) \<longleftrightarrow> contains s (t # ts)"
  by (induction xs) auto

lemma contains_replace_all:
  assumes "CHR ''<'' \<notin> set (t # ts)" and "t \<notin> set new"
  shows "\<not> contains (replace_all (t # ts) (''<'' @ new) s) (t # ts)"
proof (induction "t # ts" "''<'' @ new" s rule: replace_all.induct)
  case (2 c s)
  show ?case
  proof (cases "has_prefix (c # s) (t # ts)")
    case True
    with 2(1) assms show ?thesis by (simp add: contains_not_hd)
  next
    case False
    then have eq: "replace_all (t # ts) (''<'' @ new) (c # s) = c # replace_all (t # ts) (''<'' @ new) s"
      by (subst replace_all.simps) (simp del: has_prefix_simps)
    have "\<not> has_prefix (replace_all (t # ts) (''<'' @ new) (c # s)) (t # ts)"
      using has_prefix_replace_all [OF assms(1)] False by blast
    with False 2(2) show ?thesis unfolding eq by simp
  qed
qed simp

lemma has_prefix_append: "has_prefix p x \<Longrightarrow> has_prefix (p @ s) x"
  by (metis append_assoc append_eq_conv_conj append_take_drop_id has_prefix_def)

lemma contains_append: "contains p (t # ts) \<Longrightarrow> contains (p @ s) (t # ts)"
  by (induction p) (auto simp del: has_prefix_simps intro: has_prefix_append [of "_ # _", simplified])

lemma contains_take_bytes:
  assumes "contains (take_bytes n s) (t # ts)"
  shows "contains s (t # ts)"
proof -
  have "\<exists>r. s = take_bytes n s @ r" by (induction n s rule: take_bytes.induct) (auto simp: Let_def)
  then obtain r where "s = take_bytes n s @ r" ..
  with contains_append [OF assms, of r] show ?thesis by simp
qed

definition token_free :: "string \<Rightarrow> db \<Rightarrow> bool" where
  "token_free token s \<longleftrightarrow> (\<forall>l\<in>set (notify_logs s). \<forall>x. nl_last_error l = Some x \<longrightarrow> \<not> contains x token)"

lemma send_work_token_free:
  assumes "token_free (t # ts) s" and "\<And>b msg. r = SendErr b msg \<Longrightarrow> \<not> contains msg (t # ts)"
  shows "token_free (t # ts) (snd (send_work e i attempt max_tries r s))"
proof -
  have "\<not> contains (take_bytes n msg) (t # ts)" if "r = SendErr b msg" for n b msg
    using assms(2) [OF that] contains_take_bytes by blast
  with assms(1) show ?thesis
    by (auto simp: token_free_def send_work_def mark_notification_sent_def mark_attempt_failed_def Let_def set_update_where
        split: option.splits send_result.splits if_splits)
qed

text \<open>A token as Telegram issues them: the number of the bot, a colon and a key of letters, digits, \<open>_\<close> and \<open>-\<close>.\<close>

definition token_char :: "char \<Rightarrow> bool" where
  "token_char c \<longleftrightarrow> is_lower c \<or> is_upper c \<or> is_digit c \<or> c = CHR ''_'' \<or> c = CHR ''-''"

definition bot_token :: "string \<Rightarrow> string \<Rightarrow> bool" where
  "bot_token num key \<longleftrightarrow> num \<noteq> [] \<and> list_all is_digit num \<and> key \<noteq> [] \<and> list_all token_char key"

lemma token_chars: "\<not> token_char (CHR ''<'')" "\<not> token_char (CHR '' '')" "\<not> token_char (CHR '':'')"
    "\<not> is_digit (CHR ''<'')" "\<not> is_digit (CHR '':'')" "\<not> is_digit (CHR ''-'')"
  by code_simp+

text \<open>A number followed by a colon and a blank is not the start of a token.\<close>

lemma number_not_token:
  assumes "list_all is_digit num" and "k \<noteq> CHR '' ''" and "list_all is_digit ds"
  shows "\<not> has_prefix (ds @ '': '' @ s) (num @ '':'' @ k # ks)"
  using assms(1,3)
proof (induction ds arbitrary: num)
  case Nil
  then show ?case using assms(2) token_chars(5) by (cases num) auto
next
  case (Cons d ds)
  then show ?case using token_chars(5) by (cases num) auto
qed

lemma number_no_token:
  assumes "list_all is_digit num" and "num \<noteq> []" and "k \<noteq> CHR '' ''" and "list_all is_digit ds"
  shows "contains (ds @ '': '' @ s) (num @ '':'' @ k # ks) \<longleftrightarrow> contains s (num @ '':'' @ k # ks)"
  using assms(4)
proof (induction ds)
  case Nil
  obtain t ts where b: "num = t # ts" using assms(2) by (cases num) auto
  with assms(1) have "t \<noteq> CHR '':''" "t \<noteq> CHR '' ''" by (auto simp: is_digit_def code_of_def)
  then show ?case using contains_not_hd [of t "'': ''" s "ts @ '':'' @ k # ks"] by (simp add: b)
next
  case (Cons d ds)
  have "\<not> has_prefix ((d # ds) @ '': '' @ s) (num @ '':'' @ k # ks)" by (rule number_not_token [OF assms(1,3) Cons.prems])
  then have "contains ((d # ds) @ '': '' @ s) (num @ '':'' @ k # ks) \<longleftrightarrow> contains (ds @ '': '' @ s) (num @ '':'' @ k # ks)"
    unfolding append_Cons contains.simps by blast
  with Cons show ?case by simp
qed

lemma contains_set: "contains s x \<Longrightarrow> set x \<subseteq> set s"
proof (induction s)
  case (Cons c s)
  have "set x \<subseteq> set (c # s)" if "has_prefix (c # s) x"
    using that set_take_subset unfolding has_prefix_def by metis
  with Cons show ?case by auto
qed simp

text \<open>What the worker writes around the error of the sender holds no token, whatever the id of the message.\<close>

lemma job_error_no_token:
  assumes "bot_token num key"
  shows "contains (''notify: send log '' @ int_str i @ '': '' @ s) (num @ '':'' @ key) \<longleftrightarrow> contains s (num @ '':'' @ key)"
    and "\<not> contains (''notify: notification log '' @ int_str i @ '' not found'') (num @ '':'' @ key)"
proof -
  obtain t ts where b: "num = t # ts" "is_digit t" "list_all is_digit num"
    using assms by (cases num) (auto simp: bot_token_def)
  obtain k ks where k: "key = k # ks" "k \<noteq> CHR '' ''"
    using assms token_chars(2) by (cases key) (auto simp: bot_token_def)
  have skip: "contains (xs @ x) (num @ '':'' @ key) \<longleftrightarrow> contains x (num @ '':'' @ key)"
    if "list_all (\<lambda>c. \<not> is_digit c) xs" for xs x
    using that b(2) contains_not_hd [of t xs x "ts @ '':'' @ key"] by (auto simp: b(1) list_all_iff)
  have nm: "contains (int_str i @ '': '' @ s) (num @ '':'' @ key) \<longleftrightarrow> contains s (num @ '':'' @ key)"
  proof (cases "i < 0")
    case True
    have "list_all is_digit (digits (- i))" using True digits_digits [of "- i"] by (auto simp: list_all_iff)
    from number_no_token [OF b(3) _ k(2) this, of s ks] b(1) skip [of "''-''" "digits (- i) @ '': '' @ s"] token_chars(6) True
    show ?thesis by (simp add: int_str_def k(1))
  next
    case False
    then have "list_all is_digit (digits i)" using digits_digits [of i] by (auto simp: list_all_iff)
    from number_no_token [OF b(3) _ k(2) this, of s ks] b(1) False show ?thesis by (simp add: int_str_def k(1))
  qed
  have l: "list_all (\<lambda>c. \<not> is_digit c) ''notify: send log ''" "list_all (\<lambda>c. \<not> is_digit c) ''notify: notification log ''" by code_simp+
  show "contains (''notify: send log '' @ int_str i @ '': '' @ s) (num @ '':'' @ key) \<longleftrightarrow> contains s (num @ '':'' @ key)"
    using skip [OF l(1)] nm by blast
  have "CHR '':'' \<notin> set (int_str i @ '' not found'')" using int_str_chars [of "CHR '':''" i] token_chars(5) by auto
  then have "\<not> contains (int_str i @ '' not found'') (num @ '':'' @ key)" using contains_set by fastforce
  with skip [OF l(2)] show "\<not> contains (''notify: notification log '' @ int_str i @ '' not found'') (num @ '':'' @ key)" by blast
qed

text \<open>C23: Whatever address the HTTP client quotes when a message cannot be sent, the bot token gets neither into the table of
  messages nor into the error of the job, with the number of the message that the worker puts into it: for a token
  of the form Telegram issues, a number, a colon and a key.\<close>

theorem bot_token_never_stored:
  assumes "bot_token num key" and "ts_token sd = num @ '':'' @ key" and "token_free (ts_token sd) s"
    and "post (ts_base sd @ ''/bot'' @ ts_token sd @ ''/sendMessage'') m \<in> {NotBuilt err, NotSent err}"
    and "send_work e i attempt max_tries (telegram_send sd post decode m) s = (out, s')"
  shows "token_free (ts_token sd) s' \<and> (\<forall>msg. out = JobError msg \<or> out = JobCancel msg \<longrightarrow> \<not> contains msg (ts_token sd))"
proof -
  let ?tok = "num @ '':'' @ key"
  obtain t ts where b: "?tok = t # ts" "is_digit t" using assms(1) by (cases num) (auto simp: bot_token_def)
  have "CHR ''<'' \<notin> set ?tok" using assms(1) token_chars(1,4) by (auto simp: bot_token_def list_all_iff)
  then have t: "CHR ''<'' \<notin> set (t # ts)" unfolding b(1) .
  have t': "t \<notin> set ''redacted>''" using b(2) by (auto simp: is_digit_def code_of_def Let_def)
  have r: "\<not> contains (redact ?tok err) ?tok" unfolding b(1) using contains_replace_all [OF t t'] by (simp add: redact_def)
  have d: "contains (xs @ err') ?tok \<longleftrightarrow> contains err' ?tok" if "list_all (\<lambda>c. \<not> is_digit c) xs" for xs err'
    using that b(2) unfolding b(1) by (intro contains_not_hd) (auto simp: list_all_iff)
  have x: "list_all (\<lambda>c. \<not> is_digit c) ''telegram sendMessage: build request: ''" "list_all (\<lambda>c. \<not> is_digit c) ''telegram sendMessage: ''"
    by code_simp+
  have "\<exists>xs. list_all (\<lambda>c. \<not> is_digit c) xs \<and> telegram_send sd post decode m = SendErr False (xs @ redact ?tok err)"
    using assms(4)
  proof (elim insertE emptyE)
    assume "post (ts_base sd @ ''/bot'' @ ts_token sd @ ''/sendMessage'') m = NotBuilt err"
    with x(1) assms(2) show ?thesis unfolding telegram_send_def by (intro exI conjI) (assumption, simp only: http_reply.case)
  next
    assume "post (ts_base sd @ ''/bot'' @ ts_token sd @ ''/sendMessage'') m = NotSent err"
    with x(2) assms(2) show ?thesis unfolding telegram_send_def by (intro exI conjI) (assumption, simp only: http_reply.case)
  qed
  then obtain msg where msg: "telegram_send sd post decode m = SendErr False msg" "\<not> contains msg ?tok"
    using d r by blast
  have "token_free ?tok s'"
  proof -
    have "\<not> contains msg' ?tok" if "telegram_send sd post decode m = SendErr b msg'" for b msg'
      using that unfolding msg(1) send_result.inject by (metis msg(2))
    moreover have "snd (send_work e i attempt max_tries (telegram_send sd post decode m) s) = s'" by (simp only: assms(5) snd_conv)
    ultimately show ?thesis using send_work_token_free [of t ts s] assms(2,3) unfolding b(1) by metis
  qed
  moreover have "out \<in> {JobDone, JobCancel (''notify: notification log '' @ int_str i @ '' not found''),
      JobError (''notify: send log '' @ int_str i @ '': '' @ msg)}"
    using arg_cong [OF assms(5), of fst] unfolding msg(1) send_work_def by (auto simp: Let_def split: option.splits if_splits)
  then have "\<forall>msg. out = JobError msg \<or> out = JobCancel msg \<longrightarrow> \<not> contains msg ?tok"
    using job_error_no_token [OF assms(1), of i] msg(2) by blast
  ultimately show ?thesis unfolding assms(2) by blast
qed

definition sample_message :: send_message where
  "sample_message = \<lparr>sg_chat = 1001, sg_text = ''Paid'', sg_button = None\<rparr>"

definition sample_bot :: telegram_sender where
  "sample_bot = new_telegram_sender ''12:ab'' ''https://tg.example/''"

definition sample_queue :: db where
  "sample_queue = sample_db\<lparr>notify_logs := [\<lparr>nl_id = 1, nl_recipient = ''1001'', nl_template = ''order_expired'', nl_locale = EN,
     nl_entity = 1, nl_dedupe = ''expired:1'', nl_status = NtPending, nl_attempts = 0, nl_last_error = None, nl_sent_at = None\<rparr>]\<rparr>"

definition sample_attempt :: "job_outcome \<times> db" where
  "sample_attempt = send_work sample_env 1 1 5 (telegram_send sample_bot (\<lambda>url m. NotSent (''Post '' @ url @ '': timeout'')) (\<lambda>_. (False, []))
     sample_message) sample_queue"

lemma bot_token_never_stored_witness:
  "token_free ''12:ab'' (snd sample_attempt)
   \<and> fst sample_attempt = JobError ''notify: send log 1: telegram sendMessage: Post https://tg.example/bot<redacted>/sendMessage: timeout''"
proof
  let ?post = "\<lambda>url m. NotSent (''Post '' @ url @ '': timeout'')"
  have tok: "ts_token sample_bot = ''12'' @ '':'' @ ''ab''" by (simp add: sample_bot_def new_telegram_sender_def)
  have bt: "bot_token ''12'' ''ab''" by code_simp
  have tf: "token_free (ts_token sample_bot) sample_queue" by (simp add: token_free_def sample_queue_def)
  have po: "?post (ts_base sample_bot @ ''/bot'' @ ts_token sample_bot @ ''/sendMessage'') sample_message
      \<in> {NotBuilt (''Post '' @ (ts_base sample_bot @ ''/bot'' @ ts_token sample_bot @ ''/sendMessage'') @ '': timeout''),
         NotSent (''Post '' @ (ts_base sample_bot @ ''/bot'' @ ts_token sample_bot @ ''/sendMessage'') @ '': timeout'')}"
    by (rule insertI2) (rule singletonI)
  have run: "send_work sample_env 1 1 5 (telegram_send sample_bot ?post (\<lambda>_. (False, [])) sample_message) sample_queue
      = (fst sample_attempt, snd sample_attempt)" by (simp only: sample_attempt_def prod.collapse)
  have "token_free (ts_token sample_bot) (snd sample_attempt)"
    by (rule conjunct1 [OF bot_token_never_stored [OF bt tok tf po run]])
  then show "token_free ''12:ab'' (snd sample_attempt)" by (simp add: tok)
  show "fst sample_attempt = JobError ''notify: send log 1: telegram sendMessage: Post https://tg.example/bot<redacted>/sendMessage: timeout''"
    by code_simp
qed

end
