(* ===== verification/Permgen.thy ===== *)
theory Permgen
  imports Access "HOL-Library.List_Lexorder"
begin

text \<open>
  \<open>internal/httpapi/cmd/permgen\<close>: the generator of the permission table out of the OpenAPI
  description, and what it makes of \<open>openapi/openapi.yaml\<close>.  Parsing YAML is the library's:
  a description is the list of its operations, in the order the maps of the document yield them.
\<close>

section \<open>The description\<close>

text \<open>An extension field is a text or something else.\<close>

datatype ext_value = Text string | NotText

record spec_operation =
  sp_path :: string
  sp_method :: string
  sp_id :: string
  sp_ext :: "(string \<times> ext_value) list"

section \<open>The rule of an operation\<close>

datatype rule_error =
    FieldsNotText "string list"
  | RunnerPermission | RunnerAuthMissing | RunnerAuth string
  | PublicDeclares
  | AuthAndPermission | AppAuth | AuthUnknown string
  | PermissionEmpty | AccessMissing | AccessUnknown string
  | NothingDeclared

definition string_ext :: "(string \<times> ext_value) list \<Rightarrow> string \<Rightarrow> string list + string option" where
  "string_ext ext key =
     (case map_of ext key of None \<Rightarrow> Inr None | Some NotText \<Rightarrow> Inl [key] | Some (Text s) \<Rightarrow> Inr (Some s))"

definition plain :: "auth_kind \<Rightarrow> operation_auth" where
  "plain k = \<lparr>oa_kind = k, oa_permission = [], oa_access = []\<rparr>"

definition rule_of :: "string \<Rightarrow> string option \<Rightarrow> string option \<Rightarrow> string option \<Rightarrow> rule_error + operation_auth" where
  "rule_of path auth perm access =
     (if has_prefix path ''/app/''
      then if perm \<noteq> None \<or> access \<noteq> None then Inl RunnerPermission
           else (case auth of
                   None \<Rightarrow> Inl RunnerAuthMissing
                 | Some a \<Rightarrow> if a = ''none'' then Inr (plain AuthNone) else if a = ''app'' then Inr (plain AuthApp) else Inl (RunnerAuth a))
      else if \<not> has_prefix path ''/admin/''
      then if auth \<noteq> None \<or> perm \<noteq> None \<or> access \<noteq> None then Inl PublicDeclares else Inr (plain AuthNone)
      else (case auth of
              Some a \<Rightarrow>
                if perm \<noteq> None \<or> access \<noteq> None then Inl AuthAndPermission
                else if a = ''none'' then Inr (plain AuthNone) else if a = ''session'' then Inr (plain AuthSession)
                else if a = ''app'' then Inl AppAuth else Inl (AuthUnknown a)
            | None \<Rightarrow>
                (case perm of
                   None \<Rightarrow> Inl NothingDeclared
                 | Some p \<Rightarrow>
                     if p = [] then Inl PermissionEmpty
                     else (case access of
                             None \<Rightarrow> Inl AccessMissing
                           | Some a \<Rightarrow> if a \<noteq> ''read'' \<and> a \<noteq> ''write'' then Inl (AccessUnknown a)
                               else Inr \<lparr>oa_kind = AuthPermission, oa_permission = p, oa_access = a\<rparr>))))"

definition rule_for :: "string \<Rightarrow> (string \<times> ext_value) list \<Rightarrow> rule_error + operation_auth" where
  "rule_for path ext =
     (case (string_ext ext ''x-auth'', string_ext ext ''x-permission'', string_ext ext ''x-access'') of
        (Inr auth, Inr perm, Inr access) \<Rightarrow> rule_of path auth perm access
      | (a, p, x) \<Rightarrow> Inl (FieldsNotText (concat (map (\<lambda>r. case r of Inl k \<Rightarrow> k | Inr _ \<Rightarrow> []) [a, p, x]))))"

section \<open>The table\<close>

text \<open>\<open>strictName\<close>; letters and digits of Latin-1.\<close>

definition is_letter :: "char \<Rightarrow> bool" where
  "is_letter c \<longleftrightarrow> is_lower c \<or> is_upper c
     \<or> (let n = code_of c in n = 170 \<or> n = 181 \<or> n = 186 \<or> (192 \<le> n \<and> n \<le> 255 \<and> n \<noteq> 215 \<and> n \<noteq> 247))"

fun cut :: "(char \<Rightarrow> bool) \<Rightarrow> string \<Rightarrow> string list" where
  "cut sep [] = [[]]"
| "cut sep (c # s) = (if sep c then [] # cut sep s else (case cut sep s of [] \<Rightarrow> [[c]] | p # ps \<Rightarrow> (c # p) # ps))"

definition strict_name :: "string \<Rightarrow> string" where
  "strict_name op =
     concat (map (\<lambda>p. to_upper_char (hd p) # tl p) (filter (\<lambda>p. p \<noteq> []) (cut (\<lambda>c. \<not> is_letter c \<and> \<not> is_digit c) op)))"

datatype build_problem = NoOperationId string | DuplicateId string string | BadRule string string rule_error

definition build_step :: "spec_operation \<Rightarrow> (string \<times> operation_auth) list \<times> build_problem list
    \<Rightarrow> (string \<times> operation_auth) list \<times> build_problem list" where
  "build_step op acc =
     (let (rules, problems) = acc; place = sp_method op @ '' '' @ sp_path op; name = strict_name (sp_id op)
      in if sp_id op = [] then (rules, problems @ [NoOperationId place])
         else if name \<in> fst ` set rules then (rules, problems @ [DuplicateId place (sp_id op)])
         else (case rule_for (sp_path op) (sp_ext op) of
                 Inl err \<Rightarrow> (rules, problems @ [BadRule place (sp_id op) err])
               | Inr r \<Rightarrow> (rules @ [(name, r)], problems)))"

definition build_rules :: "spec_operation list \<Rightarrow> build_problem list + (string \<times> operation_auth) list" where
  "build_rules ops = (case fold build_step ops ([], []) of (rules, problems) \<Rightarrow> if problems \<noteq> [] then Inl problems else Inr rules)"

text \<open>\<open>render\<close> writes the entries in the order of their names.\<close>

definition render_table :: "(string \<times> operation_auth) list \<Rightarrow> (string \<times> operation_auth) list" where
  "render_table rules = sort_key fst rules"

section \<open>What the table says\<close>

lemma rule_of_Inr:
  assumes "rule_of path auth perm access = Inr r"
  shows "oa_kind r = AuthNone \<longleftrightarrow> auth = Some ''none'' \<or> (\<not> has_prefix path ''/app/'' \<and> \<not> has_prefix path ''/admin/'')"
    and "oa_kind r = AuthApp \<longrightarrow> has_prefix path ''/app/''"
    and "oa_kind r = AuthSession \<or> oa_kind r = AuthPermission \<longrightarrow> has_prefix path ''/admin/''"
    and "oa_kind r = AuthPermission \<longrightarrow> perm = Some (oa_permission r) \<and> access = Some (oa_access r) \<and> oa_permission r \<noteq> []
      \<and> oa_access r \<in> {''read'', ''write''}"
  using assms by (auto simp: rule_of_def plain_def split: option.splits if_splits)

lemma build_steps:
  assumes "fold build_step ops (rules, problems) = (rules', [])"
  shows "problems = [] \<and> rules' = rules @ map (\<lambda>op. (strict_name (sp_id op), projr (rule_for (sp_path op) (sp_ext op)))) ops
    \<and> (\<forall>op\<in>set ops. sp_id op \<noteq> [] \<and> (\<exists>r. rule_for (sp_path op) (sp_ext op) = Inr r))
    \<and> (distinct (map fst rules) \<longrightarrow> distinct (map fst rules'))"
  using assms
proof (induction ops arbitrary: rules problems)
  case (Cons op ops)
  obtain rules1 problems1 where st: "build_step op (rules, problems) = (rules1, problems1)" by (cases "build_step op (rules, problems)")
  with Cons.prems have "fold build_step ops (rules1, problems1) = (rules', [])" by simp
  note IH = Cons.IH [OF this]
  then have "problems1 = []" by simp
  with st obtain r where r: "rule_for (sp_path op) (sp_ext op) = Inr r" "rules1 = rules @ [(strict_name (sp_id op), r)]" "problems = []"
    "sp_id op \<noteq> []" "strict_name (sp_id op) \<notin> fst ` set rules"
    by (auto simp: build_step_def Let_def split: if_splits sum.splits)
  then have d: "distinct (map fst rules) \<Longrightarrow> distinct (map fst rules1)" by auto
  show ?case
  proof (intro conjI impI)
    show "problems = []" by (rule r(3))
    show "rules' = rules @ map (\<lambda>op. (strict_name (sp_id op), projr (rule_for (sp_path op) (sp_ext op)))) (op # ops)"
      using IH r(1,2) by simp
    show "\<forall>op\<in>set (op # ops). sp_id op \<noteq> [] \<and> (\<exists>r. rule_for (sp_path op) (sp_ext op) = Inr r)" using IH r(1,4) by simp
    show "distinct (map fst rules')" if "distinct (map fst rules)" using IH d [OF that] by blast
  qed
qed simp

lemma string_ext_Inr: "string_ext ext k = Inr v \<longleftrightarrow> map_of ext k = map_option Text v"
  by (cases v) (auto simp: string_ext_def split: option.splits ext_value.splits)

lemma rule_for_Inr:
  "rule_for path ext = Inr r \<longleftrightarrow> (\<exists>auth perm access. map_of ext ''x-auth'' = map_option Text auth
     \<and> map_of ext ''x-permission'' = map_option Text perm \<and> map_of ext ''x-access'' = map_option Text access
     \<and> rule_of path auth perm access = Inr r)"
  unfolding string_ext_Inr [symmetric] by (auto simp: rule_for_def split: sum.splits)

text \<open>The description of the service; the parameters of the operations are left out.\<close>

definition sp :: "string \<Rightarrow> string \<Rightarrow> string \<Rightarrow> (string \<times> ext_value) list \<Rightarrow> spec_operation" where
  "sp path verb op ext = \<lparr>sp_path = path, sp_method = verb, sp_id = op, sp_ext = ext\<rparr>"

definition openapi :: "spec_operation list" where
  "openapi = [
     sp ''/healthz'' ''GET'' ''getHealthz'' [],
     sp ''/readyz'' ''GET'' ''getReadyz'' [],
     sp ''/admin/auth/login'' ''POST'' ''adminLogin'' [(''x-auth'', Text ''none'')],
     sp ''/admin/auth/logout'' ''POST'' ''adminLogout'' [(''x-auth'', Text ''session'')],
     sp ''/admin/me'' ''GET'' ''adminGetMe'' [(''x-auth'', Text ''session'')],
     sp ''/events'' ''GET'' ''listPublicEvents'' [],
     sp ''/events/{slug}'' ''GET'' ''getPublicEvent'' [],
     sp ''/admin/events'' ''GET'' ''adminListEvents'' [(''x-permission'', Text ''event_config''), (''x-access'', Text ''read'')],
     sp ''/admin/events'' ''POST'' ''adminCreateEvent'' [(''x-permission'', Text ''event_config''), (''x-access'', Text ''write'')],
     sp ''/admin/events/{id}'' ''GET'' ''adminGetEvent'' [(''x-permission'', Text ''event_config''), (''x-access'', Text ''read'')],
     sp ''/admin/events/{id}/registration'' ''PATCH'' ''adminUpdateEventRegistration'' [(''x-permission'', Text ''event_config''), (''x-access'', Text ''write'')],
     sp ''/admin/events/{id}/publish'' ''POST'' ''adminPublishEvent'' [(''x-permission'', Text ''event_publish''), (''x-access'', Text ''write'')],
     sp ''/admin/events/{id}/price-rules'' ''GET'' ''adminListPriceRules'' [(''x-permission'', Text ''price_config''), (''x-access'', Text ''read'')],
     sp ''/admin/events/{id}/price-rules'' ''POST'' ''adminCreatePriceRule'' [(''x-permission'', Text ''price_config''), (''x-access'', Text ''write'')],
     sp ''/admin/price-rules/{id}'' ''PUT'' ''adminUpdatePriceRule'' [(''x-permission'', Text ''price_config''), (''x-access'', Text ''write'')],
     sp ''/admin/coupons'' ''GET'' ''adminListCoupons'' [(''x-permission'', Text ''coupon_manage''), (''x-access'', Text ''read'')],
     sp ''/admin/coupons'' ''POST'' ''adminCreateCoupon'' [(''x-permission'', Text ''coupon_manage''), (''x-access'', Text ''write'')],
     sp ''/admin/coupons/{id}'' ''PUT'' ''adminUpdateCoupon'' [(''x-permission'', Text ''coupon_manage''), (''x-access'', Text ''write'')],
     sp ''/files/{id}'' ''GET'' ''getPublicFile'' [],
     sp ''/admin/payment-accounts'' ''GET'' ''adminListPaymentAccounts'' [(''x-permission'', Text ''payment_account_manage''), (''x-access'', Text ''read'')],
     sp ''/admin/payment-accounts'' ''POST'' ''adminCreatePaymentAccount'' [(''x-permission'', Text ''payment_account_manage''), (''x-access'', Text ''write'')],
     sp ''/admin/payment-accounts/{id}'' ''PUT'' ''adminUpdatePaymentAccount'' [(''x-permission'', Text ''payment_account_manage''), (''x-access'', Text ''write'')],
     sp ''/app/auth/telegram'' ''POST'' ''appLoginTelegram'' [(''x-auth'', Text ''none'')],
     sp ''/app/auth/phone/request'' ''POST'' ''appRequestPhoneCode'' [(''x-auth'', Text ''none'')],
     sp ''/app/auth/phone/verify'' ''POST'' ''appVerifyPhoneCode'' [(''x-auth'', Text ''none'')],
     sp ''/app/auth/logout'' ''POST'' ''appLogout'' [(''x-auth'', Text ''app'')],
     sp ''/app/me'' ''GET'' ''appGetMe'' [(''x-auth'', Text ''app'')],
     sp ''/app/me'' ''PATCH'' ''appUpdateMe'' [(''x-auth'', Text ''app'')],
     sp ''/app/profiles'' ''GET'' ''appListProfiles'' [(''x-auth'', Text ''app'')],
     sp ''/app/profiles'' ''POST'' ''appCreateProfile'' [(''x-auth'', Text ''app'')],
     sp ''/app/profiles/{id}'' ''PUT'' ''appUpdateProfile'' [(''x-auth'', Text ''app'')],
     sp ''/app/profiles/{id}'' ''DELETE'' ''appDeleteProfile'' [(''x-auth'', Text ''app'')],
     sp ''/app/consents'' ''GET'' ''appGetConsent'' [(''x-auth'', Text ''app'')],
     sp ''/app/events/{slug}/quote'' ''POST'' ''appQuote'' [(''x-auth'', Text ''app'')],
     sp ''/app/events/{slug}/free-signups'' ''POST'' ''appCreateFreeSignup'' [(''x-auth'', Text ''app'')],
     sp ''/app/free-signups'' ''GET'' ''appListFreeSignups'' [(''x-auth'', Text ''app'')],
     sp ''/app/orders'' ''GET'' ''appListOrders'' [(''x-auth'', Text ''app'')],
     sp ''/app/orders'' ''POST'' ''appCreateOrder'' [(''x-auth'', Text ''app'')],
     sp ''/app/orders/{orderNo}'' ''GET'' ''appGetOrder'' [(''x-auth'', Text ''app'')],
     sp ''/app/orders/{orderNo}/cancel'' ''POST'' ''appCancelOrder'' [(''x-auth'', Text ''app'')],
     sp ''/app/orders/{orderNo}/proofs'' ''POST'' ''appSubmitProof'' [(''x-auth'', Text ''app'')],
     sp ''/admin/orders'' ''GET'' ''adminListOrders'' [(''x-permission'', Text ''order_view''), (''x-access'', Text ''read'')],
     sp ''/admin/orders/{id}'' ''GET'' ''adminGetOrder'' [(''x-permission'', Text ''order_view''), (''x-access'', Text ''read'')],
     sp ''/admin/proofs'' ''GET'' ''adminListProofs'' [(''x-permission'', Text ''proof_review''), (''x-access'', Text ''read'')],
     sp ''/admin/proofs/{id}'' ''GET'' ''adminGetProof'' [(''x-permission'', Text ''proof_review''), (''x-access'', Text ''read'')],
     sp ''/admin/proofs/{id}/approve'' ''POST'' ''adminApproveProof'' [(''x-permission'', Text ''proof_review''), (''x-access'', Text ''write'')],
     sp ''/admin/proofs/{id}/reject'' ''POST'' ''adminRejectProof'' [(''x-permission'', Text ''proof_review''), (''x-access'', Text ''write'')],
     sp ''/admin/files/{id}'' ''GET'' ''adminGetFile'' [(''x-permission'', Text ''proof_review''), (''x-access'', Text ''read'')]]"

lemma openapi_builds: "map_sum id render_table (build_rules openapi) = Inr operation_auths"
  by code_simp

text \<open>C25: The generated table has one entry for each operation of the description: public only when the operation
  declares \<open>x-auth: none\<close> or lies outside \<open>/app/\<close> and \<open>/admin/\<close>; a runner's only under \<open>/app/\<close>, a session's or a
  permission's only under \<open>/admin/\<close>, and a permission and its access are those declared.  The description of this
  service (\<open>openapi.yaml\<close>) does build, and its table, as it is written out, is entry by entry the table the middleware
  uses (\<open>permissions.gen.go\<close>).\<close>

theorem permission_table_follows_spec:
  assumes "build_rules ops = Inr t"
  shows "map_sum id render_table (build_rules openapi) = Inr operation_auths
    \<and> distinct (map fst t) \<and> map fst t = map (\<lambda>op. strict_name (sp_id op)) ops
    \<and> (\<forall>op\<in>set ops. \<exists>r. map_of t (strict_name (sp_id op)) = Some r
        \<and> (oa_kind r = AuthNone \<longleftrightarrow> map_of (sp_ext op) ''x-auth'' = Some (Text ''none'')
             \<or> (\<not> has_prefix (sp_path op) ''/app/'' \<and> \<not> has_prefix (sp_path op) ''/admin/''))
        \<and> (oa_kind r = AuthApp \<longrightarrow> has_prefix (sp_path op) ''/app/'')
        \<and> (oa_kind r = AuthSession \<or> oa_kind r = AuthPermission \<longrightarrow> has_prefix (sp_path op) ''/admin/'')
        \<and> (oa_kind r = AuthPermission \<longrightarrow> map_of (sp_ext op) ''x-permission'' = Some (Text (oa_permission r))
             \<and> map_of (sp_ext op) ''x-access'' = Some (Text (oa_access r))))"
    (is "_ \<and> _ \<and> _ \<and> (\<forall>op\<in>set ops. \<exists>r. _ op r \<and> ?says op r)")
proof -
  from assms have "fold build_step ops ([], []) = (t, [])" by (auto simp: build_rules_def split: prod.splits if_splits)
  note B = build_steps [OF this]
  from B have d: "distinct (map fst t)" by (metis distinct.simps(1) list.map(1))
  have "\<exists>r. map_of t (strict_name (sp_id op)) = Some r \<and> ?says op r" if op: "op \<in> set ops" for op
  proof -
    from B op obtain r where r: "rule_for (sp_path op) (sp_ext op) = Inr r" by blast
    from B op have "(strict_name (sp_id op), projr (rule_for (sp_path op) (sp_ext op))) \<in> set t" by simp
    with r d have "map_of t (strict_name (sp_id op)) = Some r" by simp
    moreover from r obtain auth perm access where e: "map_of (sp_ext op) ''x-auth'' = map_option Text auth"
      "map_of (sp_ext op) ''x-permission'' = map_option Text perm" "map_of (sp_ext op) ''x-access'' = map_option Text access"
      and ro: "rule_of (sp_path op) auth perm access = Inr r" unfolding rule_for_Inr by blast
    have "auth = Some ''none'' \<longleftrightarrow> map_of (sp_ext op) ''x-auth'' = Some (Text ''none'')" unfolding e(1) by (cases auth) simp_all
    with rule_of_Inr [OF ro] e(2,3) have "?says op r" by simp
    ultimately show ?thesis by blast
  qed
  moreover have "map fst t = map (\<lambda>op. strict_name (sp_id op)) ops" using B by (simp add: comp_def)
  ultimately show ?thesis using d openapi_builds by blast
qed

lemma permission_table_follows_spec_witness:
  "\<exists>t. build_rules openapi = Inr t \<and> render_table t = operation_auths \<and> length t = 48 \<and> distinct (map fst t)"
proof -
  obtain t where t: "build_rules openapi = Inr t" using openapi_builds by (cases "build_rules openapi") auto
  have n: "length openapi = 48" by (simp add: openapi_def)
  note T = permission_table_follows_spec [OF t]
  then have "length t = 48" using n by (metis length_map)
  with T t show ?thesis by auto
qed

end
