(* ===== verification/Schedule.thy ===== *)
theory Schedule
  imports GoLib
begin

text \<open>
  \<open>internal/jobs\<close>: when the background jobs run.  \<open>DailyAt.Next\<close> works on the
  civil date of the zone and lets \<open>time.Date\<close> normalise the day after; the
  calendar functions of \<open>GoLib\<close> are shown to invert each other, which makes
  \<open>Next\<close> the least firing time after the current one.  A zone is its offset from
  UTC: the only zone the source names is \<open>Asia/Phnom_Penh\<close>, always seven hours.
\<close>

section \<open>Schedules\<close>

record daily_at =
  da_hour :: int
  da_minute :: int
  da_loc :: "int option"

definition phnom_penh :: int where "phnom_penh = 7 * hour"

text \<open>\<open>time.Date(y, m, d, h, min, 0, 0, loc)\<close>; a day past the end of the month counts on.\<close>

definition go_date :: "int \<times> int \<times> int \<Rightarrow> int \<Rightarrow> int \<Rightarrow> int \<Rightarrow> gotime" where
  "go_date ymd h mins off = (case ymd of (y, m, d) \<Rightarrow> date_time y m d + h * hour + mins * minute - off)"

definition daily_next :: "daily_at \<Rightarrow> gotime \<Rightarrow> gotime" where
  "daily_next a current =
     (let off = (case da_loc a of None \<Rightarrow> 0 | Some z \<Rightarrow> z);
          (y, m, d) = civil_date (current + off);
          nxt = go_date (y, m, d) (da_hour a) (da_minute a) off
      in if \<not> current < nxt then go_date (y, m, d + 1) (da_hour a) (da_minute a) off else nxt)"

text \<open>The periodic jobs of \<open>NewClient\<close> and the time between two runs of the deadline job.\<close>

datatype schedule = Daily daily_at | Every int

definition periodic_jobs :: "bool \<Rightarrow> (string \<times> schedule) list" where
  "periodic_jobs deadline =
     (''session_cleanup'', Daily \<lparr>da_hour = 3, da_minute = 0, da_loc = Some phnom_penh\<rparr>)
     # (if deadline then [(''order_deadline'', Every minute)] else [])"

definition next_run :: "schedule \<Rightarrow> gotime \<Rightarrow> gotime" where
  "next_run s current = (case s of Daily a \<Rightarrow> daily_next a current | Every n \<Rightarrow> current + n)"

section \<open>The calendar\<close>

text \<open>Days before year \<open>y\<close> of an era of 400 years that starts on 1 March.\<close>

definition year_start :: "int \<Rightarrow> int" where
  "year_start y = 365 * y + y div 4 - y div 100"

definition year_count :: "int \<Rightarrow> int" where
  "year_count doe = doe - doe div 1460 + doe div 36524 - doe div 146096"

lemma year_start_parts:
  assumes "0 \<le> r" "r < 25" "0 \<le> s" "s < (4::int)"
  shows "year_start (100 * c + 4 * r + s) = 36524 * c + 1461 * r + 365 * s"
proof -
  have "(100 * c + 4 * r + s) div 4 = 25 * c + r" by (rule int_div_pos_eq [where r = s]) (use assms in simp_all)
  moreover have "(100 * c + 4 * r + s) div 100 = c" by (rule int_div_pos_eq [where r = "4 * r + s"]) (use assms in simp_all)
  ultimately show ?thesis by (simp add: year_start_def)
qed

text \<open>Day \<open>doe\<close> is day \<open>k\<close> of cycle \<open>r\<close> of four years of century \<open>c\<close>.\<close>

lemma year_of_day:
  assumes "0 \<le> doe" "doe < 146097"
  defines "yoe \<equiv> year_count doe div 365"
  shows "0 \<le> yoe \<and> yoe < 400 \<and> year_start yoe \<le> doe \<and> doe - year_start yoe \<le> 365"
proof (cases "doe = 146096")
  case True
  then have "yoe = 399" by (simp add: yoe_def year_count_def)
  with True show ?thesis by (simp add: year_start_def)
next
  case False
  define c where "c = doe div 36524"
  define r where "r = doe mod 36524 div 1461"
  define k where "k = doe mod 36524 mod 1461"
  define q where "q = (24 * c + r + k) div 1460"
  define s where "s = (k - q) div 365"
  have doe: "doe = 36524 * c + 1461 * r + k"
    using mult_div_mod_eq [of 36524 doe] mult_div_mod_eq [of 1461 "doe mod 36524"] by (simp add: c_def r_def k_def)
  have m: "0 \<le> doe mod 36524" "doe mod 36524 < 36524" by simp_all
  have b: "0 \<le> c" "c < 4" "0 \<le> r" "r < 25" "0 \<le> k" "k < 1461"
    using assms False m by (auto simp: c_def r_def k_def pos_imp_zdiv_nonneg_iff div_less_iff_less_mult)
  have q: "q = (if 24 * c + r + k < 1460 then 0 else 1)"
  proof (cases "24 * c + r + k < 1460")
    case True
    with b show ?thesis by (simp add: q_def)
  next
    case False
    with b show ?thesis unfolding q_def by (simp add: int_div_pos_eq [where q = 1 and r = "24 * c + r + k - 1460"])
  qed
  have "365 * s \<le> k - q" "k - q < 365 * s + 365"
    using mult_div_mod_eq [of 365 "k - q"] pos_mod_bound [of 365 "k - q"] pos_mod_sign [of 365 "k - q"]
    unfolding s_def by linarith+
  with b q have s: "0 \<le> s" "s < 4" "0 \<le> k - 365 * s" "k - 365 * s \<le> 365"
    by (auto split: if_splits)
  have "doe div 1460 = 25 * c + r + q"
  proof -
    have "doe = (24 * c + r + k) + (25 * c + r) * 1460" by (simp add: doe)
    then show ?thesis by (simp add: q_def)
  qed
  moreover have "doe div 146096 = 0" using assms False by simp
  moreover have "doe div 36524 = c" by (simp only: c_def)
  ultimately have "year_count doe = doe - (25 * c + r + q) + c - 0" by (simp only: year_count_def)
  then have "year_count doe = (k - q) + (100 * c + 4 * r) * 365" by (simp add: doe algebra_simps)
  then have "yoe = 100 * c + 4 * r + s" by (simp add: yoe_def s_def)
  with b s year_start_parts [of r s c] show ?thesis by (simp add: doe)
qed

lemma date_time_civil_date:
  "(case civil_date t of (y, m, d) \<Rightarrow> date_time y m d) = t div day * day"
proof -
  define z where "z = t div 86400000000000 + 719468"
  define doe where "doe = z mod 146097"
  define yoe where "yoe = year_count doe div 365"
  define doy where "doy = doe - year_start yoe"
  define mp where "mp = (5 * doy + 2) div 153"
  have doe: "0 \<le> doe" "doe < 146097" by (simp_all add: doe_def)
  from year_of_day [OF this] have yoe: "0 \<le> yoe" "yoe < 400" and doy: "0 \<le> doy" "doy \<le> 365"
    by (simp_all add: yoe_def doy_def)
  from doy have mp: "0 \<le> mp" "mp < 12" by (auto simp: mp_def)
  let ?m = "if mp < 10 then mp + 3 else mp - 9"
  let ?y = "yoe + z div 146097 * 400 + (if ?m \<le> 2 then 1 else 0)"
  let ?d = "doy - (153 * mp + 2) div 5 + 1"
  have c: "civil_date t = (?y, ?m, ?d)"
    by (simp only: civil_date_def Let_def z_def doe_def yoe_def doy_def mp_def year_count_def year_start_def)
  have "(if ?m \<le> 2 then ?y - 1 else ?y) = yoe + z div 146097 * 400" using mp by auto
  moreover have "(yoe + z div 146097 * 400) div 400 = z div 146097" "(yoe + z div 146097 * 400) mod 400 = yoe"
    using yoe by simp_all
  moreover have "(if ?m > 2 then ?m - 3 else ?m + 9) = mp" using mp by auto
  moreover have "yoe * 365 + yoe div 4 - yoe div 100 + ((153 * mp + 2) div 5 + ?d - 1) = doe"
    by (simp add: doy_def year_start_def)
  moreover have "z div 146097 * 146097 + doe = z" by (simp add: doe_def)
  ultimately have "date_time ?y ?m ?d = (z - 719468) * 86400000000000"
    by (simp add: date_time_def Let_def)
  then show ?thesis by (simp add: c z_def time_units)
qed

lemma date_time_next_day: "date_time y m (d + 1) = date_time y m d + day"
  by (simp add: date_time_def Let_def time_units algebra_simps)

section \<open>The next run\<close>

definition fires :: "daily_at \<Rightarrow> gotime \<Rightarrow> bool" where
  "fires a t \<longleftrightarrow> (t + (case da_loc a of None \<Rightarrow> 0 | Some z \<Rightarrow> z)) mod day = da_hour a * hour + da_minute a * minute"

lemma daily_next_eq:
  "daily_next a current =
     (let off = (case da_loc a of None \<Rightarrow> 0 | Some z \<Rightarrow> z);
          nxt = (current + off) div day * day + (da_hour a * hour + da_minute a * minute) - off
      in if current < nxt then nxt else nxt + day)"
  using date_time_civil_date [of "current + (case da_loc a of None \<Rightarrow> 0 | Some z \<Rightarrow> z)"]
  by (cases "civil_date (current + (case da_loc a of None \<Rightarrow> 0 | Some z \<Rightarrow> z))")
    (simp add: daily_next_def go_date_def Let_def date_time_next_day algebra_simps)

text \<open>C36: The daily schedule fires strictly later than now, at its time of day in its zone, and misses no firing
  time in between: the next run is the least one.\<close>

theorem daily_next_least:
  assumes "0 \<le> da_hour a" "da_hour a < 24" "0 \<le> da_minute a" "da_minute a < 60"
  shows "now < daily_next a now \<and> fires a (daily_next a now) \<and> (\<forall>t. now < t \<and> fires a t \<longrightarrow> daily_next a now \<le> t)"
proof -
  define off where "off = (case da_loc a of None \<Rightarrow> 0 | Some z \<Rightarrow> z)"
  define at where "at = da_hour a * hour + da_minute a * minute"
  have at: "0 \<le> at" "at < day" using assms by (auto simp: at_def time_units)
  let ?d = "(now + off) div day" and ?n = "daily_next a now"
  have n: "?n = (if now < ?d * day + at - off then ?d * day + at - off else ?d * day + at - off + day)"
    by (simp add: daily_next_eq Let_def off_def at_def)
  have now: "?d * day \<le> now + off" "now + off < ?d * day + day"
    using mult_div_mod_eq [of day "now + off"] pos_mod_bound [of day "now + off"] pos_mod_sign [of day "now + off"]
    by (simp_all add: time_units)
  have "fires a t \<longleftrightarrow> (\<exists>k. t + off = k * day + at)" for t
  proof
    assume "fires a t"
    then have "t + off = (t + off) div day * day + at"
      using div_mult_mod_eq [of "t + off" day] by (simp add: fires_def off_def at_def)
    then show "\<exists>k. t + off = k * day + at" by blast
  next
    assume "\<exists>k. t + off = k * day + at"
    then show "fires a t" using at by (auto simp: fires_def off_def [symmetric] at_def [symmetric])
  qed
  note fires = this
  show ?thesis
  proof (intro conjI allI impI)
    show "now < ?n" using now at by (simp add: n)
    have "?n + off = ?d * day + at \<or> ?n + off = (?d + 1) * day + at" by (simp add: n distrib_right)
    then show "fires a ?n" unfolding fires by blast
    fix t assume "now < t \<and> fires a t"
    then obtain k where k: "t + off = k * day + at" "now < t" unfolding fires by blast
    show "?n \<le> t"
    proof (cases "now < ?d * day + at - off")
      case True
      have "?d \<le> k"
      proof (rule ccontr)
        assume "\<not> ?d \<le> k"
        then have "(k + 1) * day \<le> ?d * day" by (intro mult_right_mono) (simp_all add: time_units)
        with k now at show False by (simp add: distrib_right)
      qed
      then have "?d * day \<le> k * day" by (intro mult_right_mono) (simp_all add: time_units)
      with True k show ?thesis by (simp add: n)
    next
      case False
      have "?d + 1 \<le> k"
      proof (rule ccontr)
        assume "\<not> ?d + 1 \<le> k"
        then have "k * day \<le> ?d * day" by (intro mult_right_mono) (simp_all add: time_units)
        with k False show False by simp
      qed
      then have "(?d + 1) * day \<le> k * day" by (intro mult_right_mono) (simp_all add: time_units)
      with False k show ?thesis by (simp add: n distrib_right)
    qed
  qed
qed

text \<open>New Year's Eve in Phnom Penh, a minute after the session clean-up: the next one is on 1 January.\<close>

lemma daily_next_least_witness:
  "daily_next \<lparr>da_hour = 3, da_minute = 0, da_loc = Some phnom_penh\<rparr> (date_time 2026 12 30 + 20 * hour + minute)
     = date_time 2026 12 31 + 20 * hour
   \<and> (date_time 2026 12 30 + 20 * hour + minute < daily_next \<lparr>da_hour = 3, da_minute = 0, da_loc = Some phnom_penh\<rparr>
        (date_time 2026 12 30 + 20 * hour + minute))"
proof (intro conjI)
  show "daily_next \<lparr>da_hour = 3, da_minute = 0, da_loc = Some phnom_penh\<rparr> (date_time 2026 12 30 + 20 * hour + minute)
     = date_time 2026 12 31 + 20 * hour" by code_simp
qed (rule conjunct1 [OF daily_next_least]; simp)

end
