(* ===== verification/Spec2Isabelle.thy ===== *)
theory Spec2Isabelle
  imports Guarantees ApiSamples Channels Permgen Schedule
begin

text \<open>
  Verification of WeRun, the registration service for running events in \<open>src/api\<close> (Go).

  The program.  One binary, \<open>werun\<close>, serves a JSON API to a Telegram mini app (runners: \<open>/api/app\<close>), a back office
  (staff: \<open>/api/admin\<close>) and the public, runs background jobs, and has a few commands.  A runner places an order for one
  or more participants of an event; the order reserves seats of categories, of price tiers and a coupon use, gets a
  payable amount that identifies it, and a deadline.  The runner uploads a payment proof; staff approve it (receipt,
  registrations confirmed, seats consumed) or reject it; the deadline job or the runner releases an order that is not paid.
  All state is in PostgreSQL; each service operation is one transaction that locks the rows it changes.

  How it is modelled.  The tables are one record \<open>db\<close> (theory \<open>Store\<close>, one row record per struct of
  \<open>store/models.go\<close>); an operation is a function from \<open>db\<close> to a result and a new \<open>db\<close>, and an error (\<open>Inl\<close>) rolls
  the transaction back by returning no state.  The statements of the \<open>.sql.go\<close> files are functions on these lists, with
  the CHECK, UNIQUE and foreign key constraints the code relies on as errors (\<open>PgErr\<close>).  Since every transaction takes
  its row locks first, concurrent operations are modelled as a sequence of whole operations; the one statement that passes
  over the rows others hold locked (\<open>SKIP LOCKED\<close>, in the deadline job) takes these rows from its environment.  The in-memory state (login and
  code limiters), the disk and the sessions complete the state of the process, \<open>world\<close> (theory \<open>Api\<close>).  What is outside
  the program is an argument, gathered in the records \<open>env\<close>, \<open>auth_env\<close> and \<open>http_env\<close>: clocks, random bytes, SHA-256, HMAC,
  argon2, AES, image decoding, mail address parsing, time zones, the message files, the answers of Telegram and of the disk.

  Theories, by the part of \<open>src/api\<close> they model (\<open>internal/\<close> left out):
  \<^item> shared: \<open>Prelude\<close> (error monad, loops with early exit, tables, the collections of automation), \<open>GoLib\<close> (int32 and int64
    wrap-around, truncating division, strings, the civil calendar), \<open>Apperr\<close> (\<open>platform/apperr\<close>, \<open>idgen\<close>, \<open>i18n\<close>, \<open>settings\<close>),
    \<open>Store\<close> (tables), \<open>Samples\<close>, \<open>SampleRuns\<close>, \<open>AuthSamples\<close>, \<open>ApiSamples\<close> (the concrete runs the witnesses use);
  \<^item> prices: \<open>Pricing\<close>, \<open>Allocation\<close>, \<open>Quote\<close> (\<open>pricing/quote.go\<close>), \<open>Counters\<close> (\<open>pricing/counters.go\<close>), \<open>Ledger\<close> (the abstract
    seat ledger), \<open>PriceRules\<close>, \<open>Coupons\<close> (\<open>pricing/rules.go\<close>, \<open>coupons.go\<close>);
  \<^item> registration: \<open>Profiles\<close>, \<open>Consents\<close> (\<open>runner/profiles.go\<close>, \<open>contact.go\<close>, \<open>consents.go\<close>), \<open>Orders\<close> (\<open>registration/orders.go\<close>,
    \<open>locks.go\<close>), \<open>Registration\<close>, \<open>Placement\<close> (\<open>create.go\<close>), \<open>FreeSignup\<close> (\<open>free.go\<close>), \<open>Deadline\<close> (\<open>deadline.go\<close>), \<open>AdminOrders\<close>
    (\<open>admin.go\<close>), \<open>Invariant\<close> (the invariant of the registration tables);
  \<^item> payment: \<open>Storage\<close>, \<open>Uploads\<close> (\<open>platform/storage\<close>, \<open>payment/files.go\<close>), \<open>Payments\<close>, \<open>Review\<close> (\<open>payment/proofs.go\<close>, \<open>review.go\<close>),
    \<open>Funds\<close> (the invariant of the money), \<open>Accounts\<close> (\<open>accounts.go\<close>);
  \<^item> events and messages: \<open>EventAdmin\<close> (\<open>event\<close>), \<open>Notify\<close> (\<open>notify\<close>);
  \<^item> access: \<open>Access\<close> (\<open>iam/roles.go\<close>, \<open>matrix.go\<close>, \<open>apigen/permissions.gen.go\<close>), \<open>Permgen\<close> (its generator), \<open>Limits\<close> (both limiters), \<open>Tokens\<close> (\<open>iam/password.go\<close>
    and session tokens), \<open>StaffAccess\<close> (\<open>iam/service.go\<close>), \<open>RunnerAccess\<close>, \<open>InitData\<close>, \<open>Codes\<close> (\<open>runner/service.go\<close>, \<open>initdata.go\<close>,
    \<open>otp.go\<close>, \<open>otpsender.go\<close>), \<open>AccessControl\<close> (\<open>httpapi/auth.go\<close>), \<open>AuthRuns\<close> (runs of sign-ins);
  \<^item> the process: \<open>Channels\<close> (\<open>notify/telegram.go\<close>, \<open>runner/gateway.go\<close>, \<open>platform/piicrypt\<close>), \<open>Schedule\<close> (\<open>jobs\<close>), \<open>Config\<close> (\<open>platform/config\<close>, \<open>cmd/werun/app.go\<close>), \<open>Messages\<close> (\<open>platform/httpx\<close>, \<open>catalog.go\<close>,
    \<open>httpapi/router.go\<close>), \<open>Commands\<close> (\<open>cmd/werun\<close>), \<open>Forms\<close> and \<open>Api\<close> (all \<open>handlers.go\<close>, one definition per operation, and the
    request through the middlewares), \<open>ApiRuns\<close>, \<open>Money\<close> (what requests can do);
  \<^item> across components: \<open>Lifecycle\<close> (the step relation of the service), \<open>Guarantees\<close>, and this theory.

  Relations and what is shown of them.
  \<^item> \<open>step\<close> and \<open>reachable\<close> (\<open>Lifecycle\<close>): one constructor per operation that writes, any arguments and environment, from a
    service that has sold nothing.  \<open>sys_ok\<close> is its invariant (seats and amounts, keys, money, one live registration per person)
    and \<open>evolves\<close> what every step does to orders; the properties C1 to C7 read them off.
  \<^item> \<open>process_step\<close> and \<open>process_run\<close> (\<open>ApiRuns\<close>): HTTP requests through the middlewares, jobs, commands, restarts.  They are
    simulated by \<open>step\<close>, so C1 to C7 hold of the running process, and what a request changes is tied to the session and the
    role behind it.
  \<^item> \<open>auth_run\<close>, \<open>code_run\<close>, \<open>login_run\<close>, \<open>otp_run\<close>: sign-in, one-time codes and the limiters under a clock that never goes back.

  Interfaces.  \<open>counter_row\<close> and \<open>seat_counter\<close> (\<open>Counters\<close>) are what categories, price rules and coupons share, each interpreted on
  the statements of its table; the ledger statements are proved once inside \<open>counter_row\<close>.  \<open>file_store\<close> (\<open>Storage\<close>) is the contract of
  the store, interpreted on the local disk.  \<open>sliding\<close> (\<open>Limits\<close>) is a window of times, interpreted for the five windows of the
  limiters.  \<open>handler_policy\<close> (\<open>ApiRuns\<close>) is a rule on what a handler may do to the database, kept by every part handlers are made
  of; it is interpreted for reading handlers, for authorised changes and for the receipts.

  Groups of lemmas.  \<open>..._Inr\<close>: what an operation did when it succeeded; \<open>..._ok\<close>, \<open>..._funds\<close>, \<open>..._unique\<close>, \<open>..._sys\<close>, \<open>..._books\<close>:
  which invariant or tables it keeps; \<open>..._eq\<close>: its closed form under the invariant; \<open>..._witness\<close>: a property at a concrete state.

  Bounds.  Prices and amounts are \<open>int64\<close> in cents with the wrap-around written out where products occur (\<open>Allocate\<close>, percentages);
  C35 holds below the bound it names and the last property shows what happens above it.  The seat
  counters are unbounded: PostgreSQL would refuse (22003) a counter above \<open>2\<^sup>3\<^sup>1 - 1\<close>, which capacities and quotas exclude
  except for a price rule without a quota.  The loop of the
  deadline job is total by the number of due orders; the bound on its batches is C30.  Retries of unique numbers are the three
  of \<open>idgen.Retry\<close>.  Nothing else needs fuel.

  Not modelled, and why: the generated decoding and encoding of requests (\<open>apigen\<close>; a call carries decoded parameters) and the
  conversions that only rename fields; the copies of the table structs in every \<open>store\<close> package; migrations, connection pool,
  logging, starting and stopping of servers and the health check (I/O); the HTTP exchange with Telegram, AES and SHA-256
  (libraries; what they return is an argument); the client address and
  browser kept with sessions and audit entries; the job queue itself (a library); test fixtures and the web frontends.
\<close>

section \<open>Properties of the whole service\<close>

text \<open>C1: Nothing is ever oversold: in every reachable state the confirmed and reserved seats of a category fit its
  capacity, those of a price rule its quota, and the uses of a coupon its quota; no counter is negative.\<close>

theorem never_oversold:
  assumes "reachable s"
  shows "(\<forall>c\<in>set (categories s). 0 \<le> ec_used c \<and> 0 \<le> ec_reserved c \<and> ec_used c + ec_reserved c \<le> ec_capacity c)
    \<and> (\<forall>r\<in>set (price_rules s). 0 \<le> pr_used r \<and> 0 \<le> pr_reserved r \<and> (\<forall>q. pr_quota r = Some q \<longrightarrow> pr_used r + pr_reserved r \<le> q))
    \<and> (\<forall>c\<in>set (coupons s). 0 \<le> cp_used c \<and> 0 \<le> cp_reserved c \<and> cp_used c + cp_reserved c \<le> cp_quota c)"
  using reachable_ok [OF assms]
  by (simp add: sys_ok_def db_ok_def limits_ok_def cat.fits_def rule.fits_def coupon.fits_def split: option.splits)

lemma never_oversold_witness: "\<exists>c\<in>set (categories sample_approved). ec_used c = 2 \<and> 2 \<le> ec_capacity c"
proof -
  obtain c where c: "c \<in> set (categories sample_approved)" "ec_reserved c = 0" "ec_used c = 2" by (rule approved_tables)
  with never_oversold [OF sample_reachable(3)] have "2 \<le> ec_capacity c" by force
  with c show ?thesis by (intro bexI [of _ c] conjI)
qed

text \<open>C2: Every seat counter says what the orders say: the reserved seats of a category are the participants of its
  open orders, the used ones those of its paid orders and its free sign-ups.\<close>

theorem seats_accounted_for:
  assumes "reachable s" and "c \<in> set (categories s)"
  shows "ec_reserved c = int (rows_where (\<lambda>p. op_category p = ec_id c \<and> order_state s (op_order p) = Some Reserved) (participants s))
    \<and> ec_used c = int (rows_where (\<lambda>p. op_category p = ec_id c \<and> order_state s (op_order p) = Some Consumed) (participants s))
        + int (rows_where (\<lambda>f. fs_category f = ec_id c) (free_signups s))"
  using reachable_ok [OF assms(1)] assms(2)
  by (simp add: sys_ok_def db_ok_def ledger_ok_def cat_row.agree_def total_def free_seats_def)

lemma seats_accounted_for_witness:
  "int (rows_where (\<lambda>p. op_category p = 1 \<and> order_state sample_placed (op_order p) = Some Reserved) (participants sample_placed)) = 2"
proof -
  obtain c where c: "c \<in> set (categories sample_placed)" "ec_id c = 1" "ec_reserved c = 2" by (rule placed_tables)
  from seats_accounted_for [OF sample_reachable(1) c(1)] c(2,3) show ?thesis by simp
qed

text \<open>C5: A person, identified by the keyed hash of the identity number, has at most one live registration in an
  event, whatever orders are placed, paid, cancelled and expired.\<close>

theorem one_live_registration:
  assumes "reachable s"
  shows "rows_where (\<lambda>r. rg_event r = ev \<and> rg_id_hash r = h \<and> rg_status r \<noteq> RegCancelled) (registrations s) \<le> 1"
  using reachable_ok [OF assms] by (simp add: sys_ok_def unique_live_def live_def [abs_def])

lemma one_live_registration_witness:
  "rows_where (\<lambda>r. rg_event r = 1 \<and> rg_id_hash r = ''hDARA0001'' \<and> rg_status r \<noteq> RegCancelled) (registrations sample_approved) = 1"
proof -
  obtain g where "g \<in> set (registrations sample_approved)" "rg_event g = 1" "rg_id_hash g = ''hDARA0001''" "rg_status g = RegConfirmed"
    by (rule approved_tables)
  then have "0 < rows_where (\<lambda>r. rg_event r = 1 \<and> rg_id_hash r = ''hDARA0001'' \<and> rg_status r \<noteq> RegCancelled) (registrations sample_approved)"
    by (auto simp: neq0_conv [symmetric] simp del: neq0_conv)
  with one_live_registration [OF sample_reachable(3), of 1 "''hDARA0001''"] show ?thesis by linarith
qed

text \<open>C4: A registration stands and falls with its order: pending while the order is open, confirmed exactly when it
  is paid, cancelled when the order expired or was cancelled.\<close>

theorem registrations_follow_orders:
  assumes "reachable s" and "r \<in> set (registrations s)"
  shows "\<exists>p\<in>set (participants s). \<exists>row\<in>set (orders s). op_id p = rg_participant r \<and> op_order p = ro_id row
    \<and> (case rg_status r of
         RegPending \<Rightarrow> open_status (ro_status row)
       | RegConfirmed \<Rightarrow> ro_status row = Paid \<and> ro_paid_at row \<noteq> None
       | RegCancelled \<Rightarrow> ro_status row = Expired \<or> ro_status row = Cancelled)"
proof -
  have ok: "db_ok s" using reachable_ok [OF assms(1)] by (simp add: sys_ok_def)
  then obtain p where p: "p \<in> set (participants s)" "op_id p = rg_participant r"
    "order_state s (op_order p) = Some (state_of_reg (rg_status r))"
    using assms(2) unfolding db_ok_def regs_ok_def by blast
  from p(3) obtain row where f: "List.find (\<lambda>x. ro_id x = op_order p) (orders s) = Some row"
    and st: "ro_state row = state_of_reg (rg_status r)" unfolding order_state_def by auto
  from find_Some_key [OF f] have row: "row \<in> set (orders s)" "ro_id row = op_order p" by simp_all
  with ok have "order_ok row" by (simp add: db_ok_def)
  with st have "case rg_status r of RegPending \<Rightarrow> open_status (ro_status row)
       | RegConfirmed \<Rightarrow> ro_status row = Paid \<and> ro_paid_at row \<noteq> None
       | RegCancelled \<Rightarrow> ro_status row = Expired \<or> ro_status row = Cancelled"
    by (auto simp: order_ok_def state_of_reg_def split: registration_status.splits)
  with p row show ?thesis by (intro bexI [of _ p] bexI [of _ row]) simp_all
qed

lemma registrations_follow_orders_witness: "\<exists>row\<in>set (orders sample_approved). ro_status row = Paid"
proof -
  obtain g where "g \<in> set (registrations sample_approved)" "rg_status g = RegConfirmed" by (rule approved_tables)
  with registrations_follow_orders [OF sample_reachable(3), of g] show ?thesis by auto
qed

text \<open>C3: Money: a paid order with an amount due has exactly one receipt and it covers the amount; an order has a
  receipt only when paid; an overpayment has its exception; and no bank transaction is booked twice.\<close>

theorem paid_orders_are_funded:
  assumes "reachable s"
  shows "(\<forall>r\<in>set (orders s). rows_where (\<lambda>c. rc_order c = Some (ro_id r)) (receipts s) = (if ro_status r = Paid \<and> 0 < ro_amount r then 1 else 0)
        \<and> (\<forall>c\<in>set (receipts s). rc_order c = Some (ro_id r) \<longrightarrow> ro_amount r \<le> rc_amount c
             \<and> (ro_amount r < rc_amount c \<longrightarrow> (\<exists>x\<in>set (exceptions s). ex_receipt x = rc_id c \<and> ex_order x = Some (ro_id r)))))
    \<and> distinct (map (\<lambda>c. (rc_account c, rc_txn_ref c)) (receipts s))"
proof -
  have ok: "funds_ok s" using reachable_ok [OF assms] by (simp add: sys_ok_def)
  have "rows_where (\<lambda>c. rc_order c = Some (ro_id r)) (receipts s) = (if ro_status r = Paid \<and> 0 < ro_amount r then 1 else 0)
      \<and> (\<forall>c\<in>set (receipts s). rc_order c = Some (ro_id r) \<longrightarrow> ro_amount r \<le> rc_amount c
           \<and> (ro_amount r < rc_amount c \<longrightarrow> (\<exists>x\<in>set (exceptions s). ex_receipt x = rc_id c \<and> ex_order x = Some (ro_id r))))"
    (is "?one \<and> ?all") if "r \<in> set (orders s)" for r
  proof
    have f: "funded (proofs s) (receipts s) r" using ok that by (simp add: funds_ok_def)
    then show ?one by (simp add: funded_def receipt_for_def [abs_def])
    have "ro_amount r \<le> rc_amount c
           \<and> (ro_amount r < rc_amount c \<longrightarrow> (\<exists>x\<in>set (exceptions s). ex_receipt x = rc_id c \<and> ex_order x = Some (ro_id r)))"
      if c: "c \<in> set (receipts s)" "rc_order c = Some (ro_id r)" for c
    proof -
      have "receipt_ok r c" using f c by (simp add: funded_def receipt_for_def)
      then have "ro_amount r \<le> rc_amount c" "ro_amount r < rc_amount c \<longrightarrow> rc_match c = MatchException"
        by (simp_all add: receipt_ok_def)
      moreover have "rc_match c = MatchException \<longrightarrow> (\<exists>x\<in>set (exceptions s). ex_receipt x = rc_id c \<and> ex_order x = Some (ro_id r))"
        using ok c unfolding funds_ok_def c(2) [symmetric] by blast
      ultimately show ?thesis by blast
    qed
    then show ?all by blast
  qed
  with ok show ?thesis by (simp add: funds_ok_def)
qed

lemma paid_orders_are_funded_witness: "rows_where (\<lambda>c. rc_order c = Some 1) (receipts sample_approved) = 1"
proof -
  obtain r :: order_row where r: "r \<in> set (orders sample_approved)" "ro_id r = 1" "ro_status r = Paid" "ro_amount r = 3599"
    by (rule approved_tables)
  from bspec [OF conjunct1 [OF paid_orders_are_funded [OF sample_reachable(3)]] r(1)] r(2-4) show ?thesis by simp
qed

text \<open>C6: Orders are never lost and never reopened: whatever the service does next, an order keeps its number, buyer,
  amounts and account, moves only along the order state machine, and stays as it is once paid, expired or cancelled.\<close>

theorem orders_only_progress:
  assumes "reachable s" and "step\<^sup>*\<^sup>* s s'" and "r \<in> set (orders s)"
  shows "\<exists>r'\<in>set (orders s'). same_terms r r' \<and> can_become (ro_status r) (ro_status r')
    \<and> (ro_status r \<in> {Paid, Expired, Cancelled} \<longrightarrow> r' = r)"
proof -
  have "evolves s s'" using steps_evolve [OF assms(2) reachable_ok [OF assms(1)]] by simp
  with assms(3) obtain r' where "r' \<in> set (orders s')" "same_terms r r'" "can_become (ro_status r) (ro_status r')"
    "\<not> open_status (ro_status r) \<longrightarrow> r' = r" unfolding evolves_def by blast
  then show ?thesis by (intro bexI [of _ r']) (auto simp: open_status_def)
qed

lemma orders_only_progress_witness:
  "\<exists>r'\<in>set (orders sample_approved). ro_no r' = ''WR0000E1R7'' \<and> ro_amount r' = 3599"
proof -
  obtain r :: order_row where r: "r \<in> set (orders sample_placed)" "ro_no r = ''WR0000E1R7''" "ro_amount r = 3599"
    by (rule placed_tables)
  have steps: "step\<^sup>*\<^sup>* sample_placed sample_approved"
    using submitting [OF sample_submission_runs] approving [OF sample_approval_runs] by (meson rtranclp.rtrancl_refl rtranclp.rtrancl_into_rtrancl)
  from orders_only_progress [OF sample_reachable(1) steps r(1)] r(2,3) show ?thesis
    unfolding same_terms_def by metis
qed

text \<open>What placing an order leaves behind: nothing but a key when the response is replayed, or one new order, still open
  or paid at once because nothing is due.\<close>

lemma claim_frame:
  assumes "claim_idempotency_key sub key h now s = Inr (x, s1)"
  shows "\<exists>ks. s1 = s\<lparr>idem_keys := ks\<rparr>"
proof -
  have "s1 = s\<lparr>idem_keys := idem_keys s1\<rparr>"
    using assms unfolding claim_idempotency_key_def by (auto split: option.splits if_splits)
  then show ?thesis ..
qed

lemma create_order_placed:
  assumes ok: "db_ok s" and run: "create_order e digest u inp s = Inr (d, s1)"
  obtains "orders s1 = orders s"
  | q row ps rs ks s5 where "placed q row ps rs (s\<lparr>idem_keys := ks\<rparr>) s5" "db_ok (s\<lparr>idem_keys := ks\<rparr>)" "orders s1 = orders s @ [row]"
      "categories s1 = categories s5" "price_rules s1 = price_rules s5" "coupons s1 = coupons s5"
      "participants s1 = participants s5" "redemptions s1 = redemptions s5"
  | row where "ro_id row \<notin> ro_id ` set (orders s)" "orders s1 = orders s @ [pay_row (e_now e) row]"
proof -
  from run obtain norm ev where "normalize_create_input e inp = Inr norm"
    "List.find (\<lambda>ev. ev_slug ev = in_slug norm) (events s) = Some ev" and
    C: "claim_idempotency_key (subject_of u) (in_key norm) (digest (request_payload e norm)) (e_now e) s = Inr (Some d, s1)
     \<or> (\<exists>t1 t2. claim_idempotency_key (subject_of u) (in_key norm) (digest (request_payload e norm)) (e_now e) s = Inr (None, t1)
          \<and> create_order_tx e u ev norm t1 = Inr (d, t2)
          \<and> s1 = save_idempotency_response (subject_of u) (in_key norm) (to_api_order d) t2)" by (rule create_order_Inr)
  from C show thesis
  proof (elim disjE exE conjE)
    assume "claim_idempotency_key (subject_of u) (in_key norm) (digest (request_payload e norm)) (e_now e) s = Inr (Some d, s1)"
    from claim_frame [OF this] that(1) show thesis by auto
  next
    fix t1 t2 assume c: "claim_idempotency_key (subject_of u) (in_key norm) (digest (request_payload e norm)) (e_now e) s = Inr (None, t1)"
      and t: "create_order_tx e u ev norm t1 = Inr (d, t2)"
      and s1: "s1 = save_idempotency_response (subject_of u) (in_key norm) (to_api_order d) t2"
    from claim_frame [OF c] obtain ks where t1: "t1 = s\<lparr>idem_keys := ks\<rparr>" ..
    have okt: "db_ok t1" using claim_idempotency_key_ok(1) [OF c] ok by simp
    from t obtain q parts row ps rs s5 where
      P: "placed q row ps rs t1 s5" and "resolve_participants e u t1 norm = Inr parts"
        "check_already_registered (ev_id ev) parts t1 = Inr ()"
        "map rg_id_hash rs = take (length rs) (map rv_hash parts)" "\<forall>r\<in>set rs. rg_event r = ev_id ev"
      and "idem_keys s5 = idem_keys t1" "events s5 = events t1"
      and "proofs s5 = proofs t1" "receipts s5 = receipts t1" "exceptions s5 = exceptions t1" and "ro_status row = PendingPayment"
      and fin: "ro_amount row \<noteq> 0 \<and> (\<exists>a. t2 = audit_record a s5)
        \<or> (\<exists>a b t. confirm_paid e (ro_id row) (e_now e) (audit_record a s5) = Inr t \<and> t2 = audit_record b t)"
      by (rule create_order_tx_placed [OF okt])
    have os: "orders s5 = orders s @ [row]" and new: "ro_id row \<notin> ro_id ` set (orders s)" using P t1 by (simp_all add: placed_def)
    from fin show thesis
    proof (elim disjE exE conjE)
      fix a assume "t2 = audit_record a s5"
      with os show thesis
        by (intro that(2) [OF P [unfolded t1] okt [unfolded t1]]) (simp_all add: s1 save_idempotency_response_def audit_record_def)
    next
      fix a b t assume cf: "confirm_paid e (ro_id row) (e_now e) (audit_record a s5) = Inr t" and t2: "t2 = audit_record b t"
      have "db_ok (audit_record a s5)" using placed_ok [OF okt P] by simp
      note cp = confirm_paid_orders [OF this cf]
      have other: "ro_id x \<noteq> ro_id row" if "x \<in> set (orders s)" for x using imageI [OF that, of ro_id] new by auto
      with cp(2) os have "payable row" by (auto simp: audit_record_def)
      then have "update_where (\<lambda>r. ro_id r = ro_id row \<and> payable r) (pay_row (e_now e)) (orders s @ [row])
          = orders s @ [pay_row (e_now e) row]"
        using other by (auto simp: update_where_def intro: map_idI)
      with cp(3) os have "orders s1 = orders s @ [pay_row (e_now e) row]"
        by (simp add: s1 t2 save_idempotency_response_def audit_record_def)
      with new show thesis by (rule that(3))
    qed
  qed
qed

text \<open>C7: Placing an order and releasing it, by the runner or at its deadline, gives back exactly what it took: every
  seat counter, tier quota and coupon is as it was.\<close>

theorem place_then_release:
  assumes "reachable s" and "create_order e digest u inp s = Inr (d, s1)"
    and "i \<notin> ro_id ` set (orders s)" and "release_order e' i kind s1 = Inr (True, s2)"
  shows "categories s2 = categories s \<and> price_rules s2 = price_rules s \<and> coupons s2 = coupons s"
proof -
  have ok: "db_ok s" using reachable_ok [OF assms(1)] by (simp add: sys_ok_def)
  have ok1: "db_ok s1" by (rule create_order_ok [OF ok assms(2)])
  from assms(4) obtain r where r: "r \<in> set (orders s1)" "ro_id r = i" "releasable kind r" and s2: "s2 = released_db e' i kind s1"
    by (auto simp: release_order_eq [OF ok1] split: if_splits)
  from ok assms(2) show ?thesis
  proof (cases rule: create_order_placed)
    case 1
    with r assms(3) show ?thesis by auto
  next
    case (2 q row ps rs ks s5)
    from 2(3) r assms(3) have "i = ro_id row" by auto
    with placed_released [OF 2(2,1,4-8)] show ?thesis by (simp add: s2)
  next
    case (3 row)
    with r assms(3) show ?thesis by (auto simp: releasable_def pay_row_def)
  qed
qed

definition sample_release :: "bool \<times> db" where
  "sample_release = projr (release_order sample_env 1 ReleaseExpired sample_placed)"

lemma place_then_release_witness: "categories (snd sample_release) = categories sample_db \<and> coupons (snd sample_release) = coupons sample_db"
proof -
  have run: "(case release_order sample_env 1 ReleaseExpired sample_placed of Inl _ \<Rightarrow> False | Inr y \<Rightarrow> fst y)" by code_simp
  then have "release_order sample_env 1 ReleaseExpired sample_placed = Inr (True, snd sample_release)"
    by (cases "release_order sample_env 1 ReleaseExpired sample_placed") (auto simp: sample_release_def prod_eq_iff)
  moreover have "orders sample_db = []" by (simp add: sample_db_def empty_db_def)
  then have "1 \<notin> ro_id ` set (orders sample_db)" by simp
  ultimately show ?thesis using place_then_release [OF started [OF sample_start] sample_placing_runs] by blast
qed

end
